(* ===== verification/PyFloat.thy ===== *)
theory PyFloat
  imports Complex_Main
begin

text \<open>
  Python's \<open>float\<close>: a binary64 value is the rational number it denotes, and every arithmetic
  operation is the exact operation followed by \<open>fl\<close>, rounding to 53 significant bits, ties to
  even. This is IEEE 754 with an unbounded exponent: infinities, NaN, signed zero and the
  subnormal range, which no amount of tokens or money the program handles reaches, are left out.
  \<open>round_he\<close> is Python's one-argument \<open>round\<close>, \<open>py_round x n\<close> its two-argument form, which
  rounds the exact value half to even at \<open>n\<close> decimals and returns the nearest float.
\<close>

named_theorems fl_simps \<open>rounding of exactly representable values\<close>
named_theorems fl_nonneg \<open>operations that keep values non-negative\<close>

subsection \<open>Powers of two and the binary exponent\<close>

definition pow2 :: "int \<Rightarrow> rat" where
  "pow2 k = (if 0 \<le> k then 2 ^ nat k else 1 / 2 ^ nat (- k))"

lemma pow2_powi: "pow2 k = 2 powi k"
  by (simp add: pow2_def power_int_def inverse_eq_divide power_one_over)

lemma pow2_pos [simp]: "0 < pow2 k"
  by (simp add: pow2_def)

lemma pow2_nonneg [simp]: "0 \<le> pow2 k"
  by (simp add: less_imp_le)

lemma pow2_not_neg [simp]: "\<not> pow2 k < 0"
  using pow2_nonneg [of k] by linarith

lemma pow2_neq0 [simp]: "pow2 k \<noteq> 0"
  by (metis pow2_pos less_irrefl)

lemma pow2_add: "pow2 (a + b) = pow2 a * pow2 b"
  by (simp add: pow2_powi power_int_add)

lemma pow2_diff: "pow2 (a - b) = pow2 a / pow2 b"
  by (simp add: pow2_powi power_int_diff)

lemma pow2_mono: "a \<le> b \<Longrightarrow> pow2 a \<le> pow2 b"
  by (simp add: pow2_powi power_int_increasing)

lemma pow2_nat: "pow2 (int n) = 2 ^ n"
  by (simp add: pow2_def)

lemma pow2_strict_less_iff: "pow2 a < pow2 b \<longleftrightarrow> a < b"
proof
  show "pow2 a < pow2 b \<Longrightarrow> a < b" using pow2_mono [of b a] by linarith
  show "a < b \<Longrightarrow> pow2 a < pow2 b" by (simp add: pow2_powi power_int_strict_increasing)
qed

lemma of_int_rat_le: "m \<le> n \<Longrightarrow> (of_int m :: rat) \<le> of_int n"
  by simp

lemma of_int_rat_less: "m < n \<Longrightarrow> (of_int m :: rat) < of_int n"
  by simp

fun ilog2 :: "int \<Rightarrow> nat" where
  "ilog2 n = (if n < 2 then 0 else Suc (ilog2 (n div 2)))"

declare ilog2.simps [simp del]

lemma ilog2_bounds: "0 < n \<Longrightarrow> 2 ^ ilog2 n \<le> n \<and> n < 2 ^ Suc (ilog2 n)"
proof (induction n rule: ilog2.induct)
  case (1 n)
  show ?case
  proof (cases "n < 2")
    case True
    with 1 show ?thesis by (subst (1 2) ilog2.simps) simp
  next
    case False
    with 1 have "2 ^ ilog2 (n div 2) \<le> n div 2 \<and> n div 2 < 2 ^ Suc (ilog2 (n div 2))"
      by simp
    with False show ?thesis by (subst (1 2) ilog2.simps) auto
  qed
qed

text \<open>For \<open>x > 0\<close>, the \<open>e\<close> with \<open>2\<^sup>e \<le> x < 2\<^bsup>e+1\<^esup>\<close>.\<close>

definition rexp :: "rat \<Rightarrow> int" where
  "rexp x =
     (let (a, b) = quotient_of x; k = int (ilog2 a) - int (ilog2 b)
      in if x < pow2 k then k - 1 else k)"

lemma rexp_bounds:
  assumes "0 < x"
  shows "pow2 (rexp x) \<le> x \<and> x < pow2 (rexp x + 1)"
proof -
  obtain a b where q: "quotient_of x = (a, b)" by (cases "quotient_of x")
  then have b: "0 < b" and x: "x = of_int a / of_int b"
    by (auto dest: quotient_of_denom_pos quotient_of_div)
  with assms have a: "0 < a" by (simp add: zero_less_divide_iff)
  let ?i = "ilog2 a" and ?j = "ilog2 b"
  have ia: "(2::rat) ^ ?i \<le> of_int a" "of_int a < (2::rat) ^ Suc ?i"
    using of_int_rat_le [OF conjunct1 [OF ilog2_bounds [OF a]]]
      of_int_rat_less [OF conjunct2 [OF ilog2_bounds [OF a]]] by simp_all
  have jb: "(2::rat) ^ ?j \<le> of_int b" "of_int b < (2::rat) ^ Suc ?j"
    using of_int_rat_le [OF conjunct1 [OF ilog2_bounds [OF b]]]
      of_int_rat_less [OF conjunct2 [OF ilog2_bounds [OF b]]] by simp_all
  have k: "pow2 (int ?i - int ?j) = 2 ^ ?i / 2 ^ ?j"
    by (simp add: pow2_diff pow2_nat)
  have bpos: "(0::rat) < of_int b" using b by simp
  have lo: "pow2 (int ?i - int ?j - 1) \<le> x"
  proof -
    have "2 ^ ?i * (of_int b :: rat) \<le> of_int a * (2 ^ ?j * 2)"
      using ia(1) jb(2) a b by (intro mult_mono) (auto simp: less_imp_le)
    then have "2 ^ ?i / (2 ^ ?j * 2) \<le> of_int a / (of_int b :: rat)"
      using bpos by (simp add: divide_le_eq le_divide_eq field_simps)
    moreover have "pow2 (int ?i - int ?j - 1) = 2 ^ ?i / (2 ^ ?j * 2)"
      by (simp only: pow2_diff [of _ 1] k) (simp add: pow2_def)
    ultimately show ?thesis by (simp only: x)
  qed
  have hi: "x < pow2 (int ?i - int ?j + 1)"
  proof -
    have "of_int a * 2 ^ ?j < (2 ^ ?i * 2) * (of_int b :: rat)"
      using ia(2) jb(1) a b by (intro mult_less_le_imp_less) (auto simp: less_imp_le)
    then have "of_int a / (of_int b :: rat) < 2 ^ ?i * 2 / 2 ^ ?j"
      using bpos by (simp add: divide_less_eq less_divide_eq field_simps)
    moreover have "pow2 (int ?i - int ?j + 1) = 2 ^ ?i * 2 / 2 ^ ?j"
      by (simp only: pow2_add [of _ 1] k) (simp add: pow2_def)
    ultimately show ?thesis by (simp only: x)
  qed
  show ?thesis
    using lo hi by (auto simp: rexp_def q Let_def not_less)
qed

lemma rexp_unique:
  assumes "pow2 e \<le> x" "x < pow2 (e + 1)"
  shows "rexp x = e"
proof -
  have "0 < x" using assms(1) pow2_pos [of e] by linarith
  note r = rexp_bounds [OF this]
  have "pow2 e < pow2 (rexp x + 1)" "pow2 (rexp x) < pow2 (e + 1)"
    using assms r by linarith+
  then show ?thesis by (simp add: pow2_strict_less_iff)
qed

lemma rexp_mono:
  assumes "0 < x" "x \<le> y"
  shows "rexp x \<le> rexp y"
proof -
  have "pow2 (rexp x) < pow2 (rexp y + 1)"
    using assms rexp_bounds [of x] rexp_bounds [of y] by linarith
  then show ?thesis by (simp add: pow2_strict_less_iff)
qed

subsection \<open>Rounding to an integer, half to even\<close>

definition round_he :: "rat \<Rightarrow> int" where
  "round_he x =
     (let f = \<lfloor>x\<rfloor>; r = x - of_int f
      in if r < 1 / 2 then f else if 1 / 2 < r then f + 1 else if even f then f else f + 1)"

lemma round_he_of_int [simp]: "round_he (of_int n) = n"
  by (simp add: round_he_def)

lemma round_he_numeral [simp]:
  "round_he 0 = 0" "round_he 1 = 1" "round_he (numeral k) = numeral k"
  using round_he_of_int [of 0] round_he_of_int [of 1] round_he_of_int [of "numeral k"] by simp_all

lemma round_he_close: "\<bar>of_int (round_he x) - x\<bar> \<le> 1 / 2"
proof -
  define r where "r = x - of_int \<lfloor>x\<rfloor>"
  have r: "0 \<le> r" "r < 1" "x = of_int \<lfloor>x\<rfloor> + r" unfolding r_def by linarith+
  have "round_he x = (if r < 1 / 2 then \<lfloor>x\<rfloor> else if 1 / 2 < r then \<lfloor>x\<rfloor> + 1
      else if even \<lfloor>x\<rfloor> then \<lfloor>x\<rfloor> else \<lfloor>x\<rfloor> + 1)"
    by (simp add: round_he_def r_def Let_def)
  then have "of_int (round_he x) - x = - r \<and> r \<le> 1 / 2 \<or> of_int (round_he x) - x = 1 - r \<and> 1 / 2 \<le> r"
    using r(3) by (auto split: if_splits)
  with r show ?thesis by (auto simp: abs_le_iff)
qed

lemma round_he_mono:
  assumes "x \<le> y"
  shows "round_he x \<le> round_he y"
proof (cases "\<lfloor>x\<rfloor> = \<lfloor>y\<rfloor>")
  case True
  with assms show ?thesis by (auto simp: round_he_def Let_def)
next
  case False
  with assms have "\<lfloor>x\<rfloor> + 1 \<le> \<lfloor>y\<rfloor>" using floor_mono [OF assms] by linarith
  moreover have "round_he x \<le> \<lfloor>x\<rfloor> + 1" "\<lfloor>y\<rfloor> \<le> round_he y"
    by (auto simp: round_he_def Let_def)
  ultimately show ?thesis by linarith
qed

lemma round_he_nonneg [fl_nonneg]: "0 \<le> x \<Longrightarrow> 0 \<le> round_he x"
  using round_he_mono [of 0 x] by simp

subsection \<open>Rounding to binary64\<close>

definition fl_pos :: "rat \<Rightarrow> rat" where
  "fl_pos x = (let e = rexp x - 52 in of_int (round_he (x / pow2 e)) * pow2 e)"

definition fl :: "rat \<Rightarrow> rat" where
  "fl x = (if x = 0 then 0 else if 0 < x then fl_pos x else - fl_pos (- x))"

lemma fl_0 [simp, fl_simps]: "fl 0 = 0"
  by (simp add: fl_def)

lemma fl_minus: "fl (- x) = - fl x"
  by (simp add: fl_def)

lemma fl_pos_ge: "0 < x \<Longrightarrow> pow2 (rexp x) \<le> fl_pos x"
proof -
  assume x: "0 < x"
  have "pow2 52 \<le> x / pow2 (rexp x - 52)"
    using rexp_bounds [OF x] by (simp add: pow2_diff field_simps)
  then have "2 ^ 52 \<le> round_he (x / pow2 (rexp x - 52))"
    using round_he_mono [of "of_int (2 ^ 52)" "x / pow2 (rexp x - 52)"]
    by (simp add: pow2_def)
  then have "(2 ^ 52 :: rat) \<le> of_int (round_he (x / pow2 (rexp x - 52)))"
    using of_int_rat_le by fastforce
  then have "2 ^ 52 * pow2 (rexp x - 52) \<le> fl_pos x"
    unfolding fl_pos_def Let_def by (intro mult_right_mono) simp_all
  then show ?thesis by (simp add: pow2_diff pow2_def [of 52])
qed

lemma fl_pos_le: "0 < x \<Longrightarrow> fl_pos x \<le> pow2 (rexp x + 1)"
proof -
  assume x: "0 < x"
  have "x / pow2 (rexp x - 52) \<le> pow2 53"
    using rexp_bounds [OF x] pow2_add [of 52 1]
    by (simp add: pow2_diff pow2_add field_simps)
  then have "round_he (x / pow2 (rexp x - 52)) \<le> 2 ^ 53"
    using round_he_mono [of "x / pow2 (rexp x - 52)" "of_int (2 ^ 53)"]
    by (simp add: pow2_def)
  then have "of_int (round_he (x / pow2 (rexp x - 52))) \<le> (2 ^ 53 :: rat)"
    using of_int_rat_le by fastforce
  then have "fl_pos x \<le> 2 ^ 53 * pow2 (rexp x - 52)"
    unfolding fl_pos_def Let_def by (intro mult_right_mono) simp_all
  then show ?thesis
    by (simp add: pow2_diff pow2_add pow2_def [of 52] pow2_def [of 1])
qed

lemma fl_pos_mono:
  assumes "0 < x" "x \<le> y"
  shows "fl_pos x \<le> fl_pos y"
proof (cases "rexp x = rexp y")
  case True
  have "x / pow2 (rexp y - 52) \<le> y / pow2 (rexp y - 52)"
    using assms(2) by (intro divide_right_mono) simp_all
  with True show ?thesis
    by (simp add: fl_pos_def Let_def round_he_mono mult_right_mono)
next
  case False
  with rexp_mono [OF assms] have "rexp x + 1 \<le> rexp y" by linarith
  then have "pow2 (rexp x + 1) \<le> pow2 (rexp y)" by (rule pow2_mono)
  with fl_pos_le [of x] fl_pos_ge [of y] assms show ?thesis by linarith
qed

lemma fl_pos_pos: "0 < x \<Longrightarrow> 0 < fl_pos x"
  using fl_pos_ge [of x] pow2_pos [of "rexp x"] by linarith

lemma fl_pos_gt_0_iff [simp]: "0 < fl x \<longleftrightarrow> 0 < x"
  using fl_pos_pos [of x] fl_pos_pos [of "- x"] by (auto simp: fl_def)

lemma fl_mono: "x \<le> y \<Longrightarrow> fl x \<le> fl y"
  using fl_pos_pos [of "- x"] fl_pos_pos [of y] fl_pos_mono [of x y] fl_pos_mono [of "- y" "- x"]
  by (auto simp: fl_def)

lemma fl_nonneg_iff [simp]: "0 \<le> fl x \<longleftrightarrow> 0 \<le> x"
  using fl_pos_gt_0_iff [of "- x"] by (simp add: fl_minus flip: not_less)

lemma fl_nonneg_I [fl_nonneg]: "0 \<le> x \<Longrightarrow> 0 \<le> fl x"
  by simp

text \<open>An integer times a power of two is exact as long as it has at most 53 bits.\<close>

lemma fl_exact:
  assumes "\<bar>m\<bar> \<le> 2 ^ 53"
  shows "fl (of_int m * pow2 k) = of_int m * pow2 k"
proof -
  have pos: "fl_pos (of_int m * pow2 k) = of_int m * pow2 k" if m: "0 < m" "m \<le> 2 ^ 53" for m
  proof -
    let ?x = "of_int m * pow2 k"
    have x: "0 < ?x" using m by simp
    have "pow2 (rexp ?x) \<le> 2 ^ 53 * pow2 k"
    proof -
      have "of_int m \<le> (2 ^ 53 :: rat)"
        using of_int_rat_le [OF m(2)] by simp
      then have "?x \<le> 2 ^ 53 * pow2 k" by (intro mult_right_mono) simp_all
      with rexp_bounds [OF x] show ?thesis by linarith
    qed
    then have "pow2 (rexp ?x) \<le> pow2 (k + 53)"
      by (simp add: pow2_add pow2_def [of 53])
    then have le: "rexp ?x \<le> k + 53"
      using pow2_strict_less_iff [of "k + 53" "rexp ?x"] by linarith
    show ?thesis
    proof (cases "rexp ?x = k + 53")
      case True
      have "of_int m * pow2 k \<ge> 2 ^ 53 * pow2 k"
        using rexp_bounds [OF x] True by (simp add: pow2_add pow2_def [of 53])
      then have "(2 ^ 53 :: rat) \<le> of_int m" by simp
      then have "of_int (2 ^ 53) \<le> (of_int m :: rat)" by simp
      then have "2 ^ 53 \<le> m" by (simp only: of_int_le_iff)
      with m have eq: "m = 2 ^ 53" by simp
      have "?x / pow2 (k + 1) = of_int (2 ^ 52)"
        by (simp add: eq pow2_add pow2_def [of 1])
      then have "round_he (?x / pow2 (k + 1)) = 2 ^ 52"
        by (simp only: round_he_of_int)
      then have "fl_pos ?x = of_int (2 ^ 52) * pow2 (k + 1)"
        using True by (simp only: fl_pos_def Let_def) (simp add: add.commute)
      also have "\<dots> = ?x" by (simp add: eq pow2_add pow2_def [of 1])
      finally show ?thesis .
    next
      case False
      define d where "d = nat (k + 52 - rexp ?x)"
      have k: "k = rexp ?x - 52 + int d" using le False by (simp add: d_def)
      have "?x / pow2 (rexp ?x - 52) = of_int (m * 2 ^ d)"
        by (subst k) (simp add: pow2_add pow2_nat)
      then have "round_he (?x / pow2 (rexp ?x - 52)) = m * 2 ^ d"
        by (simp only: round_he_of_int)
      then have "fl_pos ?x = of_int (m * 2 ^ d) * pow2 (rexp ?x - 52)"
        by (simp add: fl_pos_def)
      also have "\<dots> = of_int m * pow2 (rexp ?x - 52 + int d)"
        by (simp add: pow2_add pow2_nat)
      finally show ?thesis by (simp only: k [symmetric])
    qed
  qed
  show ?thesis
    using assms pos [of m] pos [of "- m"]
    by (cases "m = 0") (auto simp: fl_def zero_less_mult_iff abs_le_iff)
qed

lemma fl_of_int [fl_simps]: "\<bar>n\<bar> \<le> 2 ^ 53 \<Longrightarrow> fl (of_int n) = of_int n"
  using fl_exact [of n 0] by (simp add: pow2_def)

lemma fl_1 [simp, fl_simps]: "fl 1 = 1"
  using fl_of_int [of 1] by simp

lemma fl_100 [simp, fl_simps]: "fl 100 = 100"
  using fl_of_int [of 100] by simp

lemma fl_idem [simp]: "fl (fl x) = fl x"
proof -
  have pos: "fl (fl_pos x) = fl_pos x" if x: "0 < x" for x
  proof -
    let ?m = "round_he (x / pow2 (rexp x - 52))"
    have "x / pow2 (rexp x - 52) \<le> 2 ^ 53"
      using rexp_bounds [OF x] by (simp add: pow2_diff pow2_add pow2_def [of 52] pow2_def [of 1] field_simps)
    then have "?m \<le> 2 ^ 53"
      using round_he_mono [of "x / pow2 (rexp x - 52)" "of_int (2 ^ 53)"] by simp
    moreover have "0 \<le> ?m" using x by (intro round_he_nonneg) simp
    ultimately show ?thesis using fl_exact [of ?m "rexp x - 52"] by (simp add: fl_pos_def Let_def)
  qed
  show ?thesis
    using pos [of x] pos [of "- x"] fl_minus [of "fl_pos (- x)"] by (auto simp: fl_def [of x])
qed

subsection \<open>Python's operations\<close>

definition fadd :: "rat \<Rightarrow> rat \<Rightarrow> rat" where "fadd a b = fl (a + b)"
definition fsub :: "rat \<Rightarrow> rat \<Rightarrow> rat" where "fsub a b = fl (a - b)"
definition fmul :: "rat \<Rightarrow> rat \<Rightarrow> rat" where "fmul a b = fl (a * b)"
definition fdiv :: "rat \<Rightarrow> rat \<Rightarrow> rat" where "fdiv a b = fl (a / b)"

text \<open>\<open>int / int\<close> is correctly rounded from the exact quotient; \<open>float(n)\<close> rounds \<open>n\<close>.\<close>

definition int_truediv :: "int \<Rightarrow> int \<Rightarrow> rat" where
  "int_truediv a b = fl (of_int a / of_int b)"

definition float_of_int :: "int \<Rightarrow> rat" where
  "float_of_int n = fl (of_int n)"

definition py_round :: "rat \<Rightarrow> nat \<Rightarrow> rat" where
  "py_round x n = fl (of_int (round_he (x * 10 ^ n)) / 10 ^ n)"

text \<open>\<open>sum(...)\<close> of floats, as CPython 3.11 computes it: a left fold from the integer 0.\<close>

definition fsum :: "rat list \<Rightarrow> rat" where
  "fsum xs = foldl fadd 0 xs"

lemma fadd_nonneg [fl_nonneg]: "0 \<le> a \<Longrightarrow> 0 \<le> b \<Longrightarrow> 0 \<le> fadd a b"
  by (simp add: fadd_def)

lemma fmul_nonneg [fl_nonneg]: "0 \<le> a \<Longrightarrow> 0 \<le> b \<Longrightarrow> 0 \<le> fmul a b"
  by (simp add: fmul_def)

lemma fdiv_nonneg [fl_nonneg]: "0 \<le> a \<Longrightarrow> 0 \<le> b \<Longrightarrow> 0 \<le> fdiv a b"
  by (simp add: fdiv_def)

lemma int_truediv_nonneg [fl_nonneg]: "0 \<le> a \<Longrightarrow> 0 \<le> b \<Longrightarrow> 0 \<le> int_truediv a b"
  by (simp add: int_truediv_def)

lemma float_of_int_nonneg [fl_nonneg]: "0 \<le> a \<Longrightarrow> 0 \<le> float_of_int a"
  by (simp add: float_of_int_def)

lemma py_round_mono: "x \<le> y \<Longrightarrow> py_round x n \<le> py_round y n"
  unfolding py_round_def
  by (intro fl_mono divide_right_mono) (simp_all add: round_he_mono mult_right_mono)

lemma py_round_0 [simp, fl_simps]: "py_round 0 n = 0"
  by (simp add: py_round_def)

lemma py_round_nonneg [fl_nonneg]: "0 \<le> x \<Longrightarrow> 0 \<le> py_round x n"
  using py_round_mono [of 0 x n] by simp

lemma foldl_fadd_nonneg:
  "0 \<le> a \<Longrightarrow> (\<And>x. x \<in> set xs \<Longrightarrow> 0 \<le> x) \<Longrightarrow> 0 \<le> foldl fadd a xs"
  by (induction xs arbitrary: a) (auto simp: fadd_nonneg)

lemma fsum_nonneg [fl_nonneg]: "(\<And>x. x \<in> set xs \<Longrightarrow> 0 \<le> x) \<Longrightarrow> 0 \<le> fsum xs"
  by (simp add: fsum_def foldl_fadd_nonneg)

lemma fsum_Nil [simp]: "fsum [] = 0"
  by (simp add: fsum_def)

lemma fadd_mono_right: "0 \<le> b \<Longrightarrow> fl a = a \<Longrightarrow> a \<le> fadd a b"
  using fl_mono [of a "a + b"] by (simp add: fadd_def)

lemma fl_fadd [simp]: "fl (fadd a b) = fadd a b"
  by (simp add: fadd_def)

lemma foldl_fadd_ge:
  "fl a = a \<Longrightarrow> (\<And>x. x \<in> set xs \<Longrightarrow> 0 \<le> x) \<Longrightarrow> a \<le> foldl fadd a xs"
proof (induction xs arbitrary: a)
  case Nil
  then show ?case by simp
next
  case (Cons x xs)
  have "a \<le> fadd a x" using Cons.prems by (intro fadd_mono_right) auto
  also have "\<dots> \<le> foldl fadd (fadd a x) xs" using Cons.prems by (intro Cons.IH) auto
  finally show ?case by simp
qed

lemma foldl_fadd_mono: "a \<le> b \<Longrightarrow> foldl fadd a xs \<le> foldl fadd b xs"
proof (induction xs arbitrary: a b)
  case Nil
  then show ?case by simp
next
  case (Cons x xs)
  have "fadd a x \<le> fadd b x" using Cons.prems by (simp add: fadd_def fl_mono)
  then show ?case by (simp add: Cons.IH)
qed

end
