(* ===== verification/Prelude.thy ===== *)
theory Prelude
  imports Main "HOL-Library.AList"
begin

text \<open>
  What every component of the development shares: the Python exceptions the code raises or
  catches, the result type and its sequencing, Python's insertion-ordered dictionaries, the
  "seen set" loops that keep the first item of each key, and the generic lemmas about them.

  A dictionary is an association list in insertion order: \<open>d[k] = v\<close> is
  \<^const>\<open>AList.update\<close>, which overwrites in place or appends at the end, exactly as
  CPython does; \<open>d.get(k)\<close> is \<^const>\<open>map_of\<close>; \<open>d.pop(k, None)\<close> is
  \<^const>\<open>AList.delete\<close>.
\<close>

named_theorems dict_simps \<open>rewrite rules of ordered dictionaries\<close>
named_theorems result_simps \<open>rewrite rules of fallible computations\<close>

subsection \<open>Exceptions and fallible computations\<close>

datatype py_error =
    KeyError string
  | ValueError
  | TypeError
  | IndexError
  | AttributeError
  | StopIteration
  | FrameDecodeError
  | NotModelled string \<comment> \<open>a payload whose dynamic type is not the annotated one\<close>

type_synonym 'a res = "py_error + 'a"

definition rbind :: "'a res \<Rightarrow> ('a \<Rightarrow> 'b res) \<Rightarrow> 'b res" where
  "rbind r f = (case r of Inl e \<Rightarrow> Inl e | Inr x \<Rightarrow> f x)"

lemma rbind_simps [simp, result_simps]:
  "rbind (Inr x) f = f x"
  "rbind (Inl e) f = Inl e"
  by (simp_all add: rbind_def)

lemma rbind_eq_Inr [result_simps]:
  "rbind r f = Inr y \<longleftrightarrow> (\<exists>x. r = Inr x \<and> f x = Inr y)"
  by (cases r) auto

fun rmap_list :: "('a \<Rightarrow> 'b res) \<Rightarrow> 'a list \<Rightarrow> 'b list res" where
  "rmap_list f [] = Inr []"
| "rmap_list f (x # xs) =
     rbind (f x) (\<lambda>y. rbind (rmap_list f xs) (\<lambda>ys. Inr (y # ys)))"

lemma rmap_list_inverse [simp]:
  "(\<And>x. x \<in> set xs \<Longrightarrow> f (g x) = Inr x) \<Longrightarrow> rmap_list f (map g xs) = Inr xs"
  by (induction xs) auto

lemma rmap_list_InrD: "rmap_list f xs = Inr ys \<Longrightarrow> \<forall>y\<in>set ys. \<exists>x\<in>set xs. f x = Inr y"
  by (induction xs arbitrary: ys) (fastforce simp: rbind_eq_Inr)+

text \<open>A loop that appends what each item yields, and a comprehension with a fallible filter.\<close>

definition rcollect :: "('a \<Rightarrow> 'b list res) \<Rightarrow> 'a list \<Rightarrow> 'b list res" where
  "rcollect f xs = rbind (rmap_list f xs) (\<lambda>yss. Inr (concat yss))"

lemma rcollect_InrD:
  "rcollect f xs = Inr ys \<Longrightarrow> y \<in> set ys \<Longrightarrow> \<exists>x\<in>set xs. \<exists>zs. f x = Inr zs \<and> y \<in> set zs"
  by (fastforce simp: rcollect_def rbind_eq_Inr dest: rmap_list_InrD)

fun rfilter :: "('a \<Rightarrow> bool res) \<Rightarrow> 'a list \<Rightarrow> 'a list res" where
  "rfilter P [] = Inr []"
| "rfilter P (x # xs) =
     rbind (P x) (\<lambda>b. rbind (rfilter P xs) (\<lambda>ys. Inr (if b then x # ys else ys)))"

lemma rfilter_InrD: "rfilter P xs = Inr ys \<Longrightarrow> set ys \<subseteq> set xs"
  by (induction xs arbitrary: ys) (fastforce simp: rbind_eq_Inr split: if_splits)+

subsection \<open>Ordered dictionaries\<close>

type_synonym ('k, 'v) dict = "('k \<times> 'v) list"

definition dict_keys :: "('k, 'v) dict \<Rightarrow> 'k list" where
  "dict_keys d = map fst d"

definition dict_values :: "('k, 'v) dict \<Rightarrow> 'v list" where
  "dict_values d = map snd d"

definition dict_get :: "('k, 'v) dict \<Rightarrow> 'k \<Rightarrow> 'v \<Rightarrow> 'v" where
  "dict_get d k v = (case map_of d k of None \<Rightarrow> v | Some x \<Rightarrow> x)"

definition dict_move_to_end :: "'k \<Rightarrow> ('k, 'v) dict \<Rightarrow> ('k, 'v) dict" where
  "dict_move_to_end k d =
     (case map_of d k of None \<Rightarrow> d | Some v \<Rightarrow> AList.delete k d @ [(k, v)])"

definition dict_wf :: "('k, 'v) dict \<Rightarrow> bool" where
  "dict_wf d = distinct (map fst d)"

lemma dict_wf_Nil [simp, intro]: "dict_wf []"
  by (simp add: dict_wf_def)

lemma dict_wf_update [simp, intro]: "dict_wf d \<Longrightarrow> dict_wf (AList.update k v d)"
  by (simp add: dict_wf_def AList.distinct_update)

lemma dict_wf_delete [simp, intro]: "dict_wf d \<Longrightarrow> dict_wf (AList.delete k d)"
  by (simp add: dict_wf_def AList.distinct_delete)

lemma map_of_update [simp, dict_simps]:
  "map_of (AList.update k v d) = (map_of d)(k \<mapsto> v)"
  by (rule AList.update_conv')

lemma map_of_delete [simp, dict_simps]:
  "map_of (AList.delete k d) = (map_of d)(k := None)"
  by (rule AList.delete_conv')

lemma dict_get_update [simp, dict_simps]:
  "dict_get (AList.update k v d) k' w = (if k' = k then v else dict_get d k' w)"
  by (simp add: dict_get_def)

lemma map_of_snoc [dict_simps]:
  "map_of (d @ [(k, v)]) = (\<lambda>j. case map_of d j of None \<Rightarrow> if j = k then Some v else None | Some x \<Rightarrow> Some x)"
  by (rule ext) (simp add: map_add_def split: option.splits)

lemma map_of_move_to_end [simp, dict_simps]:
  "map_of (dict_move_to_end k d) = map_of d"
  by (rule ext) (auto simp: dict_move_to_end_def map_add_def split: option.splits)

lemma notin_delete: "k \<notin> fst ` set (AList.delete k d)"
  by (auto simp: AList.delete_eq)

lemma dict_wf_move_to_end [simp, intro]: "dict_wf d \<Longrightarrow> dict_wf (dict_move_to_end k d)"
  using notin_delete [of k d]
  by (simp add: dict_move_to_end_def dict_wf_def AList.distinct_delete split: option.splits)

lemma length_move_to_end [simp]:
  assumes "dict_wf d"
  shows "length (dict_move_to_end k d) = length d"
proof -
  have "set (map fst (dict_move_to_end k d)) = dom (map_of (dict_move_to_end k d))"
    by (simp only: set_map dom_map_of_conv_image_fst)
  then have eq: "set (map fst (dict_move_to_end k d)) = set (map fst d)"
    by (simp add: dom_map_of_conv_image_fst)
  have "length (map fst (dict_move_to_end k d)) = card (set (map fst (dict_move_to_end k d)))"
    using dict_wf_move_to_end [OF assms, of k] by (simp only: dict_wf_def distinct_card)
  also have "\<dots> = length (map fst d)"
    using assms by (simp only: eq dict_wf_def distinct_card)
  finally show ?thesis by simp
qed

lemma length_update_new:
  "map_of d k = None \<Longrightarrow> length (AList.update k v d) = Suc (length d)"
  by (induction d) (auto split: if_splits)

lemma length_update_old:
  "map_of d k \<noteq> None \<Longrightarrow> length (AList.update k v d) = length d"
  by (induction d) (auto split: if_splits)

lemma update_new: "map_of d k = None \<Longrightarrow> AList.update k v d = d @ [(k, v)]"
  by (induction d) (auto split: if_splits)

lemma length_delete_le [simp]: "length (AList.delete k d) \<le> length d"
  by (simp add: AList.delete_eq)

lemma length_delete_old:
  assumes "dict_wf d" "map_of d k \<noteq> None"
  shows "Suc (length (AList.delete k d)) = length d"
  using assms
proof (induction d)
  case Nil
  then show ?case by simp
next
  case (Cons p d)
  obtain k' v where p: "p = (k', v)" by (cases p)
  show ?case
  proof (cases "k' = k")
    case True
    with Cons.prems p have "\<forall>q\<in>set d. fst q \<noteq> k"
      by (auto simp: dict_wf_def)
    then have "filter (\<lambda>(k', _). k \<noteq> k') d = d"
      by (auto simp: filter_id_conv)
    with True p show ?thesis by (simp add: AList.delete_eq)
  next
    case False
    with Cons p show ?thesis by (auto simp: dict_wf_def AList.delete_eq)
  qed
qed

lemma map_fst_update_old:
  "map_of d k \<noteq> None \<Longrightarrow> map fst (AList.update k v d) = map fst d"
  by (induction d) (auto split: if_splits)

subsection \<open>Loops over a seen set\<close>

text \<open>
  \<^verbatim>\<open>
  seen = set()
  for x in xs:
      if f(x) in seen: continue
      seen.add(f(x)); ...
  \<close>
\<close>

fun uniq_by :: "('a \<Rightarrow> 'k) \<Rightarrow> 'k set \<Rightarrow> 'a list \<Rightarrow> 'a list" where
  "uniq_by f S [] = []"
| "uniq_by f S (x # xs) =
     (if f x \<in> S then uniq_by f S xs else x # uniq_by f (insert (f x) S) xs)"

lemma set_uniq_by_subset: "set (uniq_by f S xs) \<subseteq> set xs"
  by (induction xs arbitrary: S) (auto split: if_splits)

lemma uniq_by_keys: "f ` set (uniq_by f S xs) = f ` set xs - S"
  by (induction xs arbitrary: S) auto

lemma distinct_uniq_by: "distinct (map f (uniq_by f S xs))"
proof (induction xs arbitrary: S)
  case Nil
  then show ?case by simp
next
  case (Cons x xs)
  have "f x \<notin> f ` set (uniq_by f (insert (f x) S) xs)"
    by (simp add: uniq_by_keys)
  with Cons.IH show ?case by auto
qed

lemma uniq_by_distinct:
  "distinct (map f xs) \<Longrightarrow> f ` set xs \<inter> S = {} \<Longrightarrow> uniq_by f S xs = xs"
  by (induction xs arbitrary: S) auto

text \<open>
  \<^verbatim>\<open>
  d = {}
  for x in xs:
      if key(x) not in d: d[key(x)] = x
  \<close>
\<close>

definition index_first :: "('a \<Rightarrow> 'k) \<Rightarrow> 'a list \<Rightarrow> ('k, 'a) dict" where
  "index_first key xs =
     foldl (\<lambda>d x. if map_of d (key x) = None then AList.update (key x) x d else d) [] xs"

lemma map_of_index_first:
  "map_of (index_first key xs) k = find (\<lambda>x. key x = k) xs"
proof -
  have "map_of (foldl (\<lambda>d x. if map_of d (key x) = None then AList.update (key x) x d else d) d xs) k
      = (case map_of d k of None \<Rightarrow> find (\<lambda>x. key x = k) xs | Some y \<Rightarrow> Some y)" for d
    by (induction xs arbitrary: d) (auto split: option.splits)
  from this [of "[]"] show ?thesis by (simp add: index_first_def)
qed

lemma find_distinct:
  "distinct (map key xs) \<Longrightarrow> x \<in> set xs \<Longrightarrow> find (\<lambda>y. key y = key x) xs = Some x"
  by (induction xs) auto

lemma find_eq_None: "find P xs = None \<longleftrightarrow> (\<forall>x\<in>set xs. \<not> P x)"
  by (induction xs) auto

lemma find_eq_SomeD: "find P xs = Some x \<Longrightarrow> x \<in> set xs \<and> P x"
  by (induction xs) (auto split: if_splits)

lemma find_is_Some: "x \<in> set xs \<Longrightarrow> P x \<Longrightarrow> \<exists>y. find P xs = Some y"
  by (induction xs) auto

subsection \<open>Lists\<close>

text \<open>\<open>xs[k:]\<close> and \<open>xs[k]\<close>, negative indices counting from the end.\<close>

definition slice_from :: "int \<Rightarrow> 'a list \<Rightarrow> 'a list" where
  "slice_from k xs = drop (if 0 \<le> k then nat k else length xs - nat (- k)) xs"

definition py_index :: "'a list \<Rightarrow> int \<Rightarrow> 'a res" where
  "py_index xs k =
     (let j = (if k < 0 then k + int (length xs) else k)
      in if 0 \<le> j \<and> j < int (length xs) then Inr (xs ! nat j) else Inl IndexError)"

lemma set_slice_from: "set (slice_from k xs) \<subseteq> set xs"
  by (auto simp: slice_from_def dest: in_set_dropD)

lemma py_index_InrD: "py_index xs k = Inr x \<Longrightarrow> x \<in> set xs"
  by (auto simp: py_index_def Let_def split: if_splits)

lemma count_list_distinct: "distinct xs \<Longrightarrow> x \<in> set xs \<Longrightarrow> count_list xs x = 1"
  by (induction xs) (auto simp: count_list_0_iff)

subsection \<open>Invariants of components\<close>

text \<open>
  A component that reacts to inputs one at a time. Its law is that every admissible input keeps the
  invariant; what a client gets from it is the invariant after any sequence of them.
\<close>

locale invariant_machine =
  fixes step :: "'s \<Rightarrow> 'x \<Rightarrow> 's" and ok :: "'s \<Rightarrow> bool" and allowed :: "'x \<Rightarrow> bool"
  assumes step_ok: "ok s \<Longrightarrow> allowed x \<Longrightarrow> ok (step s x)"
begin

lemma run_ok: "ok s \<Longrightarrow> list_all allowed xs \<Longrightarrow> ok (foldl step s xs)"
  by (induction xs arbitrary: s) (simp_all add: step_ok)

end

end
