(* ===== verification/PyValue.thy ===== *)
theory PyValue
  imports PyFloat Prelude
begin

text \<open>
  Python values that cross component boundaries. A \<open>str\<close> is a \<^typ>\<open>string\<close>: one character per
  code point, so the model covers Latin-1 text (the stream parser, which must see every code
  point, works on numbers instead; see \<open>Sse\<close>). A \<open>Dict[str, Any]\<close> value is a \<open>json\<close>: what
  \<open>json.loads\<close> can return, with objects in insertion order.
\<close>

subsection \<open>Strings\<close>

definition lower_char :: "char \<Rightarrow> char" where
  "lower_char c =
     (let n = (of_char c :: nat)
      in if 65 \<le> n \<and> n \<le> 90 \<or> 192 \<le> n \<and> n \<le> 222 \<and> n \<noteq> 215 then char_of (n + 32) else c)"

definition str_lower :: "string \<Rightarrow> string" where
  "str_lower s = map lower_char s"

definition is_space :: "char \<Rightarrow> bool" where
  "is_space c =
     (let n = (of_char c :: nat)
      in 9 \<le> n \<and> n \<le> 13 \<or> 28 \<le> n \<and> n \<le> 32 \<or> n = 133 \<or> n = 160)"

definition str_strip :: "string \<Rightarrow> string" where
  "str_strip s = rev (dropWhile is_space (rev (dropWhile is_space s)))"

definition is_digit_char :: "char \<Rightarrow> bool" where
  "is_digit_char c =
     (let n = (of_char c :: nat) in 48 \<le> n \<and> n \<le> 57 \<or> n = 178 \<or> n = 179 \<or> n = 185)"

definition str_isdigit :: "string \<Rightarrow> bool" where
  "str_isdigit s = (s \<noteq> [] \<and> list_all is_digit_char s)"

definition starts_with :: "'a list \<Rightarrow> 'a list \<Rightarrow> bool" where
  "starts_with p s = (take (length p) s = p)"

text \<open>\<open>sub in s\<close>.\<close>

fun str_in :: "'a list \<Rightarrow> 'a list \<Rightarrow> bool" where
  "str_in sub [] = (sub = [])"
| "str_in sub (c # s) = (starts_with sub (c # s) \<or> str_in sub s)"

fun str_join :: "string \<Rightarrow> string list \<Rightarrow> string" where
  "str_join sep [] = []"
| "str_join sep [x] = x"
| "str_join sep (x # y # xs) = x @ sep @ str_join sep (y # xs)"

definition replace_char :: "char \<Rightarrow> char \<Rightarrow> string \<Rightarrow> string" where
  "replace_char a b s = map (\<lambda>c. if c = a then b else c) s"

lemma starts_with_iff: "starts_with p s \<longleftrightarrow> (\<exists>t. s = p @ t)"
  by (metis append_eq_conv_conj append_take_drop_id starts_with_def)

lemma str_in_iff: "str_in sub s \<longleftrightarrow> (\<exists>u v. s = u @ sub @ v)"
proof (induction s)
  case Nil
  then show ?case by auto
next
  case (Cons c s)
  show ?case
  proof
    assume "str_in sub (c # s)"
    then show "\<exists>u v. c # s = u @ sub @ v"
      using Cons.IH by (auto simp: starts_with_iff) (metis append_Cons append_Nil)+
  next
    assume "\<exists>u v. c # s = u @ sub @ v"
    then obtain u v where uv: "c # s = u @ sub @ v" by blast
    show "str_in sub (c # s)"
    proof (cases u)
      case Nil
      with uv have "starts_with sub (c # s)" by (auto simp: starts_with_iff)
      then show ?thesis by simp
    next
      case (Cons c' u')
      with uv have "s = u' @ sub @ v" by simp
      with Cons.IH show ?thesis by auto
    qed
  qed
qed

lemma str_in_refl [simp]: "str_in s s"
  unfolding str_in_iff by (rule exI [of _ "[]"], rule exI [of _ "[]"]) simp

lemma starts_with_in: "starts_with p s \<Longrightarrow> str_in p s"
  unfolding str_in_iff starts_with_iff by (metis append_Nil)

lemma str_in_set: "str_in sub s \<Longrightarrow> set sub \<subseteq> set s"
  by (auto simp: str_in_iff)

lemma dropWhile_id: "s = [] \<or> \<not> P (hd s) \<Longrightarrow> dropWhile P s = s"
  by (cases s) auto

lemma str_strip_idem: "\<not> is_space (hd s) \<Longrightarrow> \<not> is_space (last s) \<Longrightarrow> str_strip s = s"
  by (simp add: str_strip_def dropWhile_id hd_rev)

lemma hd_str_strip: "str_strip s \<noteq> [] \<Longrightarrow> \<not> is_space (hd (str_strip s))"
proof -
  assume ne: "str_strip s \<noteq> []"
  define t where "t = dropWhile is_space s"
  have "t \<noteq> []" using ne by (cases t) (simp_all add: str_strip_def flip: t_def)
  then have hd: "\<not> is_space (hd t)" unfolding t_def by (rule hd_dropWhile)
  obtain c u where t: "t = c # u" using \<open>t \<noteq> []\<close> by (cases t) auto
  have "dropWhile is_space (rev u @ [c]) = dropWhile is_space (rev u) @ [c]"
  proof (cases "\<exists>x\<in>set (rev u). \<not> is_space x")
    case True
    then show ?thesis by (metis dropWhile_append1)
  next
    case False
    then have "dropWhile is_space (rev u) = []" by (simp add: dropWhile_eq_Nil_conv)
    moreover have "dropWhile is_space (rev u @ [c]) = dropWhile is_space [c]"
      using False by (intro dropWhile_append2) simp
    ultimately show ?thesis using hd t by simp
  qed
  with hd t show "\<not> is_space (hd (str_strip s))"
    by (simp add: str_strip_def flip: t_def)
qed

lemma last_str_strip: "str_strip s \<noteq> [] \<Longrightarrow> \<not> is_space (last (str_strip s))"
  unfolding str_strip_def by (simp add: last_rev hd_dropWhile)

lemma str_strip_strip [simp]: "str_strip (str_strip s) = str_strip s"
proof (cases "str_strip s = []")
  case True
  then show ?thesis by (simp only:) (simp add: str_strip_def)
next
  case False
  then show ?thesis by (intro str_strip_idem hd_str_strip last_str_strip)
qed

subsection \<open>Decimal output\<close>

definition digit_char :: "int \<Rightarrow> char" where
  "digit_char n = char_of (nat (48 + n))"

fun show_pos :: "int \<Rightarrow> string" where
  "show_pos n =
     (if n < 10 then [digit_char n] else show_pos (n div 10) @ [digit_char (n mod 10)])"

declare show_pos.simps [simp del]

definition show_int :: "int \<Rightarrow> string" where
  "show_int n = (if n < 0 then ''-'' @ show_pos (- n) else show_pos n)"

definition show_nat :: "nat \<Rightarrow> string" where
  "show_nat n = show_pos (int n)"

lemma show_pos_nonempty [simp]: "show_pos n \<noteq> []"
  by (subst show_pos.simps) simp

lemma show_pos_digits: "0 \<le> n \<Longrightarrow> list_all is_digit_char (show_pos n)"
proof (induction n rule: show_pos.induct)
  case (1 n)
  have d: "is_digit_char (digit_char d)" if "0 \<le> d" "d < 10" for d :: int
  proof -
    have "d = 0 \<or> d = 1 \<or> d = 2 \<or> d = 3 \<or> d = 4 \<or> d = 5 \<or> d = 6 \<or> d = 7 \<or> d = 8 \<or> d = 9"
      using that by arith
    then show ?thesis by (auto simp: is_digit_char_def digit_char_def)
  qed
  show ?case
    using 1 d [of n] d [of "n mod 10"] by (subst show_pos.simps) auto
qed

text \<open>Different numbers are written differently.\<close>

lemma digit_char_inj: "0 \<le> m \<Longrightarrow> m < 10 \<Longrightarrow> 0 \<le> n \<Longrightarrow> n < 10 \<Longrightarrow> digit_char m = digit_char n \<longleftrightarrow> m = n"
  by (auto simp: digit_char_def)

lemma show_pos_inj: "0 \<le> m \<Longrightarrow> 0 \<le> n \<Longrightarrow> show_pos m = show_pos n \<Longrightarrow> m = n"
proof (induction m arbitrary: n rule: show_pos.induct)
  case (1 m)
  have eq: "(if m < 10 then [digit_char m] else show_pos (m div 10) @ [digit_char (m mod 10)])
      = (if n < 10 then [digit_char n] else show_pos (n div 10) @ [digit_char (n mod 10)])"
    using 1(4) by (simp flip: show_pos.simps)
  show ?case
  proof (cases "m < 10 \<or> n < 10")
    case True
    then show ?thesis using eq 1(2,3) digit_char_inj [of m n]
      by (auto split: if_splits simp: append_eq_Cons_conv Cons_eq_append_conv)
  next
    case False
    then have "show_pos (m div 10) = show_pos (n div 10)" "digit_char (m mod 10) = digit_char (n mod 10)"
      using eq by simp_all
    then have "m div 10 = n div 10" "m mod 10 = n mod 10"
      using 1(1) [of "n div 10"] 1(2,3) False digit_char_inj by auto
    then show ?thesis by (metis div_mult_mod_eq)
  qed
qed

lemma show_nat_inj [simp]: "show_nat m = show_nat n \<longleftrightarrow> m = n"
  using show_pos_inj [of "int m" "int n"] by (auto simp: show_nat_def)

text \<open>\<open>f"{n:,}"\<close>: groups of three digits.\<close>

fun group3 :: "string \<Rightarrow> string" where
  "group3 (a # b # c # d # ds) = a # b # c # CHR '','' # group3 (d # ds)"
| "group3 ds = ds"

definition show_commas :: "int \<Rightarrow> string" where
  "show_commas n =
     (if n < 0 then ''-'' else []) @ rev (group3 (rev (show_pos \<bar>n\<bar>)))"

text \<open>\<open>f"{x:.1f}"\<close> and its kin: half-even rounding of the exact value at \<open>n\<close> decimals.\<close>

definition show_fixed :: "nat \<Rightarrow> rat \<Rightarrow> string" where
  "show_fixed n x =
     (let ds = show_pos \<bar>round_he (x * 10 ^ n)\<bar>;
          padded = replicate (Suc n - length ds) CHR ''0'' @ ds;
          k = length padded - n
      in (if x < 0 then ''-'' else []) @ take k padded
         @ (if n = 0 then [] else CHR ''.'' # drop k padded))"

text \<open>
  \<open>repr\<close> of a float: the shortest digit string that reads back as the same binary64 value,
  in fixed notation for exponents from -4 to 15 and scientific notation otherwise.
\<close>

fun ndigits :: "int \<Rightarrow> nat" where
  "ndigits n = (if n < 10 then 1 else Suc (ndigits (n div 10)))"

declare ndigits.simps [simp del]

definition pow10 :: "int \<Rightarrow> rat" where
  "pow10 k = (if 0 \<le> k then 10 ^ nat k else 1 / 10 ^ nat (- k))"

definition dec_exp :: "rat \<Rightarrow> int" where
  "dec_exp x =
     (let (a, b) = quotient_of x; k = int (ndigits a) - int (ndigits b)
      in if x < pow10 k then k - 1 else k)"

definition shortest_digits :: "rat \<Rightarrow> string \<times> int" where
  "shortest_digits x =
     (let e = dec_exp x;
          cand = (\<lambda>n. round_he (x / pow10 (e - int n + 1)));
          good = (\<lambda>n. fl (of_int (cand n) * pow10 (e - int n + 1)) = x);
          n = (case find good [1..<17] of None \<Rightarrow> 17 | Some k \<Rightarrow> k);
          ds = show_pos (cand n)
      in if length ds > n then (take n ds, e + 1) else (ds, e))"

definition float_repr :: "rat \<Rightarrow> string" where
  "float_repr x =
     (if x = 0 then ''0.0''
      else
        (let (ds, e) = shortest_digits \<bar>x\<bar>; n = length ds; sign = (if x < 0 then ''-'' else [])
         in if - 4 \<le> e \<and> e < 0 then sign @ ''0.'' @ replicate (nat (- e - 1)) CHR ''0'' @ ds
            else if 0 \<le> e \<and> e < 16 then
              (let k = nat (e + 1)
               in if n \<le> k then sign @ ds @ replicate (k - n) CHR ''0'' @ ''.0''
                  else sign @ take k ds @ ''.'' @ drop k ds)
            else
              sign @ take 1 ds @ (if n = 1 then [] else CHR ''.'' # drop 1 ds) @ ''e''
              @ (if e < 0 then ''-'' else ''+'')
              @ (if \<bar>e\<bar> < 10 then ''0'' else []) @ show_pos \<bar>e\<bar>))"

subsection \<open>Dynamic values\<close>

datatype json =
    JNull
  | JBool bool
  | JInt int
  | JFloat rat
  | JStr string
  | JArr "json list"
  | JObj "(string \<times> json) list"

text \<open>Truth value testing, and \<open>a or b\<close>.\<close>

fun truthy :: "json \<Rightarrow> bool" where
  "truthy JNull = False"
| "truthy (JBool b) = b"
| "truthy (JInt n) = (n \<noteq> 0)"
| "truthy (JFloat x) = (x \<noteq> 0)"
| "truthy (JStr s) = (s \<noteq> [])"
| "truthy (JArr xs) = (xs \<noteq> [])"
| "truthy (JObj d) = (d \<noteq> [])"

definition py_or :: "json \<Rightarrow> json \<Rightarrow> json" where
  "py_or a b = (if truthy a then a else b)"

lemma py_or_simps [simp]:
  "truthy a \<Longrightarrow> py_or a b = a"
  "\<not> truthy a \<Longrightarrow> py_or a b = b"
  by (simp_all add: py_or_def)

text \<open>\<open>d.get(k)\<close> and \<open>d.get(k, v)\<close>.\<close>

type_synonym jdict = "(string, json) dict"

definition jget :: "jdict \<Rightarrow> string \<Rightarrow> json" where
  "jget d k = dict_get d k JNull"

definition jget_or :: "jdict \<Rightarrow> string \<Rightarrow> json \<Rightarrow> json" where
  "jget_or d k v = dict_get d k v"

definition jhas :: "jdict \<Rightarrow> string \<Rightarrow> bool" where
  "jhas d k = (map_of d k \<noteq> None)"

text \<open>\<open>==\<close>: numbers (booleans included) compare by value, everything else structurally.\<close>

fun num_value :: "json \<Rightarrow> rat option" where
  "num_value (JBool b) = Some (if b then 1 else 0)"
| "num_value (JInt n) = Some (of_int n)"
| "num_value (JFloat x) = Some x"
| "num_value _ = None"

definition py_eq :: "json \<Rightarrow> json \<Rightarrow> bool" where
  "py_eq a b =
     (case (num_value a, num_value b) of (Some x, Some y) \<Rightarrow> x = y | _ \<Rightarrow> a = b)"

lemma py_eq_refl [simp]: "py_eq a a"
  by (simp add: py_eq_def split: option.splits)

lemma py_eq_JStr [simp]: "py_eq (JStr a) (JStr b) \<longleftrightarrow> a = b"
  by (simp add: py_eq_def)

text \<open>\<open>str\<close> and \<open>repr\<close>, for f-strings over dynamic values.\<close>

definition hex_digit :: "nat \<Rightarrow> char" where
  "hex_digit n = (if n < 10 then char_of (48 + n) else char_of (87 + n))"

definition repr_char :: "char \<Rightarrow> char \<Rightarrow> string" where
  "repr_char q c =
     (let n = (of_char c :: nat)
      in if n = 92 \<or> c = q then [char_of (92::nat), c]
         else if n = 10 then [char_of (92::nat), CHR ''n'']
         else if n = 13 then [char_of (92::nat), CHR ''r'']
         else if n = 9 then [char_of (92::nat), CHR ''t'']
         else if n < 32 \<or> 127 \<le> n \<and> n < 161 \<or> n = 173
           then [char_of (92::nat), CHR ''x'', hex_digit (n div 16), hex_digit (n mod 16)]
         else [c])"

definition str_repr :: "string \<Rightarrow> string" where
  "str_repr s =
     (let sq = (char_of (39::nat) :: char); dq = char_of (34::nat);
          q = (if sq \<in> set s \<and> dq \<notin> set s then dq else sq)
      in [q] @ concat (map (repr_char q) s) @ [q])"

fun py_repr :: "json \<Rightarrow> string"
  and py_repr_list :: "json list \<Rightarrow> string list"
  and py_repr_items :: "(string \<times> json) list \<Rightarrow> string list" where
  "py_repr JNull = ''None''"
| "py_repr (JBool b) = (if b then ''True'' else ''False'')"
| "py_repr (JInt n) = show_int n"
| "py_repr (JFloat x) = float_repr x"
| "py_repr (JStr s) = str_repr s"
| "py_repr (JArr xs) = ''['' @ str_join '', '' (py_repr_list xs) @ '']''"
| "py_repr (JObj d) = ''{'' @ str_join '', '' (py_repr_items d) @ ''}''"
| "py_repr_list [] = []"
| "py_repr_list (x # xs) = py_repr x # py_repr_list xs"
| "py_repr_items [] = []"
| "py_repr_items ((k, v) # d) = (str_repr k @ '': '' @ py_repr v) # py_repr_items d"

definition py_str :: "json \<Rightarrow> string" where
  "py_str v = (case v of JStr s \<Rightarrow> s | _ \<Rightarrow> py_repr v)"

lemma py_str_JStr [simp]: "py_str (JStr s) = s"
  by (simp add: py_str_def)

text \<open>
  \<open>x in text\<close> for a dynamic \<open>x\<close>: only a string can be searched for in a string.
  \<open>s.replace(old, new)\<close> for a non-empty \<open>old\<close>.
\<close>

fun json_in_text :: "json \<Rightarrow> string \<Rightarrow> bool res" where
  "json_in_text (JStr s) text = Inr (str_in s text)"
| "json_in_text _ text = Inl TypeError"

function str_replace :: "string \<Rightarrow> string \<Rightarrow> string \<Rightarrow> string" where
  "str_replace old new s =
     (if old = [] \<or> s = [] then s
      else if starts_with old s then new @ str_replace old new (drop (length old) s)
      else hd s # str_replace old new (tl s))"
  by pat_completeness auto
termination
  by (relation "measure (\<lambda>(old, new, s). length s)") auto

declare str_replace.simps [simp del]

subsection \<open>Typed reads of a payload\<close>

text \<open>
  The dataclasses annotate their fields but Python does not check annotations: a field of
  another type is stored as it is. The records of the model are typed, so reading a payload
  whose value is not of the annotated type is reported by the separate error
  \<^const>\<open>NotModelled\<close>; missing required keys raise \<^const>\<open>KeyError\<close> as in Python.
\<close>

fun as_str :: "string \<Rightarrow> json \<Rightarrow> string res" where
  "as_str k (JStr s) = Inr s"
| "as_str k _ = Inl (NotModelled k)"

fun as_int :: "string \<Rightarrow> json \<Rightarrow> int res" where
  "as_int k (JInt n) = Inr n"
| "as_int k _ = Inl (NotModelled k)"

fun as_obj :: "string \<Rightarrow> json \<Rightarrow> jdict res" where
  "as_obj k (JObj d) = Inr d"
| "as_obj k _ = Inl (NotModelled k)"

fun as_arr :: "string \<Rightarrow> json \<Rightarrow> json list res" where
  "as_arr k (JArr xs) = Inr xs"
| "as_arr k _ = Inl (NotModelled k)"

text \<open>\<open>float(v)\<close>: numbers convert, \<open>None\<close> and containers raise; numeric strings are not modelled.\<close>

fun py_float :: "string \<Rightarrow> json \<Rightarrow> rat res" where
  "py_float k (JFloat x) = Inr x"
| "py_float k (JInt n) = Inr (float_of_int n)"
| "py_float k (JBool b) = Inr (if b then 1 else 0)"
| "py_float k (JStr s) = Inl (NotModelled k)"
| "py_float k _ = Inl TypeError"

text \<open>A float field that is stored as it is (an integer would stay an integer in Python).\<close>

fun as_float :: "string \<Rightarrow> json \<Rightarrow> rat res" where
  "as_float k (JFloat x) = Inr x"
| "as_float k _ = Inl (NotModelled k)"

fun as_opt_raw_float :: "string \<Rightarrow> json \<Rightarrow> rat option res" where
  "as_opt_raw_float k JNull = Inr None"
| "as_opt_raw_float k (JFloat x) = Inr (Some x)"
| "as_opt_raw_float k _ = Inl (NotModelled k)"

definition need :: "jdict \<Rightarrow> string \<Rightarrow> json res" where
  "need d k = (case map_of d k of None \<Rightarrow> Inl (KeyError k) | Some v \<Rightarrow> Inr v)"

definition opt_str :: "jdict \<Rightarrow> string \<Rightarrow> string \<Rightarrow> string res" where
  "opt_str d k v = (case map_of d k of None \<Rightarrow> Inr v | Some j \<Rightarrow> as_str k j)"

definition opt_int :: "jdict \<Rightarrow> string \<Rightarrow> int \<Rightarrow> int res" where
  "opt_int d k v = (case map_of d k of None \<Rightarrow> Inr v | Some j \<Rightarrow> as_int k j)"

definition opt_obj :: "jdict \<Rightarrow> string \<Rightarrow> jdict res" where
  "opt_obj d k = (case map_of d k of None \<Rightarrow> Inr [] | Some j \<Rightarrow> as_obj k j)"

definition opt_arr :: "jdict \<Rightarrow> string \<Rightarrow> json list res" where
  "opt_arr d k = (case map_of d k of None \<Rightarrow> Inr [] | Some j \<Rightarrow> as_arr k j)"

definition opt_float :: "jdict \<Rightarrow> string \<Rightarrow> rat \<Rightarrow> rat res" where
  "opt_float d k v = (case map_of d k of None \<Rightarrow> Inr v | Some j \<Rightarrow> py_float k j)"

text \<open>\<open>Optional\<close> fields: absent and \<open>None\<close> are both \<^const>\<open>None\<close>.\<close>

fun as_opt_str :: "string \<Rightarrow> json \<Rightarrow> string option res" where
  "as_opt_str k JNull = Inr None"
| "as_opt_str k (JStr s) = Inr (Some s)"
| "as_opt_str k _ = Inl (NotModelled k)"

fun as_opt_int :: "string \<Rightarrow> json \<Rightarrow> int option res" where
  "as_opt_int k JNull = Inr None"
| "as_opt_int k (JInt n) = Inr (Some n)"
| "as_opt_int k _ = Inl (NotModelled k)"

fun as_opt_float :: "string \<Rightarrow> json \<Rightarrow> rat option res" where
  "as_opt_float k JNull = Inr None"
| "as_opt_float k j = rbind (py_float k j) (\<lambda>x. Inr (Some x))"

definition jopt :: "('a \<Rightarrow> json) \<Rightarrow> 'a option \<Rightarrow> json" where
  "jopt f v = (case v of None \<Rightarrow> JNull | Some x \<Rightarrow> f x)"

lemma as_opt_jopt [simp]:
  "as_opt_str k (jopt JStr s) = Inr s"
  "as_opt_int k (jopt JInt i) = Inr i"
  "as_opt_float k (jopt JFloat x) = Inr x"
  "as_opt_raw_float k (jopt JFloat x) = Inr x"
  by (cases s; cases i; cases x; simp add: jopt_def)+

text \<open>\<open>a or b or c\<close>.\<close>

fun or_chain :: "json list \<Rightarrow> json" where
  "or_chain [] = JNull"
| "or_chain [x] = x"
| "or_chain (x # y # xs) = py_or x (or_chain (y # xs))"

text \<open>\<open>int(s)\<close>: digits with single underscores between them, a sign and spaces around.\<close>

definition ascii_digit_value :: "char \<Rightarrow> int option" where
  "ascii_digit_value c =
     (let n = (of_char c :: nat) in if 48 \<le> n \<and> n \<le> 57 then Some (int n - 48) else None)"

fun digits_value :: "int \<Rightarrow> bool \<Rightarrow> string \<Rightarrow> int option" where
  "digits_value acc after_digit [] = (if after_digit then Some acc else None)"
| "digits_value acc after_digit (c # cs) =
     (case ascii_digit_value c of
        Some d \<Rightarrow> digits_value (10 * acc + d) True cs
      | None \<Rightarrow> if c = CHR ''_'' \<and> after_digit then digits_value acc False cs else None)"

definition int_of_str :: "string \<Rightarrow> int res" where
  "int_of_str s =
     (let t = str_strip s;
          neg = (t \<noteq> [] \<and> hd t = CHR ''-'');
          u = (if t \<noteq> [] \<and> hd t \<in> {CHR ''-'', CHR ''+''} then tl t else t)
      in if 4300 < length (filter (\<lambda>c. ascii_digit_value c \<noteq> None) u) then Inl ValueError
         else
           (case digits_value 0 False u of
              None \<Rightarrow> Inl ValueError
            | Some n \<Rightarrow> Inr (if neg then - n else n)))"

text \<open>An optional text that is also truthy.\<close>

definition nonempty :: "string option \<Rightarrow> string option" where
  "nonempty r = (case r of Some (c # s) \<Rightarrow> Some (c # s) | _ \<Rightarrow> None)"

text \<open>\<open>s.splitlines()\<close>: every line boundary of \<open>str\<close> within Latin-1.\<close>

definition line_end :: "char \<Rightarrow> bool" where
  "line_end c =
     (let n = (of_char c :: nat) in 10 \<le> n \<and> n \<le> 13 \<or> 28 \<le> n \<and> n \<le> 30 \<or> n = 133)"

function str_lines :: "string \<Rightarrow> string list" where
  "str_lines s =
     (if s = [] then []
      else
        (case dropWhile (\<lambda>c. \<not> line_end c) s of
           [] \<Rightarrow> [s]
         | c # rest \<Rightarrow>
             takeWhile (\<lambda>c. \<not> line_end c) s
             # str_lines (if c = CHR 0x0D \<and> starts_with [CHR 0x0A] rest then tl rest else rest)))"
  by pat_completeness auto
termination
proof (relation "measure length")
  fix s c and rest :: string
  assume "dropWhile (\<lambda>c. \<not> line_end c) s = c # rest"
  then have "length rest < length s"
    using length_dropWhile_le [of "\<lambda>c. \<not> line_end c" s] by simp
  then show "(if c = CHR 0x0D \<and> starts_with [CHR 0x0A] rest then tl rest else rest, s) \<in> measure length"
    by auto
qed simp

declare str_lines.simps [simp del]

text \<open>\<open>s.split()\<close> and \<open>s.split(None, n)\<close>.\<close>

fun split_words :: "nat \<Rightarrow> string \<Rightarrow> string list" where
  "split_words 0 s = (let t = dropWhile is_space s in if t = [] then [] else [t])"
| "split_words (Suc n) s =
     (let t = dropWhile is_space s
      in if t = [] then []
         else takeWhile (\<lambda>c. \<not> is_space c) t # split_words n (dropWhile (\<lambda>c. \<not> is_space c) t))"

lemmas payload_defs = need_def opt_str_def opt_int_def opt_obj_def opt_arr_def opt_float_def
  jget_def jget_or_def dict_get_def

end
