(* ===== verification/Schema.thy ===== *)
theory Schema
  imports PyValue
begin

text \<open>
  \<open>src/schema/ast.py\<close> and \<open>src/schema/wire.py\<close>: the enums and dataclasses every component
  exchanges, their \<open>to_dict\<close> / \<open>from_dict\<close> conversions, the correlation of tool calls with tool
  results (\<open>CanonicalTurn.tool_invocations\<close>) and \<open>normalize_session_id\<close>. Record fields carry a
  prefix (\<open>cb_\<close> ContextBlock, \<open>ti_\<close> ToolInvocation, \<open>rv_\<close> RuleViolation, \<open>ct_\<close>
  CanonicalTurn, \<open>td_\<close> TurnDelta, \<open>tm_\<close> TimingMetrics, \<open>um_\<close> UsageMetrics, \<open>kb_\<close>
  ContentBlock, \<open>at_\<close> ActiveTurnContext, \<open>we_\<close> WireEnvelope) because HOL selectors are global.
\<close>

named_theorems roundtrip \<open>from_dict after to_dict\<close>

subsection \<open>Enums\<close>

datatype block_type =
  SYSTEM | TOOL_DEF | USER_MSG | ASSISTANT_MSG | TOOL_RESULT | INJECTED_CONTEXT | SKILL
  | THOUGHT | INJECTED_STATE

fun bt_value :: "block_type \<Rightarrow> string" where
  "bt_value SYSTEM = ''system''"
| "bt_value TOOL_DEF = ''tool_def''"
| "bt_value USER_MSG = ''user_msg''"
| "bt_value ASSISTANT_MSG = ''assistant_msg''"
| "bt_value TOOL_RESULT = ''tool_result''"
| "bt_value INJECTED_CONTEXT = ''injected_context''"
| "bt_value SKILL = ''skill''"
| "bt_value THOUGHT = ''thought''"
| "bt_value INJECTED_STATE = ''injected_state''"

definition all_block_types :: "block_type list" where
  "all_block_types =
     [SYSTEM, TOOL_DEF, USER_MSG, ASSISTANT_MSG, TOOL_RESULT, INJECTED_CONTEXT, SKILL, THOUGHT,
      INJECTED_STATE]"

datatype violation_severity = INFO | WARN | CRITICAL

fun sev_value :: "violation_severity \<Rightarrow> string" where
  "sev_value INFO = ''INFO''"
| "sev_value WARN = ''WARN''"
| "sev_value CRITICAL = ''CRITICAL''"

instantiation violation_severity :: linorder
begin

fun sev_rank :: "violation_severity \<Rightarrow> nat" where
  "sev_rank INFO = 0"
| "sev_rank WARN = 1"
| "sev_rank CRITICAL = 2"

definition less_eq_violation_severity :: "violation_severity \<Rightarrow> violation_severity \<Rightarrow> bool" where
  "a \<le> b \<longleftrightarrow> sev_rank a \<le> sev_rank b"

definition less_violation_severity :: "violation_severity \<Rightarrow> violation_severity \<Rightarrow> bool" where
  "a < b \<longleftrightarrow> sev_rank a < sev_rank b"

instance
proof
  fix a b c :: violation_severity
  show "a < b \<longleftrightarrow> a \<le> b \<and> \<not> b \<le> a"
    by (auto simp: less_eq_violation_severity_def less_violation_severity_def)
  show "a \<le> a" by (simp add: less_eq_violation_severity_def)
  show "a \<le> b \<Longrightarrow> b \<le> c \<Longrightarrow> a \<le> c" by (simp add: less_eq_violation_severity_def)
  show "a \<le> b \<Longrightarrow> b \<le> a \<Longrightarrow> a = b"
    by (cases a; cases b) (simp_all add: less_eq_violation_severity_def)
  show "a \<le> b \<or> b \<le> a" by (auto simp: less_eq_violation_severity_def)
qed

end

datatype provider =
  ANTHROPIC | OPENAI | GEMINI | AZURE_OPENAI | OPENROUTER | OLLAMA | UNKNOWN

fun provider_value :: "provider \<Rightarrow> string" where
  "provider_value ANTHROPIC = ''anthropic''"
| "provider_value OPENAI = ''openai''"
| "provider_value GEMINI = ''gemini''"
| "provider_value AZURE_OPENAI = ''azure_openai''"
| "provider_value OPENROUTER = ''openrouter''"
| "provider_value OLLAMA = ''ollama''"
| "provider_value UNKNOWN = ''unknown''"

datatype wire_event_type =
  REQUEST_INITIATED | TURN_COMPLETED | TURN_ERROR | SYSTEM_TELEMETRY | SESSION_DISCONNECTED
  | SESSION_EXPORTED

fun wet_value :: "wire_event_type \<Rightarrow> string" where
  "wet_value REQUEST_INITIATED = ''REQUEST_INITIATED''"
| "wet_value TURN_COMPLETED = ''TURN_COMPLETED''"
| "wet_value TURN_ERROR = ''TURN_ERROR''"
| "wet_value SYSTEM_TELEMETRY = ''SYSTEM_TELEMETRY''"
| "wet_value SESSION_DISCONNECTED = ''SESSION_DISCONNECTED''"
| "wet_value SESSION_EXPORTED = ''SESSION_EXPORTED''"

text \<open>
  \<open>Enum(value)\<close>: the member with that value, \<open>ValueError\<close> when there is none (a value that is
  not a string never equals a member's).
\<close>

definition enum_of :: "('e \<Rightarrow> string) \<Rightarrow> 'e list \<Rightarrow> json \<Rightarrow> 'e res" where
  "enum_of val members j =
     (case find (\<lambda>e. j = JStr (val e)) members of None \<Rightarrow> Inl ValueError | Some e \<Rightarrow> Inr e)"

definition block_type_of :: "json \<Rightarrow> block_type res" where
  "block_type_of = enum_of bt_value all_block_types"

definition severity_of :: "json \<Rightarrow> violation_severity res" where
  "severity_of = enum_of sev_value [INFO, WARN, CRITICAL]"

definition wire_event_type_of :: "json \<Rightarrow> wire_event_type res" where
  "wire_event_type_of = enum_of wet_value
     [REQUEST_INITIATED, TURN_COMPLETED, TURN_ERROR, SYSTEM_TELEMETRY, SESSION_DISCONNECTED,
      SESSION_EXPORTED]"

lemma block_type_of_value [roundtrip, simp]: "block_type_of (JStr (bt_value b)) = Inr b"
  by (cases b) (simp_all add: block_type_of_def enum_of_def all_block_types_def)

lemma severity_of_value [roundtrip, simp]: "severity_of (JStr (sev_value s)) = Inr s"
  by (cases s) (simp_all add: severity_of_def enum_of_def)

lemma wire_event_type_of_value [roundtrip, simp]: "wire_event_type_of (JStr (wet_value e)) = Inr e"
  by (cases e) (simp_all add: wire_event_type_of_def enum_of_def)

subsection \<open>ContextBlock\<close>

record context_block =
  cb_block_id :: string
  cb_block_type :: block_type
  cb_content_hash :: string
  cb_token_count :: int
  cb_content :: string
  cb_metadata :: jdict
  cb_identity_key :: string
  cb_first_seen_turn :: int
  cb_turns_survived :: int
  cb_call_id :: string

definition context_block_to_dict :: "context_block \<Rightarrow> jdict" where
  "context_block_to_dict b =
     [(''block_id'', JStr (cb_block_id b)),
      (''block_type'', JStr (bt_value (cb_block_type b))),
      (''content_hash'', JStr (cb_content_hash b)),
      (''token_count'', JInt (cb_token_count b)),
      (''content'', JStr (cb_content b)),
      (''metadata'', JObj (cb_metadata b)),
      (''identity_key'', JStr (cb_identity_key b)),
      (''first_seen_turn'', JInt (cb_first_seen_turn b)),
      (''turns_survived'', JInt (cb_turns_survived b)),
      (''call_id'', JStr (cb_call_id b))]"

definition context_block_from_dict :: "jdict \<Rightarrow> context_block res" where
  "context_block_from_dict d =
     rbind (need d ''block_id'') (\<lambda>j. rbind (as_str ''block_id'' j) (\<lambda>bid.
     rbind (need d ''block_type'') (\<lambda>j. rbind (block_type_of j) (\<lambda>bt.
     rbind (need d ''content_hash'') (\<lambda>j. rbind (as_str ''content_hash'' j) (\<lambda>h.
     rbind (need d ''token_count'') (\<lambda>j. rbind (as_int ''token_count'' j) (\<lambda>tc.
     rbind (need d ''content'') (\<lambda>j. rbind (as_str ''content'' j) (\<lambda>c.
     rbind (opt_obj d ''metadata'') (\<lambda>md.
     rbind (opt_str d ''identity_key'' []) (\<lambda>ik.
     rbind (opt_int d ''first_seen_turn'' 0) (\<lambda>fs.
     rbind (opt_int d ''turns_survived'' 0) (\<lambda>ts.
     rbind (opt_str d ''call_id'' []) (\<lambda>cid.
       Inr \<lparr>cb_block_id = bid, cb_block_type = bt, cb_content_hash = h, cb_token_count = tc,
            cb_content = c, cb_metadata = md, cb_identity_key = ik, cb_first_seen_turn = fs,
            cb_turns_survived = ts, cb_call_id = cid\<rparr>)))))))))))))))"

lemma context_block_roundtrip [roundtrip, simp]:
  "context_block_from_dict (context_block_to_dict b) = Inr b"
  by (simp add: context_block_from_dict_def context_block_to_dict_def payload_defs)

text \<open>Reading a list of nested payloads.\<close>

definition from_arr :: "string \<Rightarrow> (jdict \<Rightarrow> 'a res) \<Rightarrow> json list \<Rightarrow> 'a list res" where
  "from_arr k f js = rmap_list (\<lambda>j. rbind (as_obj k j) f) js"

lemma from_arr_map [roundtrip, simp]:
  "(\<And>x. x \<in> set xs \<Longrightarrow> f (g x) = Inr x) \<Longrightarrow> from_arr k f (map (\<lambda>x. JObj (g x)) xs) = Inr xs"
  unfolding from_arr_def by (induction xs) auto

subsection \<open>ToolInvocation, RuleViolation, TurnDelta\<close>

record tool_invocation =
  ti_call_id :: string
  ti_tool_name :: json \<comment> \<open>whatever the metadata holds under the name keys\<close>
  ti_call_block_id :: "string option"
  ti_result_block_id :: "string option"
  ti_is_error :: bool

definition tool_invocation_to_dict :: "tool_invocation \<Rightarrow> jdict" where
  "tool_invocation_to_dict i =
     [(''call_id'', JStr (ti_call_id i)),
      (''tool_name'', ti_tool_name i),
      (''call_block_id'', jopt JStr (ti_call_block_id i)),
      (''result_block_id'', jopt JStr (ti_result_block_id i)),
      (''is_error'', JBool (ti_is_error i))]"

definition tool_invocation_from_dict :: "jdict \<Rightarrow> tool_invocation res" where
  "tool_invocation_from_dict d =
     rbind (opt_str d ''call_id'' []) (\<lambda>cid.
     rbind (as_opt_str ''call_block_id'' (jget d ''call_block_id'')) (\<lambda>cb.
     rbind (as_opt_str ''result_block_id'' (jget d ''result_block_id'')) (\<lambda>rb.
       Inr \<lparr>ti_call_id = cid, ti_tool_name = jget_or d ''tool_name'' (JStr []), ti_call_block_id = cb, ti_result_block_id = rb,
            ti_is_error = truthy (jget_or d ''is_error'' (JBool False))\<rparr>)))"

lemma tool_invocation_roundtrip [roundtrip, simp]:
  "tool_invocation_from_dict (tool_invocation_to_dict i) = Inr i"
  by (simp add: tool_invocation_from_dict_def tool_invocation_to_dict_def payload_defs)

record rule_violation =
  rv_rule_id :: string
  rv_severity :: violation_severity
  rv_title :: string
  rv_message :: string
  rv_estimated_waste_usd :: rat
  rv_suggested_fix :: string
  rv_block_ids :: "string list"
  rv_turn_index :: "int option"

definition rule_violation_to_dict :: "rule_violation \<Rightarrow> jdict" where
  "rule_violation_to_dict v =
     [(''rule_id'', JStr (rv_rule_id v)),
      (''severity'', JStr (sev_value (rv_severity v))),
      (''title'', JStr (rv_title v)),
      (''message'', JStr (rv_message v)),
      (''estimated_waste_usd'', JFloat (rv_estimated_waste_usd v)),
      (''suggested_fix'', JStr (rv_suggested_fix v)),
      (''block_ids'', JArr (map JStr (rv_block_ids v))),
      (''turn_index'', jopt JInt (rv_turn_index v))]"

definition str_list :: "string \<Rightarrow> json list \<Rightarrow> string list res" where
  "str_list k js = rmap_list (as_str k) js"

lemma str_list_map [simp]: "str_list k (map JStr xs) = Inr xs"
  unfolding str_list_def by (induction xs) auto

text \<open>\<open>data.get("turn_index", data.get("turnIndex"))\<close>.\<close>

definition rule_violation_from_dict :: "jdict \<Rightarrow> rule_violation res" where
  "rule_violation_from_dict d =
     rbind (need d ''rule_id'') (\<lambda>j. rbind (as_str ''rule_id'' j) (\<lambda>rid.
     rbind (need d ''severity'') (\<lambda>j. rbind (severity_of j) (\<lambda>sv.
     rbind (need d ''title'') (\<lambda>j. rbind (as_str ''title'' j) (\<lambda>ttl.
     rbind (need d ''message'') (\<lambda>j. rbind (as_str ''message'' j) (\<lambda>msg.
     rbind (opt_float d ''estimated_waste_usd'' 0) (\<lambda>w.
     rbind (opt_str d ''suggested_fix'' []) (\<lambda>fx.
     rbind (opt_arr d ''block_ids'') (\<lambda>js. rbind (str_list ''block_ids'' js) (\<lambda>bids.
     rbind (as_opt_int ''turn_index'' (jget_or d ''turn_index'' (jget d ''turnIndex''))) (\<lambda>ti.
       Inr \<lparr>rv_rule_id = rid, rv_severity = sv, rv_title = ttl, rv_message = msg,
            rv_estimated_waste_usd = w, rv_suggested_fix = fx, rv_block_ids = bids,
            rv_turn_index = ti\<rparr>)))))))))))))"

lemma rule_violation_roundtrip [roundtrip, simp]:
  "rule_violation_from_dict (rule_violation_to_dict v) = Inr v"
  by (simp add: rule_violation_from_dict_def rule_violation_to_dict_def payload_defs)

record turn_delta =
  td_turn_index :: int
  td_added_block_ids :: "string list"
  td_removed_block_ids :: "string list"
  td_persisted_block_ids :: "string list"
  td_mutated_block_ids :: "string list"
  td_cache_breakpoint_block_id :: "string option"
  td_token_growth :: int

definition turn_delta_to_dict :: "turn_delta \<Rightarrow> jdict" where
  "turn_delta_to_dict t =
     [(''turn_index'', JInt (td_turn_index t)),
      (''added_block_ids'', JArr (map JStr (td_added_block_ids t))),
      (''removed_block_ids'', JArr (map JStr (td_removed_block_ids t))),
      (''persisted_block_ids'', JArr (map JStr (td_persisted_block_ids t))),
      (''mutated_block_ids'', JArr (map JStr (td_mutated_block_ids t))),
      (''cache_breakpoint_block_id'', jopt JStr (td_cache_breakpoint_block_id t)),
      (''token_growth'', JInt (td_token_growth t))]"

definition turn_delta_from_dict :: "jdict \<Rightarrow> turn_delta res" where
  "turn_delta_from_dict d =
     rbind (need d ''turn_index'') (\<lambda>j. rbind (as_int ''turn_index'' j) (\<lambda>ti.
     rbind (opt_arr d ''added_block_ids'') (\<lambda>js. rbind (str_list ''added_block_ids'' js) (\<lambda>a.
     rbind (opt_arr d ''removed_block_ids'') (\<lambda>js. rbind (str_list ''removed_block_ids'' js) (\<lambda>r.
     rbind (opt_arr d ''persisted_block_ids'') (\<lambda>js. rbind (str_list ''persisted_block_ids'' js) (\<lambda>p.
     rbind (opt_arr d ''mutated_block_ids'') (\<lambda>js. rbind (str_list ''mutated_block_ids'' js) (\<lambda>m.
     rbind (as_opt_str ''cache_breakpoint_block_id'' (jget d ''cache_breakpoint_block_id'')) (\<lambda>cb.
     rbind (opt_int d ''token_growth'' 0) (\<lambda>g.
       Inr \<lparr>td_turn_index = ti, td_added_block_ids = a, td_removed_block_ids = r,
            td_persisted_block_ids = p, td_mutated_block_ids = m,
            td_cache_breakpoint_block_id = cb, td_token_growth = g\<rparr>))))))))))))"

lemma turn_delta_roundtrip [roundtrip, simp]:
  "turn_delta_from_dict (turn_delta_to_dict t) = Inr t"
  by (simp add: turn_delta_from_dict_def turn_delta_to_dict_def payload_defs)

subsection \<open>CanonicalTurn\<close>

record canonical_turn =
  ct_turn_id :: string
  ct_correlation_id :: string
  ct_session_id :: string
  ct_turn_index :: int
  ct_timestamp :: rat
  ct_provider :: string
  ct_model :: string
  ct_system_blocks :: "context_block list"
  ct_tool_defs :: "context_block list"
  ct_conversation_history :: "context_block list"
  ct_tool_results :: "context_block list"
  ct_assistant_blocks :: "context_block list"
  ct_input_tokens :: int
  ct_output_tokens :: int
  ct_cached_read_tokens :: int
  ct_cached_created_tokens :: int
  ct_duration_ms :: rat
  ct_ttft_ms :: "rat option"
  ct_violations :: "rule_violation list"
  ct_turn_cost_usd :: rat
  ct_wasted_cost_usd :: rat
  ct_metadata :: jdict

definition total_tokens :: "canonical_turn \<Rightarrow> int" where
  "total_tokens t = ct_input_tokens t + ct_output_tokens t"

definition all_blocks :: "canonical_turn \<Rightarrow> context_block list" where
  "all_blocks t =
     ct_system_blocks t @ ct_tool_defs t @ ct_conversation_history t @ ct_tool_results t
     @ ct_assistant_blocks t"

definition sum_tokens :: "context_block list \<Rightarrow> int" where
  "sum_tokens bs = sum_list (map cb_token_count bs)"

subsubsection \<open>Tool invocations\<close>

definition ti_name :: "context_block \<Rightarrow> json" where
  "ti_name b =
     (let meta = cb_metadata b
      in py_or (jget meta ''name'')
           (py_or (jget meta ''tool_name'') (py_or (jget meta ''tool'') (JStr []))))"

definition ti_error :: "context_block \<Rightarrow> bool" where
  "ti_error b \<longleftrightarrow>
     truthy (jget (cb_metadata b) ''is_error'') \<or> truthy (jget (cb_metadata b) ''error'')
     \<or> str_in ''error'' (str_lower (take 50 (cb_content b)))"

definition is_call_block :: "context_block \<Rightarrow> bool" where
  "is_call_block b \<longleftrightarrow>
     cb_call_id b \<noteq> []
     \<or> jget (cb_metadata b) ''type''
         \<in> {JStr ''tool_use'', JStr ''tool_call'', JStr ''function_call''}"

definition call_blocks :: "canonical_turn \<Rightarrow> context_block list" where
  "call_blocks t = filter is_call_block (ct_conversation_history t @ ct_assistant_blocks t)"

text \<open>The loop state: \<open>used_call_ids\<close>, \<open>used_result_ids\<close>, \<open>invocations\<close>.\<close>

type_synonym ti_state = "string set \<times> string set \<times> tool_invocation list"

fun ti_pass1 :: "context_block list \<Rightarrow> ti_state \<Rightarrow> context_block \<Rightarrow> ti_state" where
  "ti_pass1 results (uc, ur, invs) call =
     (let cid = cb_call_id call
      in if cid = [] then (uc, ur, invs)
         else
           (case find (\<lambda>r. cb_call_id r = cid \<and> cb_block_id r \<notin> ur) results of
              None \<Rightarrow> (uc, ur, invs)
            | Some m \<Rightarrow>
                (insert (cb_block_id call) uc, insert (cb_block_id m) ur,
                 invs @ [\<lparr>ti_call_id = cid, ti_tool_name = py_or (ti_name call) (ti_name m),
                          ti_call_block_id = Some (cb_block_id call),
                          ti_result_block_id = Some (cb_block_id m),
                          ti_is_error = ti_error m\<rparr>])))"

fun ti_pass2 :: "context_block list \<Rightarrow> ti_state \<Rightarrow> context_block \<Rightarrow> ti_state" where
  "ti_pass2 results (uc, ur, invs) call =
     (if cb_block_id call \<in> uc then (uc, ur, invs)
      else
        (let call_name = ti_name call;
             cid = (if cb_call_id call \<noteq> [] then cb_call_id call
                    else ''name:'' @ py_str call_name)
         in case find (\<lambda>r. cb_block_id r \<notin> ur \<and> py_eq (ti_name r) call_name \<and> truthy call_name)
                   results of
              Some m \<Rightarrow>
                (insert (cb_block_id call) uc, insert (cb_block_id m) ur,
                 invs @ [\<lparr>ti_call_id = cid, ti_tool_name = py_or call_name (ti_name m),
                          ti_call_block_id = Some (cb_block_id call),
                          ti_result_block_id = Some (cb_block_id m),
                          ti_is_error = ti_error m\<rparr>])
            | None \<Rightarrow>
                (insert (cb_block_id call) uc, ur,
                 invs @ [\<lparr>ti_call_id = cid, ti_tool_name = call_name,
                          ti_call_block_id = Some (cb_block_id call),
                          ti_result_block_id = None, ti_is_error = False\<rparr>])))"

fun ti_pass3 :: "ti_state \<Rightarrow> context_block \<Rightarrow> ti_state" where
  "ti_pass3 (uc, ur, invs) result =
     (if cb_block_id result \<in> ur then (uc, ur, invs)
      else
        (uc, ur,
         invs @ [\<lparr>ti_call_id = (if cb_call_id result \<noteq> [] then cb_call_id result
                                 else ''orphan:'' @ cb_block_id result),
                  ti_tool_name = ti_name result, ti_call_block_id = None,
                  ti_result_block_id = Some (cb_block_id result),
                  ti_is_error = ti_error result\<rparr>]))"

definition tool_invocations :: "canonical_turn \<Rightarrow> tool_invocation list" where
  "tool_invocations t =
     (let calls = call_blocks t; results = ct_tool_results t;
          s1 = foldl (ti_pass1 results) ({}, {}, []) calls;
          s2 = foldl (ti_pass2 results) s1 calls;
          s3 = foldl ti_pass3 s2 results
      in snd (snd s3))"

text \<open>The call blocks and the result blocks that a list of invocations accounts for.\<close>

definition inv_calls :: "tool_invocation list \<Rightarrow> string list" where
  "inv_calls invs = List.map_filter ti_call_block_id invs"

definition inv_results :: "tool_invocation list \<Rightarrow> string list" where
  "inv_results invs = List.map_filter ti_result_block_id invs"

lemma inv_snoc [simp]:
  "inv_calls (invs @ [i]) =
     inv_calls invs @ (case ti_call_block_id i of None \<Rightarrow> [] | Some c \<Rightarrow> [c])"
  "inv_results (invs @ [i]) =
     inv_results invs @ (case ti_result_block_id i of None \<Rightarrow> [] | Some c \<Rightarrow> [c])"
  by (auto simp: inv_calls_def inv_results_def map_filter_def split: option.splits)

lemma inv_Nil [simp]: "inv_calls [] = []" "inv_results [] = []"
  by (simp_all add: inv_calls_def inv_results_def map_filter_def)

text \<open>With \<open>uniq\<close> the call blocks have different identifiers.\<close>

definition ti_inv :: "bool \<Rightarrow> ti_state \<Rightarrow> bool" where
  "ti_inv uniq s \<longleftrightarrow>
     (case s of (uc, ur, invs) \<Rightarrow>
        (uniq \<longrightarrow> distinct (inv_calls invs)) \<and> set (inv_calls invs) = uc
        \<and> distinct (inv_results invs) \<and> set (inv_results invs) = ur)"

lemma ti_pass1_inv:
  assumes "ti_inv uniq s" "uniq \<longrightarrow> cb_block_id c \<notin> fst s" "fst (snd s) \<subseteq> cb_block_id ` set rs"
  shows "ti_inv uniq (ti_pass1 rs s c) \<and> fst (ti_pass1 rs s c) \<subseteq> insert (cb_block_id c) (fst s)
    \<and> fst (snd (ti_pass1 rs s c)) \<subseteq> cb_block_id ` set rs"
  using assms
  by (cases s) (auto simp: ti_inv_def Let_def split: option.splits dest!: find_eq_SomeD)

lemma ti_pass2_inv:
  assumes "ti_inv uniq s" "fst (snd s) \<subseteq> cb_block_id ` set rs"
  shows "ti_inv uniq (ti_pass2 rs s c) \<and> fst (ti_pass2 rs s c) = insert (cb_block_id c) (fst s)
    \<and> fst (snd (ti_pass2 rs s c)) \<subseteq> cb_block_id ` set rs"
  using assms
  by (cases s) (auto simp: ti_inv_def Let_def split: option.splits dest!: find_eq_SomeD)

lemma disjoint_insert_step: "A \<subseteq> insert x B \<Longrightarrow> x \<notin> C \<Longrightarrow> B \<inter> C = {} \<Longrightarrow> A \<inter> C = {}"
  by blast

lemma ti_pass1_fold:
  assumes "ti_inv uniq s" "fst (snd s) \<subseteq> cb_block_id ` set rs"
    "uniq \<longrightarrow> distinct (map cb_block_id cs) \<and> fst s \<inter> cb_block_id ` set cs = {}"
  shows "ti_inv uniq (foldl (ti_pass1 rs) s cs)
    \<and> fst (foldl (ti_pass1 rs) s cs) \<subseteq> fst s \<union> cb_block_id ` set cs
    \<and> fst (snd (foldl (ti_pass1 rs) s cs)) \<subseteq> cb_block_id ` set rs"
  using assms
proof (induction cs arbitrary: s)
  case Nil
  then show ?case by simp
next
  case (Cons c cs)
  let ?s = "ti_pass1 rs s c"
  have step: "ti_inv uniq ?s" "fst ?s \<subseteq> insert (cb_block_id c) (fst s)"
    "fst (snd ?s) \<subseteq> cb_block_id ` set rs"
    using ti_pass1_inv [of uniq s c rs] Cons.prems by auto
  have "fst ?s \<inter> cb_block_id ` set cs = {}" if uniq
  proof -
    have a: "cb_block_id c \<notin> cb_block_id ` set cs" using Cons.prems(3) that by simp
    have b: "fst s \<inter> cb_block_id ` set cs = {}"
      using Cons.prems(3) that by (simp add: Int_insert_right split: if_splits)
    show ?thesis by (rule disjoint_insert_step [OF step(2) a b])
  qed
  with Cons.prems(3) have "uniq \<longrightarrow> distinct (map cb_block_id cs) \<and> fst ?s \<inter> cb_block_id ` set cs = {}" by simp
  from Cons.IH [OF step(1,3) this] show ?case using step(2) by (simp del: ti_pass1.simps) blast
qed

lemma ti_pass2_fold:
  assumes "ti_inv uniq s" "fst (snd s) \<subseteq> cb_block_id ` set rs"
  shows "ti_inv uniq (foldl (ti_pass2 rs) s cs)
    \<and> fst (foldl (ti_pass2 rs) s cs) = fst s \<union> cb_block_id ` set cs
    \<and> fst (snd (foldl (ti_pass2 rs) s cs)) \<subseteq> cb_block_id ` set rs"
  using assms
proof (induction cs arbitrary: s)
  case Nil
  then show ?case by simp
next
  case (Cons c cs)
  with ti_pass2_inv [of uniq s rs c] show ?case by auto
qed

lemma ti_pass3_fold:
  "inv_calls (snd (snd (foldl ti_pass3 (uc, ur, invs) rs))) = inv_calls invs
    \<and> inv_results (snd (snd (foldl ti_pass3 (uc, ur, invs) rs)))
        = inv_results invs @ filter (\<lambda>r. r \<notin> ur) (map cb_block_id rs)"
  by (induction rs arbitrary: invs) auto

text \<open>
  The identifier of every call block and every result block of the turn is in an invocation, and
  in one only when the blocks have different identifiers.
\<close>

lemma tool_invocations_cover:
  "set (inv_calls (tool_invocations t)) = cb_block_id ` set (call_blocks t)
    \<and> set (inv_results (tool_invocations t)) = cb_block_id ` set (ct_tool_results t)
    \<and> (distinct (map cb_block_id (call_blocks t)) \<longrightarrow> distinct (inv_calls (tool_invocations t)))
    \<and> (distinct (map cb_block_id (ct_tool_results t)) \<longrightarrow> distinct (inv_results (tool_invocations t)))"
proof -
  let ?rs = "ct_tool_results t" and ?cs = "call_blocks t"
  let ?s1 = "foldl (ti_pass1 ?rs) ({}, {}, []) ?cs" and ?uniq = "distinct (map cb_block_id ?cs)"
  have s1: "ti_inv ?uniq ?s1" "fst ?s1 \<subseteq> cb_block_id ` set ?cs" "fst (snd ?s1) \<subseteq> cb_block_id ` set ?rs"
    using ti_pass1_fold [of ?uniq "({}, {}, [])" ?rs ?cs] by (auto simp: ti_inv_def)
  obtain uc ur invs where s2: "foldl (ti_pass2 ?rs) ?s1 ?cs = (uc, ur, invs)"
    by (cases "foldl (ti_pass2 ?rs) ?s1 ?cs") auto
  have i2: "ti_inv ?uniq (uc, ur, invs)" "uc = cb_block_id ` set ?cs" "ur \<subseteq> cb_block_id ` set ?rs"
    using ti_pass2_fold [of ?uniq ?s1 ?rs ?cs] s1 by (auto simp: s2)
  have "tool_invocations t = snd (snd (foldl ti_pass3 (uc, ur, invs) ?rs))"
    by (simp add: tool_invocations_def s2)
  with ti_pass3_fold [of uc ur invs ?rs] i2 show ?thesis
    by (auto simp: ti_inv_def)
qed

subsection \<open>Turn payloads\<close>

definition blocks_json :: "context_block list \<Rightarrow> json" where
  "blocks_json bs = JArr (map (\<lambda>b. JObj (context_block_to_dict b)) bs)"

definition canonical_turn_to_dict :: "canonical_turn \<Rightarrow> jdict" where
  "canonical_turn_to_dict t =
     [(''turn_id'', JStr (ct_turn_id t)),
      (''correlation_id'', JStr (ct_correlation_id t)),
      (''session_id'', JStr (ct_session_id t)),
      (''turn_index'', JInt (ct_turn_index t)),
      (''timestamp'', JFloat (ct_timestamp t)),
      (''provider'', JStr (ct_provider t)),
      (''model'', JStr (ct_model t)),
      (''system_blocks'', blocks_json (ct_system_blocks t)),
      (''tool_defs'', blocks_json (ct_tool_defs t)),
      (''conversation_history'', blocks_json (ct_conversation_history t)),
      (''tool_results'', blocks_json (ct_tool_results t)),
      (''assistant_blocks'', blocks_json (ct_assistant_blocks t)),
      (''input_tokens'', JInt (ct_input_tokens t)),
      (''output_tokens'', JInt (ct_output_tokens t)),
      (''cached_read_tokens'', JInt (ct_cached_read_tokens t)),
      (''cached_created_tokens'', JInt (ct_cached_created_tokens t)),
      (''duration_ms'', JFloat (ct_duration_ms t)),
      (''ttft_ms'', jopt JFloat (ct_ttft_ms t)),
      (''violations'', JArr (map (\<lambda>v. JObj (rule_violation_to_dict v)) (ct_violations t))),
      (''turn_cost_usd'', JFloat (ct_turn_cost_usd t)),
      (''wasted_cost_usd'', JFloat (ct_wasted_cost_usd t)),
      (''metadata'', JObj (ct_metadata t)),
      (''tool_invocations'',
         JArr (map (\<lambda>i. JObj (tool_invocation_to_dict i)) (tool_invocations t)))]"

definition opt_blocks :: "jdict \<Rightarrow> string \<Rightarrow> context_block list res" where
  "opt_blocks d k = rbind (opt_arr d k) (from_arr k context_block_from_dict)"

definition canonical_turn_from_dict :: "jdict \<Rightarrow> canonical_turn res" where
  "canonical_turn_from_dict d =
     rbind (need d ''turn_id'') (\<lambda>j. rbind (as_str ''turn_id'' j) (\<lambda>tid.
     rbind (need d ''correlation_id'') (\<lambda>j. rbind (as_str ''correlation_id'' j) (\<lambda>cid.
     rbind (need d ''session_id'') (\<lambda>j. rbind (as_str ''session_id'' j) (\<lambda>sid.
     rbind (need d ''turn_index'') (\<lambda>j. rbind (as_int ''turn_index'' j) (\<lambda>ix.
     rbind (need d ''timestamp'') (\<lambda>j. rbind (py_float ''timestamp'' j) (\<lambda>ts.
     rbind (need d ''provider'') (\<lambda>j. rbind (as_str ''provider'' j) (\<lambda>pr.
     rbind (need d ''model'') (\<lambda>j. rbind (as_str ''model'' j) (\<lambda>md.
     rbind (opt_blocks d ''system_blocks'') (\<lambda>sb.
     rbind (opt_blocks d ''tool_defs'') (\<lambda>td.
     rbind (opt_blocks d ''conversation_history'') (\<lambda>ch.
     rbind (opt_blocks d ''tool_results'') (\<lambda>tr.
     rbind (opt_blocks d ''assistant_blocks'') (\<lambda>ab.
     rbind (opt_int d ''input_tokens'' 0) (\<lambda>it.
     rbind (opt_int d ''output_tokens'' 0) (\<lambda>ot.
     rbind (opt_int d ''cached_read_tokens'' 0) (\<lambda>cr.
     rbind (opt_int d ''cached_created_tokens'' 0) (\<lambda>cc.
     rbind (opt_float d ''duration_ms'' 0) (\<lambda>du.
     rbind (as_opt_float ''ttft_ms'' (jget d ''ttft_ms'')) (\<lambda>tt.
     rbind (opt_arr d ''violations'') (\<lambda>vs.
     rbind (from_arr ''violations'' rule_violation_from_dict vs) (\<lambda>vi.
     rbind (opt_float d ''turn_cost_usd'' 0) (\<lambda>tc.
     rbind (opt_float d ''wasted_cost_usd'' 0) (\<lambda>wc.
     rbind (opt_obj d ''metadata'') (\<lambda>me.
       Inr \<lparr>ct_turn_id = tid, ct_correlation_id = cid, ct_session_id = sid, ct_turn_index = ix,
            ct_timestamp = ts, ct_provider = pr, ct_model = md, ct_system_blocks = sb,
            ct_tool_defs = td, ct_conversation_history = ch, ct_tool_results = tr,
            ct_assistant_blocks = ab, ct_input_tokens = it, ct_output_tokens = ot,
            ct_cached_read_tokens = cr, ct_cached_created_tokens = cc, ct_duration_ms = du,
            ct_ttft_ms = tt, ct_violations = vi, ct_turn_cost_usd = tc,
            ct_wasted_cost_usd = wc, ct_metadata = me\<rparr>))))))))))))))))))))))))))))))"

lemma opt_blocks_json [roundtrip]:
  "map_of d k = Some (blocks_json bs) \<Longrightarrow> opt_blocks d k = Inr bs"
  by (simp add: opt_blocks_def opt_arr_def blocks_json_def)

lemma violations_from_arr:
  "from_arr k rule_violation_from_dict (map (\<lambda>v. JObj (rule_violation_to_dict v)) vs) = Inr vs"
  by (rule from_arr_map) simp

lemma canonical_turn_roundtrip [roundtrip, simp]:
  "canonical_turn_from_dict (canonical_turn_to_dict t) = Inr t"
  by (simp add: canonical_turn_from_dict_def canonical_turn_to_dict_def opt_blocks_json
      payload_defs violations_from_arr)

subsection \<open>Session identifiers\<close>

definition sess_prefix :: "string option \<Rightarrow> string" where
  "sess_prefix harness =
     (case harness of
        None \<Rightarrow> ''sess_''
      | Some h \<Rightarrow> if h \<noteq> [] \<and> h \<noteq> ''unknown'' then ''sess_'' @ h @ ''_'' else ''sess_'')"

definition normalize_session_str :: "string option \<Rightarrow> string \<Rightarrow> string" where
  "normalize_session_str harness v =
     (let s = str_strip v
      in if s = [] then ''sess_default''
         else if starts_with ''-'' s then
           (let clean = dropWhile (\<lambda>c. c = CHR ''-'') s
            in if str_isdigit clean then sess_prefix harness @ clean else ''sess_'' @ clean)
         else if str_isdigit s then sess_prefix harness @ s
         else s)"

fun normalize_session_id :: "json \<Rightarrow> string option \<Rightarrow> string" where
  "normalize_session_id JNull harness = ''sess_default''"
| "normalize_session_id (JInt n) harness = sess_prefix harness @ show_int \<bar>n\<bar>"
| "normalize_session_id (JBool b) harness = sess_prefix harness @ show_int (if b then 1 else 0)"
| "normalize_session_id v harness = normalize_session_str harness (py_str v)"

subsection \<open>Wire data\<close>

record timing_metrics =
  tm_request_dispatched_at :: rat
  tm_first_byte_received_at :: "rat option"
  tm_stream_closed_at :: "rat option"

definition tm_ttft_ms :: "timing_metrics \<Rightarrow> rat option" where
  "tm_ttft_ms t =
     map_option (\<lambda>f. fmul (fsub f (tm_request_dispatched_at t)) 1000) (tm_first_byte_received_at t)"

definition tm_total_duration_ms :: "timing_metrics \<Rightarrow> rat option" where
  "tm_total_duration_ms t =
     map_option (\<lambda>f. fmul (fsub f (tm_request_dispatched_at t)) 1000) (tm_stream_closed_at t)"

definition timing_to_dict :: "timing_metrics \<Rightarrow> jdict" where
  "timing_to_dict t =
     [(''request_dispatched_at'', JFloat (tm_request_dispatched_at t)),
      (''first_byte_received_at'', jopt JFloat (tm_first_byte_received_at t)),
      (''stream_closed_at'', jopt JFloat (tm_stream_closed_at t)),
      (''ttft_ms'', jopt JFloat (tm_ttft_ms t)),
      (''total_duration_ms'', jopt JFloat (tm_total_duration_ms t))]"

definition timing_from_dict :: "jdict \<Rightarrow> timing_metrics res" where
  "timing_from_dict d =
     rbind (need d ''request_dispatched_at'') (\<lambda>j. rbind (as_float ''request_dispatched_at'' j) (\<lambda>r.
     rbind (as_opt_raw_float ''first_byte_received_at'' (jget d ''first_byte_received_at'')) (\<lambda>f.
     rbind (as_opt_raw_float ''stream_closed_at'' (jget d ''stream_closed_at'')) (\<lambda>s.
       Inr \<lparr>tm_request_dispatched_at = r, tm_first_byte_received_at = f, tm_stream_closed_at = s\<rparr>))))"

record usage_metrics =
  um_input_tokens :: int
  um_output_tokens :: int
  um_cache_creation_input_tokens :: int
  um_cache_read_input_tokens :: int
  um_reasoning_tokens :: int

definition usage_to_dict :: "usage_metrics \<Rightarrow> jdict" where
  "usage_to_dict u =
     [(''input_tokens'', JInt (um_input_tokens u)),
      (''output_tokens'', JInt (um_output_tokens u)),
      (''cache_creation_input_tokens'', JInt (um_cache_creation_input_tokens u)),
      (''cache_read_input_tokens'', JInt (um_cache_read_input_tokens u)),
      (''reasoning_tokens'', JInt (um_reasoning_tokens u))]"

definition usage_from_dict :: "jdict \<Rightarrow> usage_metrics res" where
  "usage_from_dict d =
     rbind (opt_int d ''input_tokens'' 0) (\<lambda>i.
     rbind (opt_int d ''output_tokens'' 0) (\<lambda>out.
     rbind (opt_int d ''cache_creation_input_tokens'' 0) (\<lambda>cc.
     rbind (opt_int d ''cache_read_input_tokens'' 0) (\<lambda>cr.
     rbind (opt_int d ''reasoning_tokens'' 0) (\<lambda>rt.
       Inr \<lparr>um_input_tokens = i, um_output_tokens = out, um_cache_creation_input_tokens = cc,
            um_cache_read_input_tokens = cr, um_reasoning_tokens = rt\<rparr>)))))"

record content_block =
  kb_index :: int
  kb_block_type :: string
  kb_text :: "string option"
  kb_tool_id :: "string option"
  kb_tool_name :: "string option"
  kb_partial_json :: "string option"
  kb_parsed_input :: "json option"

definition content_block_to_dict :: "content_block \<Rightarrow> jdict" where
  "content_block_to_dict b =
     [(''index'', JInt (kb_index b)),
      (''block_type'', JStr (kb_block_type b)),
      (''text'', jopt JStr (kb_text b)),
      (''tool_id'', jopt JStr (kb_tool_id b)),
      (''tool_name'', jopt JStr (kb_tool_name b)),
      (''partial_json'', jopt JStr (kb_partial_json b)),
      (''parsed_input'', jopt id (kb_parsed_input b))]"

definition opt_json :: "json \<Rightarrow> json option" where
  "opt_json j = (if j = JNull then None else Some j)"

definition content_block_from_dict :: "jdict \<Rightarrow> content_block res" where
  "content_block_from_dict d =
     rbind (need d ''index'') (\<lambda>j. rbind (as_int ''index'' j) (\<lambda>ix.
     rbind (need d ''block_type'') (\<lambda>j. rbind (as_str ''block_type'' j) (\<lambda>bt.
     rbind (as_opt_str ''text'' (jget d ''text'')) (\<lambda>tx.
     rbind (as_opt_str ''tool_id'' (jget d ''tool_id'')) (\<lambda>ti.
     rbind (as_opt_str ''tool_name'' (jget d ''tool_name'')) (\<lambda>tn.
     rbind (as_opt_str ''partial_json'' (jget d ''partial_json'')) (\<lambda>pj.
       Inr \<lparr>kb_index = ix, kb_block_type = bt, kb_text = tx, kb_tool_id = ti, kb_tool_name = tn,
            kb_partial_json = pj, kb_parsed_input = opt_json (jget d ''parsed_input'')\<rparr>))))))))"

record wire_envelope =
  we_event_type :: wire_event_type
  we_correlation_id :: string
  we_session_id :: string
  we_timestamp :: rat
  we_payload :: jdict

definition envelope_to_dict :: "wire_envelope \<Rightarrow> jdict" where
  "envelope_to_dict e =
     [(''event_type'', JStr (wet_value (we_event_type e))),
      (''correlation_id'', JStr (we_correlation_id e)),
      (''session_id'', JStr (we_session_id e)),
      (''timestamp'', JFloat (we_timestamp e)),
      (''payload'', JObj (we_payload e))]"

definition envelope_from_dict :: "jdict \<Rightarrow> wire_envelope res" where
  "envelope_from_dict d =
     rbind (need d ''event_type'') (\<lambda>j. rbind (wire_event_type_of j) (\<lambda>ev.
     rbind (need d ''correlation_id'') (\<lambda>j. rbind (as_str ''correlation_id'' j) (\<lambda>cid.
     rbind (need d ''session_id'') (\<lambda>j. rbind (as_str ''session_id'' j) (\<lambda>sid.
     rbind (need d ''timestamp'') (\<lambda>j. rbind (py_float ''timestamp'' j) (\<lambda>ts.
     rbind (opt_obj d ''payload'') (\<lambda>pl.
       Inr \<lparr>we_event_type = ev, we_correlation_id = cid, we_session_id = sid,
            we_timestamp = ts, we_payload = pl\<rparr>)))))))))"

lemma timing_roundtrip [roundtrip, simp]: "timing_from_dict (timing_to_dict t) = Inr t"
  by (simp add: timing_from_dict_def timing_to_dict_def payload_defs)

lemma usage_roundtrip [roundtrip, simp]: "usage_from_dict (usage_to_dict u) = Inr u"
  by (simp add: usage_from_dict_def usage_to_dict_def payload_defs)

lemma opt_json_jopt: "j \<noteq> Some JNull \<Longrightarrow> opt_json (jopt id j) = j"
  by (cases j) (auto simp: opt_json_def jopt_def)

lemma content_block_roundtrip [roundtrip, simp]:
  "kb_parsed_input b \<noteq> Some JNull \<Longrightarrow> content_block_from_dict (content_block_to_dict b) = Inr b"
  by (simp add: content_block_from_dict_def content_block_to_dict_def payload_defs opt_json_jopt)

subsection \<open>Facts about session identifiers\<close>

lemma starts_with_minus: "starts_with ''-'' s \<longleftrightarrow> (\<exists>t. s = CHR ''-'' # t)"
  by (auto simp: starts_with_iff)

lemma digit_not_space: "is_digit_char c \<Longrightarrow> \<not> is_space c \<and> c \<noteq> CHR ''-''"
  by (auto simp: is_digit_char_def is_space_def Let_def)

lemma sess_prefix_hd: "\<exists>t. sess_prefix h @ s = ''sess_'' @ t"
  by (auto simp: sess_prefix_def split: option.splits)

lemma show_int_nonempty [simp]: "show_int n \<noteq> []"
  by (simp add: show_int_def)

lemma last_show_int_abs: "is_digit_char (last (show_int \<bar>n\<bar>))"
proof -
  have "list_all is_digit_char (show_int \<bar>n\<bar>)"
    using show_pos_digits [of "\<bar>n\<bar>"] by (simp add: show_int_def)
  then show ?thesis by (simp add: list_all_iff)
qed

text \<open>A canonical identifier: trimmed, not empty, and no leading hyphen or bare number.\<close>

definition canonical_session_id :: "string \<Rightarrow> bool" where
  "canonical_session_id s \<longleftrightarrow>
     s \<noteq> [] \<and> str_strip s = s \<and> \<not> starts_with ''-'' s \<and> \<not> str_isdigit s"

lemma canonical_sess:
  assumes "t = [] \<or> \<not> is_space (last t)"
  shows "canonical_session_id (''sess_'' @ t)"
proof -
  have "\<not> is_space (hd (''sess_'' @ t))" "\<not> is_space (last (''sess_'' @ t))"
    using assms by (auto simp: is_space_def)
  then have "str_strip (''sess_'' @ t) = ''sess_'' @ t" by (rule str_strip_idem)
  then show ?thesis
    by (simp add: canonical_session_id_def starts_with_def str_isdigit_def is_digit_char_def)
qed

lemma canonical_prefix:
  assumes "\<not> is_space (last t)" "t \<noteq> []"
  shows "canonical_session_id (sess_prefix h @ t)"
proof -
  obtain u where u: "sess_prefix h @ t = ''sess_'' @ u" using sess_prefix_hd by blast
  have "u \<noteq> [] \<Longrightarrow> last u = last (''sess_'' @ u)" by simp
  moreover have "last (sess_prefix h @ t) = last t" using assms(2) by simp
  ultimately have "u = [] \<or> \<not> is_space (last u)" using assms(1) by (metis u)
  then show ?thesis by (simp only: u canonical_sess)
qed

lemma last_dropWhile: "dropWhile P s \<noteq> [] \<Longrightarrow> last (dropWhile P s) = last s"
  by (induction s) (auto split: if_splits)

lemma canonical_normalize_str: "canonical_session_id (normalize_session_str h v)"
proof -
  let ?s = "str_strip v" and ?c = "dropWhile (\<lambda>c. c = CHR ''-'') (str_strip v)"
  have last: "?s \<noteq> [] \<Longrightarrow> \<not> is_space (last ?s)" by (rule last_str_strip)
  have clean: "?s \<noteq> [] \<Longrightarrow> ?c = [] \<or> \<not> is_space (last ?c)"
    using last last_dropWhile [of "\<lambda>c. c = CHR ''-''" ?s] by (metis (lifting))
  have dflt: "canonical_session_id ''sess_default''"
    using canonical_sess [of "''default''"] by (simp add: is_space_def)
  consider "?s = []" | "?s \<noteq> []" "starts_with ''-'' ?s" "str_isdigit ?c"
    | "?s \<noteq> []" "starts_with ''-'' ?s" "\<not> str_isdigit ?c"
    | "?s \<noteq> []" "\<not> starts_with ''-'' ?s" "str_isdigit ?s"
    | "?s \<noteq> []" "\<not> starts_with ''-'' ?s" "\<not> str_isdigit ?s"
    by blast
  then show ?thesis
  proof cases
    case 1
    then show ?thesis using dflt by (simp add: normalize_session_str_def)
  next
    case 2
    then have "?c \<noteq> []" by (simp only: str_isdigit_def) simp
    with clean 2 have "canonical_session_id (sess_prefix h @ ?c)" by (intro canonical_prefix) auto
    with 2 show ?thesis by (simp only: normalize_session_str_def Let_def if_False if_True)
  next
    case 3
    then show ?thesis
      using clean canonical_sess [of ?c] by (simp add: normalize_session_str_def Let_def)
  next
    case 4
    then show ?thesis
      using last canonical_prefix [of ?s h] by (simp add: normalize_session_str_def)
  next
    case 5
    then show ?thesis by (simp add: normalize_session_str_def canonical_session_id_def)
  qed
qed

lemma canonical_normalize: "canonical_session_id (normalize_session_id v h)"
proof -
  have int: "canonical_session_id (sess_prefix h @ show_int \<bar>n\<bar>)" for n
    using digit_not_space [OF last_show_int_abs [of n]] by (intro canonical_prefix) auto
  have dflt: "canonical_session_id ''sess_default''"
    using canonical_sess [of "''default''"] by (simp add: is_space_def)
  show ?thesis
    using int [of 1] int [of 0] int dflt by (cases v) (auto simp: canonical_normalize_str)
qed

lemma normalize_canonical: "canonical_session_id s \<Longrightarrow> normalize_session_id (JStr s) h = s"
  by (simp add: canonical_session_id_def normalize_session_str_def)

lemma envelope_roundtrip [roundtrip, simp]: "envelope_from_dict (envelope_to_dict e) = Inr e"
  by (simp add: envelope_from_dict_def envelope_to_dict_def payload_defs)

end
