(* ===== verification/Diff.thy ===== *)
theory Diff
  imports Schema
begin

text \<open>
  \<open>src/core/graph/diff.py\<close>: \<open>TurnDiffEngine.compute_delta\<close>, which classifies the blocks of a
  turn against the previous turn by identity key and finds the first block that breaks the
  prompt-cache prefix. \<open>diff_spec\<close> states the classification without the loops; the contract
  that the context graph relies on is the locale \<open>delta_engine\<close>.
\<close>

subsection \<open>The engine\<close>

type_synonym block_key = "string \<times> string"

definition block_match_key :: "context_block \<Rightarrow> block_key" where
  "block_match_key b =
     (if cb_identity_key b \<noteq> [] then (bt_value (cb_block_type b), cb_identity_key b)
      else if cb_content_hash b \<noteq> [] then (bt_value (cb_block_type b), cb_content_hash b)
      else (bt_value (cb_block_type b), cb_block_id b))"

text \<open>The loop over the current blocks: (added, persisted, mutated), with the seen set.\<close>

fun diff_curr :: "(block_key, context_block) dict \<Rightarrow> string set \<Rightarrow> context_block list
    \<Rightarrow> string list \<times> string list \<times> string list" where
  "diff_curr prev seen [] = ([], [], [])"
| "diff_curr prev seen (b # bs) =
     (if cb_block_id b \<in> seen then diff_curr prev seen bs
      else
        (let (added, persisted, mutated) = diff_curr prev (insert (cb_block_id b) seen) bs
         in case map_of prev (block_match_key b) of
              Some p \<Rightarrow>
                if cb_identity_key b \<noteq> [] \<and> cb_content_hash b \<noteq> cb_content_hash p
                then (added, persisted, cb_block_id b # mutated)
                else (added, cb_block_id b # persisted, mutated)
            | None \<Rightarrow> (cb_block_id b # added, persisted, mutated)))"

fun diff_removed :: "(block_key, context_block) dict \<Rightarrow> string set \<Rightarrow> context_block list
    \<Rightarrow> string list" where
  "diff_removed cur seen [] = []"
| "diff_removed cur seen (b # bs) =
     (if cb_block_id b \<in> seen then diff_removed cur seen bs
      else if map_of cur (block_match_key b) = None
        then cb_block_id b # diff_removed cur (insert (cb_block_id b) seen) bs
      else diff_removed cur (insert (cb_block_id b) seen) bs)"

definition initial_delta :: "canonical_turn \<Rightarrow> turn_delta" where
  "initial_delta t =
     \<lparr>td_turn_index = ct_turn_index t,
      td_added_block_ids = map cb_block_id (uniq_by cb_block_id {} (all_blocks t)),
      td_removed_block_ids = [], td_persisted_block_ids = [], td_mutated_block_ids = [],
      td_cache_breakpoint_block_id = None,
      td_token_growth =
        (if 0 < ct_input_tokens t then ct_input_tokens t else sum_tokens (all_blocks t))\<rparr>"

definition compute_delta :: "canonical_turn option \<Rightarrow> canonical_turn \<Rightarrow> turn_delta" where
  "compute_delta prev_turn cur =
     (case prev_turn of
        None \<Rightarrow> initial_delta cur
      | Some prev \<Rightarrow>
          (let prev_blocks = all_blocks prev;
               curr_blocks = all_blocks cur;
               prev_by_key = index_first block_match_key prev_blocks;
               curr_by_key = index_first block_match_key curr_blocks;
               (added, persisted, mutated) = diff_curr prev_by_key {} curr_blocks
           in \<lparr>td_turn_index = ct_turn_index cur,
               td_added_block_ids = added,
               td_removed_block_ids = diff_removed curr_by_key {} prev_blocks,
               td_persisted_block_ids = persisted,
               td_mutated_block_ids = mutated,
               td_cache_breakpoint_block_id =
                 map_option cb_block_id
                   (find (\<lambda>b. cb_block_id b \<notin> set persisted) curr_blocks),
               td_token_growth =
                 (if 0 < ct_input_tokens cur \<or> 0 < ct_input_tokens prev
                  then ct_input_tokens cur - ct_input_tokens prev
                  else sum_tokens curr_blocks - sum_tokens prev_blocks)\<rparr>))"

subsection \<open>Specification\<close>

datatype block_status = Added | Persisted | Mutated

text \<open>The status of a block, by the first block of the previous turn with its key.\<close>

definition block_status :: "context_block list \<Rightarrow> context_block \<Rightarrow> block_status" where
  "block_status prev b =
     (case find (\<lambda>p. block_match_key p = block_match_key b) prev of
        None \<Rightarrow> Added
      | Some p \<Rightarrow>
          if cb_identity_key b \<noteq> [] \<and> cb_content_hash b \<noteq> cb_content_hash p
          then Mutated else Persisted)"

definition ids_with :: "context_block list \<Rightarrow> block_status \<Rightarrow> context_block list \<Rightarrow> string list" where
  "ids_with prev st bs =
     map cb_block_id (filter (\<lambda>b. block_status prev b = st) (uniq_by cb_block_id {} bs))"

lemma diff_curr_eq:
  "diff_curr (index_first block_match_key prev) seen bs =
     (map cb_block_id (filter (\<lambda>b. block_status prev b = Added) (uniq_by cb_block_id seen bs)),
      map cb_block_id (filter (\<lambda>b. block_status prev b = Persisted) (uniq_by cb_block_id seen bs)),
      map cb_block_id (filter (\<lambda>b. block_status prev b = Mutated) (uniq_by cb_block_id seen bs)))"
  by (induction bs arbitrary: seen)
    (auto simp: block_status_def map_of_index_first split: option.splits)

lemma diff_removed_eq:
  "diff_removed (index_first block_match_key cur) seen bs =
     map cb_block_id (filter (\<lambda>b. block_match_key b \<notin> block_match_key ` set cur)
       (uniq_by cb_block_id seen bs))"
proof -
  have "find (\<lambda>x. block_match_key x = k) cur = None \<longleftrightarrow> k \<notin> block_match_key ` set cur" for k
    by (auto simp: find_eq_None)
  then show ?thesis
    by (induction bs arbitrary: seen) (auto simp: map_of_index_first)
qed

lemmas delta_fields =
  compute_delta_def Let_def initial_delta_def diff_curr_eq diff_removed_eq ids_with_def

lemma delta_Some:
  "td_added_block_ids (compute_delta (Some p) c) = ids_with (all_blocks p) Added (all_blocks c)"
  "td_persisted_block_ids (compute_delta (Some p) c)
     = ids_with (all_blocks p) Persisted (all_blocks c)"
  "td_mutated_block_ids (compute_delta (Some p) c)
     = ids_with (all_blocks p) Mutated (all_blocks c)"
  "td_removed_block_ids (compute_delta (Some p) c) =
     map cb_block_id (filter (\<lambda>b. block_match_key b \<notin> block_match_key ` set (all_blocks c))
       (uniq_by cb_block_id {} (all_blocks p)))"
  by (simp_all add: delta_fields)

lemma delta_None:
  "td_added_block_ids (compute_delta None c) = map cb_block_id (uniq_by cb_block_id {} (all_blocks c))"
  "td_persisted_block_ids (compute_delta None c) = []"
  "td_mutated_block_ids (compute_delta None c) = []"
  "td_removed_block_ids (compute_delta None c) = []"
  by (simp_all add: delta_fields)

lemma map_filter_distinct: "distinct (map f xs) \<Longrightarrow> distinct (map f (filter P xs))"
  by (induction xs) auto

lemma map_filter_disjoint:
  assumes "distinct (map f xs)" "\<And>x. x \<in> set xs \<Longrightarrow> \<not> (P x \<and> Q x)"
  shows "set (map f (filter P xs)) \<inter> set (map f (filter Q xs)) = {}"
proof -
  have "inj_on f (set xs)" using assms(1) by (simp add: distinct_map)
  with assms(2) show ?thesis by (auto dest: inj_onD)
qed

lemma ids_with_distinct: "distinct (ids_with prev st bs)"
  unfolding ids_with_def by (intro map_filter_distinct distinct_uniq_by)

lemma ids_with_disjoint:
  "st \<noteq> st' \<Longrightarrow> set (ids_with prev st bs) \<inter> set (ids_with prev st' bs) = {}"
  unfolding ids_with_def by (intro map_filter_disjoint distinct_uniq_by) auto

lemma ids_with_cover:
  "set (ids_with prev Added bs) \<union> set (ids_with prev Persisted bs) \<union> set (ids_with prev Mutated bs)
     = cb_block_id ` set bs"
proof -
  have "block_status prev b = Added \<or> block_status prev b = Persisted \<or> block_status prev b = Mutated"
    for b by (cases "block_status prev b") simp_all
  then have "set (ids_with prev Added bs) \<union> set (ids_with prev Persisted bs)
      \<union> set (ids_with prev Mutated bs) = cb_block_id ` set (uniq_by cb_block_id {} bs)"
    unfolding ids_with_def by auto
  then show ?thesis by (simp add: uniq_by_keys)
qed

lemma delta_partition:
  "distinct (td_added_block_ids (compute_delta p c) @ td_persisted_block_ids (compute_delta p c)
     @ td_mutated_block_ids (compute_delta p c))
   \<and> set (td_added_block_ids (compute_delta p c) @ td_persisted_block_ids (compute_delta p c)
     @ td_mutated_block_ids (compute_delta p c)) = cb_block_id ` set (all_blocks c)"
proof (cases p)
  case None
  then show ?thesis
    using distinct_uniq_by [of cb_block_id "{}" "all_blocks c"]
    by (simp add: delta_None uniq_by_keys)
next
  case (Some q)
  let ?A = "ids_with (all_blocks q) Added (all_blocks c)"
  let ?P = "ids_with (all_blocks q) Persisted (all_blocks c)"
  let ?M = "ids_with (all_blocks q) Mutated (all_blocks c)"
  have "set ?A \<inter> set ?P = {}" "set ?A \<inter> set ?M = {}" "set ?P \<inter> set ?M = {}"
    by (simp_all add: ids_with_disjoint)
  then have "distinct (?A @ ?P @ ?M)"
    by (simp add: ids_with_distinct Int_Un_distrib)
  moreover have "set (?A @ ?P @ ?M) = cb_block_id ` set (all_blocks c)"
    using ids_with_cover [of "all_blocks q" "all_blocks c"] by (simp add: Un_assoc)
  ultimately show ?thesis by (simp add: Some delta_Some)
qed

text \<open>With distinct block ids, membership in a list is the status of the block.\<close>

lemma uniq_by_distinct_ids: "distinct (map cb_block_id bs) \<Longrightarrow> uniq_by cb_block_id {} bs = bs"
  by (simp add: uniq_by_distinct)

lemma delta_status:
  assumes "distinct (map cb_block_id (all_blocks c))" "b \<in> set (all_blocks c)"
  shows "cb_block_id b \<in> set (td_added_block_ids (compute_delta (Some p) c))
           \<longleftrightarrow> block_status (all_blocks p) b = Added"
    and "cb_block_id b \<in> set (td_persisted_block_ids (compute_delta (Some p) c))
           \<longleftrightarrow> block_status (all_blocks p) b = Persisted"
    and "cb_block_id b \<in> set (td_mutated_block_ids (compute_delta (Some p) c))
           \<longleftrightarrow> block_status (all_blocks p) b = Mutated"
proof -
  have inj: "inj_on cb_block_id (set (all_blocks c))" using assms(1) by (simp add: distinct_map)
  have "cb_block_id b \<in> set (ids_with (all_blocks p) st (all_blocks c))
      \<longleftrightarrow> block_status (all_blocks p) b = st" for st
    using assms inj by (auto simp: ids_with_def uniq_by_distinct_ids dest: inj_onD)
  then show "cb_block_id b \<in> set (td_added_block_ids (compute_delta (Some p) c))
           \<longleftrightarrow> block_status (all_blocks p) b = Added"
    and "cb_block_id b \<in> set (td_persisted_block_ids (compute_delta (Some p) c))
           \<longleftrightarrow> block_status (all_blocks p) b = Persisted"
    and "cb_block_id b \<in> set (td_mutated_block_ids (compute_delta (Some p) c))
           \<longleftrightarrow> block_status (all_blocks p) b = Mutated"
    by (simp_all add: delta_Some)
qed

text \<open>The cache breakpoint splits the prompt at its longest persisted prefix.\<close>

lemma find_split:
  "find P xs = Some x \<longleftrightarrow> (\<exists>us vs. xs = us @ x # vs \<and> P x \<and> (\<forall>u\<in>set us. \<not> P u))"
proof (induction xs)
  case Nil
  then show ?case by simp
next
  case (Cons y ys)
  show ?case
  proof (cases "P y")
    case True
    then show ?thesis by (auto simp: Cons_eq_append_conv)
  next
    case False
    with Cons.IH show ?thesis by (auto simp: Cons_eq_append_conv) (metis set_ConsD)
  qed
qed

lemma delta_breakpoint:
  "td_cache_breakpoint_block_id (compute_delta (Some p) c) =
     map_option cb_block_id
       (find (\<lambda>b. cb_block_id b \<notin> set (td_persisted_block_ids (compute_delta (Some p) c)))
          (all_blocks c))"
  by (simp add: delta_Some) (simp add: delta_fields)

lemma delta_growth_pos:
  "0 < ct_input_tokens c \<Longrightarrow> td_token_growth (compute_delta None c) = ct_input_tokens c"
  "0 < ct_input_tokens c \<Longrightarrow>
     td_token_growth (compute_delta (Some p) c) = ct_input_tokens c - ct_input_tokens p"
  by (simp_all add: delta_fields)

text \<open>A turn compared with itself, when its blocks carry consistent keys.\<close>

definition consistent_keys :: "context_block list \<Rightarrow> bool" where
  "consistent_keys bs \<longleftrightarrow>
     (\<forall>a\<in>set bs. \<forall>b\<in>set bs. block_match_key a = block_match_key b \<and> cb_identity_key a \<noteq> []
        \<longrightarrow> cb_content_hash a = cb_content_hash b)"

lemma delta_self:
  assumes "consistent_keys (all_blocks t)"
  shows "td_added_block_ids (compute_delta (Some t) t) = []"
    and "td_mutated_block_ids (compute_delta (Some t) t) = []"
    and "td_removed_block_ids (compute_delta (Some t) t) = []"
    and "td_cache_breakpoint_block_id (compute_delta (Some t) t) = None"
    and "td_token_growth (compute_delta (Some t) t) = 0"
proof -
  have st: "block_status (all_blocks t) b = Persisted" if b: "b \<in> set (all_blocks t)" for b
  proof -
    obtain p where p: "find (\<lambda>p. block_match_key p = block_match_key b) (all_blocks t) = Some p"
      using find_is_Some [OF b, of "\<lambda>p. block_match_key p = block_match_key b"] by blast
    then have "p \<in> set (all_blocks t)" "block_match_key p = block_match_key b"
      by (auto dest: find_eq_SomeD)
    with assms b have "cb_identity_key b \<noteq> [] \<Longrightarrow> cb_content_hash b = cb_content_hash p"
      by (metis consistent_keys_def)
    with p show ?thesis by (auto simp: block_status_def)
  qed
  have u: "b \<in> set (uniq_by cb_block_id {} (all_blocks t)) \<Longrightarrow> b \<in> set (all_blocks t)" for b
    using set_uniq_by_subset by fast
  show a: "td_added_block_ids (compute_delta (Some t) t) = []"
    and m: "td_mutated_block_ids (compute_delta (Some t) t) = []"
    and "td_removed_block_ids (compute_delta (Some t) t) = []"
    using st u by (auto simp: delta_Some ids_with_def filter_empty_conv)
  have "set (td_persisted_block_ids (compute_delta (Some t) t)) = cb_block_id ` set (all_blocks t)"
    using delta_partition [of "Some t" t] a m by simp
  then have "find (\<lambda>b. cb_block_id b \<notin> set (td_persisted_block_ids (compute_delta (Some t) t)))
      (all_blocks t) = None"
    by (simp add: find_eq_None)
  then show "td_cache_breakpoint_block_id (compute_delta (Some t) t) = None"
    by (simp only: delta_breakpoint) simp
  show "td_token_growth (compute_delta (Some t) t) = 0"
    by (simp add: delta_fields)
qed

subsection \<open>The contract the graph uses\<close>

locale delta_engine =
  fixes delta :: "canonical_turn option \<Rightarrow> canonical_turn \<Rightarrow> turn_delta"
  assumes index: "td_turn_index (delta p c) = ct_turn_index c"
    and partition:
      "distinct (td_added_block_ids (delta p c) @ td_persisted_block_ids (delta p c)
         @ td_mutated_block_ids (delta p c))"
      "set (td_added_block_ids (delta p c) @ td_persisted_block_ids (delta p c)
         @ td_mutated_block_ids (delta p c)) = cb_block_id ` set (all_blocks c)"
    and growth_first: "0 < ct_input_tokens c \<Longrightarrow> td_token_growth (delta None c) = ct_input_tokens c"
    and growth: "0 < ct_input_tokens c \<Longrightarrow>
      td_token_growth (delta (Some q) c) = ct_input_tokens c - ct_input_tokens q"
begin

fun deltas :: "canonical_turn option \<Rightarrow> canonical_turn list \<Rightarrow> turn_delta list" where
  "deltas p [] = []"
| "deltas p (t # ts) = delta p t # deltas (Some t) ts"

lemma deltas_length [simp]: "length (deltas p ts) = length ts"
  by (induction ts arbitrary: p) auto

lemma deltas_index: "map td_turn_index (deltas p ts) = map ct_turn_index ts"
  by (induction ts arbitrary: p) (auto simp: index)

lemma deltas_snoc:
  "deltas p (ts @ [t]) = deltas p ts @ [delta (if ts = [] then p else Some (last ts)) t]"
  by (induction ts arbitrary: p) auto

lemma growth_telescopes:
  assumes "\<forall>t\<in>set ts. 0 < ct_input_tokens t"
  shows "sum_list (map td_token_growth (deltas None ts))
           = (if ts = [] then 0 else ct_input_tokens (last ts))"
  using assms
proof (induction ts rule: rev_induct)
  case Nil
  then show ?case by simp
next
  case (snoc t ts)
  then show ?case by (auto simp: deltas_snoc growth growth_first)
qed

lemma account_once:
  "b \<in> set (all_blocks c) \<Longrightarrow>
     count_list (td_added_block_ids (delta p c) @ td_persisted_block_ids (delta p c)
       @ td_mutated_block_ids (delta p c)) (cb_block_id b) = 1"
  using partition [of p c] by (metis count_list_distinct image_eqI)

end

interpretation engine: delta_engine compute_delta
proof
  show "td_turn_index (compute_delta p c) = ct_turn_index c" for p c
    by (cases p) (simp_all add: delta_fields)
qed (use delta_partition delta_growth_pos in auto)

end
