(* ===== verification/TurnGraph.thy ===== *)
theory TurnGraph
  imports Diff
begin

text \<open>
  \<open>src/core/graph/turn_tree.py\<close>: the session graph. \<open>add_turn\<close> stamps every block of the turn
  with the turn it was first seen in and the number of turns it has survived, records the delta
  with the previous turn and links parent and child. The Python code mutates the blocks of the
  turn it is given; here the stamped turn is returned. \<open>streak\<close> and \<open>lineage_ok\<close> say, without
  the incremental bookkeeping, what the stamps mean.
\<close>

subsection \<open>Lineage records\<close>

record block_lineage =
  bl_block_type :: block_type
  bl_content_hash :: string
  bl_first_seen_turn :: int
  bl_last_seen_turn :: int
  bl_turns_survived :: int
  bl_seen_turns :: "int list"
  bl_identity_key :: string
  bl_historical_hashes :: "string list"

type_synonym lineage = "(block_key, block_lineage) dict"

definition new_lineage :: "int \<Rightarrow> context_block \<Rightarrow> block_lineage" where
  "new_lineage i b =
     \<lparr>bl_block_type = cb_block_type b, bl_content_hash = cb_content_hash b,
      bl_first_seen_turn = i, bl_last_seen_turn = i, bl_turns_survived = 0,
      bl_seen_turns = [i], bl_identity_key = cb_identity_key b,
      bl_historical_hashes = (if cb_content_hash b \<noteq> [] then [cb_content_hash b] else [])\<rparr>"

definition add_hash :: "string \<Rightarrow> string list \<Rightarrow> string list" where
  "add_hash h hs = (if h \<noteq> [] \<and> h \<notin> set hs then hs @ [h] else hs)"

definition rehash :: "context_block \<Rightarrow> block_lineage \<Rightarrow> block_lineage" where
  "rehash b r =
     r\<lparr>bl_historical_hashes :=
         add_hash (cb_content_hash b) (add_hash (bl_content_hash r) (bl_historical_hashes r)),
       bl_content_hash := cb_content_hash b\<rparr>"

definition mark_seen :: "int \<Rightarrow> int \<Rightarrow> block_lineage \<Rightarrow> block_lineage" where
  "mark_seen i survived r =
     r\<lparr>bl_turns_survived := survived, bl_last_seen_turn := i,
       bl_seen_turns := bl_seen_turns r @ [i]\<rparr>"

definition stamp :: "int \<Rightarrow> int \<Rightarrow> context_block \<Rightarrow> context_block" where
  "stamp first survived b = b\<lparr>cb_first_seen_turn := first, cb_turns_survived := survived\<rparr>"

text \<open>The body of the loop over \<open>turn.all_blocks\<close>.\<close>

definition lineage_step :: "int \<Rightarrow> lineage \<Rightarrow> context_block \<Rightarrow> lineage \<times> context_block" where
  "lineage_step i L b =
     (let key = block_match_key b
      in case map_of L key of
           Some r \<Rightarrow>
             if bl_last_seen_turn r = i then
               (L, stamp (bl_first_seen_turn r) (bl_turns_survived r) b)
             else if bl_last_seen_turn r = i - 1 then
               (let same = (cb_content_hash b = bl_content_hash r);
                    n = (if same then bl_turns_survived r + 1 else 0);
                    r' = (if same then r else rehash b r)
                in (AList.update key (mark_seen i n r') L, stamp (bl_first_seen_turn r) n b))
             else
               (let r' = (if cb_content_hash b \<noteq> bl_content_hash r then rehash b r else r)
                in (AList.update key (mark_seen i 0 r') L, stamp (bl_first_seen_turn r) 0 b))
         | None \<Rightarrow> (AList.update key (new_lineage i b) L, stamp i 0 b))"

fun lineage_blocks :: "int \<Rightarrow> lineage \<Rightarrow> context_block list \<Rightarrow> lineage \<times> context_block list" where
  "lineage_blocks i L [] = (L, [])"
| "lineage_blocks i L (b # bs) =
     (let (L1, b') = lineage_step i L b; (L2, bs') = lineage_blocks i L1 bs in (L2, b' # bs'))"

text \<open>All five sections, in the order of \<open>all_blocks\<close>.\<close>

definition lineage_turn :: "lineage \<Rightarrow> canonical_turn \<Rightarrow> lineage \<times> canonical_turn" where
  "lineage_turn L t =
     (let i = ct_turn_index t;
          (L1, sb) = lineage_blocks i L (ct_system_blocks t);
          (L2, td) = lineage_blocks i L1 (ct_tool_defs t);
          (L3, ch) = lineage_blocks i L2 (ct_conversation_history t);
          (L4, tr) = lineage_blocks i L3 (ct_tool_results t);
          (L5, ab) = lineage_blocks i L4 (ct_assistant_blocks t)
      in (L5, t\<lparr>ct_system_blocks := sb, ct_tool_defs := td, ct_conversation_history := ch,
                ct_tool_results := tr, ct_assistant_blocks := ab\<rparr>))"

subsection \<open>The graph\<close>

record context_graph =
  g_session_id :: "string option"
  g_turns :: "canonical_turn list"
  g_turns_by_id :: "(string, canonical_turn) dict"
  g_turns_by_index :: "(int, canonical_turn) dict"
  g_lineage :: lineage
  g_deltas :: "turn_delta list"
  g_deltas_by_turn :: "(int, turn_delta) dict"
  g_parents :: "(string, string option) dict"
  g_children :: "(string, string list) dict"

definition new_graph :: "string option \<Rightarrow> context_graph" where
  "new_graph sid =
     \<lparr>g_session_id = sid, g_turns = [], g_turns_by_id = [], g_turns_by_index = [], g_lineage = [],
      g_deltas = [], g_deltas_by_turn = [], g_parents = [], g_children = []\<rparr>"

definition turn_count :: "context_graph \<Rightarrow> nat" where
  "turn_count g = length (g_turns g)"

definition link_child :: "string option \<Rightarrow> string \<Rightarrow> (string, string list) dict
    \<Rightarrow> (string, string list) dict" where
  "link_child parent child cs =
     (case parent of
        None \<Rightarrow> cs
      | Some p \<Rightarrow> if p = [] then cs else AList.update p (dict_get cs p [] @ [child]) cs)"

definition last_turn :: "context_graph \<Rightarrow> canonical_turn option" where
  "last_turn g = (if g_turns g = [] then None else Some (last (g_turns g)))"

definition add_turn :: "context_graph \<Rightarrow> canonical_turn \<Rightarrow> string option
    \<Rightarrow> context_graph \<times> canonical_turn \<times> turn_delta" where
  "add_turn g turn parent_turn_id =
     (let (L, t) = lineage_turn (g_lineage g) turn;
          prev_turn = last_turn g;
          delta = compute_delta prev_turn t;
          parent = (case parent_turn_id of
                      Some p \<Rightarrow> Some p
                    | None \<Rightarrow> map_option ct_turn_id prev_turn)
      in (\<lparr>g_session_id =
             (if g_session_id g = None \<and> ct_session_id t \<noteq> [] then Some (ct_session_id t)
              else g_session_id g),
           g_turns = g_turns g @ [t],
           g_turns_by_id = AList.update (ct_turn_id t) t (g_turns_by_id g),
           g_turns_by_index = AList.update (ct_turn_index t) t (g_turns_by_index g),
           g_lineage = L,
           g_deltas = g_deltas g @ [delta],
           g_deltas_by_turn = AList.update (ct_turn_index t) delta (g_deltas_by_turn g),
           g_parents = AList.update (ct_turn_id t) parent (g_parents g),
           g_children = link_child parent (ct_turn_id t) (g_children g)\<rparr>, t, delta))"

definition update_lineage :: "int \<Rightarrow> lineage \<Rightarrow> context_block \<Rightarrow> lineage" where
  "update_lineage i L b =
     (let key = block_match_key b
      in case map_of L key of
           Some r \<Rightarrow>
             AList.update key
               (r\<lparr>bl_last_seen_turn := i,
                  bl_seen_turns := (if i \<notin> set (bl_seen_turns r) then bl_seen_turns r @ [i]
                                    else bl_seen_turns r)\<rparr>) L
         | None \<Rightarrow> AList.update key (new_lineage i b) L)"

definition update_turn :: "context_graph \<Rightarrow> canonical_turn \<Rightarrow> context_graph" where
  "update_turn g turn =
     (let i = ct_turn_index turn;
          ts = g_turns g;
          ts' = (if 0 \<le> i \<and> i < int (length ts) then ts[nat i := turn]
                 else if ts \<noteq> [] then ts[length ts - 1 := turn]
                 else ts)
      in g\<lparr>g_turns := ts',
           g_turns_by_id := AList.update (ct_turn_id turn) turn (g_turns_by_id g),
           g_turns_by_index := AList.update i turn (g_turns_by_index g),
           g_lineage := foldl (update_lineage i) (g_lineage g) (all_blocks turn)\<rparr>)"

subsection \<open>Queries\<close>

definition get_turn :: "context_graph \<Rightarrow> int \<Rightarrow> canonical_turn option" where
  "get_turn g i = map_of (g_turns_by_index g) i"

definition get_turn_by_id :: "context_graph \<Rightarrow> string \<Rightarrow> canonical_turn option" where
  "get_turn_by_id g tid = map_of (g_turns_by_id g) tid"

definition get_delta :: "context_graph \<Rightarrow> int \<Rightarrow> turn_delta option" where
  "get_delta g i = map_of (g_deltas_by_turn g) i"

definition type_matches :: "block_type option \<Rightarrow> block_lineage \<Rightarrow> bool" where
  "type_matches bt r = (case bt of None \<Rightarrow> True | Some t \<Rightarrow> bl_block_type r = t)"

definition lineage_by_key :: "lineage \<Rightarrow> block_type option \<Rightarrow> string \<Rightarrow> block_lineage option" where
  "lineage_by_key L bt s = (case bt of None \<Rightarrow> None | Some t \<Rightarrow> map_of L (bt_value t, s))"

definition orelse :: "'a option \<Rightarrow> 'a option \<Rightarrow> 'a option" where
  "orelse a b = (case a of None \<Rightarrow> b | Some x \<Rightarrow> Some x)"

definition get_lineage :: "context_graph \<Rightarrow> string option \<Rightarrow> block_type option \<Rightarrow> string option
    \<Rightarrow> block_lineage option" where
  "get_lineage g content_hash bt identity_key =
     (let L = g_lineage g; recs = dict_values L;
          by_identity = (\<lambda>s. find (\<lambda>r. bl_identity_key r = s \<and> type_matches bt r) recs)
      in orelse
           (case identity_key of
              None \<Rightarrow> None
            | Some s \<Rightarrow> orelse (lineage_by_key L bt s) (by_identity s))
           (case content_hash of
              None \<Rightarrow> None
            | Some h \<Rightarrow>
                orelse (lineage_by_key L bt h)
                  (orelse
                    (find (\<lambda>r. (bl_content_hash r = h \<or> h \<in> set (bl_historical_hashes r))
                                \<and> type_matches bt r) recs)
                    (by_identity h))))"

definition get_parent_turn :: "context_graph \<Rightarrow> string \<Rightarrow> canonical_turn option" where
  "get_parent_turn g tid =
     (case map_of (g_parents g) tid of
        Some (Some p) \<Rightarrow> if p = [] then None else map_of (g_turns_by_id g) p
      | _ \<Rightarrow> None)"

definition get_child_turns :: "context_graph \<Rightarrow> string \<Rightarrow> canonical_turn list" where
  "get_child_turns g tid = List.map_filter (map_of (g_turns_by_id g)) (dict_get (g_children g) tid [])"

definition get_surviving_blocks :: "context_graph \<Rightarrow> int \<Rightarrow> context_block list" where
  "get_surviving_blocks g min_turns =
     (case last_turn g of
        None \<Rightarrow> []
      | Some t \<Rightarrow> filter (\<lambda>b. min_turns \<le> cb_turns_survived b) (all_blocks t))"

datatype block_ref = BlockObj context_block | BlockId string

text \<open>The first turn, and in it the first block of a section, with a property.\<close>

fun find_in_turns :: "(canonical_turn \<Rightarrow> context_block list) \<Rightarrow> (context_block \<Rightarrow> bool)
    \<Rightarrow> canonical_turn list \<Rightarrow> (canonical_turn \<times> context_block) option" where
  "find_in_turns sel P [] = None"
| "find_in_turns sel P (t # ts) =
     (case find P (sel t) of Some b \<Rightarrow> Some (t, b) | None \<Rightarrow> find_in_turns sel P ts)"

definition call_side :: "canonical_turn \<Rightarrow> context_block list" where
  "call_side t = ct_assistant_blocks t @ ct_conversation_history t"

definition resolve_ref :: "(canonical_turn \<Rightarrow> context_block list) \<Rightarrow> canonical_turn list \<Rightarrow> block_ref
    \<Rightarrow> context_block option" where
  "resolve_ref sel ts ref =
     (case ref of
        BlockObj b \<Rightarrow> Some b
      | BlockId i \<Rightarrow> map_option snd (find_in_turns sel (\<lambda>b. cb_block_id b = i) ts))"

definition block_call_id :: "context_block \<Rightarrow> json" where
  "block_call_id b =
     py_or (JStr (cb_call_id b)) (py_or (jget (cb_metadata b) ''tool_use_id'') (JStr []))"

definition block_tool_name :: "context_block \<Rightarrow> json" where
  "block_tool_name b =
     py_or (jget (cb_metadata b) ''name'') (py_or (jget (cb_metadata b) ''tool_name'') (JStr []))"

definition same_call :: "json \<Rightarrow> context_block \<Rightarrow> bool" where
  "same_call cid b \<longleftrightarrow>
     py_eq (JStr (cb_call_id b)) cid \<or> py_eq (jget (cb_metadata b) ''tool_use_id'') cid"

definition get_tool_call_for_result :: "context_graph \<Rightarrow> block_ref
    \<Rightarrow> (canonical_turn \<times> context_block) option" where
  "get_tool_call_for_result g ref =
     (case resolve_ref ct_tool_results (g_turns g) ref of
        None \<Rightarrow> None
      | Some target \<Rightarrow>
          (let cid = block_call_id target; name = block_tool_name target
           in orelse
                (if truthy cid
                 then find_in_turns call_side
                        (\<lambda>b. cb_block_type b \<noteq> TOOL_RESULT \<and> same_call cid b) (g_turns g)
                 else None)
                (if truthy name
                 then find_in_turns call_side
                        (\<lambda>b. cb_block_type b \<noteq> TOOL_RESULT \<and> py_eq (block_tool_name b) name)
                        (g_turns g)
                 else None)))"

definition get_tool_result_for_call :: "context_graph \<Rightarrow> block_ref
    \<Rightarrow> (canonical_turn \<times> context_block) option" where
  "get_tool_result_for_call g ref =
     (case resolve_ref call_side (g_turns g) ref of
        None \<Rightarrow> None
      | Some target \<Rightarrow>
          (let cid = block_call_id target; name = block_tool_name target
           in orelse
                (if truthy cid then find_in_turns ct_tool_results (same_call cid) (g_turns g)
                 else None)
                (if truthy name
                 then find_in_turns ct_tool_results (\<lambda>b. py_eq (block_tool_name b) name)
                        (g_turns g)
                 else None)))"

subsection \<open>Stamping changes only the stamps\<close>

lemma stamp_fields [simp]:
  "block_match_key (stamp f n b) = block_match_key b"
  "cb_content_hash (stamp f n b) = cb_content_hash b"
  "cb_block_id (stamp f n b) = cb_block_id b"
  "cb_token_count (stamp f n b) = cb_token_count b"
  "cb_content (stamp f n b) = cb_content b"
  "cb_first_seen_turn (stamp f n b) = f"
  "cb_turns_survived (stamp f n b) = n"
  by (simp_all add: stamp_def block_match_key_def)

lemma lineage_step_stamp: "\<exists>f n. snd (lineage_step i L b) = stamp f n b"
  by (auto simp: lineage_step_def Let_def split: option.splits)

lemma lineage_blocks_map:
  assumes "\<And>f n b. h (stamp f n b) = h b"
  shows "map h (snd (lineage_blocks i L bs)) = map h bs"
proof (induction bs arbitrary: L)
  case Nil
  then show ?case by simp
next
  case (Cons b bs)
  obtain f n where "snd (lineage_step i L b) = stamp f n b" using lineage_step_stamp by blast
  with Cons show ?case by (simp add: assms split_beta)
qed

lemma lineage_blocks_append:
  "lineage_blocks i L (as @ bs) =
     (let (L1, as') = lineage_blocks i L as; (L2, bs') = lineage_blocks i L1 bs in (L2, as' @ bs'))"
  by (induction as arbitrary: L) (auto simp: split_beta Let_def)

lemma lineage_turn_blocks:
  "(fst (lineage_turn L t), all_blocks (snd (lineage_turn L t)))
     = lineage_blocks (ct_turn_index t) L (all_blocks t)"
  by (simp add: lineage_turn_def all_blocks_def lineage_blocks_append Let_def split_beta)

lemma lineage_turn_fields [simp]:
  "ct_turn_index (snd (lineage_turn L t)) = ct_turn_index t"
  "ct_turn_id (snd (lineage_turn L t)) = ct_turn_id t"
  "ct_session_id (snd (lineage_turn L t)) = ct_session_id t"
  "ct_input_tokens (snd (lineage_turn L t)) = ct_input_tokens t"
  by (simp_all add: lineage_turn_def Let_def split_beta)

lemma add_turn_fields:
  "g_turns (fst (add_turn g t p)) = g_turns g @ [snd (lineage_turn (g_lineage g) t)]"
  "fst (snd (add_turn g t p)) = snd (lineage_turn (g_lineage g) t)"
  "g_lineage (fst (add_turn g t p)) = fst (lineage_turn (g_lineage g) t)"
  "snd (snd (add_turn g t p)) = compute_delta (last_turn g) (snd (lineage_turn (g_lineage g) t))"
  "g_deltas (fst (add_turn g t p)) =
     g_deltas g @ [compute_delta (last_turn g) (snd (lineage_turn (g_lineage g) t))]"
  by (simp_all add: add_turn_def Let_def split_beta)

subsection \<open>What one turn does to the lineage\<close>

text \<open>The record of a key after a turn, from the first block of the turn with that key.\<close>

definition touch :: "int \<Rightarrow> context_block \<Rightarrow> block_lineage option \<Rightarrow> block_lineage" where
  "touch i b old =
     (case old of
        None \<Rightarrow> new_lineage i b
      | Some r \<Rightarrow>
          (let same = (cb_content_hash b = bl_content_hash r)
           in mark_seen i
                (if bl_last_seen_turn r = i - 1 \<and> same then bl_turns_survived r + 1 else 0)
                (if same then r else rehash b r)))"

lemma touch_fields [simp]:
  "bl_last_seen_turn (touch i b old) = i"
  "bl_content_hash (touch i b old) = cb_content_hash b"
  "bl_first_seen_turn (touch i b old) = (case old of None \<Rightarrow> i | Some r \<Rightarrow> bl_first_seen_turn r)"
  "bl_seen_turns (touch i b old) = (case old of None \<Rightarrow> [i] | Some r \<Rightarrow> bl_seen_turns r @ [i])"
  by (auto simp: touch_def new_lineage_def mark_seen_def rehash_def Let_def split: option.splits)

lemma lineage_step_touch:
  "lineage_step i L b =
     (case map_of L (block_match_key b) of
        Some r \<Rightarrow>
          if bl_last_seen_turn r = i
          then (L, stamp (bl_first_seen_turn r) (bl_turns_survived r) b)
          else (let r' = touch i b (Some r)
                in (AList.update (block_match_key b) r' L,
                    stamp (bl_first_seen_turn r') (bl_turns_survived r') b))
      | None \<Rightarrow>
          (let r' = touch i b None
           in (AList.update (block_match_key b) r' L,
               stamp (bl_first_seen_turn r') (bl_turns_survived r') b)))"
  by (auto simp: lineage_step_def touch_def new_lineage_def mark_seen_def rehash_def Let_def
      split: option.splits)

definition first_with :: "block_key \<Rightarrow> context_block list \<Rightarrow> context_block option" where
  "first_with k bs = find (\<lambda>b. block_match_key b = k) bs"

lemma first_with_simps [simp]:
  "first_with k [] = None"
  "first_with k (b # bs) = (if block_match_key b = k then Some b else first_with k bs)"
  by (simp_all add: first_with_def)

lemma first_with_None: "first_with k bs = None \<longleftrightarrow> k \<notin> block_match_key ` set bs"
  by (induction bs) auto

definition touched :: "int \<Rightarrow> lineage \<Rightarrow> context_block list \<Rightarrow> block_key \<Rightarrow> block_lineage option"
  where
  "touched i L bs k =
     (case first_with k bs of
        None \<Rightarrow> map_of L k
      | Some b \<Rightarrow>
          (case map_of L k of
             Some r \<Rightarrow> if bl_last_seen_turn r = i then Some r else Some (touch i b (Some r))
           | None \<Rightarrow> Some (touch i b None)))"

lemma touched_step:
  "touched i (fst (lineage_step i L b)) bs k = touched i L (b # bs) k"
  by (auto simp: touched_def lineage_step_touch Let_def split: option.splits)

lemma map_of_lineage_blocks:
  "map_of (fst (lineage_blocks i L bs)) k = touched i L bs k"
proof (induction bs arbitrary: L)
  case Nil
  then show ?case by (simp add: touched_def)
next
  case (Cons b bs)
  then show ?case using touched_step [of i L b bs k] by (simp add: split_beta Let_def)
qed

definition stamped_as :: "lineage \<Rightarrow> context_block \<Rightarrow> bool" where
  "stamped_as L b \<longleftrightarrow>
     (\<exists>r. map_of L (block_match_key b) = Some r \<and> cb_first_seen_turn b = bl_first_seen_turn r
        \<and> cb_turns_survived b = bl_turns_survived r)"

lemma lineage_step_stamped:
  "\<exists>r. map_of (fst (lineage_step i L b)) (block_match_key b) = Some r \<and> bl_last_seen_turn r = i
     \<and> snd (lineage_step i L b) = stamp (bl_first_seen_turn r) (bl_turns_survived r) b"
  by (auto simp: lineage_step_touch Let_def split: option.splits)

lemma lineage_blocks_keep:
  assumes "map_of L k = Some r" "bl_last_seen_turn r = i"
  shows "map_of (fst (lineage_blocks i L bs)) k = Some r"
  using assms by (auto simp: map_of_lineage_blocks touched_def split: option.splits)

lemma lineage_blocks_stamped:
  "b \<in> set (snd (lineage_blocks i L bs)) \<Longrightarrow> stamped_as (fst (lineage_blocks i L bs)) b"
proof (induction bs arbitrary: L)
  case Nil
  then show ?case by simp
next
  case (Cons c bs)
  obtain r where r: "map_of (fst (lineage_step i L c)) (block_match_key c) = Some r"
    "bl_last_seen_turn r = i"
    "snd (lineage_step i L c) = stamp (bl_first_seen_turn r) (bl_turns_survived r) c"
    using lineage_step_stamped by blast
  show ?case
    using Cons.prems Cons.IH lineage_blocks_keep [OF r(1,2), of bs] r(3)
    by (auto simp: split_beta Let_def stamped_as_def)
qed

subsection \<open>Specification of the lineage\<close>

definition has_key :: "block_key \<Rightarrow> canonical_turn \<Rightarrow> bool" where
  "has_key k t \<longleftrightarrow> k \<in> block_match_key ` set (all_blocks t)"

definition key_hash :: "block_key \<Rightarrow> canonical_turn \<Rightarrow> string option" where
  "key_hash k t = map_option cb_content_hash (first_with k (all_blocks t))"

lemma key_hash_None: "key_hash k t = None \<longleftrightarrow> \<not> has_key k t"
  by (simp add: key_hash_def has_key_def first_with_None)

text \<open>
  Newest turn first: the number of immediately preceding turns in which the key was present
  with the same content hash.
\<close>

fun streak :: "block_key \<Rightarrow> canonical_turn list \<Rightarrow> int" where
  "streak k (t # u # ts) =
     (if ct_turn_index u = ct_turn_index t - 1 \<and> key_hash k u = key_hash k t
      then streak k (u # ts) + 1 else 0)"
| "streak k _ = 0"

text \<open>The record of a key after the turns \<open>ts\<close> (oldest first).\<close>

definition record_ok :: "canonical_turn list \<Rightarrow> block_key \<Rightarrow> block_lineage option \<Rightarrow> bool" where
  "record_ok ts k old \<longleftrightarrow>
     (case old of
        None \<Rightarrow> filter (has_key k) ts = []
      | Some r \<Rightarrow>
          filter (has_key k) ts \<noteq> []
          \<and> bl_seen_turns r = map ct_turn_index (filter (has_key k) ts)
          \<and> bl_first_seen_turn r = ct_turn_index (hd (filter (has_key k) ts))
          \<and> bl_last_seen_turn r = ct_turn_index (last (filter (has_key k) ts))
          \<and> Some (bl_content_hash r) = key_hash k (last (filter (has_key k) ts))
          \<and> bl_turns_survived r = streak k (dropWhile (\<lambda>t. \<not> has_key k t) (rev ts)))"

definition lineage_ok :: "canonical_turn list \<Rightarrow> lineage \<Rightarrow> bool" where
  "lineage_ok ts L \<longleftrightarrow> (\<forall>k. record_ok ts k (map_of L k))"

definition increasing :: "canonical_turn list \<Rightarrow> bool" where
  "increasing ts \<longleftrightarrow> sorted_wrt (\<lambda>t u. ct_turn_index t < ct_turn_index u) ts"

lemma increasing_snoc:
  "increasing (ts @ [t]) \<longleftrightarrow> increasing ts \<and> (\<forall>u\<in>set ts. ct_turn_index u < ct_turn_index t)"
  by (simp add: increasing_def sorted_wrt_append)

lemma record_ok_skip:
  "record_ok ts k old \<Longrightarrow> \<not> has_key k t \<Longrightarrow> record_ok (ts @ [t]) k old"
  by (simp add: record_ok_def split: option.splits)

lemma last_filter_prev:
  assumes "increasing (ts @ [t])" "filter P ts \<noteq> []"
    "ct_turn_index (last (filter P ts)) = ct_turn_index t - 1"
  shows "\<exists>us. ts = us @ [last (filter P ts)]"
proof -
  define m where "m = last (filter P ts)"
  have mem: "m \<in> set ts" using last_in_set [OF assms(2)] by (auto simp: m_def)
  have ne: "ts \<noteq> []" using assms(2) by auto
  then obtain us l where ts: "ts = us @ [l]" by (metis append_butlast_last_id)
  have inc: "increasing (us @ [l])" "ct_turn_index l < ct_turn_index t"
    using assms(1) [unfolded increasing_snoc] by (simp_all add: ts)
  have "m = l"
  proof (rule ccontr)
    assume "m \<noteq> l"
    with mem ts have "m \<in> set us" by auto
    with inc(1) have "ct_turn_index m < ct_turn_index l" by (simp add: increasing_snoc)
    moreover have "ct_turn_index m = ct_turn_index t - 1" unfolding m_def by (rule assms(3))
    ultimately show False using inc(2) by linarith
  qed
  with ts have "ts = us @ [m]" by simp
  then show ?thesis unfolding m_def by (rule exI)
qed

lemma streak_step:
  assumes inc: "increasing (ts @ [t])" and h: "has_key k t"
  shows "streak k (rev (ts @ [t])) =
     (if filter (has_key k) ts \<noteq> []
         \<and> ct_turn_index (last (filter (has_key k) ts)) = ct_turn_index t - 1
         \<and> key_hash k (last (filter (has_key k) ts)) = key_hash k t
      then streak k (dropWhile (\<lambda>t. \<not> has_key k t) (rev ts)) + 1 else 0)"
proof (cases "rev ts")
  case Nil
  then show ?thesis by simp
next
  case (Cons u us)
  then have ts: "ts = rev us @ [u]" by (metis rev.simps(2) rev_rev_ident)
  show ?thesis
  proof (cases "ct_turn_index u = ct_turn_index t - 1 \<and> key_hash k u = key_hash k t")
    case True
    with h have "has_key k u" by (metis key_hash_None)
    with True show ?thesis by (simp add: ts)
  next
    case False
    have neg: "\<not> (filter (has_key k) ts \<noteq> []
         \<and> ct_turn_index (last (filter (has_key k) ts)) = ct_turn_index t - 1
         \<and> key_hash k (last (filter (has_key k) ts)) = key_hash k t)"
    proof
      assume a: "filter (has_key k) ts \<noteq> []
         \<and> ct_turn_index (last (filter (has_key k) ts)) = ct_turn_index t - 1
         \<and> key_hash k (last (filter (has_key k) ts)) = key_hash k t"
      then have "last (filter (has_key k) ts) = u"
        using last_filter_prev [OF inc, of "has_key k"] by (auto simp: ts)
      with a False show False by simp
    qed
    have "streak k (rev (ts @ [t])) = 0" using False by (auto simp: ts)
    then show ?thesis by (simp only: if_not_P [OF neg])
  qed
qed

lemma record_ok_touch:
  assumes inc: "increasing (ts @ [t])" and ok: "record_ok ts k old"
    and b: "first_with k (all_blocks t) = Some b"
  shows "record_ok (ts @ [t]) k (Some (touch (ct_turn_index t) b old))"
proof -
  have h: "has_key k t" using b first_with_None [of k "all_blocks t"] by (auto simp: has_key_def)
  have kh: "key_hash k t = Some (cb_content_hash b)" by (simp add: key_hash_def b)
  have drop: "dropWhile (\<lambda>t. \<not> has_key k t) (rev (ts @ [t])) = rev (ts @ [t])" using h by simp
  have surv: "bl_turns_survived (touch (ct_turn_index t) b old) = streak k (rev (ts @ [t]))"
  proof (cases old)
    case None
    with ok have "filter (has_key k) ts = []" by (simp add: record_ok_def)
    with None show ?thesis
      by (simp add: streak_step [OF inc h] touch_def new_lineage_def del: rev_append)
  next
    case (Some r)
    with ok have r: "filter (has_key k) ts \<noteq> []"
      "bl_last_seen_turn r = ct_turn_index (last (filter (has_key k) ts))"
      "key_hash k (last (filter (has_key k) ts)) = Some (bl_content_hash r)"
      "bl_turns_survived r = streak k (dropWhile (\<lambda>t. \<not> has_key k t) (rev ts))"
      by (simp_all add: record_ok_def)
    show ?thesis
      by (simp add: streak_step [OF inc h] Some touch_def mark_seen_def r kh Let_def
          del: rev_append)
  qed
  show ?thesis
    using ok surv h kh
    by (auto simp: record_ok_def drop hd_append split: option.splits simp del: rev_append)
qed

lemma lineage_ok_turn:
  assumes inc: "increasing (ts @ [t])" and ok: "lineage_ok ts L"
  shows "lineage_ok (ts @ [t]) (fst (lineage_turn L t))"
proof -
  have f: "fst (lineage_turn L t) = fst (lineage_blocks (ct_turn_index t) L (all_blocks t))"
    by (metis fst_conv lineage_turn_blocks)
  have "record_ok (ts @ [t]) k (touched (ct_turn_index t) L (all_blocks t) k)" for k
  proof (cases "first_with k (all_blocks t)")
    case None
    then have "\<not> has_key k t" by (simp add: has_key_def first_with_None)
    with ok [unfolded lineage_ok_def, THEN spec, of k] None show ?thesis
      by (simp add: touched_def record_ok_skip)
  next
    case (Some b)
    have k: "record_ok ts k (map_of L k)" using ok unfolding lineage_ok_def by (rule spec)
    have "bl_last_seen_turn r \<noteq> ct_turn_index t" if "map_of L k = Some r" for r
    proof -
      have ne: "filter (has_key k) ts \<noteq> []"
        and l: "bl_last_seen_turn r = ct_turn_index (last (filter (has_key k) ts))"
        using k that by (simp_all add: record_ok_def)
      have "last (filter (has_key k) ts) \<in> set ts" using last_in_set [OF ne] by auto
      with inc l show ?thesis by (auto simp: increasing_snoc)
    qed
    then have "touched (ct_turn_index t) L (all_blocks t) k
        = Some (touch (ct_turn_index t) b (map_of L k))"
      using Some by (auto simp: touched_def split: option.splits)
    with record_ok_touch [OF inc k Some] show ?thesis by simp
  qed
  then show ?thesis by (simp add: lineage_ok_def f map_of_lineage_blocks)
qed

subsection \<open>A graph built turn by turn\<close>

definition add_turns :: "context_graph \<Rightarrow> canonical_turn list \<Rightarrow> context_graph" where
  "add_turns g ts = foldl (\<lambda>g t. fst (add_turn g t None)) g ts"

lemma add_turns_snoc: "add_turns g (ts @ [t]) = fst (add_turn (add_turns g ts) t None)"
  by (simp add: add_turns_def)

lemma graph_lineage_ok:
  "increasing ts \<Longrightarrow> lineage_ok ts (g_lineage (add_turns (new_graph sid) ts))"
proof (induction ts rule: rev_induct)
  case Nil
  then show ?case by (simp add: add_turns_def new_graph_def lineage_ok_def record_ok_def)
next
  case (snoc t ts)
  then have "lineage_ok ts (g_lineage (add_turns (new_graph sid) ts))"
    by (simp add: increasing_snoc)
  with snoc.prems show ?case by (simp add: add_turns_snoc add_turn_fields lineage_ok_turn)
qed

lemma stamp_meaning:
  assumes inc: "increasing (ts @ [t])" and ok: "lineage_ok ts L"
    and b: "b \<in> set (all_blocks (snd (lineage_turn L t)))"
  shows "cb_turns_survived b = streak (block_match_key b) (rev (ts @ [t]))
    \<and> cb_first_seen_turn b = ct_turn_index (hd (filter (has_key (block_match_key b)) (ts @ [t])))"
proof -
  let ?k = "block_match_key b"
  have st: "stamped_as (fst (lineage_turn L t)) b"
    using b lineage_blocks_stamped [of b "ct_turn_index t" L "all_blocks t"] lineage_turn_blocks [of L t]
    by (metis fst_conv snd_conv)
  have "map block_match_key (all_blocks (snd (lineage_turn L t))) = map block_match_key (all_blocks t)"
    using lineage_blocks_map [of block_match_key "ct_turn_index t" L "all_blocks t"]
      lineage_turn_blocks [of L t] by (metis snd_conv stamp_fields(1))
  then have h: "has_key ?k t" using b unfolding has_key_def by (metis image_eqI image_set)
  obtain r where r: "map_of (fst (lineage_turn L t)) ?k = Some r"
    "cb_first_seen_turn b = bl_first_seen_turn r" "cb_turns_survived b = bl_turns_survived r"
    using st by (auto simp: stamped_as_def)
  have drop: "dropWhile (\<lambda>t. \<not> has_key ?k t) (rev (ts @ [t])) = rev (ts @ [t])" using h by simp
  from lineage_ok_turn [OF inc ok, unfolded lineage_ok_def, THEN spec, of ?k]
  have "bl_turns_survived r = streak ?k (rev (ts @ [t]))
    \<and> bl_first_seen_turn r = ct_turn_index (hd (filter (has_key ?k) (ts @ [t])))"
    by (simp only: record_ok_def r(1) option.case drop)
  with r show ?thesis by simp
qed

lemma graph_deltas:
  "g_deltas (add_turns (new_graph sid) ts) = engine.deltas None (g_turns (add_turns (new_graph sid) ts))"
proof (induction ts rule: rev_induct)
  case Nil
  then show ?case by (simp add: add_turns_def new_graph_def)
next
  case (snoc t ts)
  then show ?case
    by (simp add: add_turns_snoc add_turn_fields engine.deltas_snoc last_turn_def)
qed

lemma graph_turns_map:
  assumes "\<And>L t. h (snd (lineage_turn L t)) = h t"
  shows "map h (g_turns (add_turns (new_graph sid) ts)) = map h ts"
proof (induction ts rule: rev_induct)
  case Nil
  then show ?case by (simp add: add_turns_def new_graph_def)
next
  case (snoc t ts)
  then show ?case by (simp add: add_turns_snoc add_turn_fields assms)
qed

lemma graph_growth:
  assumes "\<forall>t\<in>set ts. 0 < ct_input_tokens t"
  shows "sum_list (map td_token_growth (g_deltas (add_turns (new_graph sid) ts)))
    = (if ts = [] then 0 else ct_input_tokens (last ts))"
proof -
  let ?us = "g_turns (add_turns (new_graph sid) ts)"
  have m: "map ct_input_tokens ?us = map ct_input_tokens ts" by (rule graph_turns_map) simp
  then have "\<forall>t\<in>set ?us. 0 < ct_input_tokens t" using assms
    by (metis (no_types, lifting) image_eqI image_iff list.set_map)
  from engine.growth_telescopes [OF this] m show ?thesis
    by (simp add: graph_deltas) (metis last_map list.map_disc_iff)
qed

end
