(* ===== verification/Pricing.thy ===== *)
theory Pricing
  imports Schema
begin

text \<open>
  \<open>src/core/analyzer/cost/pricing_table.py\<close> and \<open>cost_model.py\<close>: the price catalog, the
  resolution of a model name to a catalog entry, and the cost of a turn. Rates and costs are
  binary64 values; every arithmetic step of the Python expression is rounded.
\<close>

record model_pricing =
  mp_model_name :: string
  mp_provider :: string
  mp_input_cost_per_1k :: rat
  mp_output_cost_per_1k :: rat
  mp_cache_write_cost_per_1k :: rat
  mp_cache_read_cost_per_1k :: rat
  mp_context_window :: int

definition pricing_entry :: "string \<Rightarrow> string \<Rightarrow> rat \<Rightarrow> rat \<Rightarrow> rat \<Rightarrow> rat \<Rightarrow> int
    \<Rightarrow> string \<times> model_pricing" where
  "pricing_entry name prov inp outp cw cr window =
     (name, \<lparr>mp_model_name = name, mp_provider = prov, mp_input_cost_per_1k = fl inp,
             mp_output_cost_per_1k = fl outp, mp_cache_write_cost_per_1k = fl cw,
             mp_cache_read_cost_per_1k = fl cr, mp_context_window = window\<rparr>)"

definition PRICING_CATALOG :: "(string, model_pricing) dict" where
  "PRICING_CATALOG =
     [pricing_entry ''claude-3-5-sonnet'' ''anthropic''
        (3/1000) (15/1000) (375/100000) (3/10000) 200000,
      pricing_entry ''claude-3-5-haiku'' ''anthropic''
        (8/10000) (4/1000) (1/1000) (8/100000) 200000,
      pricing_entry ''claude-3-opus'' ''anthropic''
        (15/1000) (75/1000) (1875/100000) (15/10000) 200000,
      pricing_entry ''gpt-4o'' ''openai''
        (25/10000) (10/1000) (25/10000) (125/100000) 128000,
      pricing_entry ''gpt-4o-mini'' ''openai''
        (15/100000) (6/10000) (15/100000) (75/1000000) 128000,
      pricing_entry ''o1'' ''openai''
        (15/1000) (60/1000) (15/1000) (75/10000) 200000,
      pricing_entry ''o1-mini'' ''openai''
        (3/1000) (12/1000) (3/1000) (15/10000) 128000,
      pricing_entry ''gemini-1.5-pro'' ''gemini''
        (125/100000) (5/1000) (125/100000) (3125/10000000) 2000000,
      pricing_entry ''gemini-1.5-flash'' ''gemini''
        (75/1000000) (3/10000) (75/1000000) (1875/100000000) 1000000,
      pricing_entry ''gemini-2.0-flash'' ''gemini''
        (1/10000) (4/10000) (25/1000000) (25/1000000) 1000000,
      pricing_entry ''gemini-2.5-pro'' ''gemini''
        (125/100000) (5/1000) (125/100000) (3125/10000000) 2000000]"

definition DEFAULT_PRICING :: model_pricing where
  "DEFAULT_PRICING = \<lparr>mp_model_name = ''default'', mp_provider = ''default'',
     mp_input_cost_per_1k = fl (3/1000), mp_output_cost_per_1k = fl (15/1000),
     mp_cache_write_cost_per_1k = fl (375/100000), mp_cache_read_cost_per_1k = fl (3/10000),
     mp_context_window = 200000\<rparr>"

text \<open>\<open>PRICING_CATALOG[key]\<close> for the keys the code writes out.\<close>

definition catalog :: "string \<Rightarrow> model_pricing" where
  "catalog k = dict_get PRICING_CATALOG k DEFAULT_PRICING"

definition normalize_model :: "string \<Rightarrow> string" where
  "normalize_model name = replace_char CHR ''.'' CHR ''-'' (str_lower (str_strip name))"

definition provider_fallback :: "string option \<Rightarrow> model_pricing" where
  "provider_fallback prov =
     (case prov of
        None \<Rightarrow> DEFAULT_PRICING
      | Some p \<Rightarrow>
          if p = [] then DEFAULT_PRICING
          else
            (let norm_prov = str_lower (str_strip p)
             in if str_in ''anthropic'' norm_prov then catalog ''claude-3-5-sonnet''
                else if str_in ''openai'' norm_prov then catalog ''gpt-4o''
                else if str_in ''gemini'' norm_prov \<or> str_in ''google'' norm_prov
                  then catalog ''gemini-1.5-pro''
                else DEFAULT_PRICING))"

definition get_pricing :: "string option \<Rightarrow> string option \<Rightarrow> model_pricing" where
  "get_pricing model_name prov =
     (case model_name of
        None \<Rightarrow> DEFAULT_PRICING
      | Some name \<Rightarrow>
          if name = [] then DEFAULT_PRICING
          else
            (let normalized = normalize_model name
             in case map_of PRICING_CATALOG normalized of
                  Some p \<Rightarrow> p
                | None \<Rightarrow>
                    (case find (\<lambda>kp. str_in (fst kp) normalized \<or> starts_with (fst kp) normalized)
                            PRICING_CATALOG of
                       Some kp \<Rightarrow> snd kp
                     | None \<Rightarrow> provider_fallback prov)))"

definition get_model_capacity :: "string option \<Rightarrow> string option \<Rightarrow> int" where
  "get_model_capacity model_name prov = mp_context_window (get_pricing model_name prov)"

subsection \<open>The cost model\<close>

definition per_1k :: "int \<Rightarrow> rat \<Rightarrow> rat" where
  "per_1k tokens rate = fmul (fdiv (float_of_int tokens) 1000) rate"

definition resolve_pricing :: "model_pricing option \<Rightarrow> string option \<Rightarrow> string option
    \<Rightarrow> model_pricing" where
  "resolve_pricing pricing model prov =
     (case pricing of Some p \<Rightarrow> p | None \<Rightarrow> get_pricing model prov)"

definition calculate_turn_cost :: "canonical_turn \<Rightarrow> model_pricing option \<Rightarrow> rat" where
  "calculate_turn_cost t pricing =
     (let rates = resolve_pricing pricing (Some (ct_model t)) (Some (ct_provider t));
          uncached = max 0 (ct_input_tokens t - ct_cached_read_tokens t);
          cost = fadd (fadd (fadd
                   (per_1k uncached (mp_input_cost_per_1k rates))
                   (per_1k (ct_cached_read_tokens t) (mp_cache_read_cost_per_1k rates)))
                   (per_1k (ct_cached_created_tokens t) (mp_cache_write_cost_per_1k rates)))
                   (per_1k (ct_output_tokens t) (mp_output_cost_per_1k rates))
      in py_round cost 6)"

definition calculate_wasted_spend :: "canonical_turn \<Rightarrow> rule_violation list option \<Rightarrow> rat" where
  "calculate_wasted_spend t violations =
     (let target = (case violations of Some vs \<Rightarrow> vs | None \<Rightarrow> ct_violations t)
      in if target = [] then 0
         else py_round (fsum (map rv_estimated_waste_usd target)) 6)"

definition calculate_token_waste :: "int \<Rightarrow> model_pricing option \<Rightarrow> string option \<Rightarrow> string option
    \<Rightarrow> rat" where
  "calculate_token_waste wasted_tokens pricing model prov =
     py_round (per_1k wasted_tokens (mp_input_cost_per_1k (resolve_pricing pricing model prov))) 6"

subsection \<open>Facts\<close>

definition pricing_ok :: "model_pricing \<Rightarrow> bool" where
  "pricing_ok p \<longleftrightarrow>
     0 < mp_input_cost_per_1k p \<and> 0 < mp_output_cost_per_1k p
     \<and> 0 < mp_cache_write_cost_per_1k p \<and> 0 < mp_cache_read_cost_per_1k p
     \<and> mp_cache_read_cost_per_1k p \<le> mp_input_cost_per_1k p
     \<and> mp_input_cost_per_1k p \<le> mp_output_cost_per_1k p
     \<and> 0 < mp_context_window p"

lemma pricing_entry_ok:
  "0 < cr \<Longrightarrow> cr \<le> i \<Longrightarrow> i \<le> c \<Longrightarrow> 0 < cw \<Longrightarrow> 0 < w \<Longrightarrow>
     pricing_ok (snd (pricing_entry n p i c cw cr w))"
  by (simp add: pricing_entry_def pricing_ok_def fl_mono)

lemma catalog_ok: "kp \<in> set PRICING_CATALOG \<Longrightarrow> pricing_ok (snd kp)"
  unfolding PRICING_CATALOG_def by (auto simp del: snd_conv intro!: pricing_entry_ok)

lemma DEFAULT_PRICING_ok: "pricing_ok DEFAULT_PRICING"
  by (simp add: DEFAULT_PRICING_def pricing_ok_def fl_mono)

lemma catalog_lookup_ok: "map_of PRICING_CATALOG k = Some p \<Longrightarrow> pricing_ok p"
  using catalog_ok by (fastforce dest: map_of_SomeD)

lemma catalog_get_ok: "pricing_ok (catalog k)"
  by (auto simp: catalog_def dict_get_def catalog_lookup_ok DEFAULT_PRICING_ok split: option.splits)

lemma provider_fallback_ok: "pricing_ok (provider_fallback p)"
  by (simp add: provider_fallback_def Let_def DEFAULT_PRICING_ok catalog_get_ok
      split: option.splits)

lemma catalog_find_ok: "find P PRICING_CATALOG = Some kp \<Longrightarrow> pricing_ok (snd kp)"
  by (intro catalog_ok) (auto dest: find_eq_SomeD)

lemma get_pricing_ok: "pricing_ok (get_pricing m p)"
  by (auto simp del: find_Some_iff
      simp: get_pricing_def Let_def DEFAULT_PRICING_ok provider_fallback_ok
      split: option.splits intro: catalog_lookup_ok dest: catalog_find_ok)

lemma pricing_ok_nonneg:
  assumes "pricing_ok p"
  shows "0 \<le> mp_input_cost_per_1k p" "0 \<le> mp_output_cost_per_1k p"
    "0 \<le> mp_cache_write_cost_per_1k p" "0 \<le> mp_cache_read_cost_per_1k p"
  using assms by (simp_all add: pricing_ok_def)

lemma per_1k_nonneg [fl_nonneg]: "0 \<le> n \<Longrightarrow> 0 \<le> r \<Longrightarrow> 0 \<le> per_1k n r"
  by (simp add: per_1k_def fl_nonneg)

lemma per_1k_mono: "m \<le> n \<Longrightarrow> 0 \<le> r \<Longrightarrow> per_1k m r \<le> per_1k n r"
  unfolding per_1k_def fmul_def fdiv_def float_of_int_def
  by (intro fl_mono mult_right_mono divide_right_mono of_int_rat_le) simp_all

lemma fadd_mono: "a \<le> b \<Longrightarrow> c \<le> d \<Longrightarrow> fadd a c \<le> fadd b d"
  unfolding fadd_def by (intro fl_mono add_mono)

lemmas pricing_nonneg = get_pricing_ok [THEN pricing_ok_nonneg(1)]
  get_pricing_ok [THEN pricing_ok_nonneg(2)] get_pricing_ok [THEN pricing_ok_nonneg(3)]
  get_pricing_ok [THEN pricing_ok_nonneg(4)]

lemma turn_cost_nonneg:
  assumes "pricing_ok r" "0 \<le> ct_cached_read_tokens t" "0 \<le> ct_cached_created_tokens t"
    "0 \<le> ct_output_tokens t"
  shows "0 \<le> calculate_turn_cost t (Some r)"
  unfolding calculate_turn_cost_def Let_def resolve_pricing_def option.case
  using assms pricing_ok_nonneg [OF assms(1)]
  by (intro py_round_nonneg fadd_nonneg per_1k_nonneg) simp_all

text \<open>Serving more of a prompt from the cache never raises the price of a turn.\<close>

lemma turn_cost_mono:
  assumes "pricing_ok r"
    and "max 0 (ct_input_tokens t - ct_cached_read_tokens t)
           \<le> max 0 (ct_input_tokens u - ct_cached_read_tokens u)"
    and "ct_cached_read_tokens t \<le> ct_cached_read_tokens u"
    and "ct_cached_created_tokens t \<le> ct_cached_created_tokens u"
    and "ct_output_tokens t \<le> ct_output_tokens u"
  shows "calculate_turn_cost t (Some r) \<le> calculate_turn_cost u (Some r)"
  unfolding calculate_turn_cost_def Let_def resolve_pricing_def option.case
  using assms pricing_ok_nonneg [OF assms(1)]
  by (intro py_round_mono fadd_mono per_1k_mono) simp_all

lemma wasted_spend_nonneg:
  assumes "\<And>v. v \<in> set vs \<Longrightarrow> 0 \<le> rv_estimated_waste_usd v"
  shows "0 \<le> calculate_wasted_spend t (Some vs)"
proof -
  have "0 \<le> fsum (map rv_estimated_waste_usd vs)" using assms by (intro fsum_nonneg) auto
  then show ?thesis by (simp add: calculate_wasted_spend_def Let_def py_round_nonneg)
qed

text \<open>Name resolution. A catalog key with a dot can never match a normalised name.\<close>

lemma replace_char_gone: "a \<noteq> b \<Longrightarrow> a \<notin> set (replace_char a b s)"
  by (auto simp: replace_char_def)

lemma normalize_model_no_dot: "CHR ''.'' \<notin> set (normalize_model s)"
  unfolding normalize_model_def by (rule replace_char_gone) simp

lemma catalog_fst: "map fst PRICING_CATALOG =
  [''claude-3-5-sonnet'', ''claude-3-5-haiku'', ''claude-3-opus'', ''gpt-4o'', ''gpt-4o-mini'',
   ''o1'', ''o1-mini'', ''gemini-1.5-pro'', ''gemini-1.5-flash'', ''gemini-2.0-flash'',
   ''gemini-2.5-pro'']"
  by (simp add: PRICING_CATALOG_def pricing_entry_def)

lemma catalog_name: "kp \<in> set PRICING_CATALOG \<Longrightarrow> mp_model_name (snd kp) = fst kp"
  by (auto simp: PRICING_CATALOG_def pricing_entry_def)

lemma dotted_key_unreachable:
  assumes "CHR ''.'' \<in> set k"
  shows "k \<noteq> normalize_model s \<and> \<not> str_in k (normalize_model s)"
  using assms normalize_model_no_dot [of s] str_in_set [of k "normalize_model s"] by auto

lemma dotted_only_by_fallback:
  assumes "CHR ''.'' \<in> set (mp_model_name (get_pricing (Some name) prov))"
  shows "get_pricing (Some name) prov = provider_fallback prov"
proof -
  have exact: "CHR ''.'' \<notin> set (mp_model_name p)"
    if "map_of PRICING_CATALOG (normalize_model name) = Some p" for p
    using that catalog_name dotted_key_unreachable [of "normalize_model name" name]
    by (fastforce dest!: map_of_SomeD)
  have sub: "CHR ''.'' \<notin> set (mp_model_name (snd kp))"
    if "find (\<lambda>kp. str_in (fst kp) (normalize_model name) \<or> starts_with (fst kp) (normalize_model name))
          PRICING_CATALOG = Some kp" for kp
  proof -
    have "kp \<in> set PRICING_CATALOG"
      and h: "str_in (fst kp) (normalize_model name) \<or> starts_with (fst kp) (normalize_model name)"
      using that by (auto dest!: find_eq_SomeD)
    moreover from h have "str_in (fst kp) (normalize_model name)"
      by (auto simp: str_in_iff starts_with_iff) (metis append_Nil)
    ultimately show ?thesis using catalog_name dotted_key_unreachable by metis
  qed
  have d: "mp_model_name DEFAULT_PRICING = ''default''" by (simp add: DEFAULT_PRICING_def)
  show ?thesis
  proof (cases "name = []")
    case True
    with assms d show ?thesis by (simp add: get_pricing_def)
  next
    case False
    with assms exact sub show ?thesis
      by (auto simp: get_pricing_def Let_def split: option.splits)
  qed
qed

text \<open>Resolution by names only, so that examples need not evaluate the rates.\<close>

definition catalog_names :: "string list" where
  "catalog_names = map fst PRICING_CATALOG"

lemma get_pricing_no_match:
  assumes "name \<noteq> []" "list_all (\<lambda>k. \<not> str_in k (normalize_model name)) catalog_names"
  shows "get_pricing (Some name) prov = provider_fallback prov"
proof -
  have no: "\<not> str_in (fst kp) (normalize_model name)" if "kp \<in> set PRICING_CATALOG" for kp
    using assms(2) that by (auto simp: catalog_names_def list_all_iff)
  have "map_of PRICING_CATALOG (normalize_model name) = None"
  proof (cases "map_of PRICING_CATALOG (normalize_model name)")
    case (Some p)
    from no [OF map_of_SomeD [OF this]] show ?thesis by simp
  qed
  moreover have "find (\<lambda>kp. str_in (fst kp) (normalize_model name)
      \<or> starts_with (fst kp) (normalize_model name)) PRICING_CATALOG = None"
    using no starts_with_in by (simp add: find_eq_None) blast
  ultimately show ?thesis using assms(1) by (simp add: get_pricing_def Let_def)
qed

lemma catalog_model_name: "k \<in> set catalog_names \<Longrightarrow> mp_model_name (catalog k) = k"
  by (auto simp: catalog_names_def catalog_def dict_get_def PRICING_CATALOG_def pricing_entry_def)

end
