(* ===== verification/Difflib.thy ===== *)
theory Difflib
  imports PyFloat
begin

text \<open>
  \<open>difflib.SequenceMatcher(None, a, b).ratio()\<close> of the Python standard library, which the rules
  CTX-003 and CTX-004 use as their similarity measure: the autojunk heuristic for long
  sequences, the longest-match search, the recursion on both sides of the match and the ratio.
\<close>

subsection \<open>The longest match\<close>

text \<open>\<open>b2j\<close>: the indices of a character in \<open>b\<close>, without the popular characters of a long \<open>b\<close>.\<close>

definition indices_of :: "'a list \<Rightarrow> 'a \<Rightarrow> nat list" where
  "indices_of b c = filter (\<lambda>j. b ! j = c) [0..<length b]"

definition b2j :: "'a list \<Rightarrow> 'a \<Rightarrow> nat list" where
  "b2j b c =
     (let js = indices_of b c; n = length b
      in if 200 \<le> n \<and> n div 100 + 1 < length js then [] else js)"

text \<open>
  One row of the dynamic program: \<open>j2len\<close> is an association list from \<open>j\<close> to the length of the
  match that ends at \<open>a[i-1]\<close>, \<open>b[j]\<close>; the best match so far is threaded through.
\<close>

type_synonym match = "nat \<times> nat \<times> nat"

fun flm_row :: "nat \<Rightarrow> nat \<Rightarrow> nat \<Rightarrow> (nat \<times> nat) list \<Rightarrow> nat list \<Rightarrow> (nat \<times> nat) list \<times> match
    \<Rightarrow> (nat \<times> nat) list \<times> match" where
  "flm_row i blo bhi j2len [] st = st"
| "flm_row i blo bhi j2len (j # js) (newj2len, best) =
     (if j < blo then flm_row i blo bhi j2len js (newj2len, best)
      else if bhi \<le> j then (newj2len, best)
      else
        (let k = (if j = 0 then 0 else (case map_of j2len (j - 1) of None \<Rightarrow> 0 | Some l \<Rightarrow> l)) + 1;
             best' = (if snd (snd best) < k then (i + 1 - k, j + 1 - k, k) else best)
         in flm_row i blo bhi j2len js ((j, k) # newj2len, best')))"

fun flm_rows :: "'a list \<Rightarrow> 'a list \<Rightarrow> nat \<Rightarrow> nat \<Rightarrow> nat list \<Rightarrow> (nat \<times> nat) list \<Rightarrow> match
    \<Rightarrow> match" where
  "flm_rows a b blo bhi [] j2len best = best"
| "flm_rows a b blo bhi (i # is) j2len best =
     (let (j2len', best') = flm_row i blo bhi j2len (b2j b (a ! i)) ([], best)
      in flm_rows a b blo bhi is j2len' best')"

text \<open>The two extension loops (the junk loops never run: there is no junk predicate).\<close>

fun extend_left :: "'a list \<Rightarrow> 'a list \<Rightarrow> nat \<Rightarrow> nat \<Rightarrow> match \<Rightarrow> match" where
  "extend_left a b alo blo (0, j, k) = (0, j, k)"
| "extend_left a b alo blo (Suc i, j, k) =
     (if alo < Suc i \<and> blo < j \<and> a ! i = b ! (j - 1)
      then extend_left a b alo blo (i, j - 1, k + 1) else (Suc i, j, k))"

function extend_right :: "'a list \<Rightarrow> 'a list \<Rightarrow> nat \<Rightarrow> nat \<Rightarrow> match \<Rightarrow> match" where
  "extend_right a b ahi bhi (i, j, k) =
     (if i + k < ahi \<and> j + k < bhi \<and> a ! (i + k) = b ! (j + k)
      then extend_right a b ahi bhi (i, j, k + 1) else (i, j, k))"
  by pat_completeness auto
termination
  by (relation "measure (\<lambda>(a, b, ahi, bhi, (i, j, k)). ahi - (i + k))") auto

declare extend_right.simps [simp del]

definition find_longest_match :: "'a list \<Rightarrow> 'a list \<Rightarrow> nat \<Rightarrow> nat \<Rightarrow> nat \<Rightarrow> nat \<Rightarrow> match" where
  "find_longest_match a b alo ahi blo bhi =
     extend_right a b ahi bhi
       (extend_left a b alo blo (flm_rows a b blo bhi [alo..<ahi] [] (alo, blo, 0)))"

text \<open>A match lies inside the window.\<close>

definition in_window :: "nat \<Rightarrow> nat \<Rightarrow> nat \<Rightarrow> nat \<Rightarrow> match \<Rightarrow> bool" where
  "in_window alo ahi blo bhi m \<longleftrightarrow>
     (case m of (i, j, k) \<Rightarrow> alo \<le> i \<and> i + k \<le> ahi \<and> blo \<le> j \<and> j + k \<le> bhi)"

lemma flm_row_window:
  assumes "in_window alo ahi blo bhi best" "alo \<le> i" "i < ahi"
    and "\<And>j l. (j, l) \<in> set j2len \<Longrightarrow> l \<le> i - alo \<and> l \<le> j + 1 - blo \<and> blo \<le> j"
    and "\<And>j l. (j, l) \<in> set new \<Longrightarrow> l \<le> i + 1 - alo \<and> l \<le> j + 1 - blo \<and> blo \<le> j"
    and "flm_row i blo bhi j2len js (new, best) = (new', best')"
  shows "in_window alo ahi blo bhi best'
    \<and> (\<forall>(j, l)\<in>set new'. l \<le> i + 1 - alo \<and> l \<le> j + 1 - blo \<and> blo \<le> j)"
  using assms
proof (induction js arbitrary: new best)
  case Nil
  then show ?case by auto
next
  case (Cons j js)
  define k where "k = (if j = 0 then 0 else (case map_of j2len (j - 1) of None \<Rightarrow> 0 | Some l \<Rightarrow> l)) + 1"
  have k: "k \<le> i + 1 - alo \<and> k \<le> j + 1 - blo" if "blo \<le> j"
  proof (cases "j = 0 \<or> map_of j2len (j - 1) = None")
    case True
    then have "k = 1" by (auto simp: k_def)
    then show ?thesis using that Cons.prems(2) by linarith
  next
    case False
    then obtain l where l: "j \<noteq> 0" "map_of j2len (j - 1) = Some l" by auto
    then have "l \<le> i - alo \<and> l \<le> (j - 1) + 1 - blo \<and> blo \<le> j - 1"
      by (intro Cons.prems(4)) (rule map_of_SomeD)
    with l Cons.prems(2) show ?thesis by (auto simp: k_def)
  qed
  show ?case
  proof (cases "j < blo")
    case True
    then show ?thesis
      using Cons.IH [OF Cons.prems(1-3) Cons.prems(4) Cons.prems(5)] Cons.prems(6) by auto
  next
    case ge: False
    show ?thesis
    proof (cases "bhi \<le> j")
      case True
      with ge Cons.prems show ?thesis by auto
    next
      case False
      let ?b = "if snd (snd best) < k then (i + 1 - k, j + 1 - k, k) else best"
      have b: "in_window alo ahi blo bhi ?b"
        using Cons.prems(1-3) k ge False by (auto simp: in_window_def)
      have "flm_row i blo bhi j2len js ((j, k) # new, ?b) = (new', best')"
        using Cons.prems(6) ge False by (simp only: flm_row.simps if_False Let_def k_def)
      then show ?thesis
        using b k ge Cons.prems(2-5) by (intro Cons.IH) auto
    qed
  qed
qed

lemma flm_rows_window:
  assumes "in_window alo ahi blo bhi best" "alo \<le> lo" "hi \<le> ahi"
    and "\<And>j l. (j, l) \<in> set j2len \<Longrightarrow> l \<le> lo - alo \<and> l \<le> j + 1 - blo \<and> blo \<le> j"
  shows "in_window alo ahi blo bhi (flm_rows a b blo bhi [lo..<hi] j2len best)"
  using assms
proof (induction "hi - lo" arbitrary: lo j2len best)
  case 0
  then show ?case by simp
next
  case (Suc n)
  then have up: "[lo..<hi] = lo # [Suc lo..<hi]" by (simp add: upt_conv_Cons)
  obtain new best' where r: "flm_row lo blo bhi j2len (b2j b (a ! lo)) ([], best) = (new, best')"
    by (cases "flm_row lo blo bhi j2len (b2j b (a ! lo)) ([], best)") auto
  have lt: "lo < ahi" using Suc.hyps(2) Suc.prems(3) by simp
  have "in_window alo ahi blo bhi best'
    \<and> (\<forall>(j, l)\<in>set new. l \<le> lo + 1 - alo \<and> l \<le> j + 1 - blo \<and> blo \<le> j)"
    by (rule flm_row_window [OF Suc.prems(1,2) lt Suc.prems(4) _ r]) auto
  then have "in_window alo ahi blo bhi (flm_rows a b blo bhi [Suc lo..<hi] new best')"
    using Suc.hyps(2) Suc.prems(2,3) by (intro Suc.hyps(1)) auto
  then show ?case by (simp add: up r)
qed

lemma extend_left_window:
  "in_window alo ahi blo bhi m \<Longrightarrow> in_window alo ahi blo bhi (extend_left a b alo blo m)"
  by (induction a b alo blo m rule: extend_left.induct) (auto simp: in_window_def)

lemma extend_right_window:
  "in_window alo ahi blo bhi m \<Longrightarrow> in_window alo ahi blo bhi (extend_right a b ahi bhi m)"
  by (induction a b ahi bhi m rule: extend_right.induct)
    (subst extend_right.simps, auto simp: in_window_def)

lemma find_longest_match_window:
  "alo \<le> ahi \<Longrightarrow> blo \<le> bhi \<Longrightarrow> in_window alo ahi blo bhi (find_longest_match a b alo ahi blo bhi)"
  unfolding find_longest_match_def
  by (intro extend_right_window extend_left_window flm_rows_window) (auto simp: in_window_def)

subsection \<open>The ratio\<close>

text \<open>
  The sum of the sizes of the matching blocks. The code keeps a queue of windows; the sum does
  not depend on the order in which the windows are visited.
\<close>

function match_count :: "'a list \<Rightarrow> 'a list \<Rightarrow> nat \<Rightarrow> nat \<Rightarrow> nat \<Rightarrow> nat \<Rightarrow> nat" where
  "match_count a b alo ahi blo bhi =
     (if ahi < alo \<or> bhi < blo then 0
      else
        (let (i, j, k) = find_longest_match a b alo ahi blo bhi
         in if k = 0 then 0
            else k
                 + (if alo < i \<and> blo < j then match_count a b alo i blo j else 0)
                 + (if i + k < ahi \<and> j + k < bhi
                    then match_count a b (i + k) ahi (j + k) bhi else 0)))"
  by pat_completeness auto
termination
proof (relation "measure (\<lambda>(a, b, alo, ahi, blo, bhi). ahi - alo)", goal_cases)
  case 1
  show ?case by simp
next
  case (2 a b alo ahi blo bhi m i jk j k)
  then show ?case
    using find_longest_match_window [of alo ahi blo bhi a b] by (auto simp: in_window_def)
next
  case (3 a b alo ahi blo bhi m i jk j k)
  then show ?case
    using find_longest_match_window [of alo ahi blo bhi a b] by (auto simp: in_window_def)
qed

declare match_count.simps [simp del]

lemma match_count_bound:
  "match_count a b alo ahi blo bhi \<le> ahi - alo \<and> match_count a b alo ahi blo bhi \<le> bhi - blo"
proof (induction a b alo ahi blo bhi rule: match_count.induct)
  case (1 a b alo ahi blo bhi)
  show ?case
  proof (cases "ahi < alo \<or> bhi < blo")
    case True
    then show ?thesis by (subst (1 2) match_count.simps) simp
  next
    case False
    obtain i j k where m: "find_longest_match a b alo ahi blo bhi = (i, j, k)"
      by (cases "find_longest_match a b alo ahi blo bhi") auto
    have w: "alo \<le> i" "i + k \<le> ahi" "blo \<le> j" "j + k \<le> bhi"
      using find_longest_match_window [of alo ahi blo bhi a b] False by (auto simp: in_window_def m)
    show ?thesis
    proof (cases "k = 0")
      case True
      then show ?thesis using False by (subst (1 2) match_count.simps) (simp add: m)
    next
      case k: False
      let ?l = "if alo < i \<and> blo < j then match_count a b alo i blo j else 0"
      let ?r = "if i + k < ahi \<and> j + k < bhi then match_count a b (i + k) ahi (j + k) bhi else 0"
      have "?l \<le> i - alo \<and> ?l \<le> j - blo" "?r \<le> ahi - (i + k) \<and> ?r \<le> bhi - (j + k)"
        using "1.IH" [OF False m [symmetric] refl refl k] by auto
      moreover have "match_count a b alo ahi blo bhi = k + ?l + ?r"
        using False k by (subst match_count.simps) (simp add: m)
      ultimately show ?thesis using w by (simp only:) linarith
    qed
  qed
qed

definition ratio :: "'a list \<Rightarrow> 'a list \<Rightarrow> rat" where
  "ratio a b =
     (let total = length a + length b
      in if total = 0 then 1
         else fdiv (fmul 2 (float_of_int (int (match_count a b 0 (length a) 0 (length b)))))
                (float_of_int (int total)))"

lemma ratio_nonneg: "0 \<le> ratio a b"
  by (simp add: ratio_def Let_def fdiv_nonneg fmul_nonneg float_of_int_nonneg)

lemma ratio_le_1:
  assumes "length a + length b \<le> 2 ^ 52"
  shows "ratio a b \<le> 1"
proof (cases "length a + length b = 0")
  case True
  then show ?thesis by (simp add: ratio_def)
next
  case False
  let ?m = "match_count a b 0 (length a) 0 (length b)"
  have m: "2 * ?m \<le> length a + length b"
    using match_count_bound [of a b 0 "length a" 0 "length b"] by linarith
  have "\<bar>int ?m\<bar> \<le> 2 ^ 53" "\<bar>2 * int ?m\<bar> \<le> 2 ^ 53" "\<bar>int (length a + length b)\<bar> \<le> 2 ^ 53"
    using m assms by (simp_all add: abs_le_iff)
  then have "float_of_int (int ?m) = of_int (int ?m)"
    "fl (of_int (2 * int ?m)) = of_int (2 * int ?m)"
    "float_of_int (int (length a + length b)) = of_int (int (length a + length b))"
    unfolding float_of_int_def by (simp_all only: fl_of_int)
  then have "ratio a b = fl (of_int (2 * int ?m) / of_int (int (length a + length b)))"
    using False by (simp add: ratio_def Let_def fdiv_def fmul_def)
  also have "\<dots> \<le> fl 1"
  proof (rule fl_mono)
    have "(of_int (2 * int ?m) :: rat) \<le> of_int (int (length a + length b))"
      using m by (intro of_int_rat_le) linarith
    moreover have "(0 :: rat) < of_int (int (length a + length b))"
      using False by (metis of_int_0_less_iff of_nat_0_less_iff not_gr_zero)
    ultimately show "of_int (2 * int ?m) / of_int (int (length a + length b)) \<le> (1 :: rat)"
      by (simp only: divide_le_eq_1_pos)
  qed
  finally show ?thesis by simp
qed

end
