(* ===== verification/HeuristicBase.thy ===== *)
theory HeuristicBase
  imports TurnGraph Pricing Difflib
begin

text \<open>
  \<open>src/core/analyzer/heuristics/base.py\<close>: the interface of a pollution rule, as a function from
  the turn, the optional graph and the optional list of previous turns to the violations it
  reports. \<open>analyze\<close> returns \<open>Inl\<close> when the Python code would raise. The locale \<open>heuristic\<close>
  states the contract that the analyzer relies on; each rule theory interprets it.
\<close>

type_synonym heuristic_fn =
  "canonical_turn \<Rightarrow> context_graph option \<Rightarrow> canonical_turn list option \<Rightarrow> rule_violation list res"

definition resolve_previous_turns :: "canonical_turn \<Rightarrow> context_graph option
    \<Rightarrow> canonical_turn list option \<Rightarrow> canonical_turn list" where
  "resolve_previous_turns turn graph previous =
     (case previous of
        Some ps \<Rightarrow> ps
      | None \<Rightarrow>
          (case graph of
             Some g \<Rightarrow> filter (\<lambda>t. ct_turn_index t < ct_turn_index turn) (g_turns g)
           | None \<Rightarrow> []))"

definition turn_pricing :: "canonical_turn \<Rightarrow> model_pricing" where
  "turn_pricing t = get_pricing (Some (ct_model t)) (Some (ct_provider t))"

definition contents :: "context_block list \<Rightarrow> string list" where
  "contents bs = map cb_content bs"

text \<open>\<open>round((tokens / 1000.0) * rate, 6)\<close>.\<close>

definition token_waste :: "int \<Rightarrow> rat \<Rightarrow> rat" where
  "token_waste tokens rate = py_round (per_1k tokens rate) 6"

text \<open>\<open>turn.input_tokens or sum(b.token_count for b in turn.all_blocks)\<close>.\<close>

definition effective_input_tokens :: "canonical_turn \<Rightarrow> int" where
  "effective_input_tokens t =
     (if ct_input_tokens t \<noteq> 0 then ct_input_tokens t else sum_tokens (all_blocks t))"

text \<open>The token counts of a turn are counts.\<close>

definition counts_ok :: "canonical_turn \<Rightarrow> bool" where
  "counts_ok t \<longleftrightarrow>
     0 \<le> ct_input_tokens t \<and> 0 \<le> ct_output_tokens t \<and> 0 \<le> ct_cached_read_tokens t
     \<and> 0 \<le> ct_cached_created_tokens t \<and> (\<forall>b\<in>set (all_blocks t). 0 \<le> cb_token_count b)"

definition block_ids :: "canonical_turn \<Rightarrow> string set" where
  "block_ids t = cb_block_id ` set (all_blocks t)"

text \<open>What a violation must satisfy.\<close>

definition violation_ok :: "string \<Rightarrow> canonical_turn \<Rightarrow> canonical_turn list \<Rightarrow> rule_violation \<Rightarrow> bool"
  where
  "violation_ok rid t prev v \<longleftrightarrow>
     rv_rule_id v = rid
     \<and> rv_block_ids v \<noteq> []
     \<and> set (rv_block_ids v) \<subseteq> block_ids t \<union> (\<Union>p\<in>set prev. block_ids p)
     \<and> (counts_ok t \<and> (\<forall>p\<in>set prev. counts_ok p) \<longrightarrow> 0 \<le> rv_estimated_waste_usd v)"

locale heuristic =
  fixes analyze :: heuristic_fn
    and rid :: string
  assumes sound: "analyze t g p = Inr vs \<Longrightarrow> v \<in> set vs \<Longrightarrow>
    violation_ok rid t (resolve_previous_turns t g p) v"
begin

lemma rule_id: "analyze t g p = Inr vs \<Longrightarrow> v \<in> set vs \<Longrightarrow> rv_rule_id v = rid"
  using sound by (simp add: violation_ok_def)

lemma culprit_exists:
  "analyze t g p = Inr vs \<Longrightarrow> v \<in> set vs \<Longrightarrow>
     \<exists>u\<in>insert t (set (resolve_previous_turns t g p)). \<exists>b\<in>set (all_blocks u). cb_block_id b \<in> set (rv_block_ids v)"
proof -
  assume "analyze t g p = Inr vs" "v \<in> set vs"
  then have v: "rv_block_ids v \<noteq> []"
    "set (rv_block_ids v) \<subseteq> block_ids t \<union> (\<Union>q\<in>set (resolve_previous_turns t g p). block_ids q)"
    using sound by (simp_all add: violation_ok_def)
  from v(1) obtain i where i: "i \<in> set (rv_block_ids v)" by (cases "rv_block_ids v") auto
  with v(2) show ?thesis by (auto simp: block_ids_def)
qed

lemma total_waste_nonneg:
  assumes "analyze t g p = Inr vs" "counts_ok t"
    "\<forall>q\<in>set (resolve_previous_turns t g p). counts_ok q"
  shows "0 \<le> fsum (map rv_estimated_waste_usd vs)"
  using assms sound by (intro fsum_nonneg) (auto simp: violation_ok_def)

end

lemma token_waste_nonneg [fl_nonneg]: "0 \<le> n \<Longrightarrow> 0 \<le> r \<Longrightarrow> 0 \<le> token_waste n r"
  by (simp add: token_waste_def py_round_nonneg per_1k_nonneg)

lemma sum_tokens_nonneg: "(\<And>b. b \<in> set bs \<Longrightarrow> 0 \<le> cb_token_count b) \<Longrightarrow> 0 \<le> sum_tokens bs"
  unfolding sum_tokens_def by (rule sum_list_nonneg) auto

lemma turn_pricing_ok [simp]: "pricing_ok (turn_pricing t)"
  by (simp add: turn_pricing_def get_pricing_ok)

lemmas rate_nonneg [simp] = turn_pricing_ok [THEN pricing_ok_nonneg(1)]
  turn_pricing_ok [THEN pricing_ok_nonneg(4)]

lemma counts_ok_results: "counts_ok t \<Longrightarrow> b \<in> set (ct_tool_results t) \<Longrightarrow> 0 \<le> cb_token_count b"
  by (simp add: counts_ok_def all_blocks_def)

lemma counts_ok_effective: "counts_ok t \<Longrightarrow> 0 \<le> effective_input_tokens t"
  by (simp add: effective_input_tokens_def counts_ok_def sum_tokens_nonneg)

lemma result_id: "b \<in> set (ct_tool_results t) \<Longrightarrow> cb_block_id b \<in> block_ids t"
  by (simp add: block_ids_def all_blocks_def)

end
