(* ===== verification/ContextRules.thy ===== *)
theory ContextRules
  imports HeuristicBase
begin

text \<open>
  The rules over tool payloads: CTX-001 \<open>ctx001_stale_tool.py\<close>, CTX-002 \<open>ctx002_schema_bloat.py\<close>
  and CTX-003 \<open>ctx003_error_loop.py\<close>. \<open>json.loads\<close> is the parameter \<open>loads\<close> (\<open>None\<close> is a
  \<open>JSONDecodeError\<close>).
\<close>

subsection \<open>CTX-001: stale tool output\<close>

record stale_cfg =
  st_min_tokens :: int
  st_min_turns :: int

definition stale_default :: stale_cfg where
  "stale_default = \<lparr>st_min_tokens = 3000, st_min_turns = 3\<rparr>"

definition recent_assistant_text :: "canonical_turn list \<Rightarrow> canonical_turn \<Rightarrow> string" where
  "recent_assistant_text prev turn =
     str_join '' '' (contents (concat (map ct_assistant_blocks (slice_from (- 2) prev))))
     @ (if ct_assistant_blocks turn \<noteq> []
        then '' '' @ str_join '' '' (contents (ct_assistant_blocks turn)) else [])"

definition stale_is_stale :: "stale_cfg \<Rightarrow> canonical_turn list \<Rightarrow> context_block \<Rightarrow> bool res" where
  "stale_is_stale cfg prev r =
     (if st_min_turns cfg \<le> cb_turns_survived r then Inr True
      else if st_min_turns cfg \<le> int (length prev) then
        rbind (py_index prev (- st_min_turns cfg)) (\<lambda>older.
          Inr (\<exists>t\<in>set (ct_tool_results older).
                 cb_content_hash t = cb_content_hash r \<or> cb_block_id t = cb_block_id r))
      else Inr False)"

definition stale_referenced :: "string \<Rightarrow> context_block \<Rightarrow> bool res" where
  "stale_referenced text r =
     (let tool_id = jget_or (cb_metadata r) ''tool_use_id'' (JStr []);
          by_block = (cb_block_id r \<noteq> [] \<and> str_in (cb_block_id r) text)
      in if truthy tool_id
         then rbind (json_in_text tool_id text) (\<lambda>b. Inr (b \<or> by_block))
         else Inr by_block)"

definition stale_message :: "stale_cfg \<Rightarrow> context_block \<Rightarrow> string" where
  "stale_message cfg r =
     ''Tool result ('' @ show_int (cb_token_count r) @ '' tokens) has remained in context for >= ''
     @ show_int (st_min_turns cfg) @ '' turns without reference.''"

definition stale_check :: "stale_cfg \<Rightarrow> model_pricing \<Rightarrow> canonical_turn list \<Rightarrow> string
    \<Rightarrow> context_block \<Rightarrow> rule_violation list res" where
  "stale_check cfg pricing prev text r =
     (if cb_token_count r < st_min_tokens cfg then Inr []
      else
        rbind (stale_is_stale cfg prev r) (\<lambda>stale.
          if \<not> stale then Inr []
          else
            rbind (stale_referenced text r) (\<lambda>referenced.
              if referenced then Inr []
              else Inr [\<lparr>rv_rule_id = ''CTX-001'', rv_severity = WARN,
                    rv_title = ''Stale Tool Output Bloat'',
                    rv_message = stale_message cfg r,
                    rv_estimated_waste_usd =
                      token_waste (cb_token_count r) (mp_input_cost_per_1k pricing),
                    rv_suggested_fix = ''Prune older tool payloads or truncate large responses.'',
                    rv_block_ids = [cb_block_id r], rv_turn_index = None\<rparr>])))"

definition stale_tool :: "stale_cfg \<Rightarrow> heuristic_fn" where
  "stale_tool cfg turn graph previous =
     (let prev = resolve_previous_turns turn graph previous
      in if int (length prev) < st_min_turns cfg
            \<and> list_all (\<lambda>b. cb_turns_survived b < st_min_turns cfg) (ct_tool_results turn)
         then Inr []
         else rcollect (stale_check cfg (turn_pricing turn) prev (recent_assistant_text prev turn))
                (ct_tool_results turn))"

subsection \<open>CTX-002: schema bloat\<close>

record schema_cfg =
  sb_max_schema_ratio :: rat
  sb_min_tool_count :: int
  sb_max_invocation_ratio :: rat

definition schema_default :: schema_cfg where
  "schema_default = \<lparr>sb_max_schema_ratio = fl (35/100), sb_min_tool_count = 5,
     sb_max_invocation_ratio = fl (15/100)\<rparr>"

text \<open>
  Sets of names are lists without duplicates. A registered name that is not a string is left
  out of the model; asking whether a list or a dictionary is in a set raises \<open>TypeError\<close>.
\<close>

definition registered_name :: "context_block \<Rightarrow> string res" where
  "registered_name td =
     (let name = jget (cb_metadata td) ''name''
      in if truthy name then as_str ''name'' name
         else Inr (str_replace ''tool_def_'' [] (cb_block_id td)))"

fun in_registered :: "string list \<Rightarrow> json \<Rightarrow> bool res" where
  "in_registered reg (JStr s) = Inr (s \<in> set reg)"
| "in_registered reg (JArr _) = Inl TypeError"
| "in_registered reg (JObj _) = Inl TypeError"
| "in_registered reg _ = Inr False"

definition add_called :: "json \<Rightarrow> string list \<Rightarrow> string list" where
  "add_called name called = (case name of JStr s \<Rightarrow> List.insert s called | _ \<Rightarrow> called)"

text \<open>A lookup inside the \<open>try\<close>: a \<open>TypeError\<close> is swallowed.\<close>

definition try_called :: "string list \<Rightarrow> json \<Rightarrow> string list \<Rightarrow> string list" where
  "try_called reg name called =
     (if truthy name \<and> in_registered reg name = Inr True then add_called name called else called)"

definition called_by_result :: "(string \<Rightarrow> json option) \<Rightarrow> string list \<Rightarrow> string list
    \<Rightarrow> context_block \<Rightarrow> string list res" where
  "called_by_result loads reg called r =
     (let name = py_or (jget (cb_metadata r) ''name'') (jget (cb_metadata r) ''tool_name'')
      in if truthy name then
           rbind (in_registered reg name) (\<lambda>b. Inr (if b then add_called name called else called))
         else if cb_content r \<noteq> [] then
           (case loads (cb_content r) of
              Some (JObj d) \<Rightarrow> Inr (try_called reg (py_or (jget d ''name'') (jget d ''tool_name'')) called)
            | _ \<Rightarrow> Inr called)
         else Inr called)"

definition called_by_assistant :: "(string \<Rightarrow> json option) \<Rightarrow> string list \<Rightarrow> string list
    \<Rightarrow> context_block \<Rightarrow> string list" where
  "called_by_assistant loads reg called b =
     (if cb_content b = [] then called
      else
        (case loads (cb_content b) of
           Some (JObj d) \<Rightarrow>
             if jget d ''type'' = JStr ''tool_use'' then try_called reg (jget d ''name'') called
             else called
         | _ \<Rightarrow> called))"

fun rfold :: "('s \<Rightarrow> 'a \<Rightarrow> 's res) \<Rightarrow> 's \<Rightarrow> 'a list \<Rightarrow> 's res" where
  "rfold f s [] = Inr s"
| "rfold f s (x # xs) = rbind (f s x) (\<lambda>s'. rfold f s' xs)"

definition called_in_turn :: "(string \<Rightarrow> json option) \<Rightarrow> string list \<Rightarrow> string list
    \<Rightarrow> canonical_turn \<Rightarrow> string list res" where
  "called_in_turn loads reg called t =
     rbind (rfold (called_by_result loads reg) called (ct_tool_results t)) (\<lambda>called'.
       Inr (foldl (called_by_assistant loads reg) called' (ct_assistant_blocks t)))"

definition schema_message :: "int \<Rightarrow> rat \<Rightarrow> nat \<Rightarrow> int \<Rightarrow> string" where
  "schema_message tokens sratio called n_tools =
     ''Tool schemas occupy '' @ show_int tokens @ '' tokens (''
     @ show_int (round_he (fmul sratio 100)) @ ''% of input), but only ''
     @ show_nat called @ ''/'' @ show_int n_tools @ '' tools have been used.''"

definition schema_bloat :: "(string \<Rightarrow> json option) \<Rightarrow> schema_cfg \<Rightarrow> heuristic_fn" where
  "schema_bloat loads cfg turn graph previous =
     (let defs = ct_tool_defs turn;
          total_tool_tokens = sum_tokens defs;
          effective = effective_input_tokens turn;
          schema_ratio = int_truediv total_tool_tokens effective;
          total_tools = int (length defs)
      in if defs = [] then Inr []
         else if effective \<le> 0 then Inr []
         else if schema_ratio \<le> sb_max_schema_ratio cfg then Inr []
         else if total_tools \<le> sb_min_tool_count cfg then Inr []
         else
           rbind (rmap_list registered_name defs) (\<lambda>names.
           rbind (rfold (called_in_turn loads (remdups names)) []
                    (resolve_previous_turns turn graph previous @ [turn])) (\<lambda>called.
             if int_truediv (int (length called)) total_tools < sb_max_invocation_ratio cfg
             then Inr [\<lparr>rv_rule_id = ''CTX-002'', rv_severity = WARN,
                    rv_title = ''Tool Schema Overweight'',
                    rv_message =
                      schema_message total_tool_tokens schema_ratio (length called) total_tools,
                    rv_estimated_waste_usd =
                      token_waste total_tool_tokens (mp_input_cost_per_1k (turn_pricing turn)),
                    rv_suggested_fix =
                      ''Group tools into subagents or filter tool schemas dynamically.'',
                    rv_block_ids = map cb_block_id defs, rv_turn_index = None\<rparr>]
             else Inr [])))"

subsection \<open>CTX-003: error loop\<close>

record error_cfg =
  el_consecutive_errors :: int
  el_similarity_threshold :: rat

definition error_default :: error_cfg where
  "error_default = \<lparr>el_consecutive_errors = 3, el_similarity_threshold = fl (1/2)\<rparr>"

definition is_error_marker :: "string \<Rightarrow> bool" where
  "is_error_marker content \<longleftrightarrow>
     (let q = (char_of (39::nat) :: char); d = (char_of (34::nat) :: char)
      in str_in ([d] @ ''is_error'' @ [d] @ '': true'') content
         \<or> str_in ([q] @ ''is_error'' @ [q] @ '': true'') content)"

definition is_error_result :: "context_block \<Rightarrow> bool res" where
  "is_error_result b =
     (let meta = cb_metadata b
      in if jget meta ''is_error'' = JBool True \<or> jget meta ''is_error'' = JStr ''true'' then Inr True
         else
           (case jget_or meta ''status'' (JStr []) of
              JStr s \<Rightarrow>
                Inr (str_in ''error'' (str_lower s) \<or> is_error_marker (str_lower (cb_content b)))
            | _ \<Rightarrow> Inl AttributeError))"

text \<open>\<open>None\<close> is the early return: a turn without error results.\<close>

fun error_blocks :: "canonical_turn list \<Rightarrow> context_block list list option res" where
  "error_blocks [] = Inr (Some [])"
| "error_blocks (t # ts) =
     rbind (rfilter is_error_result (ct_tool_results t)) (\<lambda>errs.
       if errs = [] then Inr None
       else rbind (error_blocks ts) (\<lambda>rest. Inr (map_option (\<lambda>r. errs # r) rest)))"

fun pairwise :: "('a \<Rightarrow> 'a \<Rightarrow> 'b) \<Rightarrow> 'a list \<Rightarrow> 'b list" where
  "pairwise f (x # y # xs) = f x y # pairwise f (y # xs)"
| "pairwise f _ = []"

definition error_repetitive :: "error_cfg \<Rightarrow> string list \<Rightarrow> bool" where
  "error_repetitive cfg texts =
     (let sims = pairwise ratio texts
      in if 2 \<le> length texts \<and> list_ex (\<lambda>t. 20 < length t) texts
         then list_ex (\<lambda>s. el_similarity_threshold cfg \<le> s) sims
              \<or> list_all (\<lambda>s. fl (3/10) \<le> s) sims
         else True)"

definition error_message :: "int \<Rightarrow> string" where
  "error_message n =
     ''Tool execution errors occurred across '' @ show_int n
     @ '' consecutive turns without resolution.''"

definition error_loop :: "error_cfg \<Rightarrow> heuristic_fn" where
  "error_loop cfg turn graph previous =
     (let prev = resolve_previous_turns turn graph previous;
          n = el_consecutive_errors cfg
      in if int (length prev) < n - 1 then Inr []
         else
           rbind (error_blocks (slice_from (- (n - 1)) prev @ [turn])) (\<lambda>found.
             case found of
               None \<Rightarrow> Inr []
             | Some errs \<Rightarrow>
                 if int (length errs) < n then Inr []
                 else if error_repetitive cfg (map (\<lambda>bs. str_join '' '' (contents bs)) errs)
                 then Inr [\<lparr>rv_rule_id = ''CTX-003'', rv_severity = CRITICAL,
                        rv_title = ''Agent Error Loop Detected'',
                        rv_message = error_message n,
                        rv_estimated_waste_usd =
                          max (fl (15/1000))
                            (token_waste (sum_tokens (concat errs))
                               (mp_input_cost_per_1k (turn_pricing turn))),
                        rv_suggested_fix =
                          ''Inject steering prompt or terminate agent execution loop.'',
                        rv_block_ids = map cb_block_id (last errs), rv_turn_index = None\<rparr>]
                 else Inr []))"

subsection \<open>Facts\<close>

lemma stale_check_sound:
  assumes "stale_check cfg (turn_pricing t) prev text r = Inr vs" "v \<in> set vs"
    "r \<in> set (ct_tool_results t)"
  shows "violation_ok ''CTX-001'' t ps v"
  using assms result_id [OF assms(3)] counts_ok_results [OF _ assms(3)]
  by (auto simp: stale_check_def violation_ok_def rbind_eq_Inr token_waste_nonneg
      split: if_splits)

interpretation stale: heuristic "stale_tool cfg" "''CTX-001''" for cfg
proof
  fix t g p vs v
  assume "stale_tool cfg t g p = Inr vs" "v \<in> set vs"
  then show "violation_ok ''CTX-001'' t (resolve_previous_turns t g p) v"
    by (auto simp: stale_tool_def Let_def split: if_splits dest!: rcollect_InrD
        intro: stale_check_sound)
qed

interpretation bloat: heuristic "schema_bloat loads cfg" "''CTX-002''" for loads cfg
proof
  fix t g p vs v
  assume a: "schema_bloat loads cfg t g p = Inr vs" "v \<in> set vs"
  have "counts_ok t \<Longrightarrow> 0 \<le> sum_tokens (ct_tool_defs t)"
    by (rule sum_tokens_nonneg) (simp add: counts_ok_def all_blocks_def)
  then show "violation_ok ''CTX-002'' t (resolve_previous_turns t g p) v"
    using a by (auto simp: schema_bloat_def Let_def violation_ok_def rbind_eq_Inr token_waste_nonneg
        block_ids_def all_blocks_def split: if_splits)
qed

lemma error_blocks_sound:
  "error_blocks ts = Inr (Some errs) \<Longrightarrow>
     list_all2 (\<lambda>t es. es \<noteq> [] \<and> set es \<subseteq> set (ct_tool_results t)) ts errs"
  by (induction ts arbitrary: errs)
    (auto simp: rbind_eq_Inr split: if_splits dest: rfilter_InrD)

interpretation errors: heuristic "error_loop cfg" "''CTX-003''" for cfg
proof
  fix t g p vs v
  let ?prev = "resolve_previous_turns t g p" and ?n = "el_consecutive_errors cfg"
  let ?ts = "slice_from (- (?n - 1)) ?prev @ [t]"
  assume a: "error_loop cfg t g p = Inr vs" "v \<in> set vs"
  then obtain errs where errs: "error_blocks ?ts = Inr (Some errs)"
    and v: "rv_rule_id v = ''CTX-003''" "rv_block_ids v = map cb_block_id (last errs)"
      "fl (15/1000) \<le> rv_estimated_waste_usd v"
    by (auto simp: error_loop_def Let_def rbind_eq_Inr split: if_splits option.splits)
  from error_blocks_sound [OF errs] obtain es l
    where "errs = es @ [l]" "l \<noteq> []" "set l \<subseteq> set (ct_tool_results t)"
    by (auto simp: list_all2_append1 list_all2_Cons1)
  moreover have "0 \<le> rv_estimated_waste_usd v"
    by (rule order_trans [OF _ v(3)]) simp
  ultimately show "violation_ok ''CTX-003'' t ?prev v"
    using v result_id by (auto simp: violation_ok_def)
qed

end
