(* ===== verification/CacheRules.thy ===== *)
theory CacheRules
  imports HeuristicBase
begin

text \<open>
  The rules over recurring payloads and the prompt cache: CTX-004 \<open>ctx004_recurring_results.py\<close>,
  CTX-006 \<open>zombie_context.py\<close>, CACHE-001 \<open>cache001_prefix_break.py\<close> and CTX-007
  \<open>cache_invalidation.py\<close>.
\<close>

subsection \<open>CTX-004: recurring results\<close>

record recurring_cfg =
  rc_token_threshold :: int
  rc_occurrence_threshold :: int
  rc_ratio_threshold :: rat
  rc_similarity_threshold :: rat
  rc_min_block_tokens :: int

definition recurring_default :: recurring_cfg where
  "recurring_default = \<lparr>rc_token_threshold = 2000, rc_occurrence_threshold = 2,
     rc_ratio_threshold = fl (2/10), rc_similarity_threshold = fl (9/10),
     rc_min_block_tokens = 150\<rparr>"

definition is_matching_result :: "recurring_cfg \<Rightarrow> context_block \<Rightarrow> context_block \<Rightarrow> bool" where
  "is_matching_result cfg b1 b2 \<longleftrightarrow>
     (let c1 = cb_content b1; c2 = cb_content b2;
          l1 = int (length c1); l2 = int (length c2)
      in if cb_content_hash b1 \<noteq> [] \<and> cb_content_hash b2 \<noteq> []
            \<and> cb_content_hash b1 = cb_content_hash b2 then True
         else if cb_identity_key b1 \<noteq> [] \<and> cb_identity_key b2 \<noteq> []
            \<and> cb_identity_key b1 = cb_identity_key b2 then True
         else if c1 = c2 then True
         else if 0 < max l1 l2
            \<and> fsub 1 (rc_similarity_threshold cfg) < int_truediv \<bar>l1 - l2\<bar> (max l1 l2) then False
         else rc_similarity_threshold cfg \<le> ratio (take 2000 c1) (take 2000 c2))"

record recurring_state =
  rs_ids :: "string list"
  rs_tokens :: int
  rs_max_occurrences :: int
  rs_evaluated :: "string set"

definition prev_occurrences :: "recurring_cfg \<Rightarrow> canonical_turn list \<Rightarrow> context_block \<Rightarrow> int" where
  "prev_occurrences cfg prev r =
     int (length (filter (\<lambda>p. list_ex (is_matching_result cfg r) (ct_tool_results p)) prev))"

text \<open>\<open>other is not tool_res\<close> is by position in the list.\<close>

definition duplicates_in_current :: "recurring_cfg \<Rightarrow> context_block list \<Rightarrow> string set \<Rightarrow> nat
    \<Rightarrow> context_block \<Rightarrow> context_block list" where
  "duplicates_in_current cfg results evaluated i r =
     map snd (filter (\<lambda>(j, other). j \<noteq> i \<and> cb_block_id other \<notin> evaluated
                        \<and> is_matching_result cfg r other)
                (List.enumerate 0 results))"

definition recurring_step :: "recurring_cfg \<Rightarrow> canonical_turn list \<Rightarrow> context_block list
    \<Rightarrow> recurring_state \<Rightarrow> nat \<times> context_block \<Rightarrow> recurring_state" where
  "recurring_step cfg prev results s ir =
     (case ir of (i, r) \<Rightarrow>
        if cb_token_count r < rc_min_block_tokens cfg then s
        else if cb_block_id r \<in> rs_evaluated s then s
        else
          (let occ1 = 1 + prev_occurrences cfg prev r;
               occ2 = (if 0 < cb_turns_survived r then max occ1 (cb_turns_survived r + 1) else occ1);
               dups = duplicates_in_current cfg results (rs_evaluated s) i r;
               occ = occ2 + int (length dups)
           in if rc_occurrence_threshold cfg \<le> occ then
                \<lparr>rs_ids = rs_ids s @ map cb_block_id (r # dups),
                 rs_tokens = rs_tokens s + sum_tokens (r # dups),
                 rs_max_occurrences = max (rs_max_occurrences s) occ,
                 rs_evaluated = rs_evaluated s \<union> cb_block_id ` set (r # dups)\<rparr>
              else s))"

definition recurring_scan :: "recurring_cfg \<Rightarrow> canonical_turn list \<Rightarrow> context_block list
    \<Rightarrow> recurring_state" where
  "recurring_scan cfg prev results =
     foldl (recurring_step cfg prev results)
       \<lparr>rs_ids = [], rs_tokens = 0, rs_max_occurrences = 1, rs_evaluated = {}\<rparr>
       (List.enumerate 0 results)"

definition recurring_message :: "recurring_cfg \<Rightarrow> int \<Rightarrow> int \<Rightarrow> rat \<Rightarrow> string" where
  "recurring_message cfg tokens occurrences rratio =
     ''Recurring tool results ('' @ show_commas tokens @ '' tokens across ''
     @ show_int occurrences @ '' occurrences, '' @ float_repr (py_round (fmul rratio 100) 1)
     @ ''% of context) exceeded threshold ('' @ show_commas (rc_token_threshold cfg) @ '' tokens).''"

definition recurring_fix :: "int \<Rightarrow> string" where
  "recurring_fix tokens =
     ''Recurring results exceed threshold ('' @ show_commas tokens
     @ '' tokens). Optimization: 1) Shrink context by compacting or pruning repetitive tool outputs (/compact); 2) Start a fresh session (/clear) preserving only active progress and modified files; 3) Cache repetitive queries or transmit incremental diffs instead of full payload dumps.''"

definition recurring_results :: "recurring_cfg \<Rightarrow> heuristic_fn" where
  "recurring_results cfg turn graph previous =
     (let prev = resolve_previous_turns turn graph previous;
          s = recurring_scan cfg prev (ct_tool_results turn);
          tokens = rs_tokens s;
          input_toks = (if 0 < ct_input_tokens turn then ct_input_tokens turn
                        else if total_tokens turn \<noteq> 0 then total_tokens turn else 1);
          rratio = int_truediv tokens input_toks
      in if ct_tool_results turn = [] then Inr []
         else if rs_ids s = [] then Inr []
         else if \<not> (rc_token_threshold cfg \<le> tokens \<or> rc_ratio_threshold cfg \<le> rratio) then Inr []
         else
           Inr [\<lparr>rv_rule_id = ''CTX-004'',
                 rv_severity = (if 5000 \<le> tokens \<or> fl (1/2) \<le> rratio then CRITICAL else WARN),
                 rv_title = ''Recurring Execution Results Exceeded'',
                 rv_message = recurring_message cfg tokens (rs_max_occurrences s) rratio,
                 rv_estimated_waste_usd =
                   token_waste tokens (mp_input_cost_per_1k (turn_pricing turn)),
                 rv_suggested_fix = recurring_fix tokens,
                 rv_block_ids = rs_ids s, rv_turn_index = Some (ct_turn_index turn)\<rparr>])"

subsection \<open>CTX-006: zombie context\<close>

record zombie_cfg =
  zc_min_turns :: int
  zc_min_tokens :: int
  zc_recent_turns :: int
  zc_severity :: violation_severity
  zc_suggested_fix :: string

definition zombie_default :: zombie_cfg where
  "zombie_default = \<lparr>zc_min_turns = 3, zc_min_tokens = 300, zc_recent_turns = 2, zc_severity = WARN,
     zc_suggested_fix = ''Prune or summarize stale tool result from prompt''\<rparr>"

definition dialogue_contents :: "canonical_turn \<Rightarrow> string list" where
  "dialogue_contents t =
     contents (ct_assistant_blocks t)
     @ contents (filter (\<lambda>b. cb_block_type b \<in> {USER_MSG, ASSISTANT_MSG}) (ct_conversation_history t))"

definition recent_text :: "zombie_cfg \<Rightarrow> canonical_turn list \<Rightarrow> canonical_turn \<Rightarrow> string" where
  "recent_text cfg prev turn =
     str_join '' ''
       (concat (map dialogue_contents (slice_from (- zc_recent_turns cfg) prev))
        @ dialogue_contents turn)"

definition same_result :: "context_block \<Rightarrow> context_block \<Rightarrow> bool" where
  "same_result r t \<longleftrightarrow>
     cb_block_id t = cb_block_id r \<or> cb_content_hash t = cb_content_hash r
     \<or> cb_identity_key t \<noteq> [] \<and> cb_identity_key t = cb_identity_key r"

definition consecutive_presence :: "canonical_turn list \<Rightarrow> context_block \<Rightarrow> int" where
  "consecutive_presence prev r =
     int (length (takeWhile (\<lambda>p. list_ex (same_result r) (ct_tool_results p)) (rev prev)))"

definition zombie_referenced :: "string \<Rightarrow> context_block \<Rightarrow> bool res" where
  "zombie_referenced text r =
     (let meta = cb_metadata r;
          tool_id = py_or (jget meta ''tool_use_id'') (py_or (jget meta ''tool_call_id'')
                      (py_or (jget meta ''id'') (JStr [])));
          by_key = (cb_block_id r \<noteq> [] \<and> str_in (cb_block_id r) text
                    \<or> cb_identity_key r \<noteq> [] \<and> str_in (cb_identity_key r) text)
      in if truthy tool_id
         then rbind (json_in_text tool_id text) (\<lambda>b. Inr (b \<or> by_key))
         else Inr by_key)"

definition zombie_message :: "context_block \<Rightarrow> int \<Rightarrow> string" where
  "zombie_message r survived =
     ''Tool result '' @ [char_of (39::nat)] @ cb_block_id r @ [char_of (39::nat)] @ '' (''
     @ show_int (cb_token_count r) @ '' tokens) has survived '' @ show_int survived
     @ '' turns without reference in recent context.''"

definition zombie_check :: "zombie_cfg \<Rightarrow> model_pricing \<Rightarrow> canonical_turn list \<Rightarrow> string
    \<Rightarrow> context_block \<Rightarrow> rule_violation list res" where
  "zombie_check cfg pricing prev text r =
     (let survived = max (cb_turns_survived r) (consecutive_presence prev r)
      in if cb_token_count r \<le> zc_min_tokens cfg then Inr []
         else if survived < zc_min_turns cfg then Inr []
         else
           rbind (zombie_referenced text r) (\<lambda>referenced.
             if referenced then Inr []
             else Inr [\<lparr>rv_rule_id = ''CTX-006'', rv_severity = zc_severity cfg,
                   rv_title = ''Zombie Tool Result Detected'',
                   rv_message = zombie_message r survived,
                   rv_estimated_waste_usd =
                     py_round (fmul (fmul (fdiv (float_of_int (cb_token_count r)) 1000)
                                          (float_of_int survived))
                                (mp_input_cost_per_1k pricing)) 6,
                   rv_suggested_fix = zc_suggested_fix cfg,
                   rv_block_ids = [cb_block_id r], rv_turn_index = None\<rparr>]))"

definition zombie_context :: "zombie_cfg \<Rightarrow> heuristic_fn" where
  "zombie_context cfg turn graph previous =
     (let prev = resolve_previous_turns turn graph previous
      in if ct_tool_results turn = [] then Inr []
         else rcollect (zombie_check cfg (turn_pricing turn) prev (recent_text cfg prev turn))
                (ct_tool_results turn))"

subsection \<open>CACHE-001: system prefix break\<close>

text \<open>The cache discount that is lost, with the 0.9 fallback.\<close>

definition cache_loss_per_1k :: "model_pricing \<Rightarrow> rat" where
  "cache_loss_per_1k p =
     (let loss = max 0 (fsub (mp_input_cost_per_1k p) (mp_cache_read_cost_per_1k p))
      in if loss \<le> 0 then fmul (mp_input_cost_per_1k p) (fl (9/10)) else loss)"

fun first_changed :: "context_block list \<Rightarrow> context_block list \<Rightarrow> context_block option" where
  "first_changed prev_sys [] = None"
| "first_changed [] (b # bs) = Some b"
| "first_changed (p # ps) (b # bs) =
     (if cb_content_hash b \<noteq> cb_content_hash p then Some b else first_changed ps bs)"

definition culprit_block :: "context_block list \<Rightarrow> context_block list \<Rightarrow> context_block option" where
  "culprit_block prev_sys curr_sys =
     (case first_changed prev_sys curr_sys of
        Some b \<Rightarrow> Some b
      | None \<Rightarrow>
          (case curr_sys of b # _ \<Rightarrow> Some b
           | [] \<Rightarrow> (case prev_sys of p # _ \<Rightarrow> Some p | [] \<Rightarrow> None)))"

definition prefix_message :: string where
  "prefix_message = ''System prompt prefix was modified, breaking prompt cache reuse for all downstream tokens.''"

definition prefix_fix :: string where
  "prefix_fix = ''Move dynamic elements (timestamps, random IDs) to the end of the prompt or into user messages to preserve cache prefixes.''"

definition prefix_break :: heuristic_fn where
  "prefix_break turn graph previous =
     (let prev = resolve_previous_turns turn graph previous;
          prev_sys = ct_system_blocks (last prev);
          curr_sys = ct_system_blocks turn
      in if prev = [] then Inr []
         else if prev_sys = [] \<and> curr_sys = [] then Inr []
         else if map cb_content_hash prev_sys = map cb_content_hash curr_sys then Inr []
         else
           Inr [\<lparr>rv_rule_id = ''CACHE-001'', rv_severity = CRITICAL,
                 rv_title = ''Prompt Cache Prefix Invalidation'',
                 rv_message = prefix_message,
                 rv_estimated_waste_usd =
                   token_waste (effective_input_tokens turn) (cache_loss_per_1k (turn_pricing turn)),
                 rv_suggested_fix = prefix_fix,
                 rv_block_ids =
                   (case culprit_block prev_sys curr_sys of None \<Rightarrow> [] | Some b \<Rightarrow> [cb_block_id b]),
                 rv_turn_index = None\<rparr>])"

subsection \<open>CTX-007: cache-busting prefix\<close>

definition is_static :: "context_block \<Rightarrow> bool" where
  "is_static b \<longleftrightarrow> cb_block_type b \<in> {SYSTEM, TOOL_DEF, SKILL}"

record bust_cfg =
  bc_prefix_ratio_threshold :: rat
  bc_custom_severity :: "violation_severity option"
  bc_suggested_fix :: string

definition bust_default :: bust_cfg where
  "bust_default = \<lparr>bc_prefix_ratio_threshold = fl (3/10), bc_custom_severity = None,
     bc_suggested_fix = ''Keep system instructions and skills immutable across turns; move dynamic state to tail''\<rparr>"

definition blocks_by_id :: "context_block list \<Rightarrow> (string, context_block) dict" where
  "blocks_by_id bs = foldl (\<lambda>d b. AList.update (cb_block_id b) b d) [] bs"

definition index_of :: "'a list \<Rightarrow> 'a \<Rightarrow> nat" where
  "index_of xs x = length (takeWhile (\<lambda>y. y \<noteq> x) xs)"

definition bust_delta :: "canonical_turn \<Rightarrow> context_graph option \<Rightarrow> canonical_turn \<Rightarrow> turn_delta" where
  "bust_delta turn graph prev_turn =
     (case (case graph of None \<Rightarrow> None | Some g \<Rightarrow> get_delta g (ct_turn_index turn)) of
        Some d \<Rightarrow> d
      | None \<Rightarrow> compute_delta (Some prev_turn) turn)"

definition mutated_static :: "context_block list \<Rightarrow> turn_delta \<Rightarrow> context_block list" where
  "mutated_static blocks delta =
     filter is_static (List.map_filter (map_of (blocks_by_id blocks)) (td_mutated_block_ids delta))"

definition breakpoint_block :: "context_block list \<Rightarrow> turn_delta \<Rightarrow> context_block option" where
  "breakpoint_block blocks delta =
     (case td_cache_breakpoint_block_id delta of
        None \<Rightarrow> None
      | Some i \<Rightarrow> if i = [] then None else map_of (blocks_by_id blocks) i)"

definition breakpoint_index :: "context_block list \<Rightarrow> context_block option \<Rightarrow> nat" where
  "breakpoint_index blocks bp = (case bp of None \<Rightarrow> 0 | Some b \<Rightarrow> index_of blocks b)"

definition in_early_prefix :: "bust_cfg \<Rightarrow> canonical_turn \<Rightarrow> nat \<Rightarrow> bool" where
  "in_early_prefix cfg turn bp_index \<longleftrightarrow>
     (let blocks = all_blocks turn;
          s = sum_tokens blocks;
          total = (if s \<noteq> 0 then s else if ct_input_tokens turn \<noteq> 0 then ct_input_tokens turn else 1)
      in int_truediv (int bp_index) (max 1 (int (length blocks))) \<le> bc_prefix_ratio_threshold cfg
         \<or> int_truediv (sum_tokens (take bp_index blocks)) total \<le> bc_prefix_ratio_threshold cfg)"

definition bust_triggered :: "bust_cfg \<Rightarrow> canonical_turn \<Rightarrow> canonical_turn \<Rightarrow> turn_delta \<Rightarrow> bool" where
  "bust_triggered cfg turn prev_turn delta \<longleftrightarrow>
     (let blocks = all_blocks turn;
          bp = breakpoint_block blocks delta;
          i = breakpoint_index blocks bp;
          bp_static = (case bp of None \<Rightarrow> False | Some b \<Rightarrow> is_static b);
          static_changed = (map cb_content_hash (filter is_static (all_blocks prev_turn))
                              \<noteq> map cb_content_hash (filter is_static blocks))
      in mutated_static blocks delta \<noteq> []
         \<or> bp_static
         \<or> in_early_prefix cfg turn i
            \<and> (bp_static \<or> static_changed \<or> bp \<noteq> None \<and> list_ex is_static (drop i blocks)))"

definition bust_culprits :: "context_block list \<Rightarrow> turn_delta \<Rightarrow> string list" where
  "bust_culprits blocks delta =
     (let start = (case breakpoint_block blocks delta of None \<Rightarrow> [] | Some b \<Rightarrow> [cb_block_id b]);
          ids = foldl (\<lambda>ids b. if cb_block_id b \<in> set ids then ids else ids @ [cb_block_id b])
                  start (mutated_static blocks delta)
      in if ids = [] then [cb_block_id (hd blocks)] else ids)"

definition bust_severity :: "bust_cfg \<Rightarrow> context_block list \<Rightarrow> turn_delta \<Rightarrow> violation_severity" where
  "bust_severity cfg blocks delta =
     (case bc_custom_severity cfg of
        Some s \<Rightarrow> s
      | None \<Rightarrow>
          if (case breakpoint_block blocks delta of
                None \<Rightarrow> False | Some b \<Rightarrow> cb_block_type b \<in> {SYSTEM, SKILL}) then CRITICAL
          else if list_ex (\<lambda>b. cb_block_type b \<in> {SYSTEM, SKILL}) (mutated_static blocks delta)
            then CRITICAL
          else WARN)"

text \<open>\<open>int(x)\<close> truncates towards zero.\<close>

definition py_int :: "rat \<Rightarrow> int" where
  "py_int x = (if 0 \<le> x then \<lfloor>x\<rfloor> else \<lceil>x\<rceil>)"

definition bust_wasted_tokens :: "canonical_turn \<Rightarrow> nat \<Rightarrow> int" where
  "bust_wasted_tokens turn i =
     (let blocks = all_blocks turn;
          prompt = filter (\<lambda>b. cb_block_type b \<noteq> ASSISTANT_MSG);
          downstream = sum_tokens (prompt (drop i blocks));
          s = sum_tokens (prompt blocks);
          total = (if s \<noteq> 0 then s else 1)
      in if 0 < ct_input_tokens turn then
           (let scale = min 1 (max 0 (int_truediv downstream total))
            in max 1 (py_int (fmul (float_of_int (ct_input_tokens turn)) scale)))
         else max 1 downstream)"

definition bust_waste :: "model_pricing \<Rightarrow> int \<Rightarrow> rat" where
  "bust_waste pricing wasted =
     (let w = token_waste wasted (cache_loss_per_1k pricing)
      in if w \<le> 0 \<and> 0 < wasted
         then py_round (fmul (per_1k wasted (mp_input_cost_per_1k pricing)) (fl (9/10))) 6
         else w)"

definition bust_message :: "string \<Rightarrow> int \<Rightarrow> string" where
  "bust_message label wasted =
     ''Prefix cache invalidated near start of context ('' @ label
     @ '' mutated/inserted), busting prompt cache reuse for '' @ show_int wasted
     @ '' downstream tokens.''"

definition cache_bust :: "bust_cfg \<Rightarrow> heuristic_fn" where
  "cache_bust cfg turn graph previous =
     (let prev = resolve_previous_turns turn graph previous;
          prev_turn = last prev;
          delta = bust_delta turn graph prev_turn;
          blocks = all_blocks turn;
          bp = breakpoint_block blocks delta;
          wasted = bust_wasted_tokens turn (breakpoint_index blocks bp);
          label = (case bp of Some b \<Rightarrow> bt_value (cb_block_type b) | None \<Rightarrow> ''static_block'')
      in if prev = [] then Inr []
         else if blocks = [] then Inr []
         else if \<not> bust_triggered cfg turn prev_turn delta then Inr []
         else
           Inr [\<lparr>rv_rule_id = ''CTX-007'', rv_severity = bust_severity cfg blocks delta,
                 rv_title = ''Prefix Cache Mutation'',
                 rv_message = bust_message label wasted,
                 rv_estimated_waste_usd = bust_waste (turn_pricing turn) wasted,
                 rv_suggested_fix = bc_suggested_fix cfg,
                 rv_block_ids = bust_culprits blocks delta, rv_turn_index = None\<rparr>])"

subsection \<open>Facts\<close>

text \<open>CTX-004: the scan counts every block it reports exactly once.\<close>

lemma duplicates_subset: "set (duplicates_in_current cfg rs ev i r) \<subseteq> set rs"
  by (auto simp: duplicates_in_current_def in_set_enumerate_eq)

lemma duplicates_fresh: "b \<in> set (duplicates_in_current cfg rs ev i r) \<Longrightarrow> cb_block_id b \<notin> ev"
  by (auto simp: duplicates_in_current_def)

lemma duplicates_distinct:
  assumes "distinct (map cb_block_id rs)" "i < length rs" "r = rs ! i"
  shows "distinct (map cb_block_id (r # duplicates_in_current cfg rs ev i r))"
proof -
  let ?P = "\<lambda>(j, other). j \<noteq> i \<and> cb_block_id other \<notin> ev \<and> is_matching_result cfg r other"
  have m: "map cb_block_id (map snd (List.enumerate 0 rs)) = map cb_block_id rs" by simp
  then have d: "distinct (map (cb_block_id \<circ> snd) (List.enumerate 0 rs))"
    using assms(1) by (simp only: map_map)
  then have "distinct (map (cb_block_id \<circ> snd) (filter ?P (List.enumerate 0 rs)))"
    by (rule map_filter_distinct)
  moreover have "cb_block_id r \<notin> cb_block_id ` set (duplicates_in_current cfg rs ev i r)"
  proof
    assume "cb_block_id r \<in> cb_block_id ` set (duplicates_in_current cfg rs ev i r)"
    then obtain j where "j \<noteq> i" "j < length rs" "cb_block_id (rs ! j) = cb_block_id (rs ! i)"
      using assms(3) by (auto simp: duplicates_in_current_def in_set_enumerate_eq)
    with assms(1,2) show False by (auto simp: distinct_conv_nth)
  qed
  ultimately show ?thesis by (simp add: duplicates_in_current_def comp_def image_image)
qed

definition recurring_inv :: "context_block list \<Rightarrow> recurring_state \<Rightarrow> bool" where
  "recurring_inv results s \<longleftrightarrow>
     distinct (rs_ids s) \<and> set (rs_ids s) = rs_evaluated s
     \<and> rs_evaluated s \<subseteq> cb_block_id ` set results
     \<and> rs_tokens s = sum_tokens (filter (\<lambda>b. cb_block_id b \<in> rs_evaluated s) results)"

lemma sum_tokens_Cons [simp]: "sum_tokens (b # bs) = cb_token_count b + sum_tokens bs"
  by (simp add: sum_tokens_def)

lemma sum_tokens_Nil [simp]: "sum_tokens [] = 0"
  by (simp add: sum_tokens_def)

lemma sum_tokens_distinct:
  "distinct (map cb_block_id bs) \<Longrightarrow> sum_tokens bs = (\<Sum>b\<in>set bs. cb_token_count b)"
  by (simp add: sum_tokens_def sum_list_distinct_conv_sum_set distinct_map)

lemma recurring_step_inv:
  assumes d: "distinct (map cb_block_id results)" and i: "i < length results" "r = results ! i"
    and inv: "recurring_inv results s"
  shows "recurring_inv results (recurring_step cfg prev results s (i, r))"
proof -
  let ?new = "r # duplicates_in_current cfg results (rs_evaluated s) i r"
  let ?s = "recurring_step cfg prev results s (i, r)"
  have inj: "inj_on cb_block_id (set results)" using d by (simp add: distinct_map)
  have new: "distinct (map cb_block_id ?new)" "set ?new \<subseteq> set results"
    using duplicates_distinct [OF d i] duplicates_subset i by (simp_all) 
  have "?s = s \<or> (cb_block_id r \<notin> rs_evaluated s \<and> rs_ids ?s = rs_ids s @ map cb_block_id ?new
      \<and> rs_tokens ?s = rs_tokens s + sum_tokens ?new
      \<and> rs_evaluated ?s = rs_evaluated s \<union> cb_block_id ` set ?new)"
    by (simp add: recurring_step_def Let_def)
  then consider "?s = s"
    | "cb_block_id r \<notin> rs_evaluated s" "rs_ids ?s = rs_ids s @ map cb_block_id ?new"
      "rs_tokens ?s = rs_tokens s + sum_tokens ?new"
      "rs_evaluated ?s = rs_evaluated s \<union> cb_block_id ` set ?new"
    by metis
  then show ?thesis
  proof cases
    case 1
    with inv show ?thesis by simp
  next
    case 2
    let ?old = "filter (\<lambda>b. cb_block_id b \<in> rs_evaluated s) results"
    have fresh: "cb_block_id ` set ?new \<inter> rs_evaluated s = {}"
      using 2(1) duplicates_fresh by fastforce
    have "set (filter (\<lambda>b. cb_block_id b \<in> rs_evaluated ?s) results) = set ?old \<union> set ?new"
      using new(2) inj unfolding 2(4) by (auto dest: inj_onD)
    moreover have "set ?old \<inter> set ?new = {}" using fresh by auto
    moreover have "distinct (map cb_block_id (filter P results))" for P
      using d by (rule map_filter_distinct)
    ultimately have "sum_tokens (filter (\<lambda>b. cb_block_id b \<in> rs_evaluated ?s) results)
        = sum_tokens ?old + sum_tokens ?new"
      by (simp only: sum_tokens_distinct new(1) sum.union_disjoint finite_set)
    with 2 inv new fresh show ?thesis
      by (auto simp: recurring_inv_def simp del: sum_tokens_Cons)
  qed
qed

lemma recurring_scan_inv:
  assumes "distinct (map cb_block_id results)"
  shows "recurring_inv results (recurring_scan cfg prev results)"
proof -
  have "recurring_inv results (foldl (recurring_step cfg prev results) s xs)"
    if "recurring_inv results s" "\<forall>(i, r)\<in>set xs. i < length results \<and> r = results ! i" for s xs
    using that recurring_step_inv [OF assms] by (induction xs arbitrary: s) auto
  then show ?thesis
    unfolding recurring_scan_def
    by (simp add: recurring_inv_def in_set_enumerate_eq case_prod_beta)
qed

lemma recurring_ids_subset:
  "set (rs_ids (recurring_scan cfg prev rs)) \<subseteq> cb_block_id ` set rs"
proof -
  have fold: "set (rs_ids (foldl (recurring_step cfg prev rs) s xs)) \<subseteq> cb_block_id ` set rs"
    if "set (rs_ids s) \<subseteq> cb_block_id ` set rs" "snd ` set xs \<subseteq> set rs" for s xs
    using that
  proof (induction xs arbitrary: s)
    case Nil
    then show ?case by simp
  next
    case (Cons ir xs)
    have "set (rs_ids (recurring_step cfg prev rs s ir)) \<subseteq> cb_block_id ` set rs"
      using Cons.prems duplicates_subset [of cfg rs "rs_evaluated s" "fst ir" "snd ir"]
      by (auto simp: recurring_step_def Let_def split: prod.splits)
    with Cons show ?case by simp
  qed
  then show ?thesis
    unfolding recurring_scan_def by (intro fold) (auto simp: in_set_enumerate_eq)
qed

lemma recurring_tokens_nonneg:
  assumes "\<And>b. b \<in> set rs \<Longrightarrow> 0 \<le> cb_token_count b"
  shows "0 \<le> rs_tokens (recurring_scan cfg prev rs)"
proof -
  have fold: "0 \<le> rs_tokens (foldl (recurring_step cfg prev rs) s xs)"
    if "0 \<le> rs_tokens s" "snd ` set xs \<subseteq> set rs" for s xs
    using that
  proof (induction xs arbitrary: s)
    case Nil
    then show ?case by simp
  next
    case (Cons ir xs)
    have "0 \<le> sum_tokens (duplicates_in_current cfg rs (rs_evaluated s) (fst ir) (snd ir))"
      using assms duplicates_subset by (intro sum_tokens_nonneg) blast
    moreover have "0 \<le> cb_token_count (snd ir)" using Cons.prems assms by auto
    ultimately have "0 \<le> rs_tokens (recurring_step cfg prev rs s ir)"
      using Cons.prems(1) by (cases ir) (simp add: recurring_step_def Let_def)
    with Cons show ?case by simp
  qed
  then show ?thesis
    unfolding recurring_scan_def by (intro fold) (auto simp: in_set_enumerate_eq)
qed

interpretation recurring: heuristic "recurring_results cfg" "''CTX-004''" for cfg
proof
  fix t g p vs v
  let ?s = "recurring_scan cfg (resolve_previous_turns t g p) (ct_tool_results t)"
  assume "recurring_results cfg t g p = Inr vs" "v \<in> set vs"
  then have v: "rv_rule_id v = ''CTX-004''" "rv_block_ids v = rs_ids ?s" "rs_ids ?s \<noteq> []"
    "rv_estimated_waste_usd v = token_waste (rs_tokens ?s) (mp_input_cost_per_1k (turn_pricing t))"
    by (auto simp: recurring_results_def Let_def split: if_splits)
  have "set (rs_ids ?s) \<subseteq> block_ids t"
    using recurring_ids_subset [of cfg "resolve_previous_turns t g p" "ct_tool_results t"] result_id
    by blast
  moreover have "counts_ok t \<Longrightarrow> 0 \<le> rs_tokens ?s"
    by (intro recurring_tokens_nonneg counts_ok_results)
  ultimately show "violation_ok ''CTX-004'' t (resolve_previous_turns t g p) v"
    using v by (auto simp: violation_ok_def token_waste_nonneg)
qed

lemma zombie_check_sound:
  assumes "zombie_check cfg (turn_pricing t) prev text r = Inr vs" "v \<in> set vs"
    "r \<in> set (ct_tool_results t)"
  shows "violation_ok ''CTX-006'' t ps v"
proof -
  let ?n = "max (cb_turns_survived r) (consecutive_presence prev r)"
  have n: "0 \<le> ?n" by (simp add: consecutive_presence_def le_max_iff_disj)
  have v: "rv_rule_id v = ''CTX-006''" "rv_block_ids v = [cb_block_id r]"
    "rv_estimated_waste_usd v = py_round (fmul (fmul (fdiv (float_of_int (cb_token_count r)) 1000)
        (float_of_int ?n)) (mp_input_cost_per_1k (turn_pricing t))) 6"
    using assms by (auto simp: zombie_check_def Let_def rbind_eq_Inr split: if_splits)
  have "0 \<le> rv_estimated_waste_usd v" if "counts_ok t"
    unfolding v(3) using counts_ok_results [OF that assms(3)] n
    by (intro py_round_nonneg fmul_nonneg fdiv_nonneg float_of_int_nonneg) simp_all
  with v(1,2) result_id [OF assms(3)] show ?thesis by (simp add: violation_ok_def)
qed

interpretation zombie: heuristic "zombie_context cfg" "''CTX-006''" for cfg
proof
  fix t g p vs v
  assume "zombie_context cfg t g p = Inr vs" "v \<in> set vs"
  then show "violation_ok ''CTX-006'' t (resolve_previous_turns t g p) v"
    by (auto simp: zombie_context_def Let_def split: if_splits dest!: rcollect_InrD
        intro: zombie_check_sound)
qed

lemma cache_loss_nonneg: "pricing_ok p \<Longrightarrow> 0 \<le> cache_loss_per_1k p"
  using pricing_ok_nonneg(1) [of p] by (simp add: cache_loss_per_1k_def Let_def fmul_nonneg)

lemma first_changed_mem: "first_changed ps bs = Some b \<Longrightarrow> b \<in> set bs"
  by (induction ps bs rule: first_changed.induct) (auto split: if_splits)

lemma culprit_block_mem:
  "ps \<noteq> [] \<or> bs \<noteq> [] \<Longrightarrow> \<exists>b. culprit_block ps bs = Some b \<and> b \<in> set ps \<union> set bs"
  by (auto simp: culprit_block_def split: option.splits list.splits dest: first_changed_mem)

text \<open>CACHE-001 names the first system block that differs from the previous turn.\<close>

lemma first_changed_spec:
  "first_changed ps bs = Some b \<longleftrightarrow>
     (\<exists>us vs. bs = us @ b # vs \<and> map cb_content_hash us = map cb_content_hash (take (length us) ps)
        \<and> (length ps \<le> length us \<or> cb_content_hash (ps ! length us) \<noteq> cb_content_hash b))"
proof (induction ps bs rule: first_changed.induct)
  case (1 ps)
  then show ?case by simp
next
  case (2 c bs)
  show ?case
    by (auto simp: Cons_eq_append_conv intro: exI [of _ "[]"])
next
  case (3 p ps c bs)
  let ?R = "\<lambda>ps bs b us vs. bs = us @ b # vs
      \<and> map cb_content_hash us = map cb_content_hash (take (length us) ps)
      \<and> (length ps \<le> length us \<or> cb_content_hash (ps ! length us) \<noteq> cb_content_hash b)"
  show ?case
  proof (cases "cb_content_hash c = cb_content_hash p")
    case True
    have "?R (p # ps) (c # bs) b us vs \<longleftrightarrow> (\<exists>us'. us = c # us' \<and> ?R ps bs b us' vs)" for us vs
      using True by (cases us) auto
    then show ?thesis using 3 True by auto
  next
    case False
    have "?R (p # ps) (c # bs) b us vs \<longleftrightarrow> us = [] \<and> b = c \<and> vs = bs" for us vs
      using False by (cases us) auto
    then show ?thesis using False by auto
  qed
qed

interpretation prefix: heuristic prefix_break "''CACHE-001''"
proof
  fix t g p vs v
  let ?prev = "resolve_previous_turns t g p"
  assume "prefix_break t g p = Inr vs" "v \<in> set vs"
  then have ne: "?prev \<noteq> []" "ct_system_blocks (last ?prev) \<noteq> [] \<or> ct_system_blocks t \<noteq> []"
    and v: "rv_rule_id v = ''CACHE-001''"
      "rv_block_ids v = (case culprit_block (ct_system_blocks (last ?prev)) (ct_system_blocks t) of
         None \<Rightarrow> [] | Some b \<Rightarrow> [cb_block_id b])"
      "rv_estimated_waste_usd v =
         token_waste (effective_input_tokens t) (cache_loss_per_1k (turn_pricing t))"
    by (auto simp: prefix_break_def Let_def split: if_splits)
  obtain b where b: "culprit_block (ct_system_blocks (last ?prev)) (ct_system_blocks t) = Some b"
    "b \<in> set (ct_system_blocks (last ?prev)) \<union> set (ct_system_blocks t)"
    using culprit_block_mem [OF ne(2)] by blast
  have "cb_block_id b \<in> block_ids t \<union> (\<Union>q\<in>set ?prev. block_ids q)"
    using b(2) last_in_set [OF ne(1)] by (auto simp: block_ids_def all_blocks_def)
  moreover have "0 \<le> rv_estimated_waste_usd v" if "counts_ok t"
    unfolding v(3) using counts_ok_effective [OF that]
    by (intro token_waste_nonneg cache_loss_nonneg) simp_all
  ultimately show "violation_ok ''CACHE-001'' t ?prev v"
    using v(1,2) b(1) by (simp add: violation_ok_def)
qed

lemma blocks_by_id_mem:
  assumes "map_of (blocks_by_id bs) i = Some b"
  shows "b \<in> set bs \<and> cb_block_id b = i"
proof -
  have "map_of (foldl (\<lambda>d b. AList.update (cb_block_id b) b d) d bs) i = Some b \<longrightarrow>
      b \<in> set bs \<and> cb_block_id b = i \<or> map_of d i = Some b" for d
  proof (induction bs arbitrary: d)
    case Nil
    then show ?case by simp
  next
    case (Cons a bs)
    from Cons.IH [of "AList.update (cb_block_id a) a d"] show ?case by (auto split: if_splits)
  qed
  from this [of "[]"] assms show ?thesis by (simp add: blocks_by_id_def)
qed

lemma bust_culprits_sound:
  assumes "bs \<noteq> []"
  shows "bust_culprits bs d \<noteq> [] \<and> set (bust_culprits bs d) \<subseteq> cb_block_id ` set bs"
proof -
  have acc: "set (foldl (\<lambda>ids b. if cb_block_id b \<in> set ids then ids else ids @ [cb_block_id b]) ids ms)
      = set ids \<union> cb_block_id ` set ms" for ids and ms :: "context_block list"
    by (induction ms arbitrary: ids) auto
  have "set (mutated_static bs d) \<subseteq> set bs"
    by (auto simp: mutated_static_def map_filter_def dest: blocks_by_id_mem)
  moreover have "breakpoint_block bs d = Some b \<Longrightarrow> b \<in> set bs" for b
    by (auto simp: breakpoint_block_def split: option.splits if_splits dest: blocks_by_id_mem)
  ultimately show ?thesis
    using assms by (auto simp: bust_culprits_def Let_def acc split: option.splits)
qed

lemma bust_waste_nonneg: "pricing_ok p \<Longrightarrow> 0 \<le> n \<Longrightarrow> 0 \<le> bust_waste p n"
  using pricing_ok_nonneg(1) [of p]
  by (auto simp: bust_waste_def Let_def
      intro!: py_round_nonneg fmul_nonneg per_1k_nonneg token_waste_nonneg cache_loss_nonneg)

interpretation bust: heuristic "cache_bust cfg" "''CTX-007''" for cfg
proof
  fix t g p vs v
  let ?d = "bust_delta t g (last (resolve_previous_turns t g p))"
  assume "cache_bust cfg t g p = Inr vs" "v \<in> set vs"
  then have ne: "all_blocks t \<noteq> []" and v: "rv_rule_id v = ''CTX-007''"
      "rv_block_ids v = bust_culprits (all_blocks t) ?d"
      "rv_estimated_waste_usd v = bust_waste (turn_pricing t)
         (bust_wasted_tokens t (breakpoint_index (all_blocks t) (breakpoint_block (all_blocks t) ?d)))"
    by (auto simp: cache_bust_def Let_def split: if_splits)
  have "0 \<le> bust_wasted_tokens t i" for i
    by (simp add: bust_wasted_tokens_def Let_def le_max_iff_disj)
  then have "0 \<le> rv_estimated_waste_usd v"
    unfolding v(3) by (intro bust_waste_nonneg) simp_all
  with v(1,2) bust_culprits_sound [OF ne, of ?d]
  show "violation_ok ''CTX-007'' t (resolve_previous_turns t g p) v"
    by (auto simp: violation_ok_def block_ids_def)
qed

end
