(* ===== verification/Analyzer.thy ===== *)
theory Analyzer
  imports ContextRules CacheRules
begin

text \<open>
  \<open>src/core/analyzer/scorer.py\<close> and \<open>engine.py\<close>: the 0-100 pollution score, the session summary,
  and \<open>PollutionAnalyzer\<close>, which runs the rules of a suite on a turn, stamps the violations and
  computes the costs. The analyzer is a client of the locale \<open>heuristic\<close>: what it guarantees
  follows from the contract of the rules it is given, and the standard suite discharges it with
  the interpretations of the rule theories.
\<close>

subsection \<open>Scorer\<close>

fun severity_weight :: "violation_severity \<Rightarrow> rat" where
  "severity_weight INFO = 2"
| "severity_weight WARN = 8"
| "severity_weight CRITICAL = 20"

definition normalized_score :: "rat \<Rightarrow> int \<Rightarrow> rat" where
  "normalized_score penalty n_turns =
     (let max_normalizer = fmul (float_of_int n_turns) (severity_weight CRITICAL);
          score = (if 0 < max_normalizer then fmul (fdiv penalty max_normalizer) 100 else 0)
      in min 100 (py_round score 1))"

definition add_penalty :: "rat \<Rightarrow> rule_violation \<Rightarrow> rat" where
  "add_penalty p v = fadd p (severity_weight (rv_severity v))"

definition calculate_score :: "canonical_turn list \<Rightarrow> rat" where
  "calculate_score turns =
     (if turns = [] then 0
      else normalized_score
             (foldl (\<lambda>p t. foldl add_penalty p (ct_violations t)) 0 turns)
             (int (length turns)))"

definition calculate_score_from_violations :: "rule_violation list \<Rightarrow> int \<Rightarrow> rat" where
  "calculate_score_from_violations vs n_turns =
     (if vs = [] \<or> n_turns \<le> 0 then 0
      else normalized_score (fsum (map (severity_weight \<circ> rv_severity) vs)) n_turns)"

definition severity_counts :: "rule_violation list \<Rightarrow> (string, int) dict" where
  "severity_counts vs =
     foldl (\<lambda>d v. let k = sev_value (rv_severity v) in AList.update k (dict_get d k 0 + 1) d)
       [(''INFO'', 0), (''WARN'', 0), (''CRITICAL'', 0)] vs"

definition counts_json :: "(string, int) dict \<Rightarrow> json" where
  "counts_json d = JObj (map (\<lambda>(k, n). (k, JInt n)) d)"

definition empty_summary :: jdict where
  "empty_summary =
     [(''totalTurns'', JInt 0), (''totalInputTokens'', JInt 0), (''totalOutputTokens'', JInt 0),
      (''cachedInputTokens'', JInt 0), (''cacheHitRatio'', JFloat 0), (''totalDurationMs'', JFloat 0),
      (''estimatedCostUSD'', JFloat 0), (''pollutionScore'', JFloat 0),
      (''potentialSavingsUSD'', JFloat 0), (''activeViolationsCount'', JInt 0),
      (''violationsBySeverity'', counts_json [(''INFO'', 0), (''WARN'', 0), (''CRITICAL'', 0)]),
      (''contextCapacityTokens'', JInt 200000), (''contextCapacityTokensK'', JFloat 200),
      (''latestContextTokens'', JInt 0), (''latestContextTokensK'', JFloat 0),
      (''contextUsageRatio'', JFloat 0), (''contextUsagePercent'', JFloat 0)]"

text \<open>\<open>round(n / 1000.0, 1)\<close>.\<close>

definition in_k :: "int \<Rightarrow> rat" where
  "in_k n = py_round (fdiv (float_of_int n) 1000) 1"

definition ratio4 :: "int \<Rightarrow> int \<Rightarrow> rat" where
  "ratio4 a b = (if 0 < b then py_round (int_truediv a b) 4 else 0)"

definition calculate_summary :: "canonical_turn list \<Rightarrow> jdict" where
  "calculate_summary turns =
     (if turns = [] then empty_summary
      else
        (let total_input = sum_list (map ct_input_tokens turns);
             total_output = sum_list (map ct_output_tokens turns);
             cached_input = sum_list (map ct_cached_read_tokens turns);
             violations = concat (map ct_violations turns);
             last_turn = last turns;
             capacity = get_model_capacity (Some (ct_model last_turn)) (Some (ct_provider last_turn));
             latest = ct_input_tokens last_turn;
             usage = ratio4 latest capacity
         in [(''totalTurns'', JInt (int (length turns))),
             (''totalInputTokens'', JInt total_input),
             (''totalOutputTokens'', JInt total_output),
             (''cachedInputTokens'', JInt cached_input),
             (''cacheHitRatio'', JFloat (ratio4 cached_input total_input)),
             (''totalDurationMs'', JFloat (py_round (fsum (map ct_duration_ms turns)) 2)),
             (''estimatedCostUSD'', JFloat (py_round (fsum (map ct_turn_cost_usd turns)) 6)),
             (''pollutionScore'', JFloat (calculate_score turns)),
             (''potentialSavingsUSD'', JFloat (py_round (fsum (map ct_wasted_cost_usd turns)) 6)),
             (''activeViolationsCount'', JInt (int (length violations))),
             (''violationsBySeverity'', counts_json (severity_counts violations)),
             (''contextCapacityTokens'', JInt capacity),
             (''contextCapacityTokensK'', JFloat (in_k capacity)),
             (''latestContextTokens'', JInt latest),
             (''latestContextTokensK'', JFloat (in_k latest)),
             (''contextUsageRatio'', JFloat usage),
             (''contextUsagePercent'', JFloat (py_round (fmul usage 100) 1))]))"

subsection \<open>Analyzer\<close>

definition default_heuristics :: "(string \<Rightarrow> json option) \<Rightarrow> heuristic_fn list" where
  "default_heuristics loads =
     [stale_tool stale_default, schema_bloat loads schema_default, error_loop error_default,
      recurring_results recurring_default, prefix_break, zombie_context zombie_default,
      cache_bust bust_default]"

definition run_heuristics :: "heuristic_fn list \<Rightarrow> heuristic_fn" where
  "run_heuristics hs t g p = rcollect (\<lambda>h. h t g p) hs"

definition stamp_violation :: "canonical_turn \<Rightarrow> rule_violation \<Rightarrow> rule_violation" where
  "stamp_violation t v =
     (if rv_turn_index v = None then v\<lparr>rv_turn_index := Some (ct_turn_index t)\<rparr> else v)"

text \<open>The analysed turn: the Python code updates it in place and returns its violations.\<close>

definition analyze_turn :: "heuristic_fn list \<Rightarrow> canonical_turn \<Rightarrow> context_graph option
    \<Rightarrow> canonical_turn list option \<Rightarrow> model_pricing option \<Rightarrow> canonical_turn res" where
  "analyze_turn hs turn graph previous pricing =
     (let resolved = resolve_pricing pricing (Some (ct_model turn)) (Some (ct_provider turn))
      in rbind (run_heuristics hs turn graph previous) (\<lambda>detected.
           let violations = map (stamp_violation turn) detected;
               t1 = turn\<lparr>ct_violations := violations\<rparr>;
               t2 = t1\<lparr>ct_turn_cost_usd := calculate_turn_cost t1 (Some resolved)\<rparr>
           in Inr (t2\<lparr>ct_wasted_cost_usd := calculate_wasted_spend t2 (Some violations)\<rparr>)))"

text \<open>\<open>analyze_session\<close>: the turns analysed so far are the previous turns of the next one.\<close>

fun analyze_loop :: "heuristic_fn list \<Rightarrow> context_graph option \<Rightarrow> canonical_turn list
    \<Rightarrow> canonical_turn list \<Rightarrow> canonical_turn list res" where
  "analyze_loop hs graph done [] = Inr done"
| "analyze_loop hs graph done (t # ts) =
     rbind (analyze_turn hs t graph (Some done) None) (\<lambda>t'. analyze_loop hs graph (done @ [t']) ts)"

definition analyze_session :: "heuristic_fn list \<Rightarrow> context_graph option \<Rightarrow> canonical_turn list
    \<Rightarrow> (canonical_turn list \<times> rat) res" where
  "analyze_session hs graph turns =
     rbind (analyze_loop hs graph [] turns) (\<lambda>ts. Inr (ts, calculate_score ts))"

subsection \<open>The score\<close>

lemma severity_weight_nonneg [simp, fl_nonneg]: "0 \<le> severity_weight s"
  by (cases s) simp_all

lemma normalized_score_bounds:
  "0 \<le> p \<Longrightarrow> 0 \<le> normalized_score p n \<and> normalized_score p n \<le> 100"
  unfolding normalized_score_def Let_def
  by (auto simp del: severity_weight.simps intro!: py_round_nonneg fmul_nonneg [of "fdiv _ _"]
      fdiv_nonneg intro: less_imp_le)

lemma fmul_mono_left: "a \<le> b \<Longrightarrow> 0 \<le> c \<Longrightarrow> fmul a c \<le> fmul b c"
  unfolding fmul_def by (intro fl_mono mult_right_mono)

lemma fdiv_mono_left: "a \<le> b \<Longrightarrow> 0 \<le> c \<Longrightarrow> fdiv a c \<le> fdiv b c"
  unfolding fdiv_def by (intro fl_mono divide_right_mono)

lemma normalized_score_mono:
  assumes "p \<le> q"
  shows "normalized_score p n \<le> normalized_score q n"
proof -
  let ?m = "fmul (float_of_int n) (severity_weight CRITICAL)"
  have "0 < ?m \<Longrightarrow> fmul (fdiv p ?m) 100 \<le> fmul (fdiv q ?m) 100"
    using assms by (intro fmul_mono_left fdiv_mono_left) simp_all
  then have "py_round (if 0 < ?m then fmul (fdiv p ?m) 100 else 0) 1
      \<le> py_round (if 0 < ?m then fmul (fdiv q ?m) 100 else 0) 1"
    by (intro py_round_mono) simp
  then show ?thesis unfolding normalized_score_def Let_def by (intro min.mono) simp_all
qed

lemma foldl_concat: "foldl (\<lambda>p t. foldl f p (g t)) a ts = foldl f a (concat (map g ts))"
  by (induction ts arbitrary: a) auto

lemma add_penalty_fsum:
  "foldl add_penalty a vs = foldl fadd a (map (severity_weight \<circ> rv_severity) vs)"
  by (induction vs arbitrary: a) (auto simp: add_penalty_def)

lemma score_eq:
  "turns \<noteq> [] \<Longrightarrow> calculate_score turns =
     normalized_score (fsum (map (severity_weight \<circ> rv_severity) (concat (map ct_violations turns))))
       (int (length turns))"
  by (simp add: calculate_score_def foldl_concat add_penalty_fsum fsum_def map_concat comp_def)

lemma normalized_score_0 [simp]: "normalized_score 0 n = 0"
  by (simp add: normalized_score_def Let_def fdiv_def fmul_def)

lemma score_as_from_violations:
  "calculate_score turns =
     calculate_score_from_violations (concat (map ct_violations turns)) (int (length turns))"
proof (cases "turns = []")
  case True
  then show ?thesis by (simp add: calculate_score_def calculate_score_from_violations_def)
next
  case False
  show ?thesis
  proof (cases "concat (map ct_violations turns) = []")
    case True
    then have "calculate_score turns = normalized_score (fsum []) (int (length turns))"
      using score_eq [OF False] by (simp only: list.map)
    with True show ?thesis by (simp only: calculate_score_from_violations_def) simp
  next
    case ne: False
    then have "\<not> (concat (map ct_violations turns) = [] \<or> int (length turns) \<le> 0)"
      using False by simp
    then show ?thesis
      by (simp only: score_eq [OF False] calculate_score_from_violations_def if_False)
  qed
qed

lemma score_bounds: "0 \<le> calculate_score turns \<and> calculate_score turns \<le> 100"
proof (cases "turns = []")
  case False
  show ?thesis
    unfolding score_eq [OF False] by (intro normalized_score_bounds fsum_nonneg) auto
qed (simp add: calculate_score_def)

lemma fsum_append_ge: "(\<And>x. x \<in> set ys \<Longrightarrow> 0 \<le> x) \<Longrightarrow> fsum xs \<le> fsum (xs @ ys)"
proof -
  assume ys: "\<And>x. x \<in> set ys \<Longrightarrow> 0 \<le> x"
  have "fl (foldl fadd 0 xs) = foldl fadd 0 xs"
    by (cases xs rule: rev_cases) simp_all
  from foldl_fadd_ge [OF this, of ys] ys show ?thesis by (simp add: fsum_def)
qed

text \<open>Inserting violations anywhere in a sequence never lowers its sum.\<close>

lemma fsum_insert_ge:
  assumes "\<And>x. x \<in> set ys \<Longrightarrow> 0 \<le> x"
  shows "fsum (xs @ zs) \<le> fsum (xs @ ys @ zs)"
proof -
  have "foldl fadd 0 xs \<le> foldl fadd (foldl fadd 0 xs) ys"
    using fsum_append_ge [of ys xs] assms by (simp add: fsum_def)
  then show ?thesis by (simp add: fsum_def foldl_fadd_mono)
qed

lemma score_mono:
  "calculate_score (us @ t # ws) \<le> calculate_score (us @ (t\<lparr>ct_violations := ct_violations t @ vs\<rparr>) # ws)"
proof -
  let ?w = "map (severity_weight \<circ> rv_severity)"
  have "fsum (?w (concat (map ct_violations us) @ ct_violations t) @ ?w (concat (map ct_violations ws)))
      \<le> fsum (?w (concat (map ct_violations us) @ ct_violations t) @ ?w vs
               @ ?w (concat (map ct_violations ws)))"
    by (rule fsum_insert_ge) auto
  then show ?thesis by (simp add: score_eq normalized_score_mono)
qed

subsection \<open>The analyzer over a suite of sound rules\<close>

text \<open>A suite: every rule satisfies the contract, under its own identifier.\<close>

definition suite_ok :: "(heuristic_fn \<times> string) list \<Rightarrow> bool" where
  "suite_ok hs \<longleftrightarrow> (\<forall>(h, rid)\<in>set hs. heuristic h rid)"

lemma run_heuristics_sound:
  assumes "suite_ok hs" "run_heuristics (map fst hs) t g p = Inr vs" "v \<in> set vs"
  shows "\<exists>rid\<in>snd ` set hs. violation_ok rid t (resolve_previous_turns t g p) v"
proof -
  obtain h zs where h: "h \<in> set (map fst hs)" "h t g p = Inr zs" "v \<in> set zs"
    using rcollect_InrD [OF assms(2) [unfolded run_heuristics_def] assms(3)] by auto
  then obtain rid where rid: "(h, rid) \<in> set hs" by auto
  with assms(1) have "heuristic h rid" by (auto simp: suite_ok_def)
  from heuristic.sound [OF this h(2,3)] rid show ?thesis by (metis image_eqI snd_conv)
qed

lemma violation_ok_stamp [simp]:
  "violation_ok rid t ps (v\<lparr>rv_turn_index := i\<rparr>) \<longleftrightarrow> violation_ok rid t ps v"
  by (simp add: violation_ok_def)

lemma analyze_turn_sound:
  assumes suite: "suite_ok hs" and run: "analyze_turn (map fst hs) t g p pr = Inr t'"
  shows "\<forall>v\<in>set (ct_violations t'). rv_turn_index v \<noteq> None
      \<and> (\<exists>rid\<in>snd ` set hs. violation_ok rid t (resolve_previous_turns t g p) v)"
    and "ct_wasted_cost_usd t' = calculate_wasted_spend t' (Some (ct_violations t'))"
    and "ct_turn_cost_usd t'
      = calculate_turn_cost t (Some (resolve_pricing pr (Some (ct_model t)) (Some (ct_provider t))))"
    and "all_blocks t' = all_blocks t \<and> ct_turn_id t' = ct_turn_id t
      \<and> ct_turn_index t' = ct_turn_index t \<and> ct_input_tokens t' = ct_input_tokens t"
proof -
  obtain vs where vs: "run_heuristics (map fst hs) t g p = Inr vs"
    and t': "ct_violations t' = map (stamp_violation t) vs"
      "ct_wasted_cost_usd t' = calculate_wasted_spend t (Some (map (stamp_violation t) vs))"
      "ct_turn_cost_usd t'
        = calculate_turn_cost t (Some (resolve_pricing pr (Some (ct_model t)) (Some (ct_provider t))))"
      "all_blocks t' = all_blocks t \<and> ct_turn_id t' = ct_turn_id t
        \<and> ct_turn_index t' = ct_turn_index t \<and> ct_input_tokens t' = ct_input_tokens t"
    using run
    by (auto simp: analyze_turn_def Let_def rbind_eq_Inr calculate_turn_cost_def
        calculate_wasted_spend_def resolve_pricing_def all_blocks_def)
  show "\<forall>v\<in>set (ct_violations t'). rv_turn_index v \<noteq> None
      \<and> (\<exists>rid\<in>snd ` set hs. violation_ok rid t (resolve_previous_turns t g p) v)"
    using run_heuristics_sound [OF suite vs] by (auto simp: t'(1) stamp_violation_def)
  show "ct_wasted_cost_usd t' = calculate_wasted_spend t' (Some (ct_violations t'))"
    by (simp add: t' calculate_wasted_spend_def)
  show "ct_turn_cost_usd t'
      = calculate_turn_cost t (Some (resolve_pricing pr (Some (ct_model t)) (Some (ct_provider t))))"
    and "all_blocks t' = all_blocks t \<and> ct_turn_id t' = ct_turn_id t
      \<and> ct_turn_index t' = ct_turn_index t \<and> ct_input_tokens t' = ct_input_tokens t"
    by (simp_all add: t')
qed

lemma analyze_turn_waste:
  assumes "suite_ok hs" "analyze_turn (map fst hs) t g p pr = Inr t'"
    "counts_ok t" "\<forall>q\<in>set (resolve_previous_turns t g p). counts_ok q"
  shows "0 \<le> ct_wasted_cost_usd t'"
  using analyze_turn_sound(1,2) [OF assms(1,2)] assms(3,4)
  by (auto simp: violation_ok_def intro!: wasted_spend_nonneg)

definition default_suite :: "(string \<Rightarrow> json option) \<Rightarrow> (heuristic_fn \<times> string) list" where
  "default_suite loads =
     zip (default_heuristics loads)
       [''CTX-001'', ''CTX-002'', ''CTX-003'', ''CTX-004'', ''CACHE-001'', ''CTX-006'', ''CTX-007'']"

lemma default_suite_fst: "map fst (default_suite loads) = default_heuristics loads"
  by (simp add: default_suite_def default_heuristics_def)

lemma default_suite_ids: "snd ` set (default_suite loads)
  = {''CTX-001'', ''CTX-002'', ''CTX-003'', ''CTX-004'', ''CACHE-001'', ''CTX-006'', ''CTX-007''}"
  by (auto simp: default_suite_def default_heuristics_def)

lemma default_suite_ok: "suite_ok (default_suite loads)"
  by (simp add: suite_ok_def default_suite_def default_heuristics_def stale.heuristic_axioms
      bloat.heuristic_axioms errors.heuristic_axioms recurring.heuristic_axioms
      prefix.heuristic_axioms zombie.heuristic_axioms bust.heuristic_axioms)

lemma analyze_loop_length:
  "analyze_loop hs g d ts = Inr us \<Longrightarrow> \<exists>vs. us = d @ vs \<and> length vs = length ts
     \<and> map ct_turn_id vs = map ct_turn_id ts"
proof (induction ts arbitrary: d)
  case Nil
  then show ?case by simp
next
  case (Cons t ts)
  then obtain t' where t': "analyze_turn hs t g (Some d) None = Inr t'"
    "analyze_loop hs g (d @ [t']) ts = Inr us"
    by (auto simp: rbind_eq_Inr)
  have "ct_turn_id t' = ct_turn_id t"
    using t'(1) by (auto simp: analyze_turn_def Let_def rbind_eq_Inr)
  with Cons.IH [OF t'(2)] show ?case by auto
qed

end
