(* ===== verification/Samples.thy ===== *)
theory Samples
  imports Analyzer
begin

text \<open>
  Small concrete sessions on which the properties of the root theory are exercised: a system
  prompt, a tool call and its result over three turns, for a model that is not named (so that the
  default prices apply).
\<close>

definition blk :: "string \<Rightarrow> block_type \<Rightarrow> string \<Rightarrow> int \<Rightarrow> string \<Rightarrow> string \<Rightarrow> string \<Rightarrow> context_block" where
  "blk bid bt h n content key cid =
     \<lparr>cb_block_id = bid, cb_block_type = bt, cb_content_hash = h, cb_token_count = n,
      cb_content = content, cb_metadata = [], cb_identity_key = key, cb_first_seen_turn = 0,
      cb_turns_survived = 0, cb_call_id = cid\<rparr>"

definition mk_turn :: "string \<Rightarrow> int \<Rightarrow> context_block list \<Rightarrow> context_block list \<Rightarrow> context_block list
    \<Rightarrow> context_block list \<Rightarrow> int \<Rightarrow> int \<Rightarrow> canonical_turn" where
  "mk_turn tid i sys conv results assistant inp outp =
     \<lparr>ct_turn_id = tid, ct_correlation_id = tid, ct_session_id = ''s'', ct_turn_index = i,
      ct_timestamp = 0, ct_provider = ''anthropic'', ct_model = [],
      ct_system_blocks = sys, ct_tool_defs = [], ct_conversation_history = conv,
      ct_tool_results = results, ct_assistant_blocks = assistant, ct_input_tokens = inp,
      ct_output_tokens = outp, ct_cached_read_tokens = 0, ct_cached_created_tokens = 0,
      ct_duration_ms = 0, ct_ttft_ms = None, ct_violations = [], ct_turn_cost_usd = 0,
      ct_wasted_cost_usd = 0, ct_metadata = []\<rparr>"

definition sys1 :: context_block where
  "sys1 = blk ''s1'' SYSTEM ''h1'' 10 ''You are'' ''sys'' []"

definition sys2 :: context_block where
  "sys2 = blk ''s1'' SYSTEM ''h2'' 12 ''You were'' ''sys'' []"

definition call1 :: context_block where
  "call1 = blk ''c1'' ASSISTANT_MSG ''h3'' 5 ''run'' [] ''call-1''"

definition result1 :: context_block where
  "result1 = blk ''r1'' TOOL_RESULT ''h4'' 200 ''ok'' [] ''call-1''"

definition turn0 :: canonical_turn where
  "turn0 = mk_turn ''t0'' 0 [sys1] [] [] [call1] 15 5"

definition turn1 :: canonical_turn where
  "turn1 = mk_turn ''t1'' 1 [sys1] [call1] [result1] [] 215 7"

definition turn2 :: canonical_turn where
  "turn2 = mk_turn ''t2'' 2 [sys2] [call1] [result1] [] 217 7"

definition turn3 :: canonical_turn where
  "turn3 = mk_turn ''t3'' 0 [sys1] [] [] [] 10 5"

definition turn4 :: canonical_turn where
  "turn4 = mk_turn ''t4'' 1 [sys2] [] [] [] 12 5"

lemmas sample_defs = blk_def mk_turn_def sys1_def sys2_def call1_def result1_def
  turn0_def turn1_def turn2_def turn3_def turn4_def

end
