(* ===== verification/SessionStore.thy ===== *)
theory SessionStore
  imports Analyzer "HOL-Library.List_Lexorder" "HOL-Library.Char_ord" "HOL-Library.Product_Lexorder"
begin

text \<open>
  \<open>src/core/store/session_store.py\<close>: the bounded in-memory registry of sessions. Every public
  method holds the lock, so the methods are atomic operations on one record. Sets of session
  identifiers are lists without duplicates. A turn that the Python code stamps in place
  (\<open>ContextGraph.add_turn\<close>) is stored stamped, once in the session list and once in the graph.
\<close>

record session_store =
  ss_max_sessions :: int
  ss_granularity :: string
  ss_sessions :: "(string, canonical_turn list) dict"
  ss_graphs :: "(string, context_graph) dict"
  ss_models :: "(string, string list) dict"
  ss_violations :: "(string, string list) dict"
  ss_exported :: "string list"
  ss_metadata :: "(string, jdict) dict"
  ss_aliases :: "(string, string) dict"

definition new_store :: "int \<Rightarrow> string \<Rightarrow> session_store" where
  "new_store max_sessions granularity =
     \<lparr>ss_max_sessions = max_sessions,
      ss_granularity = str_lower (if granularity = [] then ''step'' else granularity),
      ss_sessions = [], ss_graphs = [], ss_models = [], ss_violations = [], ss_exported = [],
      ss_metadata = [], ss_aliases = []\<rparr>"

definition alias_session :: "string \<Rightarrow> string \<Rightarrow> session_store \<Rightarrow> session_store" where
  "alias_session alias_id target s =
     (if dict_get (ss_sessions s) alias_id [] \<noteq> [] then s
      else s\<lparr>ss_aliases := AList.update alias_id target (ss_aliases s)\<rparr>)"

definition resolve_session_id :: "session_store \<Rightarrow> string \<Rightarrow> string" where
  "resolve_session_id s sid = dict_get (ss_aliases s) sid sid"

definition discard_session :: "string \<Rightarrow> (string, string list) dict \<Rightarrow> (string, string list) dict" where
  "discard_session sid idx = map (\<lambda>(k, ids). (k, removeAll sid ids)) idx"

definition evict_session :: "string \<Rightarrow> session_store \<Rightarrow> session_store" where
  "evict_session sid s =
     s\<lparr>ss_sessions := AList.delete sid (ss_sessions s),
       ss_graphs := AList.delete sid (ss_graphs s),
       ss_metadata := AList.delete sid (ss_metadata s),
       ss_models := discard_session sid (ss_models s),
       ss_violations := discard_session sid (ss_violations s)\<rparr>"

text \<open>
  The block shared by \<open>append_turn\<close> and \<open>register_session\<close>: \<open>next(iter(...))\<close> on an empty
  dictionary (only possible with a non-positive capacity) raises.
\<close>

definition ensure_session :: "string \<Rightarrow> session_store \<Rightarrow> session_store res" where
  "ensure_session sid s =
     (if map_of (ss_sessions s) sid \<noteq> None then Inr s
      else
        rbind
          (if ss_max_sessions s \<le> int (length (ss_sessions s)) then
             (case ss_sessions s of
                [] \<Rightarrow> Inl StopIteration
              | (oldest, _) # _ \<Rightarrow> Inr (evict_session oldest s))
           else Inr s)
          (\<lambda>s. Inr (s\<lparr>ss_sessions := AList.update sid [] (ss_sessions s),
                       ss_graphs := AList.update sid (new_graph (Some sid)) (ss_graphs s)\<rparr>)))"

definition index_add :: "string \<Rightarrow> string \<Rightarrow> (string, string list) dict \<Rightarrow> (string, string list) dict" where
  "index_add k sid idx = AList.update k (List.insert sid (dict_get idx k [])) idx"

definition index_turn :: "canonical_turn \<Rightarrow> session_store \<Rightarrow> session_store" where
  "index_turn t s =
     (let sid = ct_session_id t
      in s\<lparr>ss_models := (if ct_model t \<noteq> [] then index_add (str_lower (ct_model t)) sid (ss_models s)
                         else ss_models s),
           ss_violations :=
             foldl (\<lambda>idx v. index_add (rv_rule_id v) sid idx) (ss_violations s) (ct_violations t)\<rparr>)"

definition append_turn :: "canonical_turn \<Rightarrow> string option \<Rightarrow> session_store
    \<Rightarrow> (session_store \<times> turn_delta) res" where
  "append_turn turn parent s =
     (let sid = ct_session_id turn
      in rbind (ensure_session sid s) (\<lambda>s1.
           let s2 = s1\<lparr>ss_sessions := dict_move_to_end sid (ss_sessions s1)\<rparr>
           in case map_of (ss_graphs s2) sid of
                None \<Rightarrow> Inl (KeyError sid)
              | Some graph \<Rightarrow>
                  (let (g, t, delta) = add_turn graph turn parent;
                       s3 = s2\<lparr>ss_graphs := AList.update sid g (ss_graphs s2),
                              ss_sessions := AList.update sid
                                (dict_get (ss_sessions s2) sid [] @ [t]) (ss_sessions s2)\<rparr>
                   in Inr (index_turn t s3, delta))))"

definition store_update_turn :: "canonical_turn \<Rightarrow> session_store \<Rightarrow> session_store" where
  "store_update_turn turn s =
     (let sid = ct_session_id turn;
          turns = dict_get (ss_sessions s) sid [];
          i = ct_turn_index turn;
          turns' = (if 0 \<le> i \<and> i < int (length turns) then turns[nat i := turn]
                    else turns[length turns - 1 := turn])
      in if turns = [] then s
         else
           index_turn turn
             (s\<lparr>ss_sessions := AList.update sid turns' (ss_sessions s),
                ss_graphs :=
                  (case map_of (ss_graphs s) sid of
                     None \<Rightarrow> ss_graphs s
                   | Some g \<Rightarrow> AList.update sid (update_turn g turn) (ss_graphs s))\<rparr>))"

definition register_session :: "string \<Rightarrow> jdict option \<Rightarrow> session_store \<Rightarrow> session_store res" where
  "register_session sid metadata s =
     rbind (ensure_session sid s) (\<lambda>s1.
       let g = JStr (ss_granularity s1);
           s2 = (case metadata of
                   Some m \<Rightarrow>
                     s1\<lparr>ss_metadata := AList.update sid
                         (if jhas m ''granularity'' then m
                          else AList.update ''granularity'' g m) (ss_metadata s1)\<rparr>
                 | None \<Rightarrow>
                     if map_of (ss_metadata s1) sid = None
                     then s1\<lparr>ss_metadata := AList.update sid [(''granularity'', g)] (ss_metadata s1)\<rparr>
                     else s1)
       in Inr (s2\<lparr>ss_sessions := dict_move_to_end sid (ss_sessions s2)\<rparr>))"

subsection \<open>Queries\<close>

text \<open>\<open>d.get(a) or d.get(b)\<close> on dictionaries whose values may be empty.\<close>

definition get_session_metadata :: "session_store \<Rightarrow> string \<Rightarrow> jdict option" where
  "get_session_metadata s sid =
     (case map_of (ss_metadata s) (resolve_session_id s sid) of
        Some m \<Rightarrow> if m \<noteq> [] then Some m else map_of (ss_metadata s) sid
      | None \<Rightarrow> map_of (ss_metadata s) sid)"

definition get_session :: "session_store \<Rightarrow> string \<Rightarrow> canonical_turn list option" where
  "get_session s sid =
     (case map_of (ss_sessions s) (resolve_session_id s sid) of
        Some ts \<Rightarrow> Some ts
      | None \<Rightarrow> map_of (ss_sessions s) sid)"

definition get_graph :: "session_store \<Rightarrow> string \<Rightarrow> context_graph option" where
  "get_graph s sid =
     (case map_of (ss_graphs s) (resolve_session_id s sid) of
        Some g \<Rightarrow> Some g
      | None \<Rightarrow> map_of (ss_graphs s) sid)"

text \<open>\<open>sessions.get(resolved) or sessions.get(session_id, [])\<close>: the session that is read.\<close>

definition read_key :: "session_store \<Rightarrow> string \<Rightarrow> string" where
  "read_key s sid =
     (let resolved = resolve_session_id s sid
      in if dict_get (ss_sessions s) resolved [] \<noteq> [] then resolved else sid)"

definition read_turns :: "session_store \<Rightarrow> string \<Rightarrow> canonical_turn list" where
  "read_turns s sid = dict_get (ss_sessions s) (read_key s sid) []"

definition stamp_turn :: "canonical_turn \<Rightarrow> canonical_turn" where
  "stamp_turn t = t\<lparr>ct_violations := map (stamp_violation t) (ct_violations t)\<rparr>"

text \<open>
  The violations read are stamped with their turn in place: the turn objects are shared by the
  session list and the graph.
\<close>

definition stamp_graph :: "canonical_turn list \<Rightarrow> context_graph \<Rightarrow> context_graph" where
  "stamp_graph turns g =
     (let f = (\<lambda>t. if t \<in> set turns then stamp_turn t else t)
      in g\<lparr>g_turns := map f (g_turns g),
           g_turns_by_id := map (\<lambda>(k, t). (k, f t)) (g_turns_by_id g),
           g_turns_by_index := map (\<lambda>(k, t). (k, f t)) (g_turns_by_index g)\<rparr>)"

definition stamp_session :: "string \<Rightarrow> session_store \<Rightarrow> session_store" where
  "stamp_session sid s =
     (case map_of (ss_sessions s) sid of
        None \<Rightarrow> s
      | Some turns \<Rightarrow>
          s\<lparr>ss_sessions := AList.update sid (map stamp_turn turns) (ss_sessions s),
            ss_graphs :=
              (case map_of (ss_graphs s) sid of
                 None \<Rightarrow> ss_graphs s
               | Some g \<Rightarrow> AList.update sid (stamp_graph turns g) (ss_graphs s))\<rparr>)"

definition get_violations :: "session_store \<Rightarrow> string \<Rightarrow> string option
    \<Rightarrow> rule_violation list \<times> session_store" where
  "get_violations s sid rule_id =
     (filter (\<lambda>v. case rule_id of None \<Rightarrow> True | Some r \<Rightarrow> rv_rule_id v = r)
        (concat (map (ct_violations \<circ> stamp_turn) (read_turns s sid))),
      stamp_session (read_key s sid) s)"

definition group_key :: "rule_violation \<Rightarrow> string" where
  "group_key v =
     (if rv_rule_id v \<noteq> [] then rv_rule_id v
      else if rv_suggested_fix v \<noteq> [] then rv_suggested_fix v else rv_title v)"

definition group_violations :: "rule_violation list \<Rightarrow> (string, rule_violation list) dict" where
  "group_violations vs =
     foldl (\<lambda>d v. AList.update (group_key v) (dict_get d (group_key v) [] @ [v]) d) [] vs"

definition sort_violations :: "rule_violation list \<Rightarrow> rule_violation list" where
  "sort_violations vs = sort_key (\<lambda>v. case rv_turn_index v of None \<Rightarrow> 0 | Some i \<Rightarrow> i) vs"

definition group_severity :: "rule_violation list \<Rightarrow> violation_severity" where
  "group_severity vs =
     (if list_ex (\<lambda>v. rv_severity v = CRITICAL) vs then CRITICAL
      else if list_ex (\<lambda>v. rv_severity v = WARN) vs then WARN else INFO)"

text \<open>\<open>sum\<close> of an empty generator is the integer 0.\<close>

definition waste_json :: "rule_violation list \<Rightarrow> json" where
  "waste_json vs =
     (if vs = [] then JInt 0 else JFloat (fsum (map rv_estimated_waste_usd vs)))"

definition turn_indices :: "rule_violation list \<Rightarrow> int list" where
  "turn_indices vs = sort (remdups (List.map_filter rv_turn_index vs))"

definition group_fix :: "rule_violation option \<Rightarrow> rule_violation list \<Rightarrow> string" where
  "group_fix current sorted_viols =
     (let own = (case current of Some v \<Rightarrow> rv_suggested_fix v | None \<Rightarrow> [])
      in if own \<noteq> [] then own
         else (case find (\<lambda>v. rv_suggested_fix v \<noteq> []) (rev sorted_viols) of
                 Some v \<Rightarrow> rv_suggested_fix v | None \<Rightarrow> []))"

definition viols_json :: "rule_violation list \<Rightarrow> json" where
  "viols_json vs = JArr (map (\<lambda>v. JObj (rule_violation_to_dict v)) vs)"

definition group_entry :: "int \<Rightarrow> rule_violation list \<Rightarrow> jdict" where
  "group_entry current_index viols =
     (let sorted_viols = sort_violations viols;
          first = hd sorted_viols;
          sev = JStr (sev_value (group_severity sorted_viols));
          earlier = filter (\<lambda>v. case rv_turn_index v of None \<Rightarrow> False | Some i \<Rightarrow> i < current_index)
                      sorted_viols;
          now = filter (\<lambda>v. rv_turn_index v = Some current_index) sorted_viols;
          cur = (case now of [] \<Rightarrow> None | v # _ \<Rightarrow> Some v);
          fix = JStr (group_fix cur sorted_viols);
          n = JInt (int (length sorted_viols));
          indices = turn_indices sorted_viols;
          earlier_turns = JArr (map JInt (turn_indices earlier));
          cur_json = jopt (\<lambda>v. JObj (rule_violation_to_dict v)) cur;
          bids = JArr (map JStr (uniq_by id {} (concat (map rv_block_ids sorted_viols))));
          rid = JStr (rv_rule_id first)
      in [(''rule_id'', rid), (''ruleId'', rid), (''severity'', sev),
          (''title'', JStr (rv_title first)),
          (''message'', JStr (case cur of Some v \<Rightarrow> rv_message v
                               | None \<Rightarrow> rv_message (last sorted_viols))),
          (''suggested_fix'', fix), (''suggestedFix'', fix),
          (''total_occurrences'', n), (''totalOccurrences'', n),
          (''turn_count'', JInt (int (length indices))), (''turnCount'', JInt (int (length indices))),
          (''turn_indices'', JArr (map JInt indices)), (''turnIndices'', JArr (map JInt indices)),
          (''current_turn_index'', JInt current_index), (''currentTurnIndex'', JInt current_index),
          (''current_violation'', cur_json), (''currentTurnViolation'', cur_json),
          (''earlier_violations'', viols_json earlier), (''earlierViolations'', viols_json earlier),
          (''earlier_turn_indices'', earlier_turns), (''earlierTurnIndices'', earlier_turns),
          (''total_waste_usd'', waste_json sorted_viols), (''totalWasteUSD'', waste_json sorted_viols),
          (''estimated_waste_usd'', waste_json sorted_viols),
          (''estimatedWasteUSD'', waste_json sorted_viols),
          (''earlier_waste_usd'', waste_json earlier), (''earlierWasteUSD'', waste_json earlier),
          (''current_waste_usd'', waste_json now), (''currentWasteUSD'', waste_json now),
          (''block_ids'', bids), (''blockIds'', bids),
          (''all_violations'', viols_json sorted_viols), (''allViolations'', viols_json sorted_viols)])"

fun severity_order :: "violation_severity \<Rightarrow> int" where
  "severity_order CRITICAL = 0"
| "severity_order WARN = 1"
| "severity_order INFO = 2"

definition group_rank :: "rule_violation list \<Rightarrow> int \<times> rat" where
  "group_rank viols =
     (severity_order (group_severity viols),
      - fsum (map rv_estimated_waste_usd (sort_violations viols)))"

definition get_grouped_violations :: "session_store \<Rightarrow> string \<Rightarrow> string option
    \<Rightarrow> jdict list \<times> session_store" where
  "get_grouped_violations s sid rule_id =
     (let turns = read_turns s sid;
          current_index = (if turns = [] then 0 else ct_turn_index (last turns));
          (raw, s') = get_violations s sid rule_id
      in (map (group_entry current_index)
            (sort_key group_rank (dict_values (group_violations raw))), s'))"

definition timeline_entry :: "canonical_turn \<Rightarrow> jdict" where
  "timeline_entry t =
     [(''turnIndex'', JInt (ct_turn_index t)), (''turnId'', JStr (ct_turn_id t)),
      (''correlationId'', JStr (ct_correlation_id t)), (''timestamp'', JFloat (ct_timestamp t)),
      (''durationMs'', JFloat (ct_duration_ms t)), (''ttftMs'', jopt JFloat (ct_ttft_ms t)),
      (''inputTokens'', JInt (ct_input_tokens t)), (''outputTokens'', JInt (ct_output_tokens t)),
      (''cachedReadTokens'', JInt (ct_cached_read_tokens t)),
      (''cachedCreatedTokens'', JInt (ct_cached_created_tokens t)),
      (''turnCostUSD'', JFloat (ct_turn_cost_usd t)), (''wastedCostUSD'', JFloat (ct_wasted_cost_usd t)),
      (''violations'', viols_json (ct_violations t)),
      (''tokenBreakdown'', JObj
         [(''system'', JInt (sum_tokens (ct_system_blocks t))),
          (''tools'', JInt (sum_tokens (ct_tool_defs t))),
          (''history'', JInt (sum_tokens (ct_conversation_history t))),
          (''toolResults'', JInt (sum_tokens (ct_tool_results t))),
          (''assistant'', JInt (sum_tokens (ct_assistant_blocks t)))])]"

definition get_timeline :: "session_store \<Rightarrow> string \<Rightarrow> jdict list" where
  "get_timeline s sid = map timeline_entry (read_turns s sid)"

definition find_sessions_by_model :: "session_store \<Rightarrow> string \<Rightarrow> string list" where
  "find_sessions_by_model s model = sort (dict_get (ss_models s) (str_lower model) [])"

definition find_sessions_by_violation :: "session_store \<Rightarrow> string \<Rightarrow> string list" where
  "find_sessions_by_violation s rule_id = sort (dict_get (ss_violations s) rule_id [])"

definition list_sessions :: "session_store \<Rightarrow> string list" where
  "list_sessions s = dict_keys (ss_sessions s)"

definition get_session_count :: "session_store \<Rightarrow> int" where
  "get_session_count s = int (length (ss_sessions s))"

definition delete_session :: "string \<Rightarrow> session_store \<Rightarrow> bool \<times> session_store" where
  "delete_session sid s =
     (if map_of (ss_sessions s) sid \<noteq> None then (True, evict_session sid s) else (False, s))"

definition mark_exported :: "string \<Rightarrow> session_store \<Rightarrow> session_store" where
  "mark_exported sid s = s\<lparr>ss_exported := List.insert sid (ss_exported s)\<rparr>"

definition is_exported :: "session_store \<Rightarrow> string \<Rightarrow> bool" where
  "is_exported s sid \<longleftrightarrow> sid \<in> set (ss_exported s)"

definition handle_disconnect :: "string \<Rightarrow> bool \<Rightarrow> session_store \<Rightarrow> bool \<times> session_store" where
  "handle_disconnect sid erase_unexported s =
     (if erase_unexported \<and> \<not> is_exported s sid then (True, snd (delete_session sid s))
      else (False, s))"

definition clear_store :: "session_store \<Rightarrow> session_store" where
  "clear_store s =
     s\<lparr>ss_sessions := [], ss_graphs := [], ss_models := [], ss_violations := [],
       ss_exported := [], ss_metadata := []\<rparr>"


subsection \<open>The store invariant\<close>

definition index_ok :: "string set \<Rightarrow> (string, string list) dict \<Rightarrow> bool" where
  "index_ok live idx \<longleftrightarrow> (\<forall>(k, ids)\<in>set idx. distinct ids \<and> set ids \<subseteq> live)"

text \<open>
  At most \<open>max_sessions\<close> sessions; every session has a graph that records exactly its turns;
  metadata and both indexes mention live sessions only; a turn is stored under its own session.
\<close>

definition session_ok :: "string \<Rightarrow> canonical_turn list \<Rightarrow> context_graph option \<Rightarrow> bool" where
  "session_ok sid ts g \<longleftrightarrow>
     (\<exists>g'. g = Some g' \<and> g_turns g' = ts \<and> g_session_id g' = Some sid)
     \<and> list_all (\<lambda>t. ct_session_id t = sid) ts"

definition live :: "session_store \<Rightarrow> string set" where
  "live s = set (dict_keys (ss_sessions s))"

definition store_ok :: "session_store \<Rightarrow> bool" where
  "store_ok s \<longleftrightarrow>
     dict_wf (ss_sessions s) \<and> 0 < ss_max_sessions s
     \<and> int (length (ss_sessions s)) \<le> ss_max_sessions s
     \<and> (\<forall>sid. map_of (ss_sessions s) sid = None \<longrightarrow> map_of (ss_graphs s) sid = None
              \<and> map_of (ss_metadata s) sid = None)
     \<and> (\<forall>sid ts. map_of (ss_sessions s) sid = Some ts \<longrightarrow> session_ok sid ts (map_of (ss_graphs s) sid))
     \<and> index_ok (live s) (ss_models s) \<and> index_ok (live s) (ss_violations s)"

lemma live_iff: "sid \<in> live s \<longleftrightarrow> map_of (ss_sessions s) sid \<noteq> None"
  by (simp add: live_def dict_keys_def map_of_eq_None_iff)

lemma live_eq: "live s = {sid. map_of (ss_sessions s) sid \<noteq> None}"
  by (auto simp: live_iff)

lemma index_ok_mono: "index_ok A idx \<Longrightarrow> A \<subseteq> B \<Longrightarrow> index_ok B idx"
  by (fastforce simp: index_ok_def)

lemma index_ok_discard: "index_ok A idx \<Longrightarrow> index_ok (A - {sid}) (discard_session sid idx)"
  by (fastforce simp: index_ok_def discard_session_def distinct_removeAll)

lemma index_ok_get: "index_ok A idx \<Longrightarrow> distinct (dict_get idx k []) \<and> set (dict_get idx k []) \<subseteq> A"
  by (force simp: index_ok_def dict_get_def dest: map_of_SomeD split: option.splits)

lemma set_update: "set (AList.update k v d) \<subseteq> insert (k, v) (set d)"
  by (induction d) (auto split: if_splits)

lemma index_ok_update: "index_ok A idx \<Longrightarrow> distinct ids \<Longrightarrow> set ids \<subseteq> A \<Longrightarrow>
    index_ok A (AList.update k ids idx)"
  using set_update [of k ids idx] unfolding index_ok_def by fastforce

lemma index_ok_add: "index_ok A idx \<Longrightarrow> sid \<in> A \<Longrightarrow> index_ok A (index_add k sid idx)"
  using index_ok_get [of A idx k] unfolding index_add_def by (intro index_ok_update) auto

lemma index_ok_foldl:
  "index_ok A idx \<Longrightarrow> sid \<in> A \<Longrightarrow> index_ok A (foldl (\<lambda>idx v. index_add (f v) sid idx) idx vs)"
  by (induction vs arbitrary: idx) (auto intro: index_ok_add)

lemma new_store_ok: "0 < n \<Longrightarrow> store_ok (new_store n g)"
  by (simp add: store_ok_def new_store_def index_ok_def)

lemma evict_ok: "store_ok s \<Longrightarrow> store_ok (evict_session sid s)"
proof -
  assume ok: "store_ok s"
  let ?s = "evict_session sid s"
  have l: "live ?s = live s - {sid}" by (auto simp: live_iff evict_session_def split: if_splits)
  have "int (length (ss_sessions ?s)) \<le> ss_max_sessions ?s"
  proof -
    have "length (ss_sessions ?s) \<le> length (ss_sessions s)" by (simp add: evict_session_def)
    moreover have "int (length (ss_sessions s)) \<le> ss_max_sessions ?s"
      using ok by (simp add: store_ok_def evict_session_def)
    ultimately show ?thesis by linarith
  qed
  then show ?thesis
    using ok unfolding store_ok_def l
    by (auto simp: evict_session_def intro: index_ok_discard split: if_splits)
qed

lemma ensure_ok:
  assumes ok: "store_ok s"
  shows "\<exists>s'. ensure_session sid s = Inr s' \<and> store_ok s' \<and> sid \<in> live s'
    \<and> ss_max_sessions s' = ss_max_sessions s \<and> ss_aliases s' = ss_aliases s
    \<and> ss_exported s' = ss_exported s \<and> ss_granularity s' = ss_granularity s"
proof (cases "map_of (ss_sessions s) sid")
  case (Some ts)
  then show ?thesis using ok by (simp add: ensure_session_def live_iff)
next
  case None
  let ?full = "ss_max_sessions s \<le> int (length (ss_sessions s))"
  define s1 where "s1 = (if ?full then evict_session (fst (hd (ss_sessions s))) s else s)"
  have ne: "?full \<Longrightarrow> ss_sessions s \<noteq> []" using ok by (auto simp: store_ok_def)
  have ok1: "store_ok s1" using ok evict_ok by (simp add: s1_def)
  have none: "map_of (ss_sessions s1) sid = None" using None by (simp add: s1_def evict_session_def)
  have fields: "ss_max_sessions s1 = ss_max_sessions s" "ss_aliases s1 = ss_aliases s"
    "ss_exported s1 = ss_exported s" "ss_granularity s1 = ss_granularity s"
    by (simp_all add: s1_def evict_session_def)
  have room: "int (length (ss_sessions s1)) < ss_max_sessions s"
  proof (cases ?full)
    case True
    then obtain o' ts rest where hd: "ss_sessions s = (o', ts) # rest" using ne by (cases "ss_sessions s") auto
    have "map_of (ss_sessions s) o' \<noteq> None" by (simp add: hd)
    from length_delete_old [OF _ this] ok have "Suc (length (AList.delete o' (ss_sessions s))) = length (ss_sessions s)"
      by (simp add: store_ok_def)
    with True ok hd show ?thesis by (simp add: s1_def evict_session_def store_ok_def)
  qed (simp add: s1_def)
  let ?s' = "s1\<lparr>ss_sessions := AList.update sid [] (ss_sessions s1),
                ss_graphs := AList.update sid (new_graph (Some sid)) (ss_graphs s1)\<rparr>"
  have run: "ensure_session sid s = Inr ?s'"
    using None ne by (cases "ss_sessions s") (auto simp: ensure_session_def s1_def)
  have l: "live ?s' = insert sid (live s1)" by (auto simp: live_iff split: if_splits)
  have "store_ok ?s'"
    using ok1 room none fields(1) unfolding store_ok_def l
    by (auto simp: length_update_new session_ok_def new_graph_def intro: index_ok_mono)
  with run l fields show ?thesis by auto
qed

lemma length_update_keep: "map_of d k \<noteq> None \<Longrightarrow> length (AList.update k v d) = length d"
  by (rule length_update_old)

text \<open>Replacing the turns and the graph of a live session, and indexing it.\<close>

lemma store_ok_replace:
  assumes ok: "store_ok s" and sid: "sid \<in> live s" and new: "session_ok sid ts (Some g)"
    and idx: "index_ok (live s) ms" "index_ok (live s) vs"
  shows "store_ok (s\<lparr>ss_sessions := AList.update sid ts (ss_sessions s),
      ss_graphs := AList.update sid g (ss_graphs s), ss_models := ms, ss_violations := vs\<rparr>)"
proof -
  let ?s = "s\<lparr>ss_sessions := AList.update sid ts (ss_sessions s),
      ss_graphs := AList.update sid g (ss_graphs s), ss_models := ms, ss_violations := vs\<rparr>"
  have some: "map_of (ss_sessions s) sid \<noteq> None" using sid by (simp add: live_iff)
  then have l: "live ?s = live s" by (auto simp: live_iff split: if_splits)
  show ?thesis
    using ok new idx some unfolding store_ok_def l by (auto simp: length_update_keep)
qed

lemma store_ok_move: "store_ok s \<Longrightarrow> store_ok (s\<lparr>ss_sessions := dict_move_to_end sid (ss_sessions s)\<rparr>)"
proof -
  assume ok: "store_ok s"
  then have wf: "dict_wf (ss_sessions s)" by (simp add: store_ok_def)
  have l: "live (s\<lparr>ss_sessions := dict_move_to_end sid (ss_sessions s)\<rparr>) = live s"
    by (auto simp: live_iff)
  show ?thesis using ok wf unfolding store_ok_def l by simp
qed

lemma add_turn_session: "g_session_id g = Some sid \<Longrightarrow> g_session_id (fst (add_turn g t p)) = Some sid"
  by (simp add: add_turn_def Let_def split_beta)

lemma append_turn_ok:
  assumes ok: "store_ok s"
  shows "\<exists>s' d. append_turn t p s = Inr (s', d) \<and> store_ok s' \<and> ss_max_sessions s' = ss_max_sessions s"
proof -
  let ?sid = "ct_session_id t"
  obtain s1 where s1: "ensure_session ?sid s = Inr s1" "store_ok s1" "?sid \<in> live s1"
    "ss_max_sessions s1 = ss_max_sessions s"
    using ensure_ok [OF ok, of ?sid] by blast
  define s2 where "s2 = s1\<lparr>ss_sessions := dict_move_to_end ?sid (ss_sessions s1)\<rparr>"
  have ok2: "store_ok s2" using store_ok_move [OF s1(2)] by (simp add: s2_def)
  have live2: "?sid \<in> live s2" using s1(3) by (simp add: live_iff s2_def)
  then obtain ts where ts: "map_of (ss_sessions s2) ?sid = Some ts" by (auto simp: live_iff)
  with ok2 have "session_ok ?sid ts (map_of (ss_graphs s2) ?sid)" by (simp add: store_ok_def)
  then obtain g where g: "map_of (ss_graphs s2) ?sid = Some g" "g_turns g = ts"
    "g_session_id g = Some ?sid" "list_all (\<lambda>t. ct_session_id t = ?sid) ts"
    by (auto simp: session_ok_def)
  obtain g' t' d where add: "add_turn g t p = (g', t', d)" by (cases "add_turn g t p") auto
  have sess: "session_ok ?sid (ts @ [t']) (Some g')"
    using add_turn_fields(1,2) [of g t p] add_turn_session [OF g(3), of t p] g(2,4)
    by (simp add: session_ok_def add)
  have sid': "ct_session_id t' = ?sid" using add_turn_fields(2) [of g t p] by (simp add: add)
  define ms where "ms = (if ct_model t' \<noteq> [] then index_add (str_lower (ct_model t')) ?sid (ss_models s2)
    else ss_models s2)"
  define vs where "vs = foldl (\<lambda>idx v. index_add (rv_rule_id v) ?sid idx) (ss_violations s2)
    (ct_violations t')"
  let ?s' = "s2\<lparr>ss_sessions := AList.update ?sid (ts @ [t']) (ss_sessions s2),
      ss_graphs := AList.update ?sid g' (ss_graphs s2), ss_models := ms, ss_violations := vs\<rparr>"
  have "append_turn t p s = Inr (?s', d)"
    using ts g(1) add s1(1)
    by (simp add: append_turn_def index_turn_def Let_def dict_get_def sid' ms_def vs_def s2_def)
  moreover have "store_ok ?s'"
  proof (rule store_ok_replace [OF ok2 live2 sess])
    show "index_ok (live s2) ms" "index_ok (live s2) vs"
      using ok2 live2 by (auto simp: ms_def vs_def store_ok_def intro: index_ok_add index_ok_foldl)
  qed
  ultimately show ?thesis using s1(4) by (simp add: s2_def)
qed

lemma register_ok:
  assumes ok: "store_ok s"
  shows "\<exists>s'. register_session sid m s = Inr s' \<and> store_ok s'"
proof -
  obtain s1 where s1: "ensure_session sid s = Inr s1" "store_ok s1" "sid \<in> live s1"
    using ensure_ok [OF ok, of sid] by blast
  have upd: "store_ok (s1\<lparr>ss_metadata := AList.update sid x (ss_metadata s1)\<rparr>)" for x
  proof -
    have "live (s1\<lparr>ss_metadata := AList.update sid x (ss_metadata s1)\<rparr>) = live s1"
      by (simp add: live_def)
    then show ?thesis using s1(2,3) unfolding store_ok_def by (auto simp: live_iff)
  qed
  show ?thesis
    using store_ok_move [OF upd] store_ok_move [OF s1(2)]
    by (auto simp: register_session_def s1(1) Let_def split: option.splits)
qed

lemma list_all_update: "list_all P xs \<Longrightarrow> P x \<Longrightarrow> list_all P (xs[i := x])"
  by (auto simp: list_all_iff dest!: set_update_subset_insert [THEN subsetD])

lemma update_turn_ok:
  assumes ok: "store_ok s"
  shows "store_ok (store_update_turn t s)"
proof (cases "dict_get (ss_sessions s) (ct_session_id t) []")
  case Nil
  then show ?thesis using ok by (simp add: store_update_turn_def Let_def)
next
  case (Cons u us)
  let ?sid = "ct_session_id t" and ?ts = "u # us"
  have ts: "map_of (ss_sessions s) ?sid = Some ?ts"
    using Cons by (auto simp: dict_get_def split: option.splits)
  with ok have "session_ok ?sid ?ts (map_of (ss_graphs s) ?sid)" by (simp add: store_ok_def)
  then obtain g where g: "map_of (ss_graphs s) ?sid = Some g" "g_turns g = ?ts"
    "g_session_id g = Some ?sid" "list_all (\<lambda>t. ct_session_id t = ?sid) ?ts"
    by (auto simp: session_ok_def)
  define ts' where "ts' = (if 0 \<le> ct_turn_index t \<and> ct_turn_index t < int (length ?ts)
    then ?ts[nat (ct_turn_index t) := t] else ?ts[length ?ts - 1 := t])"
  have sess: "session_ok ?sid ts' (Some (update_turn g t))"
    using g by (simp add: session_ok_def update_turn_def Let_def ts'_def list_all_update
        del: list_update.simps list.pred_inject)
  have live: "?sid \<in> live s" using ts by (simp add: live_iff)
  define ms where "ms = (if ct_model t \<noteq> [] then index_add (str_lower (ct_model t)) ?sid (ss_models s)
    else ss_models s)"
  define vs where "vs = foldl (\<lambda>idx v. index_add (rv_rule_id v) ?sid idx) (ss_violations s)
    (ct_violations t)"
  have "store_update_turn t s = s\<lparr>ss_sessions := AList.update ?sid ts' (ss_sessions s),
      ss_graphs := AList.update ?sid (update_turn g t) (ss_graphs s),
      ss_models := ms, ss_violations := vs\<rparr>"
    unfolding store_update_turn_def Let_def Cons ts'_def [symmetric]
    by (simp add: g(1) index_turn_def Let_def ms_def vs_def)
  moreover have "index_ok (live s) ms" "index_ok (live s) vs"
    using ok live by (auto simp: ms_def vs_def store_ok_def intro: index_ok_add index_ok_foldl)
  ultimately show ?thesis using store_ok_replace [OF ok live sess] by simp
qed

lemma stamp_session_ok:
  assumes ok: "store_ok s"
  shows "store_ok (stamp_session sid s)"
proof (cases "map_of (ss_sessions s) sid")
  case None
  then show ?thesis using ok by (simp add: stamp_session_def)
next
  case (Some ts)
  with ok have "session_ok sid ts (map_of (ss_graphs s) sid)" by (simp add: store_ok_def)
  then obtain g where g: "map_of (ss_graphs s) sid = Some g" "g_turns g = ts"
    "g_session_id g = Some sid" "list_all (\<lambda>t. ct_session_id t = sid) ts"
    by (auto simp: session_ok_def)
  have "session_ok sid (map stamp_turn ts) (Some (stamp_graph ts g))"
    using g by (auto simp: session_ok_def stamp_graph_def Let_def list_all_iff stamp_turn_def)
  moreover have "sid \<in> live s" using Some by (simp add: live_iff)
  ultimately have "store_ok (s\<lparr>ss_sessions := AList.update sid (map stamp_turn ts) (ss_sessions s),
      ss_graphs := AList.update sid (stamp_graph ts g) (ss_graphs s),
      ss_models := ss_models s, ss_violations := ss_violations s\<rparr>)"
    using ok by (intro store_ok_replace) (simp_all add: store_ok_def)
  then show ?thesis by (simp add: stamp_session_def Some g(1))
qed

lemma frame_ok [simp]:
  "store_ok (s\<lparr>ss_exported := x\<rparr>) \<longleftrightarrow> store_ok s"
  "store_ok (s\<lparr>ss_aliases := al\<rparr>) \<longleftrightarrow> store_ok s"
  by (simp_all add: store_ok_def live_def)

lemma delete_ok: "store_ok s \<Longrightarrow> store_ok (snd (delete_session sid s))"
  by (simp add: delete_session_def evict_ok)

text \<open>One public operation of the store, and the states it can lead to.\<close>

datatype store_op =
    AliasSession string string
  | AppendTurn canonical_turn "string option"
  | UpdateTurn canonical_turn
  | RegisterSession string "jdict option"
  | GetViolations string "string option"
  | GetGrouped string "string option"
  | DeleteSession string
  | MarkExported string
  | HandleDisconnect string bool
  | Clear

fun store_step :: "store_op \<Rightarrow> session_store \<Rightarrow> session_store res" where
  "store_step (AliasSession a t) s = Inr (alias_session a t s)"
| "store_step (AppendTurn t p) s = rbind (append_turn t p s) (\<lambda>r. Inr (fst r))"
| "store_step (UpdateTurn t) s = Inr (store_update_turn t s)"
| "store_step (RegisterSession sid m) s = register_session sid m s"
| "store_step (GetViolations sid r) s = Inr (snd (get_violations s sid r))"
| "store_step (GetGrouped sid r) s = Inr (snd (get_grouped_violations s sid r))"
| "store_step (DeleteSession sid) s = Inr (snd (delete_session sid s))"
| "store_step (MarkExported sid) s = Inr (mark_exported sid s)"
| "store_step (HandleDisconnect sid e) s = Inr (snd (handle_disconnect sid e s))"
| "store_step Clear s = Inr (clear_store s)"

lemma store_step_ok:
  assumes ok: "store_ok s"
  shows "\<exists>s'. store_step op s = Inr s' \<and> store_ok s'"
proof (cases op)
  case (AppendTurn t p)
  then show ?thesis using append_turn_ok [OF ok, of t p] by auto
next
  case (RegisterSession sid m)
  then show ?thesis using register_ok [OF ok] by simp
next
  case Clear
  then show ?thesis using ok by (simp add: clear_store_def store_ok_def index_ok_def)
qed (use ok in \<open>simp_all add: alias_session_def update_turn_ok get_violations_def
      get_grouped_violations_def Let_def stamp_session_ok delete_ok mark_exported_def handle_disconnect_def\<close>)

inductive store_reachable :: "int \<Rightarrow> string \<Rightarrow> session_store \<Rightarrow> bool" for n g where
  init: "store_reachable n g (new_store n g)"
| step: "store_reachable n g s \<Longrightarrow> store_step op s = Inr s' \<Longrightarrow> store_reachable n g s'"

inductive_cases store_reachableE: "store_reachable n g s"

lemma reachable_ok: "store_reachable n g s \<Longrightarrow> 0 < n \<Longrightarrow> store_ok s"
proof (induction rule: store_reachable.induct)
  case init
  then show ?case by (simp add: new_store_ok)
next
  case (step s op s')
  then show ?case using store_step_ok [of s op] by auto
qed

subsection \<open>Activity order\<close>

lemma keys_update_old: "map_of d k \<noteq> None \<Longrightarrow> dict_keys (AList.update k v d) = dict_keys d"
  by (simp add: dict_keys_def map_fst_update_old)

lemma keys_update_new: "map_of d k = None \<Longrightarrow> dict_keys (AList.update k v d) = dict_keys d @ [k]"
  by (simp add: dict_keys_def update_new)

lemma keys_delete: "dict_keys (AList.delete k d) = removeAll k (dict_keys d)"
  by (induction d) (auto simp: dict_keys_def AList.delete_eq)

lemma keys_move: "map_of d k \<noteq> None \<Longrightarrow> dict_keys (dict_move_to_end k d) = removeAll k (dict_keys d) @ [k]"
  using keys_delete [of k d] by (auto simp: dict_move_to_end_def dict_keys_def)

lemma append_order:
  assumes ok: "store_ok s" and run: "append_turn t p s = Inr (s', d)"
  shows "list_sessions s' =
    (if ct_session_id t \<in> set (list_sessions s) then removeAll (ct_session_id t) (list_sessions s)
     else if int (length (list_sessions s)) = ss_max_sessions s then tl (list_sessions s)
     else list_sessions s) @ [ct_session_id t]"
proof -
  let ?sid = "ct_session_id t"
  obtain s1 where s1: "ensure_session ?sid s = Inr s1" "?sid \<in> live s1"
    using ensure_ok [OF ok, of ?sid] by blast
  have some: "map_of (ss_sessions s1) ?sid \<noteq> None" using s1(2) by (simp add: live_iff)
  from run s1(1) have "\<exists>ts. ss_sessions s' = AList.update ?sid ts (dict_move_to_end ?sid (ss_sessions s1))"
    by (auto simp: append_turn_def index_turn_def Let_def rbind_def split: option.splits prod.splits)
  then have keys: "list_sessions s' = removeAll ?sid (list_sessions s1) @ [?sid]"
    using some by (auto simp: list_sessions_def keys_update_old keys_move)
  show ?thesis
  proof (cases "?sid \<in> set (list_sessions s)")
    case True
    then have "s1 = s" using s1(1)
      by (auto simp: ensure_session_def list_sessions_def dict_keys_def map_of_eq_None_iff split: if_splits)
    with keys True show ?thesis by simp
  next
    case False
    then have none: "map_of (ss_sessions s) ?sid = None"
      by (simp add: list_sessions_def dict_keys_def map_of_eq_None_iff)
    have dist: "distinct (list_sessions s)" using ok by (simp add: store_ok_def dict_wf_def list_sessions_def dict_keys_def)
    have le: "int (length (list_sessions s)) \<le> ss_max_sessions s" "0 < ss_max_sessions s"
      using ok by (simp_all add: store_ok_def list_sessions_def dict_keys_def)
    show ?thesis
    proof (cases "int (length (list_sessions s)) = ss_max_sessions s")
      case full: True
      then obtain o' ts rest where hd: "ss_sessions s = (o', ts) # rest"
        using le by (cases "ss_sessions s") (auto simp: list_sessions_def dict_keys_def)
      have "ss_sessions s1 = AList.update ?sid [] (AList.delete o' (ss_sessions s))"
        using s1(1) none full hd
        by (auto simp: ensure_session_def evict_session_def list_sessions_def dict_keys_def
            simp del: AList.update.simps AList.delete_simps)
      then have "list_sessions s1 = removeAll o' (list_sessions s) @ [?sid]"
        using none by (simp add: list_sessions_def keys_update_new keys_delete)
      moreover have "removeAll o' (list_sessions s) = tl (list_sessions s)"
        using dist hd by (auto simp: list_sessions_def dict_keys_def)
      moreover have "?sid \<notin> set (tl (list_sessions s))" using False by (cases "list_sessions s") auto
      ultimately show ?thesis using keys False full by simp
    next
      case room: False
      then have "list_sessions s1 = list_sessions s @ [?sid]"
        using s1(1) none le
        by (auto simp: ensure_session_def list_sessions_def keys_update_new dict_keys_def update_new)
      with keys False room show ?thesis by simp
    qed
  qed
qed

end
