(* ===== verification/Streams.thy ===== *)
theory Streams
  imports Prelude
begin

text \<open>
  The interface of the incremental consumers of the program: a machine that is fed a stream in
  chunks (socket reads, HTTP body chunks) and returns the items it has completed. The law a
  provider promises is that a chunk boundary is invisible; what a client gets from it is that
  any two ways of cutting the same stream give the same items and the same final state.
  The providers are \<open>FrameDecoder.feed\<close>, the incremental UTF-8 decoder and
  \<open>SSEParser.feed\<close>. \<^const>\<open>None\<close> is a raised protocol error. All three keep the unread input
  in a buffer and cut items off its head: the locale \<open>scanner\<close> is that loop.
\<close>

fun run_chunks :: "('s \<Rightarrow> 'a list \<Rightarrow> ('o list \<times> 's) option) \<Rightarrow> 's \<Rightarrow> 'a list list
    \<Rightarrow> ('o list \<times> 's) option" where
  "run_chunks step s [] = Some ([], s)"
| "run_chunks step s (c # cs) =
     (case step s c of
        None \<Rightarrow> None
      | Some (out, s') \<Rightarrow>
          (case run_chunks step s' cs of
             None \<Rightarrow> None
           | Some (out', s'') \<Rightarrow> Some (out @ out', s'')))"

locale chunk_machine =
  fixes step :: "'s \<Rightarrow> 'a list \<Rightarrow> ('o list \<times> 's) option"
  assumes step_append:
    "step s (a @ b) =
       (case step s a of
          None \<Rightarrow> None
        | Some (out, s') \<Rightarrow>
            (case step s' b of
               None \<Rightarrow> None
             | Some (out', s'') \<Rightarrow> Some (out @ out', s'')))"
begin

lemma run_concat:
  assumes "cs \<noteq> []"
  shows "run_chunks step s cs = step s (concat cs)"
  using assms
proof (induction cs arbitrary: s)
  case Nil
  then show ?case by simp
next
  case (Cons c cs)
  show ?case
  proof (cases cs)
    case Nil
    then show ?thesis by (auto split: option.splits)
  next
    case (Cons c' cs')
    then have "run_chunks step s' cs = step s' (concat cs)" for s'
      by (intro Cons.IH) simp
    then show ?thesis by (auto simp: step_append split: option.splits)
  qed
qed

lemma chunking_irrelevant:
  assumes "cs \<noteq> []" "ds \<noteq> []" "concat cs = concat ds"
  shows "run_chunks step s cs = run_chunks step s ds"
  using assms by (simp add: run_concat)

lemma run_bytewise:
  assumes "xs \<noteq> []"
  shows "run_chunks step s (map (\<lambda>x. [x]) xs) = step s xs"
  using assms run_concat [of "map (\<lambda>x. [x]) xs" s] by (simp add: concat_map_singleton)

end

subsection \<open>Scanning loops\<close>

text \<open>
  What the head of a buffer amounts to: it needs more input, it is an error, or it completes
  items; the last two leave a new state and use up a number of buffered elements.
\<close>

datatype ('o, 's) scanned = More | Fail 's nat | Item "'o list" 's nat

locale scanner =
  fixes head :: "'s \<Rightarrow> 'a list \<Rightarrow> ('o, 's) scanned"
    and scan :: "'s \<Rightarrow> 'a list \<Rightarrow> 'o list \<times> 's \<times> 'a list \<times> bool"
  assumes head_stable: "head s x \<noteq> More \<Longrightarrow> head s (x @ y) = head s x"
    and item_size: "head s x = Item os s' n \<Longrightarrow> 0 < n \<and> n \<le> length x"
    and fail_size: "head s x = Fail s' n \<Longrightarrow> n \<le> length x"
    and scan_loop: "scan s x =
      (case head s x of
         More \<Rightarrow> ([], s, x, False)
       | Fail s' n \<Rightarrow> ([], s', drop n x, True)
       | Item os s' n \<Rightarrow> (case scan s' (drop n x) of (es, t, r, e) \<Rightarrow> (os @ es, t, r, e)))"
begin

lemma scan_append:
  "scan s (x @ y) =
     (case scan s x of
        (es, t, r, True) \<Rightarrow> (es, t, r @ y, True)
      | (es, t, r, False) \<Rightarrow> (case scan t (r @ y) of (es', t', r', e) \<Rightarrow> (es @ es', t', r', e)))"
proof (induction "length x" arbitrary: s x rule: less_induct)
  case less
  show ?case
  proof (cases "head s x")
    case More
    then show ?thesis by (subst (2) scan_loop) (simp split: prod.splits)
  next
    case (Fail s' n)
    moreover have "n \<le> length x" by (rule fail_size [OF Fail])
    ultimately show ?thesis
      using head_stable [of s x y] by (subst (1 2) scan_loop) simp
  next
    case (Item os s' n)
    have n: "0 < n" "n \<le> length x" using item_size [OF Item] by simp_all
    then have "length (drop n x) < length x" by simp
    note IH = less [OF this, of s']
    have "scan s (x @ y) = (case scan s' (drop n x @ y) of (es, t, r, e) \<Rightarrow> (os @ es, t, r, e))"
      using Item n head_stable [of s x y] by (subst scan_loop) simp
    moreover have "scan s x = (case scan s' (drop n x) of (es, t, r, e) \<Rightarrow> (os @ es, t, r, e))"
      using Item by (subst scan_loop) simp
    ultimately show ?thesis by (simp add: IH split: prod.splits bool.splits)
  qed
qed

definition scan_step :: "'s \<times> 'a list \<Rightarrow> 'a list \<Rightarrow> ('o list \<times> ('s \<times> 'a list)) option" where
  "scan_step st chunk =
     (case scan (fst st) (snd st @ chunk) of
        (es, t, r, err) \<Rightarrow> if err then None else Some (es, (t, r)))"

lemma scan_rest: "scan s x = (es, t, r, False) \<Longrightarrow> head t r = More"
proof (induction "length x" arbitrary: s x es rule: less_induct)
  case less
  from less.prems show ?case
  proof (cases "head s x")
    case (Item os s' n)
    have "0 < n" "n \<le> length x" using item_size [OF Item] by simp_all
    then have "length (drop n x) < length x" by simp
    then show ?thesis
      using less.prems Item less.hyps [of "drop n x" s']
      by (subst (asm) scan_loop) (auto split: prod.splits)
  qed (subst (asm) scan_loop, simp)+
qed

lemma scan_more: "head s x = More \<Longrightarrow> scan s x = ([], s, x, False)"
  by (subst scan_loop) simp

lemma scan_item: "head s x = Item os s' n \<Longrightarrow>
    scan s x = (case scan s' (drop n x) of (es, t, r, e) \<Rightarrow> (os @ es, t, r, e))"
  by (subst scan_loop) simp

end

sublocale scanner \<subseteq> chunk_machine scan_step
proof
  fix st :: "'s \<times> 'a list" and a b :: "'a list"
  show "scan_step st (a @ b) =
      (case scan_step st a of
         None \<Rightarrow> None
       | Some (out, s') \<Rightarrow>
           (case scan_step s' b of
              None \<Rightarrow> None
            | Some (out', s'') \<Rightarrow> Some (out @ out', s'')))"
    using scan_append [of "fst st" "snd st @ a" b]
    by (simp add: scan_step_def split: prod.splits bool.splits)
qed

text \<open>Two machines in a row, the output of the first being the input of the second.\<close>

definition pipe_step ::
  "('s \<Rightarrow> 'a list \<Rightarrow> ('b list \<times> 's) option) \<Rightarrow> ('t \<Rightarrow> 'b list \<Rightarrow> ('o list \<times> 't) option)
   \<Rightarrow> 's \<times> 't \<Rightarrow> 'a list \<Rightarrow> ('o list \<times> ('s \<times> 't)) option" where
  "pipe_step f g st xs =
     (case f (fst st) xs of
        None \<Rightarrow> None
      | Some (ys, s') \<Rightarrow>
          (case g (snd st) ys of
             None \<Rightarrow> None
           | Some (zs, t') \<Rightarrow> Some (zs, (s', t'))))"

locale chunk_pipeline =
  first: chunk_machine f + second: chunk_machine g
  for f :: "'s \<Rightarrow> 'a list \<Rightarrow> ('b list \<times> 's) option"
    and g :: "'t \<Rightarrow> 'b list \<Rightarrow> ('o list \<times> 't) option"

sublocale chunk_pipeline \<subseteq> pipe: chunk_machine "pipe_step f g"
proof
  fix st :: "'s \<times> 't" and a b :: "'a list"
  show "pipe_step f g st (a @ b) =
      (case pipe_step f g st a of
         None \<Rightarrow> None
       | Some (out, s') \<Rightarrow>
           (case pipe_step f g s' b of
              None \<Rightarrow> None
            | Some (out', s'') \<Rightarrow> Some (out @ out', s'')))"
    by (auto simp: pipe_step_def first.step_append second.step_append split: option.splits)
qed

end
