(* ===== verification/Utf8.thy ===== *)
theory Utf8
  imports Streams "HOL-Library.Word"
begin

text \<open>
  The UTF-8 codec the program relies on: \<open>str.encode("utf-8")\<close> and the incremental decoder
  \<open>codecs.getincrementaldecoder("utf-8")("replace")\<close> that \<open>SSEParser\<close> and the Gemini accumulator
  own. Text is a list of code points. The decoder keeps the bytes of an unfinished sequence and
  replaces each maximal ill-formed part by U+FFFD.
\<close>

type_synonym byte = "8 word"
type_synonym bytes = "byte list"
type_synonym code_point = nat
type_synonym ustring = "code_point list"

subsection \<open>Decoding\<close>

definition REPLACEMENT :: code_point where
  "REPLACEMENT = 65533"

definition continuation :: "nat \<Rightarrow> bool" where
  "continuation b \<longleftrightarrow> 128 \<le> b \<and> b < 192"

definition bad :: "nat \<Rightarrow> (code_point, unit) scanned" where
  "bad n = Item [REPLACEMENT] () n"

text \<open>The first byte decides the length; the second one also excludes overlong forms,
  surrogates and code points above U+10FFFF.\<close>

definition second_ok :: "nat \<Rightarrow> nat \<Rightarrow> bool" where
  "second_ok a b \<longleftrightarrow> continuation b \<and> (a = 224 \<longrightarrow> 160 \<le> b) \<and> (a = 237 \<longrightarrow> b < 160)
     \<and> (a = 240 \<longrightarrow> 144 \<le> b) \<and> (a = 244 \<longrightarrow> b < 144)"

definition two_bytes :: "nat \<Rightarrow> nat list \<Rightarrow> (code_point, unit) scanned" where
  "two_bytes a rest =
     (case rest of
        [] \<Rightarrow> More
      | b # _ \<Rightarrow> if continuation b then Item [(a - 192) * 64 + (b - 128)] () 2 else bad 1)"

definition three_bytes :: "nat \<Rightarrow> nat list \<Rightarrow> (code_point, unit) scanned" where
  "three_bytes a rest =
     (case rest of
        [] \<Rightarrow> More
      | b # rest' \<Rightarrow>
          if \<not> second_ok a b then bad 1
          else (case rest' of
                  [] \<Rightarrow> More
                | c # _ \<Rightarrow>
                    if continuation c
                    then Item [(a - 224) * 4096 + (b - 128) * 64 + (c - 128)] () 3 else bad 2))"

definition four_bytes :: "nat \<Rightarrow> nat list \<Rightarrow> (code_point, unit) scanned" where
  "four_bytes a rest =
     (case rest of
        [] \<Rightarrow> More
      | b # rest' \<Rightarrow>
          if \<not> second_ok a b then bad 1
          else (case rest' of
                  [] \<Rightarrow> More
                | c # rest'' \<Rightarrow>
                    if \<not> continuation c then bad 2
                    else (case rest'' of
                            [] \<Rightarrow> More
                          | d # _ \<Rightarrow>
                              if continuation d
                              then Item [(a - 240) * 262144 + (b - 128) * 4096 + (c - 128) * 64
                                         + (d - 128)] () 4
                              else bad 3)))"

definition utf8_head :: "nat list \<Rightarrow> (code_point, unit) scanned" where
  "utf8_head bs =
     (case bs of
        [] \<Rightarrow> More
      | a # rest \<Rightarrow>
          if a < 128 then Item [a] () 1
          else if a < 194 then bad 1
          else if a < 224 then two_bytes a rest
          else if a < 240 then three_bytes a rest
          else if a < 245 then four_bytes a rest
          else bad 1)"

lemmas utf8_head_defs = utf8_head_def two_bytes_def three_bytes_def four_bytes_def bad_def

lemma utf8_head_size: "utf8_head bs = Item os u n \<Longrightarrow> 0 < n \<and> n \<le> length bs"
  by (cases bs) (auto simp: utf8_head_defs split: if_splits list.splits)

lemma utf8_head_no_fail: "utf8_head bs \<noteq> Fail u n"
  by (cases bs) (auto simp: utf8_head_defs split: list.splits)

lemma tail_stable:
  "two_bytes a r \<noteq> More \<Longrightarrow> two_bytes a (r @ y) = two_bytes a r"
  "three_bytes a r \<noteq> More \<Longrightarrow> three_bytes a (r @ y) = three_bytes a r"
  "four_bytes a r \<noteq> More \<Longrightarrow> four_bytes a (r @ y) = four_bytes a r"
  by (auto simp: two_bytes_def three_bytes_def four_bytes_def split: list.splits if_splits)

lemma utf8_head_stable: "utf8_head x \<noteq> More \<Longrightarrow> utf8_head (x @ y) = utf8_head x"
  by (cases x) (simp_all add: utf8_head_def tail_stable split: if_splits)

text \<open>The characters decoded and the bytes kept for the next call.\<close>

function utf8_scan :: "bytes \<Rightarrow> ustring \<times> bytes" where
  "utf8_scan bs =
     (case utf8_head (map unat bs) of
        Item cs u n \<Rightarrow> (let (rest_cs, pending) = utf8_scan (drop n bs) in (cs @ rest_cs, pending))
      | _ \<Rightarrow> ([], bs))"
  by pat_completeness auto
termination
  by (relation "measure length") (auto dest!: utf8_head_size)

declare utf8_scan.simps [simp del]

definition utf8_decode :: "bytes \<Rightarrow> bytes \<Rightarrow> ustring \<times> bytes" where
  "utf8_decode pending chunk = utf8_scan (pending @ chunk)"

text \<open>\<open>decode(b"", final=True)\<close>: an unfinished sequence becomes one replacement character.\<close>

definition utf8_flush :: "bytes \<Rightarrow> ustring" where
  "utf8_flush pending = (if pending = [] then [] else [REPLACEMENT])"

definition utf8_step :: "unit \<Rightarrow> bytes \<Rightarrow> (code_point, unit) scanned" where
  "utf8_step u bs = utf8_head (map unat bs)"

interpretation utf8: scanner utf8_step "\<lambda>u bs. case utf8_scan bs of (cs, p) \<Rightarrow> (cs, (), p, False)"
proof
  fix u :: unit and x y :: bytes
  show "utf8_step u x \<noteq> More \<Longrightarrow> utf8_step u (x @ y) = utf8_step u x"
    by (simp add: utf8_step_def utf8_head_stable)
  show "utf8_step u x = Item os s' n \<Longrightarrow> 0 < n \<and> n \<le> length x" for os s' n
    using utf8_head_size [of "map unat x" os s' n] by (simp add: utf8_step_def)
  show "utf8_step u x = Fail s' n \<Longrightarrow> n \<le> length x" for s' n
    by (simp add: utf8_step_def utf8_head_no_fail)
  show "(case utf8_scan x of (cs, p) \<Rightarrow> (cs, (), p, False)) =
      (case utf8_step u x of
         More \<Rightarrow> ([], u, x, False)
       | Fail s' n \<Rightarrow> ([], s', drop n x, True)
       | Item os s' n \<Rightarrow>
           (case case utf8_scan (drop n x) of (cs, p) \<Rightarrow> (cs, (), p, False) of
              (es, t, r, e) \<Rightarrow> (os @ es, t, r, e)))"
    by (subst utf8_scan.simps)
      (simp add: utf8_step_def utf8_head_no_fail split: scanned.splits prod.splits)
qed

lemma utf8_scan_append:
  "utf8_scan (x @ y) = (case utf8_scan x of (cs, p) \<Rightarrow> case utf8_scan (p @ y) of (cs', p') \<Rightarrow> (cs @ cs', p'))"
  using utf8.scan_append [of x y] by (auto split: prod.splits)

lemma utf8_pending: "utf8_scan x = (cs, p) \<Longrightarrow> utf8_scan p = ([], p)"
  using utf8.scan_rest [of x cs "()" p] utf8.scan_more [of "()" p] by (simp split: prod.splits)

subsection \<open>Encoding\<close>

text \<open>A surrogate cannot be encoded: \<open>UnicodeEncodeError\<close> is \<^const>\<open>None\<close>.\<close>

definition scalar_value :: "code_point \<Rightarrow> bool" where
  "scalar_value c \<longleftrightarrow> c < 55296 \<or> 57344 \<le> c \<and> c < 1114112"

definition encode_char :: "code_point \<Rightarrow> nat list" where
  "encode_char c =
     (if c < 128 then [c]
      else if c < 2048 then [192 + c div 64, 128 + c mod 64]
      else if c < 65536 then [224 + c div 4096, 128 + c div 64 mod 64, 128 + c mod 64]
      else [240 + c div 262144, 128 + c div 4096 mod 64, 128 + c div 64 mod 64, 128 + c mod 64])"

definition utf8_encode :: "ustring \<Rightarrow> bytes option" where
  "utf8_encode cs =
     (if list_all scalar_value cs then Some (map of_nat (concat (map encode_char cs))) else None)"

lemma div_mod_64: "(c :: nat) div 64 * 64 + c mod 64 = c"
  by (rule div_mult_mod_eq)

lemma four_digits:
  "(c :: nat) div 262144 * 262144 + c div 4096 mod 64 * 4096 + c div 64 mod 64 * 64 + c mod 64 = c"
proof -
  have d: "c div 4096 = c div 64 div 64" "c div 262144 = c div 64 div 64 div 64"
    by (simp_all flip: div_mult2_eq)
  have "c div 64 div 64 div 64 * 64 + c div 64 div 64 mod 64 = c div 64 div 64"
    "c div 64 div 64 * 64 + c div 64 mod 64 = c div 64" "c div 64 * 64 + c mod 64 = c"
    by (rule div_mult_mod_eq)+
  then show ?thesis unfolding d by linarith
qed

lemma three_digits: "(c :: nat) div 4096 * 4096 + c div 64 mod 64 * 64 + c mod 64 = c"
proof -
  have d: "c div 4096 = c div 64 div 64" by (simp flip: div_mult2_eq)
  have "c div 64 div 64 * 64 + c div 64 mod 64 = c div 64" "c div 64 * 64 + c mod 64 = c"
    by (rule div_mult_mod_eq)+
  then show ?thesis unfolding d by linarith
qed

lemma head_encode:
  assumes "scalar_value c"
  shows "utf8_head (encode_char c @ r) = Item [c] () (length (encode_char c))"
proof -
  consider "c < 128" | "128 \<le> c" "c < 2048" | "2048 \<le> c" "c < 65536" | "65536 \<le> c" by linarith
  then show ?thesis
  proof cases
    case 1
    then show ?thesis by (simp add: encode_char_def utf8_head_def)
  next
    case 2
    then have "2 \<le> c div 64" "c div 64 < 32" by auto
    with 2 show ?thesis by (simp add: encode_char_def utf8_head_defs continuation_def)
  next
    case 3
    let ?a = "c div 4096" and ?b = "c div 64 mod 64"
    have a: "?a < 16" using 3 by simp
    have b: "?b < 64" "c mod 64 < 64" by simp_all
    note d = three_digits [of c]
    have "?a = 0 \<longrightarrow> 32 \<le> ?b" using 3 d b by linarith
    moreover have "?a = 13 \<longrightarrow> ?b < 32" using assms d b unfolding scalar_value_def by linarith
    ultimately show ?thesis using 3 a d
      by (simp add: encode_char_def utf8_head_defs continuation_def second_ok_def)
  next
    case 4
    let ?a = "c div 262144" and ?b = "c div 4096 mod 64"
    have c: "c < 1114112" using assms 4 by (simp add: scalar_value_def)
    then have a: "?a < 5" by simp
    have b: "?b < 64" "c div 64 mod 64 < 64" "c mod 64 < 64" by simp_all
    note d = four_digits [of c]
    have "?a = 0 \<longrightarrow> 16 \<le> ?b" using 4 d b by linarith
    moreover have "?a = 4 \<longrightarrow> ?b < 16" using c d b by linarith
    ultimately show ?thesis using 4 a d
      by (simp add: encode_char_def utf8_head_defs continuation_def second_ok_def)
  qed
qed

lemma encode_char_bytes: "scalar_value c \<Longrightarrow> x \<in> set (encode_char c) \<Longrightarrow> x < 256"
  by (auto simp: encode_char_def scalar_value_def split: if_splits)

lemma unat_encode: "scalar_value c \<Longrightarrow> map (unat \<circ> (of_nat :: nat \<Rightarrow> byte)) (encode_char c) = encode_char c"
  using encode_char_bytes [of c] by (intro map_idI) (simp add: unat_of_nat)

lemma scan_encode:
  assumes "list_all scalar_value cs"
  shows "utf8_scan (map of_nat (concat (map encode_char cs)) @ r) = (case utf8_scan r of (cs', p) \<Rightarrow> (cs @ cs', p))"
  using assms
proof (induction cs)
  case Nil
  then show ?case by (simp split: prod.splits)
next
  case (Cons c cs)
  let ?b = "map of_nat (encode_char c) :: bytes"
  have "utf8_head (map unat (?b @ s)) = Item [c] () (length ?b)" for s
    using Cons.prems by (simp add: unat_encode head_encode)
  then have "utf8_scan (?b @ s) = (let (cs', p) = utf8_scan s in ([c] @ cs', p))" for s
    by (subst utf8_scan.simps) simp
  with Cons show ?case by (simp split: prod.splits)
qed

theorem utf8_roundtrip: "utf8_encode cs = Some bs \<Longrightarrow> utf8_scan bs = (cs, [])"
  using scan_encode [of cs "[]"]
  by (simp add: utf8_encode_def utf8_scan.simps [of "[]"] utf8_head_def split: if_splits)

end
