(* ===== verification/Markdown.thy ===== *)
theory Markdown
  imports SessionStore Utf8 "HOL-Library.Multiset"
begin

text \<open>
  \<open>src/core/store/markdown_exporter.py\<close>: the audit report of a session. The report contains
  characters beyond Latin-1 and is therefore a list of lines of code points; \<open>utxt\<close> embeds the
  texts of the model.
\<close>

definition utxt :: "string \<Rightarrow> ustring" where
  "utxt s = map of_char s"

definition fields_text :: "string list \<Rightarrow> ustring" where
  "fields_text parts = utxt (concat parts)"

subsection \<open>The head of the report\<close>

definition num_field :: "jdict \<Rightarrow> string \<Rightarrow> rat" where
  "num_field d k = (case jget d k of JFloat x \<Rightarrow> x | JInt n \<Rightarrow> of_int n | _ \<Rightarrow> 0)"

definition int_field :: "jdict \<Rightarrow> string \<Rightarrow> int" where
  "int_field d k = (case jget d k of JInt n \<Rightarrow> n | _ \<Rightarrow> 0)"

definition report_harness :: "jdict \<Rightarrow> canonical_turn list \<Rightarrow> json" where
  "report_harness meta turns =
     or_chain [jget meta ''agentHarness'', jget meta ''harness'',
       (case turns of [] \<Rightarrow> JStr ''Unknown Agent'' | t # _ \<Rightarrow> jget (ct_metadata t) ''harness'')]"

definition pollution_status :: "rat \<Rightarrow> string" where
  "pollution_status p =
     (if 50 \<le> p then ''Critical Pollution'' else if 20 \<le> p then ''Moderate Bloat'' else ''Pristine Clean'')"

definition report_head :: "string \<Rightarrow> string \<Rightarrow> canonical_turn list \<Rightarrow> jdict \<Rightarrow> ustring list" where
  "report_head now session_id turns meta =
     (let summary = calculate_summary turns;
          model = (case turns of [] \<Rightarrow> jget_or meta ''model'' (JStr ''auto-detect'') | t # _ \<Rightarrow> JStr (ct_model t));
          provider = (case turns of [] \<Rightarrow> jget_or meta ''provider'' (JStr ''unknown'') | t # _ \<Rightarrow> JStr (ct_provider t));
          inp = int_field summary ''totalInputTokens''; out = int_field summary ''totalOutputTokens'';
          pollution = num_field summary ''pollutionScore''
      in [utxt ''# '' @ [0x1F50D] @ fields_text ['' ctxins Context Optimization Report: `'', session_id, ''`''],
          [],
          fields_text [''- **Generated:** '', now],
          fields_text [''- **Agent Harness:** '', py_str (report_harness meta turns)],
          fields_text [''- **Model & Provider:** '', py_str model, '' ('', py_str provider, '')''],
          fields_text [''- **Total Turns:** '', show_nat (length turns)],
          [], utxt ''---'', [],
          utxt ''## '' @ [0x1F4CA] @ utxt '' Executive Summary & Financial Audit'',
          [],
          utxt ''| Metric | Value | Assessment |'',
          utxt ''| :--- | :--- | :--- |'',
          fields_text [''| **Total Tokens** | '', show_commas (inp + out), '' ('', show_commas inp, '' in / '',
            show_commas out, '' out) | Combined cumulative context |''],
          fields_text [''| **Prompt Cache Hit %** | '', show_fixed 1 (fmul (num_field summary ''cacheHitRatio'') 100),
            ''% | Ratio of cached read to input tokens |''],
          fields_text [''| **Estimated Total Spend** | $'', show_fixed 4 (num_field summary ''estimatedCostUSD''),
            '' USD | Total model API cost |''],
          fields_text [''| **Avoidable Waste** | **$'', show_fixed 4 (num_field summary ''potentialSavingsUSD''),
            '' USD** | Recoverable financial waste |''],
          fields_text [''| **Context Pollution Score** | **'', show_fixed 1 pollution, '' / 100** | '',
            pollution_status pollution, '' |''],
          [], utxt ''---'', [],
          utxt ''## '' @ [0x1F6A8] @ utxt '' Triggered Context Health Violations'', []])"

subsection \<open>Violations\<close>

definition no_violations :: "ustring list" where
  "no_violations =
     [utxt ''> '' @ [0x2728] @ utxt '' **Zero Context Violations Detected**'',
      utxt ''> Context cache boundaries, prompt sizing, and tool lifecycles are operating efficiently.'', []]"

definition waste_text :: "rat \<Rightarrow> string" where
  "waste_text w = (if w \<noteq> 0 then '' ($'' @ show_fixed 4 w @ '' waste)'' else [])"

definition hash_list :: "int list \<Rightarrow> string" where
  "hash_list is = str_join '', '' (map (\<lambda>i. CHR ''#'' # show_int i) is)"

definition total_waste :: "rule_violation list \<Rightarrow> rat" where
  "total_waste vs = fsum (map rv_estimated_waste_usd vs)"

definition group_lines :: "int \<Rightarrow> nat \<Rightarrow> rule_violation list \<Rightarrow> ustring list" where
  "group_lines current_idx i viols =
     (let vs = sort_violations viols; first = hd vs;
          rid = (if rv_rule_id first \<noteq> [] then rv_rule_id first else ''RULE'');
          sev = sev_value (group_severity vs);
          earlier = filter (\<lambda>v. case rv_turn_index v of None \<Rightarrow> False | Some i \<Rightarrow> i < current_idx) vs;
          cur = find (\<lambda>v. rv_turn_index v = Some current_idx) vs;
          waste = waste_text (total_waste vs);
          indices = turn_indices vs;
          head = [''### '', show_nat i, ''. ['', sev, ''] '', rv_title first]
      in [fields_text (head @
            (if 1 < length vs then
               ['' ('', show_nat (length vs), '' occurrences across '', show_nat (length indices), '' turns'', waste, '')'']
             else [waste])),
          fields_text [''- **Rule ID:** `'', rid, ''`''],
          fields_text [''- **Total Violations:** '', show_nat (length vs), '' across turns '',
            if indices \<noteq> [] then hash_list indices else hash_list [current_idx]],
          (case cur of
             Some v \<Rightarrow>
               fields_text [''- **Current Turn (#'', show_int current_idx, ''):** Active'',
                 waste_text (rv_estimated_waste_usd v)] @ utxt '' '' @ [0x2014] @ fields_text ['' '', rv_message v]
           | None \<Rightarrow> fields_text [''- **Current Turn (#'', show_int current_idx, ''):** Clean / Not triggered'']),
          (if earlier \<noteq> [] then
             fields_text [''- **Earlier Turns ('', hash_list (turn_indices earlier), ''):** '',
               show_nat (length earlier), '' violation(s)'', waste_text (total_waste earlier)]
           else utxt ''- **Earlier Turns:** None (first occurrence)''),
          fields_text [''- **Remediation:** '', group_fix cur vs],
          []])"

definition ranked_groups :: "rule_violation list \<Rightarrow> rule_violation list list" where
  "ranked_groups violations = sort_key group_rank (dict_values (group_violations violations))"

definition violation_lines :: "canonical_turn list \<Rightarrow> rule_violation list \<Rightarrow> ustring list" where
  "violation_lines turns violations =
     (if violations = [] then no_violations
      else
        (let current_idx = (case turns of [] \<Rightarrow> 0 | _ \<Rightarrow> ct_turn_index (last turns))
         in concat (map (\<lambda>(i, vs). group_lines current_idx i vs) (enumerate 1 (ranked_groups violations)))))"

subsection \<open>Directives\<close>

text \<open>\<open>upper()\<close> as far as it matters for finding an upper-case ASCII text in the result.\<close>

definition upper_char :: "char \<Rightarrow> char" where
  "upper_char c = (let n = (of_char c :: nat) in if 97 \<le> n \<and> n \<le> 122 then char_of (n - 32) else c)"

definition DIRECTIVES :: "(string \<times> string) list" where
  "DIRECTIVES =
     [(''CTX001'', ''- [Stale Tool Output]: Summarize execution results older than 3 turns into key outcomes; omit raw stdout/stderr dumps.''),
      (''CTX002'', ''- [Tool Schema Bloat]: Defer tool declarations until needed; prune uninvoked tool definitions from the system prompt.''),
      (''CACHE001'', ''- [Cache Invalidation]: Ensure system instructions, skills, and tools are strictly deterministic and static at the context prefix.'')]"

fun directive_lines :: "string list \<Rightarrow> rule_violation list \<Rightarrow> string list" where
  "directive_lines seen [] = []"
| "directive_lines seen (v # vs) =
     (let rid = map upper_char (rv_rule_id v)
      in case find (\<lambda>(k, _). str_in k rid \<and> k \<notin> set seen) DIRECTIVES of
           Some (k, line) \<Rightarrow> line # directive_lines (k # seen) vs
         | None \<Rightarrow> directive_lines seen vs)"

definition fallback_directive :: string where
  "fallback_directive = ''- Maintain static system prompt prefixes and compact multi-turn tool outputs to maximize prompt cache hits.''"

definition directives :: "rule_violation list \<Rightarrow> string list" where
  "directives violations =
     (let lines = directive_lines [] violations in if lines = [] then [fallback_directive] else lines)"

definition report_tail :: "rule_violation list \<Rightarrow> ustring list" where
  "report_tail violations =
     [utxt ''---'', [],
      utxt ''## '' @ [0x1F6E0, 0xFE0F] @ utxt '' Recommended Directives for AGENTS.md / .cursorrules'', [],
      utxt ''Copy and append the following directives to your project's `AGENTS.md` or `.cursorrules` to instruct agent harnesses to avoid detected context drag:'',
      [], utxt ''```markdown'', utxt ''# Context Optimization Directives (ctxins)'']
     @ map utxt (directives violations)
     @ [utxt ''```'', [], utxt ''---'',
        utxt ''*Report generated by [ctxins](https://github.com/arnabkaycee/ctxins)*'', []]"

fun join_ulines :: "ustring list \<Rightarrow> ustring" where
  "join_ulines [] = []"
| "join_ulines [l] = l"
| "join_ulines (l # ls) = l @ 10 # join_ulines ls"

definition generate_report :: "string \<Rightarrow> string \<Rightarrow> canonical_turn list \<Rightarrow> rule_violation list \<Rightarrow> jdict option
    \<Rightarrow> ustring" where
  "generate_report now session_id turns violations metadata =
     join_ulines (report_head now session_id turns (case metadata of Some m \<Rightarrow> m | None \<Rightarrow> [])
       @ violation_lines turns violations @ report_tail violations)"

text \<open>\<open>MarkdownExporter.export_from_store\<close>; reading the violations stamps them with their turns.\<close>

definition markdown_from_store :: "string \<Rightarrow> session_store \<Rightarrow> string \<Rightarrow> ustring \<times> session_store" where
  "markdown_from_store now store session_id =
     (let turns = (case get_session store session_id of Some ts \<Rightarrow> ts | None \<Rightarrow> []);
          (violations, store') = get_violations store session_id None
      in (generate_report now session_id turns violations (get_session_metadata store session_id), store'))"

subsection \<open>Every violation is in one group\<close>

lemma group_append:
  "mset (concat (dict_values (AList.update k (dict_get d k [] @ [v]) d))) = mset (concat (dict_values d)) + {#v#}"
  by (induction d) (auto simp: dict_values_def dict_get_def)

lemma group_violations_mset: "mset (concat (dict_values (group_violations vs))) = mset vs"
proof -
  have "mset (concat (dict_values (foldl (\<lambda>d v. AList.update (group_key v) (dict_get d (group_key v) [] @ [v]) d) d vs)))
      = mset (concat (dict_values d)) + mset vs" for d
    by (induction vs arbitrary: d) (simp_all add: group_append ac_simps)
  from this [of "[]"] show ?thesis by (simp add: group_violations_def dict_values_def)
qed

text \<open>The group of a key holds exactly the violations with that key, in order.\<close>

lemma group_violations_get: "dict_get (group_violations vs) k [] = filter (\<lambda>v. group_key v = k) vs"
proof -
  have "dict_get (foldl (\<lambda>d v. AList.update (group_key v) (dict_get d (group_key v) [] @ [v]) d) d vs) k []
      = dict_get d k [] @ filter (\<lambda>v. group_key v = k) vs" for d
    by (induction vs arbitrary: d) (auto simp: dict_get_def)
  from this [of "[]"] show ?thesis by (simp add: group_violations_def dict_get_def)
qed

lemma group_violations_keys: "fst ` set (group_violations vs) = group_key ` set vs"
  and group_violations_distinct: "distinct (map fst (group_violations vs))"
proof -
  have "fst ` set (foldl (\<lambda>d v. AList.update (group_key v) (dict_get d (group_key v) [] @ [v]) d) d vs)
      = fst ` set d \<union> group_key ` set vs" for d
    by (induction vs arbitrary: d) (auto simp: dom_update)
  from this [of "[]"] show "fst ` set (group_violations vs) = group_key ` set vs"
    by (simp add: group_violations_def)
  have "distinct (map fst d) \<Longrightarrow>
      distinct (map fst (foldl (\<lambda>d v. AList.update (group_key v) (dict_get d (group_key v) [] @ [v]) d) d vs))" for d
    by (induction vs arbitrary: d) (simp_all add: distinct_update)
  from this [of "[]"] show "distinct (map fst (group_violations vs))"
    by (simp add: group_violations_def)
qed

lemma ranked_groups_exact:
  "set (ranked_groups vs) = (\<lambda>k. filter (\<lambda>v. group_key v = k) vs) ` group_key ` set vs"
proof -
  have "g = filter (\<lambda>v. group_key v = k) vs" if "(k, g) \<in> set (group_violations vs)" for k g
    using group_violations_get [of vs k] that group_violations_distinct [of vs]
    by (simp add: dict_get_def)
  then have "set (dict_values (group_violations vs))
      = (\<lambda>k. filter (\<lambda>v. group_key v = k) vs) ` fst ` set (group_violations vs)"
    by (force simp: dict_values_def)
  then show ?thesis by (simp add: ranked_groups_def group_violations_keys)
qed

lemma mset_concat: "mset (concat xss) = sum_list (map mset xss)"
  by (induction xss) simp_all

lemma ranked_groups_mset: "mset (concat (ranked_groups vs)) = mset vs"
proof -
  have "mset (map mset (ranked_groups vs)) = mset (map mset (dict_values (group_violations vs)))"
    by (simp add: ranked_groups_def)
  then have "sum_list (map mset (ranked_groups vs)) = sum_list (map mset (dict_values (group_violations vs)))"
    by (metis sum_mset_sum_list)
  then show ?thesis by (simp add: mset_concat flip: group_violations_mset [of vs])
qed

lemma ranked_groups_sorted: "sorted (map group_rank (ranked_groups vs))"
  by (simp add: ranked_groups_def)

text \<open>The rule ids of the suite have a hyphen, the ids looked for have none.\<close>

definition suite_rule_ids :: "string list" where
  "suite_rule_ids = [''CTX-001'', ''CTX-002'', ''CTX-003'', ''CTX-004'', ''CTX-006'', ''CTX-007'', ''CACHE-001'']"

lemma suite_ids_unmatched:
  "list_all (\<lambda>r. find (\<lambda>(k, _). str_in k (map upper_char r)) DIRECTIVES = None) suite_rule_ids"
  by code_simp

lemma suite_has_no_directive:
  assumes "\<forall>v\<in>set vs. rv_rule_id v \<in> set suite_rule_ids"
  shows "directives vs = [fallback_directive]"
proof -
  have none: "find (\<lambda>(k, _). str_in k (map upper_char r) \<and> k \<notin> set seen) DIRECTIVES = None"
    if "r \<in> set suite_rule_ids" for r seen
    using suite_ids_unmatched that by (fastforce simp: list_all_iff find_None_iff split: prod.splits)
  have "directive_lines seen vs = []" for seen
    using assms by (induction vs arbitrary: seen) (simp_all add: none Let_def)
  then show ?thesis by (simp add: directives_def)
qed

end
