(* ===== verification/TurnView.thy ===== *)
theory TurnView
  imports Diff
begin

text \<open>
  \<open>src/presentation/web/turn_serializer.py\<close>: what the user interfaces are told about a turn: its
  tokens by category, the share that came from the cache, its delta, and the life cycle of every
  block against the previous turn. \<open>in\<close> on a list of blocks is equality of all fields; numbers in
  the metadata are compared with their kind.
\<close>

subsection \<open>\<open>calculate_category_breakdown\<close>\<close>

datatype category = Cat_System | Cat_Tools | Cat_Skills | Cat_History | Cat_Results | Cat_Thoughts

definition block_category :: "canonical_turn \<Rightarrow> context_block \<Rightarrow> category" where
  "block_category t b =
     (let ty = cb_block_type b; kind = jget (cb_metadata b) ''type''
      in if ty = SKILL \<or> kind = JStr ''skill'' \<or> jget (cb_metadata b) ''category'' = JStr ''skill'' then Cat_Skills
         else if ty = THOUGHT \<or> kind \<in> {JStr ''thinking'', JStr ''thought'', JStr ''reasoning''}
           \<or> jget (cb_metadata b) ''thought'' = JBool True then Cat_Thoughts
         else if ty = SYSTEM \<or> b \<in> set (ct_system_blocks t) then Cat_System
         else if ty = TOOL_DEF \<or> b \<in> set (ct_tool_defs t) then Cat_Tools
         else if ty = TOOL_RESULT \<or> b \<in> set (ct_tool_results t) then Cat_Results
         else Cat_History)"

text \<open>The loop: the six counters as a function, and the set of identifiers seen.\<close>

fun count_blocks :: "canonical_turn \<Rightarrow> string set \<Rightarrow> (category \<Rightarrow> int) \<Rightarrow> context_block list
    \<Rightarrow> category \<Rightarrow> int" where
  "count_blocks t seen counts [] = counts"
| "count_blocks t seen counts (b # bs) =
     (if cb_block_id b \<in> seen then count_blocks t seen counts bs
      else
        (let c = block_category t b
         in count_blocks t (insert (cb_block_id b) seen) (counts(c := counts c + cb_token_count b)) bs))"

definition category_tokens :: "canonical_turn \<Rightarrow> category \<Rightarrow> int" where
  "category_tokens t = count_blocks t {} (\<lambda>_. 0) (all_blocks t)"

definition calculate_category_breakdown :: "canonical_turn \<Rightarrow> jdict" where
  "calculate_category_breakdown t =
     (let n = (\<lambda>c. JInt (category_tokens t c))
      in [(''system'', n Cat_System), (''tools'', n Cat_Tools), (''skills'', n Cat_Skills),
          (''history'', n Cat_History), (''conversation'', n Cat_History), (''tool_results'', n Cat_Results),
          (''results'', n Cat_Results), (''thoughts'', n Cat_Thoughts)])"

subsection \<open>\<open>calculate_cache_retention\<close>\<close>

definition percentage :: "int \<Rightarrow> int \<Rightarrow> rat" where
  "percentage a b = py_round (fmul (int_truediv a b) 100) 2"

definition calculate_cache_retention :: "canonical_turn \<Rightarrow> canonical_turn option \<Rightarrow> turn_delta \<Rightarrow> rat" where
  "calculate_cache_retention t prev delta =
     (if 0 < ct_input_tokens t \<and> 0 < ct_cached_read_tokens t
      then percentage (ct_cached_read_tokens t) (ct_input_tokens t)
      else if prev \<noteq> None \<and> all_blocks t \<noteq> [] then
        (let persisted = sum_tokens (filter (\<lambda>b. cb_block_id b \<in> set (td_persisted_block_ids delta)) (all_blocks t));
             total_tokens = sum_tokens (all_blocks t)
         in if 0 < total_tokens then percentage persisted total_tokens else 0)
      else 0)"

subsection \<open>\<open>serialize_turn_with_delta\<close>\<close>

definition ids_json :: "string list \<Rightarrow> json" where
  "ids_json ids = JArr (map JStr ids)"

definition set_keys :: "(string \<times> json) list \<Rightarrow> jdict \<Rightarrow> jdict" where
  "set_keys kvs d = foldl (\<lambda>d (k, v). AList.update k v d) d kvs"

definition serialize_turn_with_delta :: "canonical_turn \<Rightarrow> canonical_turn option \<Rightarrow> jdict" where
  "serialize_turn_with_delta t prev =
     (let delta = compute_delta prev t; breakdown = JObj (calculate_category_breakdown t);
          retention = JFloat (calculate_cache_retention t prev delta)
      in set_keys
           [(''turn_delta'', JObj (turn_delta_to_dict delta)), (''delta'', JObj (turn_delta_to_dict delta)),
            (''added_block_ids'', ids_json (td_added_block_ids delta)),
            (''persisted_block_ids'', ids_json (td_persisted_block_ids delta)),
            (''mutated_block_ids'', ids_json (td_mutated_block_ids delta)),
            (''removed_block_ids'', ids_json (td_removed_block_ids delta)),
            (''cache_breakpoint_block_id'', jopt JStr (td_cache_breakpoint_block_id delta)),
            (''token_growth'', JInt (td_token_growth delta)), (''category_breakdown'', breakdown),
            (''token_breakdown'', breakdown), (''cache_retention_percentage'', retention),
            (''cacheRetentionPercentage'', retention)]
           (canonical_turn_to_dict t))"

text \<open>A session, each turn against the one before it.\<close>

fun serialize_turns :: "canonical_turn option \<Rightarrow> canonical_turn list \<Rightarrow> jdict list" where
  "serialize_turns prev [] = []"
| "serialize_turns prev (t # ts) = serialize_turn_with_delta t prev # serialize_turns (Some t) ts"

subsection \<open>\<open>annotate_blocks_lifecycle\<close>\<close>

definition block_lifecycle :: "canonical_turn option \<Rightarrow> turn_delta \<Rightarrow> context_block \<Rightarrow> string" where
  "block_lifecycle prev delta b =
     (if cb_block_id b \<in> set (td_added_block_ids delta) then ''added''
      else if cb_block_id b \<in> set (td_mutated_block_ids delta) then ''mutated''
      else if cb_block_id b \<in> set (td_persisted_block_ids delta) then ''persisted''
      else if prev = None then ''added'' else ''persisted'')"

fun annotate_current :: "canonical_turn option \<Rightarrow> turn_delta \<Rightarrow> string set \<Rightarrow> context_block list
    \<Rightarrow> (context_block \<times> string) list" where
  "annotate_current prev delta seen [] = []"
| "annotate_current prev delta seen (b # bs) =
     (if cb_block_id b \<in> seen then annotate_current prev delta seen bs
      else (b, block_lifecycle prev delta b) # annotate_current prev delta (insert (cb_block_id b) seen) bs)"

fun annotate_evicted :: "turn_delta \<Rightarrow> string set \<Rightarrow> context_block list \<Rightarrow> (context_block \<times> string) list" where
  "annotate_evicted delta seen [] = []"
| "annotate_evicted delta seen (b # bs) =
     (if cb_block_id b \<in> set (td_removed_block_ids delta) \<and> cb_block_id b \<notin> seen
      then (b, ''evicted'') # annotate_evicted delta (insert (cb_block_id b) seen) bs
      else annotate_evicted delta seen bs)"

definition lifecycle :: "canonical_turn \<Rightarrow> canonical_turn option \<Rightarrow> (context_block \<times> string) list" where
  "lifecycle t prev =
     (let delta = compute_delta prev t
      in annotate_current prev delta {} (all_blocks t)
         @ (case prev of
              None \<Rightarrow> []
            | Some p \<Rightarrow> annotate_evicted delta (cb_block_id ` set (all_blocks t)) (all_blocks p)))"

definition annotate_blocks_lifecycle :: "canonical_turn \<Rightarrow> canonical_turn option \<Rightarrow> jdict list" where
  "annotate_blocks_lifecycle t prev =
     map (\<lambda>(b, status). context_block_to_dict b @ [(''status'', JStr status), (''lifecycle_status'', JStr status)])
       (lifecycle t prev)"

subsection \<open>Every token in one category\<close>

definition all_categories :: "category list" where
  "all_categories = [Cat_System, Cat_Tools, Cat_Skills, Cat_History, Cat_Results, Cat_Thoughts]"

lemma sum_categories_upd:
  fixes f :: "category \<Rightarrow> int"
  shows "sum_list (map (f(c := f c + n)) all_categories) = sum_list (map f all_categories) + n"
  by (cases c) (simp_all add: all_categories_def)

lemma count_blocks_sum:
  "sum_list (map (count_blocks t seen counts bs) all_categories)
     = sum_list (map counts all_categories) + sum_tokens (uniq_by cb_block_id seen bs)"
  by (induction bs arbitrary: seen counts)
    (simp_all only: count_blocks.simps uniq_by.simps Let_def sum_categories_upd, simp_all add: sum_tokens_def sum_categories_upd)

lemma category_tokens_sum:
  "sum_list (map (category_tokens t) all_categories) = sum_tokens (uniq_by cb_block_id {} (all_blocks t))"
  using count_blocks_sum [of t "{}" "\<lambda>_. 0" "all_blocks t"]
  by (simp add: category_tokens_def all_categories_def)

lemma count_blocks_category:
  "count_blocks t seen counts bs c
     = counts c + sum_tokens (filter (\<lambda>b. block_category t b = c) (uniq_by cb_block_id seen bs))"
  by (induction bs arbitrary: seen counts) (auto simp: sum_tokens_def Let_def)

lemma category_tokens_eq:
  "category_tokens t c = sum_tokens (filter (\<lambda>b. block_category t b = c) (uniq_by cb_block_id {} (all_blocks t)))"
  by (simp add: category_tokens_def count_blocks_category)

subsection \<open>Retention is a percentage\<close>

lemma percentage_bounds:
  assumes "0 \<le> a" "a \<le> b" "0 < b"
  shows "0 \<le> percentage a b" "percentage a b \<le> 100"
proof -
  have q: "0 \<le> int_truediv a b" "int_truediv a b \<le> 1"
    using assms fl_mono [of "of_int a / of_int b" 1] by (simp_all add: int_truediv_def)
  then have p: "0 \<le> fmul (int_truediv a b) 100" "fmul (int_truediv a b) 100 \<le> 100"
    using fl_mono [of "int_truediv a b * 100" 100] by (simp_all add: fmul_def)
  then show "0 \<le> percentage a b" by (simp add: percentage_def py_round_nonneg)
  have "py_round 100 2 = 100"
    using fl_100 by (simp add: py_round_def)
  with py_round_mono [OF p(2), of 2] show "percentage a b \<le> 100" by (simp add: percentage_def)
qed

lemma sum_tokens_filter:
  assumes "\<forall>b\<in>set bs. 0 \<le> cb_token_count b"
  shows "0 \<le> sum_tokens (filter P bs)" "sum_tokens (filter P bs) \<le> sum_tokens bs"
  using assms by (induction bs) (auto simp: sum_tokens_def)

lemma retention_bounds:
  assumes "ct_cached_read_tokens t \<le> ct_input_tokens t" "\<forall>b\<in>set (all_blocks t). 0 \<le> cb_token_count b"
  shows "0 \<le> calculate_cache_retention t prev delta \<and> calculate_cache_retention t prev delta \<le> 100"
  using assms percentage_bounds sum_tokens_filter [OF assms(2)]
  by (simp add: calculate_cache_retention_def Let_def)

subsection \<open>The life cycle\<close>

lemma annotate_current_eq:
  "annotate_current prev delta seen bs
     = map (\<lambda>b. (b, block_lifecycle prev delta b)) (uniq_by cb_block_id seen bs)"
  by (induction prev delta seen bs rule: annotate_current.induct) simp_all

lemma uniq_by_Un: "uniq_by f (S \<union> T) xs = filter (\<lambda>x. f x \<notin> T) (uniq_by f S xs)"
proof (induction xs arbitrary: S)
  case (Cons x xs)
  have ins: "insert (f x) (S \<union> T) = insert (f x) S \<union> T"
    and mem: "f x \<in> T \<Longrightarrow> S \<union> T = insert (f x) S \<union> T" by auto
  show ?case
  proof (cases "f x \<in> T")
    case True
    have "uniq_by f (S \<union> T) xs = filter (\<lambda>x. f x \<notin> T) (uniq_by f (insert (f x) S) xs)"
      by (subst mem [OF True]) (rule Cons.IH)
    with True Cons.IH [of S] show ?thesis by simp
  qed (use Cons.IH ins in \<open>simp del: Un_insert_left\<close>)
qed simp

lemma uniq_by_filter:
  "uniq_by f S (filter (\<lambda>x. P (f x)) xs) = filter (\<lambda>x. P (f x)) (uniq_by f S xs)"
proof (induction xs arbitrary: S)
  case (Cons x xs)
  have "uniq_by f (insert (f x) S) xs = filter (\<lambda>y. f y \<noteq> f x) (uniq_by f S xs)"
    using uniq_by_Un [of f S "{f x}" xs] by simp
  with Cons show ?case by (auto intro: filter_cong)
qed simp

lemma annotate_evicted_eq:
  "annotate_evicted delta seen bs = map (\<lambda>b. (b, ''evicted''))
     (filter (\<lambda>b. cb_block_id b \<in> set (td_removed_block_ids delta)) (uniq_by cb_block_id seen bs))"
proof -
  have "annotate_evicted delta seen bs = map (\<lambda>b. (b, ''evicted''))
      (uniq_by cb_block_id seen (filter (\<lambda>b. cb_block_id b \<in> set (td_removed_block_ids delta)) bs))"
    by (induction delta seen bs rule: annotate_evicted.induct) auto
  then show ?thesis
    using uniq_by_filter [of cb_block_id seen "\<lambda>i. i \<in> set (td_removed_block_ids delta)" bs] by simp
qed

text \<open>Among blocks with distinct identifiers, an identifier selects its block.\<close>

lemma id_in_filter:
  assumes "b \<in> set (uniq_by cb_block_id S bs)"
  shows "cb_block_id b \<in> cb_block_id ` set (filter P (uniq_by cb_block_id S bs)) \<longleftrightarrow> P b"
  using assms distinct_uniq_by [of cb_block_id S bs] by (auto simp: distinct_map dest: inj_onD)

fun status_name :: "block_status \<Rightarrow> string" where
  "status_name Added = ''added''"
| "status_name Mutated = ''mutated''"
| "status_name Persisted = ''persisted''"

lemma block_lifecycle_status:
  assumes "b \<in> set (uniq_by cb_block_id {} (all_blocks t))"
  shows "block_lifecycle prev (compute_delta prev t) b
    = (case prev of None \<Rightarrow> ''added'' | Some p \<Rightarrow> status_name (block_status (all_blocks p) b))"
  using id_in_filter [OF assms]
  by (cases prev; cases "block_status (all_blocks (the prev)) b")
    (auto simp: block_lifecycle_def delta_None delta_Some ids_with_def)

definition evicted_blocks :: "canonical_turn \<Rightarrow> canonical_turn \<Rightarrow> context_block list" where
  "evicted_blocks p t =
     filter (\<lambda>b. cb_block_id b \<notin> cb_block_id ` set (all_blocks t)
         \<and> block_match_key b \<notin> block_match_key ` set (all_blocks t))
       (uniq_by cb_block_id {} (all_blocks p))"

lemma lifecycle_eq:
  "lifecycle t prev =
     map (\<lambda>b. (b, case prev of None \<Rightarrow> ''added'' | Some p \<Rightarrow> status_name (block_status (all_blocks p) b)))
       (uniq_by cb_block_id {} (all_blocks t))
     @ (case prev of None \<Rightarrow> [] | Some p \<Rightarrow> map (\<lambda>b. (b, ''evicted'')) (evicted_blocks p t))"
proof -
  let ?S = "cb_block_id ` set (all_blocks t)"
  have "annotate_evicted (compute_delta (Some p) t) ?S (all_blocks p)
      = map (\<lambda>b. (b, ''evicted'')) (evicted_blocks p t)" for p
  proof -
    have removed: "cb_block_id b \<in> set (td_removed_block_ids (compute_delta (Some p) t))
        \<longleftrightarrow> block_match_key b \<notin> block_match_key ` set (all_blocks t)"
      if "b \<in> set (uniq_by cb_block_id {} (all_blocks p))" for b
      unfolding delta_Some set_map by (rule id_in_filter [OF that])
    have "filter (\<lambda>b. cb_block_id b \<in> set (td_removed_block_ids (compute_delta (Some p) t)))
        (uniq_by cb_block_id ?S (all_blocks p)) = evicted_blocks p t"
      using uniq_by_Un [of cb_block_id "{}" ?S "all_blocks p"]
      by (simp add: evicted_blocks_def removed cong: filter_cong)
    then show ?thesis by (simp add: annotate_evicted_eq)
  qed
  then show ?thesis
    by (auto simp: lifecycle_def annotate_current_eq block_lifecycle_status Let_def split: option.split)
qed

end
