(* ===== verification/Broadcast.thy ===== *)
theory Broadcast
  imports Markdown TurnView "HOL-Library.Sublist"
begin

text \<open>
  \<open>src/presentation/events.py\<close>, \<open>broadcaster.py\<close> and \<open>web/ws.py\<close>: the events shown to the user, the
  bus that copies them into one bounded queue per subscriber, and the hub that feeds browsers. A
  queue object and a connection are numbers; every operation of the bus and every stretch of the hub
  between two \<open>await\<close>s is one atomic step.
\<close>

subsection \<open>Events\<close>

datatype ui_event_type =
    SESSION_CREATED | TURN_STARTED | TURN_STREAMING | UI_TURN_COMPLETED | VIOLATION_DETECTED
  | SESSION_SUMMARY_UPDATED | SESSION_ENDED | SESSION_ERASED | UI_SESSION_DISCONNECTED

definition ui_event_types :: "ui_event_type list" where
  "ui_event_types = [SESSION_CREATED, TURN_STARTED, TURN_STREAMING, UI_TURN_COMPLETED, VIOLATION_DETECTED,
     SESSION_SUMMARY_UPDATED, SESSION_ENDED, SESSION_ERASED, UI_SESSION_DISCONNECTED]"

fun ui_value :: "ui_event_type \<Rightarrow> string" where
  "ui_value SESSION_CREATED = ''session_created''"
| "ui_value TURN_STARTED = ''turn_started''"
| "ui_value TURN_STREAMING = ''turn_streaming''"
| "ui_value UI_TURN_COMPLETED = ''turn_completed''"
| "ui_value VIOLATION_DETECTED = ''violation_detected''"
| "ui_value SESSION_SUMMARY_UPDATED = ''session_summary_updated''"
| "ui_value SESSION_ENDED = ''session_ended''"
| "ui_value SESSION_ERASED = ''session_erased''"
| "ui_value UI_SESSION_DISCONNECTED = ''session_disconnected''"

record ui_event =
  ue_type :: ui_event_type
  ue_session_id :: string
  ue_timestamp :: rat
  ue_payload :: jdict

definition ui_event_to_dict :: "ui_event \<Rightarrow> jdict" where
  "ui_event_to_dict e =
     [(''type'', JStr (ui_value (ue_type e))), (''sessionId'', JStr (ue_session_id e)),
      (''timestamp'', JFloat (ue_timestamp e)), (''payload'', JObj (ue_payload e))]"

text \<open>\<open>upper()\<close> as far as the result can be the name of a member; the names are the values in capitals.\<close>

definition upper_ascii :: "string \<Rightarrow> string" where
  "upper_ascii s = concat (map (\<lambda>c. if c = CHR 0xDF then ''SS'' else [upper_char c]) s)"

definition ui_event_type_of :: "json \<Rightarrow> ui_event_type res" where
  "ui_event_type_of raw =
     (case raw of
        JStr s \<Rightarrow>
          (case find (\<lambda>t. ui_value t = s) ui_event_types of
             Some t \<Rightarrow> Inr t
           | None \<Rightarrow>
               (case find (\<lambda>t. upper_ascii (ui_value t) = upper_ascii s) ui_event_types of
                  Some t \<Rightarrow> Inr t | None \<Rightarrow> Inr UI_TURN_COMPLETED))
      | _ \<Rightarrow> Inl AttributeError)"

definition ui_event_from_dict :: "rat \<Rightarrow> jdict \<Rightarrow> ui_event res" where
  "ui_event_from_dict now d =
     rbind (ui_event_type_of (jget_or d ''type'' (JStr []))) (\<lambda>ty.
     rbind (opt_str d ''sessionId'' []) (\<lambda>sid.
     rbind (opt_float d ''timestamp'' now) (\<lambda>ts.
     rbind (opt_obj d ''payload'') (\<lambda>payload.
       Inr \<lparr>ue_type = ty, ue_session_id = sid, ue_timestamp = ts, ue_payload = payload\<rparr>))))"

subsection \<open>The bus\<close>

text \<open>\<open>uq_taken\<close> is what the reader of the queue has taken so far.\<close>

record ui_queue =
  uq_maxsize :: int
  uq_items :: "ui_event list"
  uq_taken :: "ui_event list"

definition new_ui_queue :: "int \<Rightarrow> ui_queue" where
  "new_ui_queue n = \<lparr>uq_maxsize = n, uq_items = [], uq_taken = []\<rparr>"

definition ui_queue_full :: "ui_queue \<Rightarrow> bool" where
  "ui_queue_full q \<longleftrightarrow> 0 < uq_maxsize q \<and> uq_maxsize q \<le> int (length (uq_items q))"

definition put_nowait :: "ui_event \<Rightarrow> ui_queue \<Rightarrow> ui_queue" where
  "put_nowait e q = (if ui_queue_full q then q else q\<lparr>uq_items := uq_items q @ [e]\<rparr>)"

definition queue_get :: "ui_queue \<Rightarrow> ui_queue" where
  "queue_get q =
     (case uq_items q of [] \<Rightarrow> q | e # es \<Rightarrow> q\<lparr>uq_items := es, uq_taken := uq_taken q @ [e]\<rparr>)"

record broadcaster =
  bc_capacity :: int
  bc_next :: nat
  bc_subscribers :: "(nat, ui_queue) dict"

definition new_broadcaster :: "int \<Rightarrow> broadcaster" where
  "new_broadcaster n = \<lparr>bc_capacity = n, bc_next = 0, bc_subscribers = []\<rparr>"

definition subscribe :: "int option \<Rightarrow> broadcaster \<Rightarrow> nat \<times> broadcaster" where
  "subscribe capacity b =
     (let cap = (case capacity of Some n \<Rightarrow> n | None \<Rightarrow> bc_capacity b)
      in (bc_next b, b\<lparr>bc_next := Suc (bc_next b),
            bc_subscribers := AList.update (bc_next b) (new_ui_queue cap) (bc_subscribers b)\<rparr>))"

definition unsubscribe :: "nat \<Rightarrow> broadcaster \<Rightarrow> broadcaster" where
  "unsubscribe i b = b\<lparr>bc_subscribers := AList.delete i (bc_subscribers b)\<rparr>"

definition publish_nowait :: "ui_event \<Rightarrow> broadcaster \<Rightarrow> broadcaster" where
  "publish_nowait e b = b\<lparr>bc_subscribers := map (\<lambda>(i, q). (i, put_nowait e q)) (bc_subscribers b)\<rparr>"

definition reader_get :: "nat \<Rightarrow> broadcaster \<Rightarrow> broadcaster" where
  "reader_get i b =
     (case map_of (bc_subscribers b) i of
        None \<Rightarrow> b
      | Some q \<Rightarrow> b\<lparr>bc_subscribers := AList.update i (queue_get q) (bc_subscribers b)\<rparr>)"

subsection \<open>The hub\<close>

definition GLOBAL_EVENT_TYPES :: "ui_event_type list" where
  "GLOBAL_EVENT_TYPES = [SESSION_CREATED, SESSION_ENDED, SESSION_ERASED, UI_SESSION_DISCONNECTED]"

definition wants :: "string option \<Rightarrow> ui_event \<Rightarrow> bool" where
  "wants client_sid e \<longleftrightarrow>
     client_sid = None \<or> ue_session_id e = [] \<or> client_sid = Some (ue_session_id e)
     \<or> ue_type e \<in> set GLOBAL_EVENT_TYPES"

record hub =
  hb_granularity :: string
  hb_broadcaster :: "broadcaster option"
  hb_clients :: "nat list"
  hb_client_sessions :: "(nat, string option) dict"
  hb_queues :: "(nat, nat) dict" \<comment> \<open>the queue the task of a connection reads\<close>
  hb_sent :: "(nat \<times> jdict) list" \<comment> \<open>what has been sent, in order\<close>

definition new_hub :: "broadcaster option \<Rightarrow> string \<Rightarrow> string \<Rightarrow> hub" where
  "new_hub bc granularity store_granularity =
     \<lparr>hb_granularity = str_lower (if granularity \<noteq> [] then granularity
        else if store_granularity \<noteq> [] then store_granularity else ''step''),
      hb_broadcaster = bc, hb_clients = [], hb_client_sessions = [], hb_queues = [], hb_sent = []\<rparr>"

definition client_count :: "hub \<Rightarrow> nat" where
  "client_count h = length (hb_clients h)"

definition register_client :: "nat \<Rightarrow> string option \<Rightarrow> hub \<Rightarrow> hub" where
  "register_client ws sid h =
     h\<lparr>hb_clients := List.insert ws (hb_clients h),
       hb_client_sessions := AList.update ws sid (hb_client_sessions h)\<rparr>"

definition unregister_client :: "nat \<Rightarrow> hub \<Rightarrow> hub" where
  "unregister_client ws h =
     h\<lparr>hb_clients := removeAll ws (hb_clients h),
       hb_client_sessions := AList.delete ws (hb_client_sessions h)\<rparr>"

text \<open>\<open>alive ws\<close>: does a send to the connection succeed.\<close>

definition send_json :: "nat \<Rightarrow> jdict \<Rightarrow> hub \<Rightarrow> hub" where
  "send_json ws d h = h\<lparr>hb_sent := hb_sent h @ [(ws, d)]\<rparr>"

fun fan_out :: "(nat \<Rightarrow> bool) \<Rightarrow> ui_event \<Rightarrow> (nat \<times> string option) list \<Rightarrow> hub \<Rightarrow> nat list \<times> hub" where
  "fan_out alive e [] h = ([], h)"
| "fan_out alive e ((ws, sid) # cs) h =
     (if \<not> wants sid e then fan_out alive e cs h
      else if alive ws then fan_out alive e cs (send_json ws (ui_event_to_dict e) h)
      else (let (dead, h') = fan_out alive e cs h in (ws # dead, h')))"

definition broadcast :: "(nat \<Rightarrow> bool) \<Rightarrow> ui_event \<Rightarrow> hub \<Rightarrow> hub" where
  "broadcast alive e h =
     (case hb_broadcaster h of
        Some b \<Rightarrow> h\<lparr>hb_broadcaster := Some (publish_nowait e b)\<rparr>
      | None \<Rightarrow>
          (let (dead, h') = fan_out alive e (hb_client_sessions h) h
           in fold unregister_client dead h'))"

definition empty_snapshot_summary :: jdict where
  "empty_snapshot_summary =
     [(''totalTurns'', JInt 0), (''totalInputTokens'', JInt 0), (''totalOutputTokens'', JInt 0),
      (''cachedInputTokens'', JInt 0), (''cacheHitRatio'', JFloat 0), (''totalDurationMs'', JFloat 0),
      (''estimatedCostUSD'', JFloat 0), (''pollutionScore'', JFloat 0), (''potentialSavingsUSD'', JFloat 0),
      (''activeViolationsCount'', JInt 0),
      (''violationsBySeverity'', JObj [(''INFO'', JInt 0), (''WARN'', JInt 0), (''CRITICAL'', JInt 0)])]"

definition violations_json :: "rule_violation list \<Rightarrow> json" where
  "violations_json vs = JArr (map (\<lambda>v. JObj (rule_violation_to_dict v)) vs)"

definition snapshot :: "rat \<Rightarrow> string \<Rightarrow> session_store \<Rightarrow> string option \<Rightarrow> jdict \<times> session_store" where
  "snapshot now granularity store session_id =
     (let target = (case nonempty session_id of
            Some s \<Rightarrow> Some s
          | None \<Rightarrow> (case list_sessions store of [] \<Rightarrow> None | ss \<Rightarrow> nonempty (Some (last ss))));
          turns = (case target of
            Some s \<Rightarrow> (case get_session store s of Some ts \<Rightarrow> ts | None \<Rightarrow> [])
          | None \<Rightarrow> []);
          summary = JObj (if turns \<noteq> [] then calculate_summary turns else empty_snapshot_summary);
          (vs, store') = (case target of Some s \<Rightarrow> get_violations store s None | None \<Rightarrow> ([], store));
          body = [(''summary'', summary), (''turns'', JArr (map JObj (serialize_turns None turns))),
            (''violations'', violations_json vs), (''granularity'', JStr granularity)]
      in ([(''type'', JStr ''SNAPSHOT''),
           (''sessionId'', JStr (case target of Some s \<Rightarrow> s | None \<Rightarrow> [])), (''timestamp'', JFloat now),
           (''payload'', JObj body)] @ body, store'))"

text \<open>
  \<open>handle_client\<close> in the pieces between its \<open>await\<close>s: register and send the snapshot; subscribe;
  forward one event; leave. A snapshot that cannot be sent ends the connection.
\<close>

definition client_connects :: "(nat \<Rightarrow> bool) \<Rightarrow> rat \<Rightarrow> nat \<Rightarrow> string option \<Rightarrow> hub \<times> session_store option
    \<Rightarrow> hub \<times> session_store option" where
  "client_connects alive now ws sid = (\<lambda>(h, store).
     let h1 = register_client ws sid h
     in case store of
          None \<Rightarrow> (h1, None)
        | Some s \<Rightarrow>
            (let (snap, s') = snapshot now (hb_granularity h1) s sid
             in (if alive ws then send_json ws snap h1 else unregister_client ws h1, Some s')))"

definition client_subscribes :: "nat \<Rightarrow> hub \<Rightarrow> hub" where
  "client_subscribes ws h =
     (case hb_broadcaster h of
        None \<Rightarrow> h
      | Some b \<Rightarrow>
          (let (i, b') = subscribe None b
           in h\<lparr>hb_broadcaster := Some b', hb_queues := AList.update ws i (hb_queues h)\<rparr>))"

definition client_leaves :: "nat \<Rightarrow> hub \<Rightarrow> hub" where
  "client_leaves ws h =
     unregister_client ws
       (h\<lparr>hb_broadcaster :=
           (case map_of (hb_queues h) ws of
              Some i \<Rightarrow> map_option (unsubscribe i) (hb_broadcaster h)
            | None \<Rightarrow> hb_broadcaster h),
         hb_queues := AList.delete ws (hb_queues h)\<rparr>)"

text \<open>One round of \<open>_forward_events\<close>; a failing send ends the task and with it the connection.\<close>

definition forward_event :: "(nat \<Rightarrow> bool) \<Rightarrow> nat \<Rightarrow> hub \<Rightarrow> hub" where
  "forward_event alive ws h =
     (case (map_of (hb_queues h) ws, hb_broadcaster h) of
        (Some i, Some b) \<Rightarrow>
          (case map_of (bc_subscribers b) i of
             Some q \<Rightarrow>
               (case uq_items q of
                  [] \<Rightarrow> h
                | e # _ \<Rightarrow>
                    (let h1 = h\<lparr>hb_broadcaster := Some (reader_get i b)\<rparr>
                     in if \<not> wants (dict_get (hb_client_sessions h) ws None) e then h1
                        else if alive ws then send_json ws (ui_event_to_dict e) h1
                        else client_leaves ws h1))
           | None \<Rightarrow> h)
      | _ \<Rightarrow> h)"

subsection \<open>Subscribers are isolated\<close>

datatype bus_op = Publish ui_event | Subscribe "int option" | Unsubscribe nat | Read nat

fun bus_step :: "bus_op \<Rightarrow> broadcaster \<Rightarrow> broadcaster" where
  "bus_step (Publish e) b = publish_nowait e b"
| "bus_step (Subscribe cap) b = snd (subscribe cap b)"
| "bus_step (Unsubscribe i) b = unsubscribe i b"
| "bus_step (Read i) b = reader_get i b"

definition bus_run :: "bus_op list \<Rightarrow> broadcaster \<Rightarrow> broadcaster" where
  "bus_run ops b = foldl (\<lambda>b x. bus_step x b) b ops"

text \<open>What one queue sees of the bus, and what it does with it.\<close>

datatype queue_op = Put ui_event | Take

fun queue_step :: "queue_op \<Rightarrow> ui_queue \<Rightarrow> ui_queue" where
  "queue_step (Put e) q = put_nowait e q"
| "queue_step Take q = queue_get q"

fun queue_run :: "queue_op list \<Rightarrow> ui_queue \<Rightarrow> ui_queue" where
  "queue_run [] q = q"
| "queue_run (x # xs) q = queue_run xs (queue_step x q)"

fun seen_by :: "nat \<Rightarrow> bus_op list \<Rightarrow> queue_op list" where
  "seen_by i [] = []"
| "seen_by i (Publish e # xs) = Put e # seen_by i xs"
| "seen_by i (Read j # xs) = (if j = i then Take # seen_by i xs else seen_by i xs)"
| "seen_by i (_ # xs) = seen_by i xs"

fun published :: "bus_op list \<Rightarrow> ui_event list" where
  "published [] = []"
| "published (Publish e # xs) = e # published xs"
| "published (_ # xs) = published xs"

fun puts :: "queue_op list \<Rightarrow> ui_event list" where
  "puts [] = []"
| "puts (Put e # xs) = e # puts xs"
| "puts (Take # xs) = puts xs"

text \<open>The reader takes its events early enough.\<close>

fun keeps_up :: "queue_op list \<Rightarrow> ui_queue \<Rightarrow> bool" where
  "keeps_up [] q \<longleftrightarrow> True"
| "keeps_up (Put e # xs) q \<longleftrightarrow> \<not> ui_queue_full q \<and> keeps_up xs (put_nowait e q)"
| "keeps_up (Take # xs) q \<longleftrightarrow> keeps_up xs (queue_get q)"

lemma puts_seen_by: "puts (seen_by i xs) = published xs"
  by (induction i xs rule: seen_by.induct) simp_all

lemma queue_get_events [simp]:
  "uq_taken (queue_get q) @ uq_items (queue_get q) = uq_taken q @ uq_items q"
  "uq_maxsize (queue_get q) = uq_maxsize q" "length (uq_items (queue_get q)) \<le> length (uq_items q)"
  by (simp_all add: queue_get_def split: list.split)

lemma put_nowait_events [simp]:
  "uq_maxsize (put_nowait e q) = uq_maxsize q"
  "\<not> ui_queue_full q \<Longrightarrow> uq_taken (put_nowait e q) @ uq_items (put_nowait e q) = uq_taken q @ uq_items q @ [e]"
  "ui_queue_full q \<Longrightarrow> put_nowait e q = q"
  by (simp_all add: put_nowait_def)

lemma put_nowait_taken: "uq_taken (put_nowait e q) = uq_taken q"
  by (simp add: put_nowait_def)

lemma queue_run_subseq:
  "subseq (uq_taken (queue_run xs q) @ uq_items (queue_run xs q)) (uq_taken q @ uq_items q @ puts xs)"
proof (induction xs q rule: queue_run.induct)
  case (2 x xs q)
  show ?case
  proof (cases x)
    case (Put e)
    have "subseq (uq_taken (put_nowait e q) @ uq_items (put_nowait e q) @ puts xs)
        (uq_taken q @ uq_items q @ e # puts xs)"
      by (cases "ui_queue_full q") (auto simp: put_nowait_def intro!: list_emb_append_mono)
    with 2 Put show ?thesis by (auto intro: subseq_order.trans)
  next
    case Take
    with 2 show ?thesis using queue_get_events(1) [of q] by (metis append_assoc puts.simps(3) queue_run.simps(2) queue_step.simps(2))
  qed
qed simp

lemma queue_run_all:
  "keeps_up xs q \<Longrightarrow> uq_taken (queue_run xs q) @ uq_items (queue_run xs q) = uq_taken q @ uq_items q @ puts xs"
proof (induction xs q rule: queue_run.induct)
  case (2 x xs q)
  then show ?case
    using put_nowait_events(2) [of q] queue_get_events(1) [of q] by (cases x) (metis append_assoc append_Cons append_Nil
        keeps_up.simps(2,3) puts.simps(2,3) queue_run.simps(2) queue_step.simps(1,2))+
qed simp

lemma queue_run_bounded:
  assumes "0 < uq_maxsize q" "int (length (uq_items q)) \<le> uq_maxsize q"
  shows "int (length (uq_items (queue_run xs q))) \<le> uq_maxsize q"
  using assms
proof (induction xs q rule: queue_run.induct)
  case (2 x xs q)
  have "uq_maxsize (queue_step x q) = uq_maxsize q" by (cases x) simp_all
  moreover have "int (length (uq_items (queue_step x q))) \<le> uq_maxsize q"
    using 2(2,3) by (cases x; cases "uq_items q") (auto simp: put_nowait_def ui_queue_full_def queue_get_def)
  ultimately show ?case using 2 by simp
qed simp

lemma map_of_publish:
  "map_of (bc_subscribers (publish_nowait e b)) i = map_option (put_nowait e) (map_of (bc_subscribers b) i)"
  by (simp add: publish_nowait_def map_of_map)

lemma bus_run_queue:
  assumes "map_of (bc_subscribers b) i = Some q" "i < bc_next b" "Unsubscribe i \<notin> set ops"
  shows "map_of (bc_subscribers (bus_run ops b)) i = Some (queue_run (seen_by i ops) q)"
  using assms
proof (induction ops arbitrary: b q)
  case (Cons x ops)
  have run: "bus_run (x # ops) b = bus_run ops (bus_step x b)" by (simp add: bus_run_def)
  have next_i: "i < bc_next (bus_step x b)"
    using Cons.prems(2)
    by (cases x) (auto simp: publish_nowait_def subscribe_def unsubscribe_def reader_get_def Let_def split: option.split)
  have "map_of (bc_subscribers (bus_step x b)) i = Some (queue_run (seen_by i [x]) q)"
    using Cons.prems
    by (cases x) (auto simp: map_of_publish subscribe_def unsubscribe_def reader_get_def Let_def split: option.split)
  from Cons.IH [OF this next_i] Cons.prems(3) show ?case
    unfolding run by (cases x) auto
qed (simp add: bus_run_def)

lemma subscriber_run:
  assumes "subscribe cap b = (i, b')" "Unsubscribe i \<notin> set ops"
  defines "q \<equiv> new_ui_queue (case cap of Some n \<Rightarrow> n | None \<Rightarrow> bc_capacity b)"
  shows "map_of (bc_subscribers (bus_run ops b')) i = Some (queue_run (seen_by i ops) q)"
  using assms(1) by (intro bus_run_queue [OF _ _ assms(2)]) (auto simp: subscribe_def q_def Let_def)

subsection \<open>What a browser receives\<close>

datatype hub_op =
    Connects rat nat "string option" | Subscribes nat | Publishes ui_event | Forwards nat | Leaves nat

fun hub_step :: "(nat \<Rightarrow> bool) \<Rightarrow> hub_op \<Rightarrow> hub \<times> session_store option \<Rightarrow> hub \<times> session_store option" where
  "hub_step alive (Connects now ws sid) x = client_connects alive now ws sid x"
| "hub_step alive (Subscribes ws) (h, st) = (client_subscribes ws h, st)"
| "hub_step alive (Publishes e) (h, st) = (broadcast alive e h, st)"
| "hub_step alive (Forwards ws) (h, st) = (forward_event alive ws h, st)"
| "hub_step alive (Leaves ws) (h, st) = (client_leaves ws h, st)"

definition hub_run :: "(nat \<Rightarrow> bool) \<Rightarrow> hub_op list \<Rightarrow> hub \<times> session_store option \<Rightarrow> hub \<times> session_store option" where
  "hub_run alive ops x = foldl (\<lambda>x op. hub_step alive op x) x ops"

fun hub_published :: "hub_op list \<Rightarrow> ui_event list" where
  "hub_published [] = []"
| "hub_published (Publishes e # xs) = e # hub_published xs"
| "hub_published (_ # xs) = hub_published xs"

fun op_client :: "hub_op \<Rightarrow> nat option" where
  "op_client (Connects now ws sid) = Some ws"
| "op_client (Subscribes ws) = Some ws"
| "op_client (Leaves ws) = Some ws"
| "op_client _ = None"

definition sent_to :: "nat \<Rightarrow> hub \<Rightarrow> jdict list" where
  "sent_to ws h = map snd (filter (\<lambda>(w, _). w = ws) (hb_sent h))"

text \<open>No two tasks read one queue, and no queue is newer than the next one.\<close>

definition queues_ok :: "hub \<Rightarrow> bool" where
  "queues_ok h \<longleftrightarrow>
     (\<exists>b. hb_broadcaster h = Some b
        \<and> (\<forall>ws i. map_of (hb_queues h) ws = Some i \<longrightarrow> i < bc_next b)
        \<and> (\<forall>ws ws' i. map_of (hb_queues h) ws = Some i \<and> map_of (hb_queues h) ws' = Some i \<longrightarrow> ws = ws'))"

text \<open>The view of one client: what it was sent since it subscribed, and what still waits for it.\<close>

definition client_view :: "nat \<Rightarrow> string option \<Rightarrow> jdict list \<Rightarrow> ui_event list \<Rightarrow> hub \<Rightarrow> bool" where
  "client_view ws sid before pub h \<longleftrightarrow>
     (\<exists>b i q. hb_broadcaster h = Some b \<and> map_of (hb_queues h) ws = Some i
        \<and> map_of (bc_subscribers b) i = Some q \<and> dict_get (hb_client_sessions h) ws None = sid
        \<and> sent_to ws h = before @ map ui_event_to_dict (filter (wants sid) (uq_taken q))
        \<and> subseq (uq_taken q @ uq_items q) pub)"

lemma client_leaves_ok: "queues_ok h \<Longrightarrow> queues_ok (client_leaves ws h)"
  by (auto simp: queues_ok_def client_leaves_def unregister_client_def unsubscribe_def split: option.split)

lemma forward_ok: "queues_ok h \<Longrightarrow> queues_ok (forward_event alive ws h)"
proof -
  assume ok: "queues_ok h"
  have "queues_ok (h\<lparr>hb_broadcaster := Some (reader_get i b)\<rparr>)" if "hb_broadcaster h = Some b" for i b
    using ok that by (auto simp: queues_ok_def reader_get_def split: option.split)
  moreover have "queues_ok (send_json ws d g)" if "queues_ok g" for d g
    using that by (simp add: queues_ok_def send_json_def)
  ultimately show ?thesis
    using ok by (auto simp: forward_event_def Let_def client_leaves_ok split: option.split list.split)
qed

lemma hub_step_ok: "queues_ok (fst x) \<Longrightarrow> queues_ok (fst (hub_step alive op x))"
proof (cases x; cases op)
  fix h st now ws sid
  assume "queues_ok (fst x)" "x = (h, st)" "op = Connects now ws sid"
  then show ?thesis
    by (auto simp: client_connects_def register_client_def unregister_client_def send_json_def queues_ok_def Let_def
        split: option.split prod.split)
next
  fix h st ws
  assume "queues_ok (fst x)" "x = (h, st)" "op = Subscribes ws"
  then show ?thesis
    by (fastforce simp: client_subscribes_def subscribe_def queues_ok_def Let_def split: if_splits)
next
  fix h st e
  assume "queues_ok (fst x)" "x = (h, st)" "op = Publishes e"
  then show ?thesis by (auto simp: broadcast_def publish_nowait_def queues_ok_def)
qed (simp_all add: forward_ok client_leaves_ok)

interpretation hub_machine: invariant_machine "\<lambda>x op. hub_step alive op x" "\<lambda>x. queues_ok (fst x)" "\<lambda>_. True" for alive
  by unfold_locales (rule hub_step_ok)

lemma hub_run_ok: "queues_ok (fst x) \<Longrightarrow> queues_ok (fst (hub_run alive ops x))"
  unfolding hub_run_def by (rule hub_machine.run_ok) (simp_all add: list_all_iff)

lemma sent_to_simps [simp]:
  "sent_to ws (send_json w d h) = sent_to ws h @ (if w = ws then [d] else [])"
  "sent_to ws (unregister_client w h) = sent_to ws h"
  "sent_to ws (register_client w sid h) = sent_to ws h"
  "sent_to ws (h\<lparr>hb_broadcaster := b\<rparr>) = sent_to ws h"
  "sent_to ws (h\<lparr>hb_queues := qs\<rparr>) = sent_to ws h"
  by (auto simp: sent_to_def send_json_def unregister_client_def register_client_def)

lemma leaves_view:
  assumes "queues_ok h" "client_view ws sid before pub h" "w \<noteq> ws"
  shows "client_view ws sid before pub (client_leaves w h)"
  using assms
  by (auto simp: client_view_def client_leaves_def unsubscribe_def queues_ok_def unregister_client_def dict_get_def
      sent_to_def split: option.split)

lemma forward_other_view:
  assumes "queues_ok h" "client_view ws sid before pub h" "w \<noteq> ws"
  shows "client_view ws sid before pub (forward_event alive w h)"
proof (cases "forward_event alive w h = h")
  case False
  then obtain i b q e es where f: "map_of (hb_queues h) w = Some i" "hb_broadcaster h = Some b"
      "map_of (bc_subscribers b) i = Some q" "uq_items q = e # es"
    by (auto simp: forward_event_def split: option.splits list.splits)
  let ?h = "h\<lparr>hb_broadcaster := Some (reader_get i b)\<rparr>"
  have i: "map_of (hb_queues h) ws \<noteq> Some i"
    using assms(1,3) f(1) by (auto simp: queues_ok_def)
  then have v: "client_view ws sid before pub ?h"
    using assms(2) f by (auto simp: client_view_def reader_get_def)
  have ok: "queues_ok ?h"
    using assms(1) f by (auto simp: queues_ok_def reader_get_def)
  have "client_view ws sid before pub (send_json w d ?h)" for d
    using v assms(3) by (simp add: client_view_def) (simp add: send_json_def)
  with v leaves_view [OF ok v assms(3)] show ?thesis
    using f by (simp add: forward_event_def Let_def)
qed (use assms in simp)

lemma forward_own_view:
  assumes "client_view ws sid before pub h" "alive ws"
  shows "client_view ws sid before pub (forward_event alive ws h)"
proof -
  from assms(1) obtain b i q where v: "hb_broadcaster h = Some b" "map_of (hb_queues h) ws = Some i"
      "map_of (bc_subscribers b) i = Some q" "dict_get (hb_client_sessions h) ws None = sid"
      "sent_to ws h = before @ map ui_event_to_dict (filter (wants sid) (uq_taken q))"
      "subseq (uq_taken q @ uq_items q) pub"
    by (auto simp: client_view_def)
  show ?thesis
  proof (cases "uq_items q")
    case Nil
    with v assms(1) show ?thesis by (simp add: forward_event_def)
  next
    case (Cons e es)
    have "map_of (bc_subscribers (reader_get i b)) i = Some (q\<lparr>uq_items := es, uq_taken := uq_taken q @ [e]\<rparr>)"
      using v Cons by (simp add: reader_get_def queue_get_def)
    then show ?thesis
      using v Cons assms(2)
      by (auto simp: forward_event_def client_view_def Let_def send_json_def sent_to_def)
  qed
qed

lemma hub_step_view:
  assumes "queues_ok (fst x)" "client_view ws sid before pub (fst x)" "alive ws" "op_client op \<noteq> Some ws"
  shows "client_view ws sid before (pub @ hub_published [op]) (fst (hub_step alive op x))"
proof (cases x; cases op)
  fix h st now w s
  assume "x = (h, st)" "op = Connects now w s"
  with assms show ?thesis
    by (auto simp: client_connects_def client_view_def Let_def dict_get_def split: option.split prod.split)
      (auto simp: register_client_def unregister_client_def send_json_def)
next
  fix h st w
  assume x: "x = (h, st)" "op = Subscribes w"
  from assms(2) obtain b i q where v: "hb_broadcaster h = Some b" "map_of (hb_queues h) ws = Some i"
      "map_of (bc_subscribers b) i = Some q" "dict_get (hb_client_sessions h) ws None = sid"
      "sent_to ws h = before @ map ui_event_to_dict (filter (wants sid) (uq_taken q))"
      "subseq (uq_taken q @ uq_items q) pub"
    unfolding x client_view_def by auto
  have "i \<noteq> bc_next b" using assms(1) v(1,2) unfolding x queues_ok_def by fastforce
  with v x assms(4) show ?thesis
    by (auto simp: client_subscribes_def client_view_def subscribe_def Let_def sent_to_def)
next
  fix h st e
  assume x: "x = (h, st)" "op = Publishes e"
  have "subseq (uq_taken q @ uq_items (put_nowait e q)) (pub @ [e])"
    if "subseq (uq_taken q @ uq_items q) pub" for q :: ui_queue
    using that list_emb_append_mono [of "(=)" "uq_taken q @ uq_items q" pub "[e]" "[e]"]
    by (auto simp: put_nowait_def intro: subseq_order.trans)
  with x assms show ?thesis
    by (auto simp: broadcast_def client_view_def map_of_publish sent_to_def put_nowait_taken)
next
  fix h st w
  assume "x = (h, st)" "op = Forwards w"
  with assms forward_other_view [of h ws sid before pub w] forward_own_view [of ws sid before pub h alive]
  show ?thesis by (cases "w = ws") auto
next
  fix h st w
  assume "x = (h, st)" "op = Leaves w"
  with assms leaves_view [of h ws sid before pub w] show ?thesis by auto
qed

lemma hub_run_view:
  assumes "queues_ok (fst x)" "client_view ws sid before pub (fst x)" "alive ws"
    "\<forall>op\<in>set ops. op_client op \<noteq> Some ws"
  shows "client_view ws sid before (pub @ hub_published ops) (fst (hub_run alive ops x))"
  using assms
proof (induction ops arbitrary: x pub)
  case (Cons op ops)
  have "client_view ws sid before (pub @ hub_published [op]) (fst (hub_step alive op x))"
    using Cons.prems by (intro hub_step_view) auto
  from Cons.IH [OF hub_step_ok [OF Cons.prems(1)] this Cons.prems(3)] Cons.prems(4)
  show ?case by (cases op) (simp_all add: hub_run_def)
qed (simp add: hub_run_def)

lemma subscribes_view:
  assumes "queues_ok h" "map_of (hb_client_sessions h) ws = Some sid"
  shows "client_view ws sid (sent_to ws h) [] (client_subscribes ws h)"
  using assms
  by (auto simp: client_view_def client_subscribes_def subscribe_def queues_ok_def new_ui_queue_def Let_def
      dict_get_def sent_to_def)

text \<open>From its subscription on, a client gets exactly the events it wants among those taken for it.\<close>

lemma browser_receives:
  assumes "queues_ok h" "map_of (hb_client_sessions h) ws = Some sid" "alive ws"
    "\<forall>op\<in>set ops. op_client op \<noteq> Some ws"
  shows "\<exists>taken. sent_to ws (fst (hub_run alive ops (client_subscribes ws h, store)))
      = sent_to ws h @ map ui_event_to_dict (filter (wants sid) taken)
    \<and> subseq taken (hub_published ops)"
proof -
  have "queues_ok (client_subscribes ws h)"
    using hub_step_ok [of "(h, store)" alive "Subscribes ws"] assms(1) by simp
  with hub_run_view [of "(client_subscribes ws h, store)" ws sid "sent_to ws h" "[]" alive ops]
    subscribes_view [OF assms(1,2)] assms(3,4)
  have "client_view ws sid (sent_to ws h) (hub_published ops)
      (fst (hub_run alive ops (client_subscribes ws h, store)))" by simp
  then obtain q :: ui_queue where "sent_to ws (fst (hub_run alive ops (client_subscribes ws h, store)))
      = sent_to ws h @ map ui_event_to_dict (filter (wants sid) (uq_taken q))"
      "subseq (uq_taken q @ uq_items q) (hub_published ops)"
    unfolding client_view_def by blast
  moreover from this(2) have "subseq (uq_taken q) (hub_published ops)"
    by (rule subseq_order.trans [OF list_emb_prefix [OF subseq_order.refl]])
  ultimately show ?thesis by blast
qed

end
