(* ===== verification/JsonText.thy ===== *)
theory JsonText
  imports PyValue "HOL-Library.List_Lexorder" "HOL-Library.Char_ord" "HOL-Library.Multiset"
begin

text \<open>
  \<open>json.dumps\<close> as the program calls it: plain, with \<open>sort_keys=True\<close> and with \<open>indent=2\<close>, always
  with \<open>ensure_ascii\<close>.
\<close>

definition hex4 :: "nat \<Rightarrow> string" where
  "hex4 n = map (\<lambda>i. hex_digit (n div 16 ^ i mod 16)) [3, 2, 1, 0]"

definition json_char :: "char \<Rightarrow> string" where
  "json_char c =
     (let n = (of_char c :: nat); esc = (\<lambda>d. [char_of (92 :: nat), d])
      in if n = 34 \<or> n = 92 then esc c
         else if n = 10 then esc CHR ''n''
         else if n = 13 then esc CHR ''r''
         else if n = 9 then esc CHR ''t''
         else if n = 12 then esc CHR ''f''
         else if n = 8 then esc CHR ''b''
         else if 32 \<le> n \<and> n \<le> 126 then [c]
         else char_of (92 :: nat) # CHR ''u'' # hex4 n)"

definition json_string :: "string \<Rightarrow> string" where
  "json_string s = char_of (34 :: nat) # concat (map json_char s) @ [char_of (34 :: nat)]"

fun json_scalar :: "json \<Rightarrow> string" where
  "json_scalar JNull = ''null''"
| "json_scalar (JBool b) = (if b then ''true'' else ''false'')"
| "json_scalar (JInt n) = show_int n"
| "json_scalar (JFloat x) = float_repr x"
| "json_scalar (JStr s) = json_string s"
| "json_scalar _ = []"

definition by_key :: "bool \<Rightarrow> (string \<times> 'a) list \<Rightarrow> (string \<times> 'a) list" where
  "by_key sorted_keys d = (if sorted_keys then sort_key fst d else d)"

fun json_text :: "bool \<Rightarrow> json \<Rightarrow> string" where
  "json_text s (JArr xs) = ''['' @ str_join '', '' (map (json_text s) xs) @ '']''"
| "json_text s (JObj d) =
     ''{'' @ str_join '', '' (map (\<lambda>(k, t). json_string k @ '': '' @ t)
       (by_key s (map (\<lambda>(k, v). (k, json_text s v)) d))) @ ''}''"
| "json_text s v = json_scalar v"

definition json_dumps :: "json \<Rightarrow> string" where
  "json_dumps v = json_text False v"

definition json_dumps_sorted :: "json \<Rightarrow> string" where
  "json_dumps_sorted v = json_text True v"

text \<open>\<open>indent=2\<close>: one item per line, empty containers stay closed.\<close>

definition indented :: "nat \<Rightarrow> string \<Rightarrow> string list \<Rightarrow> string \<Rightarrow> string" where
  "indented n l items r =
     (if items = [] then l @ r
      else l @ concat (map (\<lambda>(i, t). (if i = 0 then [] else '','') @ CHR 0x0A # replicate (2 * Suc n) CHR '' '' @ t)
             (enumerate 0 items)) @ CHR 0x0A # replicate (2 * n) CHR '' '' @ r)"

fun json_indent :: "nat \<Rightarrow> json \<Rightarrow> string" where
  "json_indent n (JArr xs) = indented n ''['' (map (json_indent (Suc n)) xs) '']''"
| "json_indent n (JObj d) =
     indented n ''{'' (map (\<lambda>(k, v). json_string k @ '': '' @ json_indent (Suc n) v) d) ''}''"
| "json_indent n v = json_scalar v"

text \<open>Sorted output does not depend on the order of the members.\<close>

lemma sort_key_fst_mset:
  assumes "distinct (map fst xs)" "mset xs = mset ys"
  shows "sort_key fst xs = sort_key fst ys"
proof (rule properties_for_sort_key)
  show "mset (sort_key fst ys) = mset xs" by (simp add: assms(2))
  show "sorted (map fst (sort_key fst ys))" by simp
  show "filter (\<lambda>x. fst k = fst x) (sort_key fst ys) = filter (\<lambda>x. fst k = fst x) xs"
    if "k \<in> set (sort_key fst ys)" for k
  proof -
    have d: "distinct (map fst (sort_key fst ys))"
      using assms by (metis distinct_map mset_eq_imp_distinct_iff mset_map mset_sort)
    have k: "k \<in> set xs" using that assms(2) by (metis set_mset_mset set_sort)
    have one: "filter (\<lambda>x. fst k = fst x) zs = [k]" if "distinct (map fst zs)" "k \<in> set zs"
      for zs :: "('a \<times> 'b) list"
      using that
    proof (induction zs)
      case (Cons z zs)
      have "filter (\<lambda>x. fst z = fst x) zs = []" using Cons.prems(1) by (force simp: filter_empty_conv)
      then show ?case using Cons by (auto simp: image_iff)
    qed simp
    show ?thesis using one [OF d that] one [OF assms(1) k] by simp
  qed
qed

lemma sorted_text_order:
  assumes "distinct (map fst d)" "mset d = mset e"
  shows "json_dumps_sorted (JObj d) = json_dumps_sorted (JObj e)"
proof -
  let ?f = "\<lambda>(k, v). (k, json_text True v)"
  have "map fst (map ?f d) = map fst d" by (simp add: comp_def split_beta)
  then have "sort_key fst (map ?f d) = sort_key fst (map ?f e)"
    using assms by (intro sort_key_fst_mset) (simp_all only: mset_map)
  then show ?thesis by (simp add: json_dumps_sorted_def by_key_def)
qed

end
