(* ===== verification/Jsonc.thy ===== *)
theory Jsonc
  imports SessionStore JsonText "HOL-Library.While_Combinator"
begin

text \<open>
  \<open>src/core/store/jsonc_exporter.py\<close>: the session report as JSON with comments. The scanner that
  removes comments is the \<open>while\<close> loop of the source, with the rest of the text for the index; it is
  shown to end and to agree with a recursive reference, from which it follows that JSON text comes
  through unchanged and that comments between its pieces vanish.
\<close>

subsection \<open>\<open>strip_comments\<close>\<close>

definition dquote :: char where "dquote = CHR 0x22"
definition bslash :: char where "bslash = CHR 0x5C"

record scan =
  sc_rest :: string
  sc_in_string :: bool
  sc_escape :: bool
  sc_out :: string

text \<open>The two inner loops: up to the line end, and past \<open>*/\<close> or the end of the text.\<close>

definition skip_line :: "string \<Rightarrow> string" where
  "skip_line s = dropWhile (\<lambda>c. c \<noteq> CHR 0x0A) s"

fun skip_block :: "string \<Rightarrow> string" where
  "skip_block (a # b # s) = (if a = CHR ''*'' \<and> b = CHR ''/'' then s else skip_block (b # s))"
| "skip_block _ = []"

definition strip_step :: "scan \<Rightarrow> scan" where
  "strip_step st =
     (case sc_rest st of
        [] \<Rightarrow> st
      | c # s \<Rightarrow>
          if sc_in_string st then
            (let st' = st\<lparr>sc_rest := s, sc_out := sc_out st @ [c]\<rparr>
             in if sc_escape st then st'\<lparr>sc_escape := False\<rparr>
                else if c = bslash then st'\<lparr>sc_escape := True\<rparr>
                else if c = dquote then st'\<lparr>sc_in_string := False\<rparr>
                else st')
          else if c = dquote then st\<lparr>sc_rest := s, sc_in_string := True, sc_out := sc_out st @ [c]\<rparr>
          else if c = CHR ''/'' \<and> starts_with ''/'' s then st\<lparr>sc_rest := skip_line (drop 1 s)\<rparr>
          else if c = CHR ''/'' \<and> starts_with ''*'' s then st\<lparr>sc_rest := skip_block (drop 1 s)\<rparr>
          else st\<lparr>sc_rest := s, sc_out := sc_out st @ [c]\<rparr>)"

definition strip_comments :: "string \<Rightarrow> string option" where
  "strip_comments text =
     map_option sc_out (while_option (\<lambda>st. sc_rest st \<noteq> []) strip_step
       \<lparr>sc_rest = text, sc_in_string = False, sc_escape = False, sc_out = []\<rparr>)"

definition parse_jsonc :: "(string \<Rightarrow> json option) \<Rightarrow> string \<Rightarrow> json option" where
  "parse_jsonc loads text = Option.bind (strip_comments text) loads"

subsection \<open>The session report\<close>

definition JSONC_SCHEMA_URI :: string where
  "JSONC_SCHEMA_URI = ''https://ctxins.dev/schemas/session.v1.json''"

definition turn_harness :: "canonical_turn \<Rightarrow> json res" where
  "turn_harness t =
     (let h = jget (ct_metadata t) ''harness''
      in if truthy h then Inr h
         else
           (case jget_or (ct_metadata t) ''agent'' (JObj []) of
              JObj a \<Rightarrow> Inr (jget_or a ''name'' (JStr ''claude-code''))
            | _ \<Rightarrow> Inl AttributeError))"

definition client_info :: "canonical_turn list \<Rightarrow> jdict option \<Rightarrow> jdict res" where
  "client_info turns client_metadata =
     rbind (case turns of [] \<Rightarrow> Inr (JStr ''claude-code'') | t # _ \<Rightarrow> turn_harness t) (\<lambda>harness.
       Inr (case client_metadata of
              Some (x # xs) \<Rightarrow> x # xs
            | _ \<Rightarrow> [(''harness'', harness), (''version'', JStr ''1.0.0''),
                    (''source'', JStr ''uds-interceptor'')]))"

definition block_kind :: "context_block \<Rightarrow> json" where
  "block_kind b = jget (cb_metadata b) ''type''"

definition exported_violation :: "rule_violation \<Rightarrow> json" where
  "exported_violation v =
     JObj [(''ruleId'', JStr (rv_rule_id v)), (''severity'', JStr (sev_value (rv_severity v))),
       (''title'', JStr (rv_title v)), (''message'', JStr (rv_message v)),
       (''estimatedWasteUSD'', JFloat (rv_estimated_waste_usd v)),
       (''suggestedFix'', JStr (rv_suggested_fix v))]"

definition exported_turn :: "canonical_turn \<Rightarrow> json" where
  "exported_turn t =
     (let thoughts = sum_tokens (filter (\<lambda>b. block_kind b = JStr ''thinking'') (ct_assistant_blocks t));
          visible = sum_tokens (filter (\<lambda>b. block_kind b \<notin> {JStr ''thinking'', JStr ''tool_use''})
                     (ct_assistant_blocks t));
          output = (if visible \<noteq> 0 then visible else ct_output_tokens t)
      in JObj
        [(''turnIndex'', JInt (ct_turn_index t)), (''correlationId'', JStr (ct_correlation_id t)),
         (''timestamp'', JFloat (ct_timestamp t)),
         (''timing'', JObj [(''ttftMs'', jopt JFloat (ct_ttft_ms t)), (''durationMs'', JFloat (ct_duration_ms t))]),
         (''tokens'', JObj
            [(''system'', JInt (sum_tokens (ct_system_blocks t))), (''tools'', JInt (sum_tokens (ct_tool_defs t))),
             (''history'', JInt (sum_tokens (ct_conversation_history t))),
             (''toolResults'', JInt (sum_tokens (ct_tool_results t))), (''thoughts'', JInt thoughts),
             (''output'', JInt output)]),
         (''cache'', JObj [(''readTokens'', JInt (ct_cached_read_tokens t)),
                          (''createdTokens'', JInt (ct_cached_created_tokens t))]),
         (''cost'', JObj [(''turnCostUSD'', JFloat (ct_turn_cost_usd t)),
                         (''wastedCostUSD'', JFloat (ct_wasted_cost_usd t))]),
         (''violations'', JArr (map exported_violation (ct_violations t)))])"

definition SUMMARY_KEYS :: "string list" where
  "SUMMARY_KEYS = [''totalTurns'', ''totalInputTokens'', ''totalOutputTokens'', ''cachedInputTokens'',
     ''cacheHitRatio'', ''totalDurationMs'', ''estimatedCostUSD'', ''pollutionScore'',
     ''potentialSavingsUSD'', ''activeViolationsCount'']"

definition build_session_dict :: "string \<Rightarrow> canonical_turn list \<Rightarrow> string option \<Rightarrow> jdict option \<Rightarrow> jdict res" where
  "build_session_dict now_iso turns session_id client_metadata =
     (let sid = (case nonempty session_id of
            Some s \<Rightarrow> s | None \<Rightarrow> (case turns of [] \<Rightarrow> ''sess_default'' | t # _ \<Rightarrow> ct_session_id t));
          provider = (case turns of [] \<Rightarrow> ''unknown'' | t # _ \<Rightarrow> ct_provider t);
          model = (case turns of [] \<Rightarrow> ''unknown'' | t # _ \<Rightarrow> ct_model t);
          summary = calculate_summary turns
      in rbind (client_info turns client_metadata) (\<lambda>client.
           Inr [(''$schema'', JStr JSONC_SCHEMA_URI), (''sessionId'', JStr sid), (''version'', JStr ''1.0''),
                (''timestamp'', JStr now_iso), (''client'', JObj client),
                (''model'', JObj [(''provider'', JStr provider), (''name'', JStr model)]),
                (''summary'', JObj (map (\<lambda>k. (k, jget summary k)) SUMMARY_KEYS)),
                (''turns'', JArr (map exported_turn turns))]))"

text \<open>\<open>s.replace(old, new)\<close> for a non-empty \<open>old\<close>.\<close>

function str_replace :: "string \<Rightarrow> string \<Rightarrow> string \<Rightarrow> string" where
  "str_replace old new [] = []"
| "str_replace old new (c # s) =
     (if old \<noteq> [] \<and> starts_with old (c # s) then new @ str_replace old new (drop (length old) (c # s))
      else c # str_replace old new s)"
  by pat_completeness auto
termination
  by (relation "measure (\<lambda>(_, _, s). length s)") auto

definition score_comment :: string where
  "score_comment = '', // 0 = pristine, 100 = critical bloat''"

definition export_session :: "string \<Rightarrow> canonical_turn list \<Rightarrow> string option \<Rightarrow> jdict option \<Rightarrow> bool
    \<Rightarrow> string res" where
  "export_session now_iso turns session_id client_metadata include_comments =
     rbind (build_session_dict now_iso turns session_id client_metadata) (\<lambda>data.
       let raw_json = json_indent 0 (JObj data);
           score = json_string ''pollutionScore'' @ '': ''
             @ py_str (jget (calculate_summary turns) ''pollutionScore'')
       in Inr (if include_comments then str_replace score (score @ score_comment) raw_json else raw_json))"

definition export_from_store :: "string \<Rightarrow> session_store \<Rightarrow> string \<Rightarrow> bool \<Rightarrow> string res \<times> session_store" where
  "export_from_store now_iso store session_id include_comments =
     (case get_session store session_id of
        None \<Rightarrow> (Inl ValueError, store)
      | Some turns \<Rightarrow>
          (export_session now_iso turns (Some session_id) None include_comments,
           mark_exported session_id store))"

subsection \<open>The scanner ends\<close>

lemma skip_block_size: "length (skip_block s) \<le> length s"
  by (induction s rule: skip_block.induct) auto

lemma skip_line_size: "length (skip_line s) \<le> length s"
  by (simp add: skip_line_def length_dropWhile_le)

lemma skips_shrink [simp]:
  "length (skip_line (drop (Suc 0) s)) \<le> length s" "length (skip_block (drop (Suc 0) s)) \<le> length s"
  using skip_line_size [of "drop 1 s"] skip_block_size [of "drop 1 s"] by simp_all

lemma strip_step_shrinks: "sc_rest st \<noteq> [] \<Longrightarrow> length (sc_rest (strip_step st)) < length (sc_rest st)"
  by (auto simp: strip_step_def Let_def less_Suc_eq_le split: list.split)

lemma strip_loop_ends: "\<exists>t. while_option (\<lambda>st. sc_rest st \<noteq> []) strip_step st = Some t"
  by (rule measure_while_option_Some [where P = "\<lambda>_. True" and f = "\<lambda>st. length (sc_rest st)"])
    (simp_all add: strip_step_shrinks)

text \<open>The recursive reference: what is still to be written, by the state of the scanner.\<close>

function strip_from :: "bool \<Rightarrow> bool \<Rightarrow> string \<Rightarrow> string" where
  "strip_from in_string escape [] = []"
| "strip_from True escape (c # s) =
     c # (if escape then strip_from True False s
          else strip_from (c = bslash \<or> c \<noteq> dquote) (c = bslash) s)"
| "strip_from False escape (c # s) =
     (if c = dquote then c # strip_from True escape s
      else if c = CHR ''/'' \<and> starts_with ''/'' s then strip_from False escape (skip_line (drop 1 s))
      else if c = CHR ''/'' \<and> starts_with ''*'' s then strip_from False escape (skip_block (drop 1 s))
      else c # strip_from False escape s)"
  by pat_completeness auto
termination
  by (relation "measure (\<lambda>(_, _, s). length s)") (auto simp: less_Suc_eq_le)

lemma strip_step_from:
  assumes "sc_rest st \<noteq> []"
  shows "sc_out (strip_step st) @ strip_from (sc_in_string (strip_step st)) (sc_escape (strip_step st)) (sc_rest (strip_step st))
    = sc_out st @ strip_from (sc_in_string st) (sc_escape st) (sc_rest st)"
  using assms by (cases "sc_rest st"; cases "sc_in_string st") (auto simp: strip_step_def Let_def)

lemma strip_loop_from:
  "while_option (\<lambda>st. sc_rest st \<noteq> []) strip_step st = Some t \<Longrightarrow>
     sc_out t = sc_out st @ strip_from (sc_in_string st) (sc_escape st) (sc_rest st)"
proof -
  assume w: "while_option (\<lambda>st. sc_rest st \<noteq> []) strip_step st = Some t"
  let ?P = "\<lambda>x. sc_out x @ strip_from (sc_in_string x) (sc_escape x) (sc_rest x)
    = sc_out st @ strip_from (sc_in_string st) (sc_escape st) (sc_rest st)"
  have "?P t" by (rule while_option_rule [where P = ?P, OF _ w]) (simp_all add: strip_step_from)
  moreover have "sc_rest t = []" using while_option_stop [OF w] by simp
  ultimately show ?thesis by simp
qed

lemma strip_comments_from: "strip_comments text = Some (strip_from False False text)"
proof -
  let ?st = "\<lparr>sc_rest = text, sc_in_string = False, sc_escape = False, sc_out = []\<rparr>"
  obtain t where t: "while_option (\<lambda>st. sc_rest st \<noteq> []) strip_step ?st = Some t"
    using strip_loop_ends by blast
  then show ?thesis using strip_loop_from [OF t] by (simp add: strip_comments_def)
qed

subsection \<open>JSON text has no comments\<close>

text \<open>Text that the scanner copies and after which it is outside a string again.\<close>

definition neutral :: "string \<Rightarrow> bool" where
  "neutral u \<longleftrightarrow> (\<forall>s. strip_from False False (u @ s) = u @ strip_from False False s)"

lemma neutralD: "neutral u \<Longrightarrow> strip_from False False (u @ s) = u @ strip_from False False s"
  by (simp add: neutral_def)

lemma neutral_Nil [simp]: "neutral []"
  by (simp add: neutral_def)

lemma neutral_append [simp]: "neutral u \<Longrightarrow> neutral v \<Longrightarrow> neutral (u @ v)"
  by (simp add: neutral_def)

lemma neutral_Cons: "c \<noteq> dquote \<Longrightarrow> c \<noteq> CHR ''/'' \<Longrightarrow> neutral u \<Longrightarrow> neutral (c # u)"
  by (simp add: neutral_def)

definition plain :: "string \<Rightarrow> bool" where
  "plain u \<longleftrightarrow> list_all (\<lambda>c. c \<noteq> dquote \<and> c \<noteq> CHR ''/'') u"

lemma neutral_plain: "plain u \<Longrightarrow> neutral u"
  by (induction u) (simp_all add: plain_def neutral_Cons)

lemma plain_append [simp]: "plain (u @ v) \<longleftrightarrow> plain u \<and> plain v"
  by (simp add: plain_def)

lemma neutral_concat: "(\<And>u. u \<in> set us \<Longrightarrow> neutral u) \<Longrightarrow> neutral (concat us)"
  by (induction us) simp_all

text \<open>Inside a string literal: every character is copied, the literal goes on.\<close>

lemma in_string_plain:
  "list_all (\<lambda>c. c \<noteq> dquote \<and> c \<noteq> bslash) u \<Longrightarrow> strip_from True False (u @ s) = u @ strip_from True False s"
  by (induction u) simp_all

lemma in_string_escape: "strip_from True False (bslash # c # s) = bslash # c # strip_from True False s"
  by simp

lemma dquote_char: "dquote = char_of (34 :: nat)" "bslash = char_of (92 :: nat)"
  by code_simp+

lemma quote_neq [simp]: "dquote \<noteq> bslash" "bslash \<noteq> dquote"
  by (simp_all add: dquote_def bslash_def)

lemma hex_digit_plain:
  assumes "n < 16"
  shows "hex_digit n \<noteq> dquote \<and> hex_digit n \<noteq> bslash \<and> hex_digit n \<noteq> CHR ''/''"
proof -
  have "\<forall>n\<in>set [0..<16]. hex_digit n \<noteq> dquote \<and> hex_digit n \<noteq> bslash \<and> hex_digit n \<noteq> CHR ''/''"
    by code_simp
  with assms show ?thesis by simp
qed

lemma in_string_char: "strip_from True False (json_char c @ s) = json_char c @ strip_from True False s"
proof -
  have hex: "strip_from True False (bslash # CHR ''u'' # hex4 n @ s)
      = bslash # CHR ''u'' # hex4 n @ strip_from True False s" for n s
  proof -
    have "list_all (\<lambda>c. c \<noteq> dquote \<and> c \<noteq> bslash) (hex4 n)"
      using hex_digit_plain by (simp add: hex4_def)
    then show ?thesis by (simp only: in_string_escape in_string_plain)
  qed
  have c: "c \<noteq> dquote" "c \<noteq> bslash" if "(of_char c :: nat) \<noteq> 34" "(of_char c :: nat) \<noteq> 92"
    using that by (auto simp: dquote_char)
  show ?thesis
    using c hex by (auto simp: json_char_def Let_def simp flip: dquote_char(2) simp del: strip_from.simps
        intro: in_string_escape in_string_plain [of "[c]", simplified])
qed

lemma neutral_string: "neutral (json_string k)"
proof -
  have "strip_from True False (concat (map json_char k) @ s) = concat (map json_char k) @ strip_from True False s" for s
    by (induction k) (simp_all add: in_string_char)
  then show ?thesis by (simp add: neutral_def json_string_def flip: dquote_char)
qed

lemma digit_plain: "plain [digit_char d]" if "0 \<le> d" "d < 10"
proof -
  have "d \<in> set (map int [0..<10])" using that by (auto simp: image_iff intro!: bexI [of _ "nat d"])
  moreover have "list_all (\<lambda>d. plain [digit_char d]) (map int [0..<10])" by code_simp
  ultimately show ?thesis by (metis list_all_iff)
qed

lemma show_pos_plain: "0 \<le> n \<Longrightarrow> plain (show_pos n)"
proof (induction n rule: show_pos.induct)
  case (1 n)
  then show ?case
    using digit_plain [of n] digit_plain [of "n mod 10"] by (subst show_pos.simps) auto
qed

lemma plain_list [simp]: "plain []" "plain (c # u) \<longleftrightarrow> c \<noteq> dquote \<and> c \<noteq> CHR ''/'' \<and> plain u"
  by (auto simp: plain_def)

lemma plain_replicate [simp]: "plain (replicate n c) \<longleftrightarrow> n = 0 \<or> c \<noteq> dquote \<and> c \<noteq> CHR ''/''"
  by (induction n) auto

lemma plain_take: "plain u \<Longrightarrow> plain (take n u)"
  by (auto simp: plain_def list_all_iff dest: in_set_takeD)

lemma plain_drop: "plain u \<Longrightarrow> plain (drop n u)"
  by (auto simp: plain_def list_all_iff dest: in_set_dropD)

lemma show_int_plain: "plain (show_int n)"
  using show_pos_plain [of n] show_pos_plain [of "- n"] by (simp add: show_int_def dquote_def)

lemma pow10_pos: "0 < pow10 k"
  by (simp add: pow10_def)

lemma shortest_digits_plain:
  assumes "0 \<le> x" "shortest_digits x = (ds, e)"
  shows "plain ds"
proof -
  have "0 \<le> round_he (x / pow10 k)" for k
    using assms(1) pow10_pos [of k] by (intro round_he_nonneg divide_nonneg_pos)
  then have "plain (show_pos (round_he (x / pow10 k)))" for k
    by (rule show_pos_plain)
  then show ?thesis
    using assms(2) by (auto simp: shortest_digits_def Let_def plain_take split: if_splits)
qed

lemma float_repr_plain: "plain (float_repr x)"
proof -
  obtain ds e where d: "shortest_digits \<bar>x\<bar> = (ds, e)" by fastforce
  have ds: "plain ds" by (rule shortest_digits_plain [OF _ d]) simp
  have e: "plain (show_pos \<bar>e\<bar>)" by (rule show_pos_plain) simp
  show ?thesis
    using ds e by (simp add: float_repr_def d Let_def plain_take plain_drop dquote_def)
qed

lemma neutral_scalar: "neutral (json_scalar v)"
  by (cases v) (simp_all add: neutral_string neutral_plain show_int_plain float_repr_plain dquote_def)

lemma neutral_indented:
  assumes "\<And>t. t \<in> set items \<Longrightarrow> neutral t" "plain l" "plain r"
  shows "neutral (indented n l items r)"
proof -
  have pad: "neutral ((if i = 0 then [] else '','') @ CHR 0x0A # replicate k CHR '' '' @ t)"
    if "neutral t" for i k t
    using that by (simp add: neutral_Cons neutral_plain dquote_def)
  have "neutral (concat (map (\<lambda>(i, t). (if i = 0 then [] else '','') @ CHR 0x0A # replicate (2 * Suc n) CHR '' '' @ t)
      (enumerate 0 items)))" (is "neutral (concat ?us)")
  proof (rule neutral_concat)
    fix u assume "u \<in> set ?us"
    then obtain i t where "(i, t) \<in> set (enumerate 0 items)"
      and u: "u = (if i = 0 then [] else '','') @ CHR 0x0A # replicate (2 * Suc n) CHR '' '' @ t"
      by auto
    then have "t \<in> set items" by (auto simp: in_set_enumerate_eq)
    then show "neutral u" unfolding u using assms(1) by (intro pad)
  qed
  then show ?thesis
    using assms(2,3) by (simp add: indented_def neutral_plain neutral_Cons dquote_def)
qed

lemma neutral_indent: "neutral (json_indent n v)"
proof (induction n v rule: json_indent.induct)
  case (1 n xs)
  then show ?case by (auto intro!: neutral_indented simp: dquote_def)
next
  case (2 n d)
  then show ?case
    by (auto intro!: neutral_indented neutral_append neutral_string neutral_Cons simp: dquote_def)
qed (simp_all only: json_indent.simps neutral_scalar)

text \<open>Comments between pieces of JSON text vanish and nothing else changes.\<close>

lemma strip_neutral: "neutral u \<Longrightarrow> strip_from False False u = u"
  using neutralD [of u "[]"] by simp

lemma line_comment_vanishes:
  assumes "neutral u" "CHR 0x0A \<notin> set c"
  shows "strip_from False False (u @ ''//'' @ c @ CHR 0x0A # s) = u @ CHR 0x0A # strip_from False False s"
proof -
  have "skip_line (c @ CHR 0x0A # s) = CHR 0x0A # s"
    using assms(2) by (induction c) (auto simp: skip_line_def)
  then show ?thesis
    using assms(1) by (simp add: neutralD starts_with_def dquote_def)
qed

lemma block_comment_vanishes:
  assumes "neutral u" "CHR ''*'' \<notin> set c"
  shows "strip_from False False (u @ ''/*'' @ c @ ''*/'' @ s) = u @ strip_from False False s"
proof -
  have "skip_block (c @ ''*/'' @ s) = s"
    using assms(2)
  proof (induction c)
    case (Cons a c)
    obtain b t where "c @ ''*/'' @ s = b # t" by (cases c) auto
    with Cons show ?case by auto
  qed simp
  then show ?thesis
    using assms(1) by (simp add: neutralD starts_with_def dquote_def)
qed

lemma export_without_comments_parses:
  assumes "export_session now turns sid client False = Inr text"
  shows "\<exists>data. build_session_dict now turns sid client = Inr data
    \<and> strip_comments text = Some (json_indent 0 (JObj data))"
  using assms
  by (auto simp: export_session_def rbind_eq_Inr Let_def strip_comments_from strip_neutral neutral_indent
      simp del: json_indent.simps)

lemma strip_from_length: "length (strip_from i e s) \<le> length s"
proof (induction i e s rule: strip_from.induct)
  case (3 e c s)
  have "n \<le> Suc (length s)" if "n \<le> length (skip_line (drop (Suc 0) s))" for n
    using skips_shrink(1) [of s] that by linarith
  moreover have "n \<le> Suc (length s)" if "n \<le> length (skip_block (drop (Suc 0) s))" for n
    using skips_shrink(2) [of s] that by linarith
  ultimately show ?case using 3 by auto
qed auto

end
