(* ===== verification/WebApi.thy ===== *)
theory WebApi
  imports Broadcast Jsonc
begin

text \<open>
  \<open>src/presentation/web/api.py\<close>: the endpoints of the dashboard, as functions of the session store.
  An endpoint that reads violations leaves the store with their turns stamped. A raised
  \<open>HTTPException\<close> is an \<open>Http_Error\<close>, with the exception it was raised from where there is one.
\<close>

datatype 'a reply = Ok_200 'a | Http_Error nat string "py_error option"

fun rep_bind :: "'a reply \<Rightarrow> ('a \<Rightarrow> 'b reply) \<Rightarrow> 'b reply" where
  "rep_bind (Ok_200 x) f = f x"
| "rep_bind (Http_Error code detail cause) f = Http_Error code detail cause"

definition session_not_found :: "string \<Rightarrow> 'a reply" where
  "session_not_found sid = Http_Error 404 (''Session '' @ [CHR 0x27] @ sid @ [CHR 0x27] @ '' not found'') None"

definition turn_not_found :: "int \<Rightarrow> string \<Rightarrow> 'a reply" where
  "turn_not_found index sid =
     Http_Error 404 (''Turn index '' @ show_int index @ '' not found in session '' @ [CHR 0x27] @ sid @ [CHR 0x27]) None"

definition need_session :: "session_store \<Rightarrow> string \<Rightarrow> canonical_turn list reply" where
  "need_session store sid =
     (case get_session store sid of Some ts \<Rightarrow> Ok_200 ts | None \<Rightarrow> session_not_found sid)"

subsection \<open>Sessions\<close>

definition get_server_config :: "session_store \<Rightarrow> jdict" where
  "get_server_config store =
     [(''granularity'', JStr (ss_granularity store)), (''version'', JStr ''0.1.0'')]"

definition empty_api_summary :: jdict where
  "empty_api_summary =
     [(''totalTurns'', JInt 0), (''totalInputTokens'', JInt 0), (''totalOutputTokens'', JInt 0),
      (''cachedInputTokens'', JInt 0), (''cacheHitRatio'', JFloat 0), (''totalDurationMs'', JFloat 0),
      (''estimatedCostUSD'', JFloat 0), (''pollutionScore'', JFloat 0), (''potentialSavingsUSD'', JFloat 0),
      (''activeViolationsCount'', JInt 0)]"

definition session_meta :: "session_store \<Rightarrow> string \<Rightarrow> jdict" where
  "session_meta store sid = (case get_session_metadata store sid of Some m \<Rightarrow> m | None \<Rightarrow> [])"

definition api_summary :: "canonical_turn list \<Rightarrow> json" where
  "api_summary turns = JObj (if turns \<noteq> [] then calculate_summary turns else empty_api_summary)"

text \<open>The entries of a session that its list and its details share.\<close>

definition session_fields :: "session_store \<Rightarrow> jdict \<Rightarrow> canonical_turn list \<Rightarrow> jdict" where
  "session_fields store meta turns =
     [(''provider'', case turns of t # _ \<Rightarrow> JStr (ct_provider t) | [] \<Rightarrow> jget_or meta ''provider'' (JStr ''unknown'')),
      (''model'', case turns of t # _ \<Rightarrow> JStr (ct_model t) | [] \<Rightarrow> jget_or meta ''model'' (JStr ''unknown'')),
      (''harness'', py_or (jget meta ''harness'') (jget_or meta ''agentHarness'' (JStr ''unknown''))),
      (''agentHarness'', py_or (jget meta ''agentHarness'') (jget_or meta ''harness'' (JStr ''unknown''))),
      (''agent'', jget meta ''agent''), (''status'', jget_or meta ''status'' (JStr ''active'')),
      (''granularity'', jget_or meta ''granularity'' (JStr (ss_granularity store))),
      (''summary'', api_summary turns)]"

definition session_item :: "session_store \<Rightarrow> string \<Rightarrow> jdict" where
  "session_item store sid =
     (let turns = (case get_session store sid of Some ts \<Rightarrow> ts | None \<Rightarrow> [])
      in [(''sessionId'', JStr sid), (''turnsCount'', JInt (int (length turns)))]
         @ session_fields store (session_meta store sid) turns)"

definition api_list_sessions :: "session_store \<Rightarrow> jdict list" where
  "api_list_sessions store = map (session_item store) (list_sessions store)"

definition api_get_session :: "session_store \<Rightarrow> string \<Rightarrow> jdict reply \<times> session_store" where
  "api_get_session store sid =
     (case need_session store sid of
        Ok_200 turns \<Rightarrow>
          (let (vs, store') = get_violations store sid None
           in (Ok_200 ([(''sessionId'', JStr sid)] @ session_fields store (session_meta store sid) turns
                 @ [(''turnIndices'', JArr (map (\<lambda>t. JInt (ct_turn_index t)) turns)),
                    (''turns'', JArr (map JObj (serialize_turns None turns))),
                    (''violations'', violations_json vs)]), store'))
      | Http_Error c d e \<Rightarrow> (Http_Error c d e, store))"

subsection \<open>Turns\<close>

definition get_session_turns :: "session_store \<Rightarrow> string \<Rightarrow> jdict list reply" where
  "get_session_turns store sid =
     rep_bind (need_session store sid) (\<lambda>turns. Ok_200 (serialize_turns None turns))"

text \<open>The first turn with an index, and the turn before it in the list.\<close>

fun turn_at :: "int \<Rightarrow> canonical_turn option \<Rightarrow> canonical_turn list
    \<Rightarrow> (canonical_turn \<times> canonical_turn option) option" where
  "turn_at index prev [] = None"
| "turn_at index prev (t # ts) =
     (if ct_turn_index t = index then Some (t, prev) else turn_at index (Some t) ts)"

definition need_turn :: "session_store \<Rightarrow> string \<Rightarrow> int \<Rightarrow> (canonical_turn \<times> canonical_turn option) reply" where
  "need_turn store sid index =
     rep_bind (need_session store sid) (\<lambda>turns.
       case turn_at index None turns of Some x \<Rightarrow> Ok_200 x | None \<Rightarrow> turn_not_found index sid)"

definition get_session_turn :: "session_store \<Rightarrow> string \<Rightarrow> int \<Rightarrow> jdict reply" where
  "get_session_turn store sid index =
     rep_bind (need_turn store sid index) (\<lambda>(t, prev).
       Ok_200 (AList.update ''all_blocks'' (blocks_json (all_blocks t)) (serialize_turn_with_delta t prev)))"

definition get_session_turn_blocks :: "session_store \<Rightarrow> string \<Rightarrow> int \<Rightarrow> jdict list reply" where
  "get_session_turn_blocks store sid index =
     rep_bind (need_turn store sid index) (\<lambda>(t, prev). Ok_200 (annotate_blocks_lifecycle t prev))"

definition get_session_recommendations :: "session_store \<Rightarrow> string \<Rightarrow> bool
    \<Rightarrow> jdict list reply \<times> session_store" where
  "get_session_recommendations store sid grouped =
     (case need_session store sid of
        Ok_200 _ \<Rightarrow>
          if grouped then
            (let (gs, store') = get_grouped_violations store sid None in (Ok_200 gs, store'))
          else
            (let (vs, store') = get_violations store sid None
             in (Ok_200 (map rule_violation_to_dict vs), store'))
      | Http_Error c d e \<Rightarrow> (Http_Error c d e, store))"

subsection \<open>Diff\<close>

text \<open>\<open>{t.turn_index: t for t in turns}\<close>: the last turn with an index wins.\<close>

definition turn_map :: "canonical_turn list \<Rightarrow> (int, canonical_turn) dict" where
  "turn_map turns = foldl (\<lambda>d t. AList.update (ct_turn_index t) t d) [] turns"

definition diff_reply :: "string \<Rightarrow> int \<Rightarrow> int \<Rightarrow> turn_delta \<Rightarrow> jdict" where
  "diff_reply sid t1 t2 delta =
     [(''sessionId'', JStr sid), (''fromTurnIndex'', JInt t1), (''toTurnIndex'', JInt t2),
      (''delta'', JObj (turn_delta_to_dict delta)),
      (''addedBlockIds'', ids_json (td_added_block_ids delta)),
      (''mutatedBlockIds'', ids_json (td_mutated_block_ids delta)),
      (''removedBlockIds'', ids_json (td_removed_block_ids delta)),
      (''persistedBlockIds'', ids_json (td_persisted_block_ids delta)),
      (''cacheBreakpointBlockId'', jopt JStr (td_cache_breakpoint_block_id delta)),
      (''tokenGrowth'', JInt (td_token_growth delta))]"

definition get_session_diff :: "session_store \<Rightarrow> string \<Rightarrow> int \<Rightarrow> int \<Rightarrow> jdict reply" where
  "get_session_diff store sid t1 t2 =
     rep_bind (need_session store sid) (\<lambda>turns.
       let m = turn_map turns
       in case map_of m t1 of
            None \<Rightarrow> turn_not_found t1 sid
          | Some turn1 \<Rightarrow>
              (case map_of m t2 of
                 None \<Rightarrow> turn_not_found t2 sid
               | Some turn2 \<Rightarrow> Ok_200 (diff_reply sid t1 t2 (compute_delta (Some turn1) turn2))))"

subsection \<open>Export\<close>

record file_reply =
  fr_content :: ustring
  fr_media_type :: string
  fr_disposition :: string

definition attachment :: "string \<Rightarrow> string" where
  "attachment name = ''attachment; filename='' @ [dquote] @ name @ [dquote]"

definition api_export_session :: "string \<Rightarrow> string \<Rightarrow> session_store \<Rightarrow> string \<Rightarrow> string
    \<Rightarrow> file_reply reply \<times> session_store" where
  "api_export_session now_text now_iso store sid format =
     (case need_session store sid of
        Http_Error c d e \<Rightarrow> (Http_Error c d e, store)
      | Ok_200 _ \<Rightarrow>
          (let fmt = str_lower format
           in if fmt = ''md'' \<or> fmt = ''markdown'' then
                (let (content, store') = markdown_from_store now_text store sid
                 in (Ok_200 \<lparr>fr_content = content, fr_media_type = ''text/markdown'',
                       fr_disposition = attachment (sid @ ''_optimization_report.md'')\<rparr>, store'))
              else
                (let is_jsonc = (fmt = ''jsonc'');
                     (content, store') = export_from_store now_iso store sid is_jsonc;
                     ext = (if is_jsonc then ''jsonc'' else ''json'')
                 in (case content of
                       Inl e \<Rightarrow> Http_Error 500 ''Export failed'' (Some e)
                     | Inr c \<Rightarrow> Ok_200 \<lparr>fr_content = utxt c, fr_media_type = ''application/'' @ ext,
                         fr_disposition = attachment (sid @ ''.'' @ ext)\<rparr>,
                     store'))))"

subsection \<open>The views agree\<close>

lemma serialize_turns_nth:
  "i < length ts \<Longrightarrow> serialize_turns prev ts ! i
     = serialize_turn_with_delta (ts ! i) (if i = 0 then prev else Some (ts ! (i - 1)))"
  by (induction prev ts arbitrary: i rule: serialize_turns.induct) (auto simp: nth_Cons split: nat.split)

lemma length_serialize_turns [simp]: "length (serialize_turns prev ts) = length ts"
  by (induction prev ts rule: serialize_turns.induct) simp_all

lemma turn_at_nth:
  assumes "distinct (map ct_turn_index ts)" "i < length ts"
  shows "turn_at (ct_turn_index (ts ! i)) prev ts = Some (ts ! i, if i = 0 then prev else Some (ts ! (i - 1)))"
  using assms
proof (induction ts arbitrary: i prev)
  case (Cons t ts)
  show ?case
  proof (cases i)
    case (Suc j)
    then have "ct_turn_index t \<noteq> ct_turn_index (ts ! j)" using Cons.prems nth_mem [of j ts] by (metis Suc_less_eq distinct.simps(2) image_eqI length_Cons list.set_map list.simps(9))
    with Suc Cons show ?thesis by (cases j) auto
  qed simp
qed simp

lemma turn_at_None: "turn_at index prev ts = None \<longleftrightarrow> index \<notin> ct_turn_index ` set ts"
  by (induction index prev ts rule: turn_at.induct) auto

lemma turn_map_get: "map_of (turn_map ts) i = find (\<lambda>t. ct_turn_index t = i) (rev ts)"
proof -
  have "map_of (foldl (\<lambda>d t. AList.update (ct_turn_index t) t d) d ts) i
      = (case find (\<lambda>t. ct_turn_index t = i) (rev ts) of Some t \<Rightarrow> Some t | None \<Rightarrow> map_of d i)" for d
    by (induction ts rule: rev_induct) auto
  from this [of "[]"] show ?thesis by (auto simp: turn_map_def split: option.split)
qed

text \<open>In a session with distinct indices a turn is found where it stands.\<close>

lemma turn_map_nth:
  assumes "distinct (map ct_turn_index ts)" "i < length ts"
  shows "map_of (turn_map ts) (ct_turn_index (ts ! i)) = Some (ts ! i)"
proof -
  have "find (\<lambda>t. ct_turn_index t = ct_turn_index (ts ! i)) (rev ts) \<noteq> None"
    using nth_mem [OF assms(2)] by (auto simp: find_None_iff)
  then obtain t where t: "find (\<lambda>t. ct_turn_index t = ct_turn_index (ts ! i)) (rev ts) = Some t" by blast
  then have "t \<in> set ts" "ct_turn_index t = ct_turn_index (ts ! i)"
    by (auto simp: find_Some_iff) (metis length_rev nth_mem set_rev)
  with assms have "t = ts ! i" by (auto simp: distinct_map dest: inj_onD)
  with t show ?thesis by (simp add: turn_map_get)
qed

lemma serialized_delta:
  "jget (serialize_turn_with_delta t prev) ''delta'' = JObj (turn_delta_to_dict (compute_delta prev t))"
  by (simp add: serialize_turn_with_delta_def set_keys_def jget_def dict_get_def Let_def)

lemma turn_views_agree:
  assumes "get_session store sid = Some ts" "distinct (map ct_turn_index ts)" "Suc i < length ts"
  shows "\<exists>vs d. get_session_turns store sid = Ok_200 vs \<and> length vs = length ts
    \<and> get_session_turn store sid (ct_turn_index (ts ! Suc i))
        = Ok_200 (AList.update ''all_blocks'' (blocks_json (all_blocks (ts ! Suc i))) (vs ! Suc i))
    \<and> get_session_diff store sid (ct_turn_index (ts ! i)) (ct_turn_index (ts ! Suc i)) = Ok_200 d
    \<and> jget d ''delta'' = jget (vs ! Suc i) ''delta''"
proof -
  let ?vs = "serialize_turns None ts"
  let ?d = "diff_reply sid (ct_turn_index (ts ! i)) (ct_turn_index (ts ! Suc i))
    (compute_delta (Some (ts ! i)) (ts ! Suc i))"
  have need: "need_session store sid = Ok_200 ts" using assms(1) by (simp add: need_session_def)
  have v: "?vs ! Suc i = serialize_turn_with_delta (ts ! Suc i) (Some (ts ! i))"
    using serialize_turns_nth [OF assms(3), of None] by simp
  have "get_session_turn store sid (ct_turn_index (ts ! Suc i))
      = Ok_200 (AList.update ''all_blocks'' (blocks_json (all_blocks (ts ! Suc i))) (?vs ! Suc i))"
    using turn_at_nth [OF assms(2,3), of None] by (simp add: get_session_turn_def need_turn_def need v)
  moreover have "get_session_diff store sid (ct_turn_index (ts ! i)) (ct_turn_index (ts ! Suc i)) = Ok_200 ?d"
    using turn_map_nth [OF assms(2), of i] turn_map_nth [OF assms(2,3)] assms(3)
    by (simp add: get_session_diff_def need)
  moreover have "jget ?d ''delta'' = jget (?vs ! Suc i) ''delta''"
    unfolding v serialized_delta by (simp add: diff_reply_def jget_def dict_get_def)
  ultimately show ?thesis by (auto simp: get_session_turns_def need)
qed

lemma turn_reply_missing:
  "(\<exists>d. get_session_turn store sid index = Ok_200 d)
     \<longleftrightarrow> (\<exists>ts. get_session store sid = Some ts \<and> index \<in> ct_turn_index ` set ts)"
proof (cases "get_session store sid")
  case (Some ts)
  then show ?thesis
    using turn_at_None [of index None ts]
    by (cases "turn_at index None ts") (auto simp: get_session_turn_def need_turn_def need_session_def turn_not_found_def)
qed (simp add: get_session_turn_def need_turn_def need_session_def session_not_found_def)

end
