(* ===== verification/Hashing.thy ===== *)
theory Hashing
  imports Utf8 PyValue
begin

unbundle bit_operations_syntax

text \<open>
  \<open>core/graph/hasher.py\<close>: the content hash of a block is the hexadecimal SHA-256 digest of its
  text in UTF-8. SHA-256 is written out over 32-bit words. The NFC normalisation before it leaves
  Latin-1 text, which is what a \<^typ>\<open>string\<close> of the model holds, as it is.
\<close>

subsection \<open>SHA-256\<close>

type_synonym w32 = "32 word"

text \<open>
  The constants are the first 32 bits of the fractional parts of the cube roots of the first 64
  primes and of the square roots of the first eight, found by \<open>floor_root\<close>, which sets the bits of
  the integer part of a root from the highest on.
\<close>

fun floor_root :: "nat \<Rightarrow> int \<Rightarrow> nat \<Rightarrow> int \<Rightarrow> int" where
  "floor_root e n 0 r = r"
| "floor_root e n (Suc k) r =
     (let r' = r + 2 ^ k in floor_root e n k (if r' ^ e \<le> n then r' else r))"

definition trial_prime :: "nat \<Rightarrow> bool" where
  "trial_prime n \<longleftrightarrow> (\<forall>d\<in>set [2..<n]. n mod d \<noteq> 0)"

definition small_primes :: "nat list" where
  "small_primes = filter trial_prime [2..<312]"

definition root_fraction :: "nat \<Rightarrow> nat \<Rightarrow> w32" where
  "root_fraction e p = of_int (floor_root e (int p * 2 ^ (32 * e)) 37 0)"

definition sha_k :: "w32 list" where
  "sha_k = map (root_fraction 3) small_primes"

definition sha_init :: "w32 list" where
  "sha_init = map (root_fraction 2) (take 8 small_primes)"

definition rotr :: "nat \<Rightarrow> w32 \<Rightarrow> w32" where
  "rotr n x = drop_bit n x OR push_bit (32 - n) x"

definition small_sigma0 :: "w32 \<Rightarrow> w32" where
  "small_sigma0 x = rotr 7 x XOR rotr 18 x XOR drop_bit 3 x"

definition small_sigma1 :: "w32 \<Rightarrow> w32" where
  "small_sigma1 x = rotr 17 x XOR rotr 19 x XOR drop_bit 10 x"

definition big_sigma0 :: "w32 \<Rightarrow> w32" where
  "big_sigma0 x = rotr 2 x XOR rotr 13 x XOR rotr 22 x"

definition big_sigma1 :: "w32 \<Rightarrow> w32" where
  "big_sigma1 x = rotr 6 x XOR rotr 11 x XOR rotr 25 x"

text \<open>The message schedule, newest word first.\<close>

fun sha_expand :: "nat \<Rightarrow> w32 list \<Rightarrow> w32 list" where
  "sha_expand 0 ws = ws"
| "sha_expand (Suc n) ws =
     sha_expand n ((small_sigma1 (ws ! 1) + ws ! 6 + small_sigma0 (ws ! 14) + ws ! 15) # ws)"

definition sha_schedule :: "w32 list \<Rightarrow> w32 list" where
  "sha_schedule block = rev (sha_expand 48 (rev block))"

fun sha_round :: "w32 list \<Rightarrow> w32 \<times> w32 \<Rightarrow> w32 list" where
  "sha_round [a, b, c, d, e, f, g, h] (k, w) =
     (let t1 = h + big_sigma1 e + ((e AND f) XOR (NOT e AND g)) + k + w;
          t2 = big_sigma0 a + ((a AND b) XOR (a AND c) XOR (b AND c))
      in [t1 + t2, a, b, c, d + t1, e, f, g])"
| "sha_round st _ = st"

definition sha_block :: "w32 list \<Rightarrow> w32 list \<Rightarrow> w32 list" where
  "sha_block st block = map2 (+) st (foldl sha_round st (zip sha_k (sha_schedule block)))"

text \<open>Padding to whole blocks of 64 bytes, and bytes to words, most significant byte first.\<close>

definition be_bytes :: "nat \<Rightarrow> nat \<Rightarrow> bytes" where
  "be_bytes n x = map (\<lambda>i. of_nat (x div 256 ^ i)) (rev [0..<n])"

definition sha_pad :: "bytes \<Rightarrow> bytes" where
  "sha_pad bs = bs @ 0x80 # replicate ((119 - length bs mod 64) mod 64) 0 @ be_bytes 8 (8 * length bs)"

fun be_words :: "bytes \<Rightarrow> w32 list" where
  "be_words (a # b # c # d # bs) =
     (push_bit 24 (ucast a) OR push_bit 16 (ucast b) OR push_bit 8 (ucast c) OR ucast d) # be_words bs"
| "be_words _ = []"

function blocks_of :: "nat \<Rightarrow> 'a list \<Rightarrow> 'a list list" where
  "blocks_of n xs = (if n = 0 \<or> xs = [] then [] else take n xs # blocks_of n (drop n xs))"
  by pat_completeness auto
termination
  by (relation "measure (\<lambda>(n, xs). length xs)") auto

declare blocks_of.simps [simp del]

definition sha256 :: "bytes \<Rightarrow> w32 list" where
  "sha256 bs = foldl sha_block sha_init (blocks_of 16 (be_words (sha_pad bs)))"

definition hex_word :: "w32 \<Rightarrow> string" where
  "hex_word w = map (\<lambda>i. hex_digit (unat w div 16 ^ i mod 16)) (rev [0..<8])"

definition hexdigest :: "w32 list \<Rightarrow> string" where
  "hexdigest ws = concat (map hex_word ws)"

subsection \<open>Block hashes\<close>

definition str_utf8 :: "string \<Rightarrow> bytes" where
  "str_utf8 s = map of_nat (concat (map (\<lambda>c. encode_char (of_char c)) s))"

definition compute_block_hash :: "string \<Rightarrow> string" where
  "compute_block_hash content = hexdigest (sha256 (str_utf8 content))"

text \<open>\<open>if not isinstance(content, str): content = str(content)\<close>\<close>

definition value_hash :: "json \<Rightarrow> string" where
  "value_hash v = compute_block_hash (py_str v)"

text \<open>The digest is 64 lowercase hexadecimal digits.\<close>

lemma length_hex_word [simp]: "length (hex_word w) = 8"
  by (simp add: hex_word_def)

lemma sha_round_length: "length st = 8 \<Longrightarrow> length (sha_round st kw) = 8"
  by (induction st kw rule: sha_round.induct) (simp_all add: Let_def)

lemma sha_rounds_length: "length st = 8 \<Longrightarrow> length (foldl sha_round st kws) = 8"
  by (induction kws arbitrary: st) (simp_all add: sha_round_length)

lemma sha_blocks_length: "length st = 8 \<Longrightarrow> length (foldl sha_block st bs) = 8"
  by (induction bs arbitrary: st) (simp_all add: sha_block_def sha_rounds_length)

lemma eight_small_primes: "8 \<le> length small_primes"
proof -
  have "[2..<312] = [2..<20] @ [20..<312 :: nat]"
    using upt_add_eq_append [of 2 20 292] by (simp del: upt_rec_numeral)
  then have "length small_primes = length (filter trial_prime [2..<20]) + length (filter trial_prime [20..<312])"
    unfolding small_primes_def by (simp only: filter_append length_append)
  moreover have "length (filter trial_prime [2..<20]) = 8"
    by code_simp
  ultimately show ?thesis by linarith
qed

lemma length_sha_init: "length sha_init = 8"
  using eight_small_primes by (simp add: sha_init_def)

lemma block_hash_length: "length (compute_block_hash s) = 64"
proof -
  have "length (sha256 bs) = 8" for bs
    unfolding sha256_def by (rule sha_blocks_length) (rule length_sha_init)
  moreover have "length (hexdigest ws) = 8 * length ws" for ws
    by (induction ws) (simp_all add: hexdigest_def)
  ultimately show ?thesis by (simp add: compute_block_hash_def)
qed

end
