(* ===== verification/SubBlocks.thy ===== *)
theory SubBlocks
  imports Hashing Schema
begin

text \<open>
  \<open>core/ast/sub_blocks.py\<close>: splitting a prompt into blocks along XML-like tags or Markdown
  headers. The two regular expressions are matchers on strings that try the alternatives in the
  order in which the engine does; where a part of the expression can only match in one way
  (\<open>[^>]*>\<close> and the like) the matcher goes there directly. Of the separators of a section title
  only the two that are in Latin-1 can occur.
\<close>

definition estimate_tokens :: "string \<Rightarrow> int" where
  "estimate_tokens text = (if text = [] then 0 else max 1 (int (length text) div 4))"

definition text_block :: "string \<Rightarrow> block_type \<Rightarrow> string \<Rightarrow> jdict \<Rightarrow> string \<Rightarrow> context_block" where
  "text_block bid ty content meta ident =
     \<lparr>cb_block_id = bid, cb_block_type = ty, cb_content_hash = compute_block_hash content,
      cb_token_count = estimate_tokens content, cb_content = content, cb_metadata = meta,
      cb_identity_key = ident, cb_first_seen_turn = 0, cb_turns_survived = 0, cb_call_id = []\<rparr>"

subsection \<open>Tags\<close>

record tag_match =
  tg_tag :: string
  tg_bracket :: "string option"
  tg_attrs :: string
  tg_body :: string

definition TAGS :: "string list" where
  "TAGS = [''skills'', ''skill'', ''user_rules'', ''rules'', ''rule'', ''tools'', ''tool'', ''tool_def'',
     ''thought'', ''thinking'', ''context'', ''environment'', ''identity'', ''instructions'', ''system'']"

text \<open>The text up to the first such character, and the text after it.\<close>

definition cut_at :: "char \<Rightarrow> string \<Rightarrow> (string \<times> string) option" where
  "cut_at c s =
     (case dropWhile (\<lambda>x. x \<noteq> c) s of [] \<Rightarrow> None | _ # rest \<Rightarrow> Some (takeWhile (\<lambda>x. x \<noteq> c) s, rest))"

text \<open>\<open></(?P=tag)[^>]*>\<close>, and the shortest body before it.\<close>

definition close_at :: "string \<Rightarrow> string \<Rightarrow> string option" where
  "close_at tag s =
     (if starts_with ''</'' s \<and> str_lower (take (length tag) (drop 2 s)) = str_lower tag
      then map_option snd (cut_at CHR ''>'' (drop (2 + length tag) s)) else None)"

fun tag_body :: "string \<Rightarrow> string \<Rightarrow> (string \<times> string) option" where
  "tag_body tag s =
     (case close_at tag s of
        Some rest \<Rightarrow> Some ([], rest)
      | None \<Rightarrow>
          (case s of
             [] \<Rightarrow> None
           | c # cs \<Rightarrow> map_option (\<lambda>(body, rest). (c # body, rest)) (tag_body tag cs)))"

declare tag_body.simps [simp del]

definition after_name :: "string \<Rightarrow> string option \<Rightarrow> string \<Rightarrow> (tag_match \<times> string) option" where
  "after_name tag bracket s =
     (case cut_at CHR ''>'' s of
        None \<Rightarrow> None
      | Some (attrs, s') \<Rightarrow>
          map_option (\<lambda>(body, rest). (\<lparr>tg_tag = tag, tg_bracket = bracket, tg_attrs = attrs, tg_body = body\<rparr>, rest))
            (tag_body tag s'))"

definition bracket_at :: "string \<Rightarrow> (string \<times> string) option" where
  "bracket_at s =
     (case s of
        [] \<Rightarrow> None
      | c # cs \<Rightarrow>
          if c = CHR ''['' then
            (case cut_at CHR '']'' cs of Some (b, rest) \<Rightarrow> if b = [] then None else Some (b, rest) | None \<Rightarrow> None)
          else None)"

definition or_else :: "'a option \<Rightarrow> 'a option \<Rightarrow> 'a option" where
  "or_else a b = (case a of None \<Rightarrow> b | Some x \<Rightarrow> Some x)"

definition named_tag :: "string \<Rightarrow> string \<Rightarrow> (tag_match \<times> string) option" where
  "named_tag name s =
     (let tag = take (length name) s; s' = drop (length name) s
      in if str_lower tag \<noteq> name then None
         else or_else
           (case bracket_at s' of None \<Rightarrow> None | Some (b, s'') \<Rightarrow> after_name tag (Some b) s'')
           (after_name tag None s'))"

text \<open>\<open>_TAG_PATTERN\<close> at the start of the text: the match and what follows it.\<close>

definition tag_at :: "string \<Rightarrow> (tag_match \<times> string) option" where
  "tag_at s =
     (case s of
        [] \<Rightarrow> None
      | c # cs \<Rightarrow>
          if c = CHR ''<'' then foldr (\<lambda>name r. or_else (named_tag name cs) r) TAGS None else None)"

lemma cut_at_size: "cut_at c s = Some (a, rest) \<Longrightarrow> length a + length rest < length s"
proof -
  assume a: "cut_at c s = Some (a, rest)"
  then have "a = takeWhile (\<lambda>x. x \<noteq> c) s" "length rest < length (dropWhile (\<lambda>x. x \<noteq> c) s)"
    by (auto simp: cut_at_def split: list.splits)
  moreover have "length (takeWhile (\<lambda>x. x \<noteq> c) s) + length (dropWhile (\<lambda>x. x \<noteq> c) s) = length s"
    by (simp flip: length_append)
  ultimately show ?thesis by simp
qed

lemma close_at_size: "close_at tag s = Some rest \<Longrightarrow> length rest < length s"
  by (auto simp: close_at_def split: if_splits dest!: cut_at_size)

lemma tag_body_size: "tag_body tag s = Some (body, rest) \<Longrightarrow> length body + length rest < length s"
proof (induction tag s arbitrary: body rest rule: tag_body.induct)
  case (1 tag s)
  then show ?case
    by (subst (asm) (2) tag_body.simps) (auto split: option.splits list.splits dest: close_at_size)
qed

lemma after_name_size: "after_name tag b s = Some (m, rest) \<Longrightarrow> length (tg_body m) + length rest < length s"
  by (auto simp: after_name_def split: option.splits dest!: cut_at_size tag_body_size)

lemma bracket_at_size: "bracket_at s = Some (b, rest) \<Longrightarrow> length rest < length s"
  by (auto simp: bracket_at_def split: list.splits option.splits if_splits dest!: cut_at_size)

lemma named_tag_size: "named_tag name s = Some (m, rest) \<Longrightarrow> length (tg_body m) + length rest < length s"
  by (fastforce simp: named_tag_def or_else_def Let_def split: option.splits if_splits
      dest: after_name_size bracket_at_size)

lemma tag_at_size: "tag_at s = Some (m, rest) \<Longrightarrow> length (tg_body m) + length rest < length s"
proof -
  have "foldr (\<lambda>name r. or_else (named_tag name cs) r) names None = Some (m, rest) \<Longrightarrow>
      length (tg_body m) + length rest < length cs" for names cs
    by (induction names) (auto simp: or_else_def split: option.splits dest: named_tag_size)
  then show "tag_at s = Some (m, rest) \<Longrightarrow> ?thesis"
    by (fastforce simp: tag_at_def split: list.splits if_splits)
qed

text \<open>\<open>finditer\<close>: each match with the text before it, and the text after the last one.\<close>

function tag_scan :: "string \<Rightarrow> (string \<times> tag_match) list \<times> string" where
  "tag_scan s =
     (case s of
        [] \<Rightarrow> ([], [])
      | c # cs \<Rightarrow>
          (case tag_at s of
             Some (m, rest) \<Rightarrow> (case tag_scan rest of (ms, tail) \<Rightarrow> (([], m) # ms, tail))
           | None \<Rightarrow>
               (case tag_scan cs of
                  ([], tail) \<Rightarrow> ([], c # tail)
                | ((pre, m) # ms, tail) \<Rightarrow> ((c # pre, m) # ms, tail))))"
  by pat_completeness auto
termination
  by (relation "measure length") (auto dest: tag_at_size)

declare tag_scan.simps [simp del]

definition scan_size :: "(string \<times> tag_match) list \<times> string \<Rightarrow> nat" where
  "scan_size r = sum_list (map (\<lambda>(pre, m). length pre + length (tg_body m)) (fst r)) + length (snd r)"

text \<open>No character is in two parts, and every tag takes some characters.\<close>

lemma tag_scan_size: "scan_size (tag_scan s) + length (fst (tag_scan s)) \<le> length s"
proof (induction s rule: tag_scan.induct)
  case (1 s)
  show ?case
  proof (cases s)
    case Nil
    then show ?thesis by (subst (1 2) tag_scan.simps) (simp add: scan_size_def)
  next
    case (Cons c cs)
    show ?thesis
    proof (cases "tag_at s")
      case None
      then show ?thesis using 1(1) [OF Cons None] Cons None
        by (subst (1 2) tag_scan.simps) (auto simp: scan_size_def split: prod.splits list.splits)
    next
      case (Some p)
      then obtain m rest where m: "tag_at s = Some (m, rest)" by (cases p) auto
      then show ?thesis using 1(2) [OF Cons m refl] tag_at_size [OF m] Cons m
        by (subst (1 2) tag_scan.simps) (auto simp: scan_size_def split: prod.splits)
    qed
  qed
qed

lemma tag_scan_body: "p \<in> set (fst (tag_scan s)) \<Longrightarrow> length (tg_body (snd p)) < length s"
proof -
  assume p: "p \<in> set (fst (tag_scan s))"
  have "length (tg_body (snd p)) \<le> sum_list (map (\<lambda>(pre, m). length pre + length (tg_body m)) ms)"
    if "p \<in> set ms" for ms
    using that by (induction ms) auto
  note this [OF p]
  moreover have "0 < length (fst (tag_scan s))" using p by (cases "fst (tag_scan s)") auto
  ultimately show ?thesis using tag_scan_size [of s] by (simp add: scan_size_def del: length_greater_0_conv)
qed

subsection \<open>Names, types and keys of tags\<close>

text \<open>\<open>\w\<close> in Latin-1.\<close>

definition word_char :: "char \<Rightarrow> bool" where
  "word_char c =
     (let n = (of_char c :: nat)
      in 48 \<le> n \<and> n \<le> 57 \<or> 65 \<le> n \<and> n \<le> 90 \<or> n = 95 \<or> 97 \<le> n \<and> n \<le> 122
         \<or> n \<in> {170, 178, 179, 181, 185, 186, 188, 189, 190}
         \<or> 192 \<le> n \<and> n \<noteq> 215 \<and> n \<noteq> 247)"

definition is_quote :: "char \<Rightarrow> bool" where
  "is_quote c \<longleftrightarrow> (of_char c :: nat) = 34 \<or> (of_char c :: nat) = 39"

text \<open>\<open>=["']([^"']+)["']\<close> after \<open>name\<close> or \<open>id\<close>.\<close>

definition quoted_value :: "string \<Rightarrow> string option" where
  "quoted_value s =
     (case s of
        e # q # r \<Rightarrow>
          if e = CHR ''='' \<and> is_quote q \<and> takeWhile (\<lambda>c. \<not> is_quote c) r \<noteq> []
            \<and> dropWhile (\<lambda>c. \<not> is_quote c) r \<noteq> []
          then Some (takeWhile (\<lambda>c. \<not> is_quote c) r) else None
      | _ \<Rightarrow> None)"

definition attr_at :: "string \<Rightarrow> string option" where
  "attr_at s =
     or_else (if starts_with ''name'' s then quoted_value (drop 4 s) else None)
       (if starts_with ''id'' s then quoted_value (drop 2 s) else None)"

text \<open>The search; \<open>\b\<close> asks that the character before is not a word character.\<close>

fun attr_search :: "bool \<Rightarrow> string \<Rightarrow> string option" where
  "attr_search inside [] = None"
| "attr_search inside (c # cs) =
     or_else (if inside then None else attr_at (c # cs)) (attr_search (word_char c) cs)"

definition basename :: "string \<Rightarrow> string" where
  "basename s = rev (takeWhile (\<lambda>c. c \<noteq> CHR ''/'') (rev s))"

definition extract_name :: "string \<Rightarrow> string option \<Rightarrow> string option" where
  "extract_name attrs bracket =
     (case attr_search False attrs of
        Some v \<Rightarrow> Some (str_strip v)
      | None \<Rightarrow>
          (case bracket of
             None \<Rightarrow> None
           | Some b \<Rightarrow> Some (if basename (str_strip b) = [] then str_strip b else basename (str_strip b))))"

definition tag_to_block_type :: "string \<Rightarrow> block_type" where
  "tag_to_block_type tag =
     (let t = str_lower tag
      in if t \<in> {''skills'', ''skill''} then SKILL
         else if t \<in> {''user_rules'', ''rules'', ''rule'', ''identity'', ''instructions'', ''system''} then SYSTEM
         else if t \<in> {''tools'', ''tool'', ''tool_def''} then TOOL_DEF
         else if t \<in> {''thought'', ''thinking''} then THOUGHT
         else if t \<in> {''context'', ''environment''} then INJECTED_STATE
         else SYSTEM)"

text \<open>A missing or empty name is the empty string.\<close>

definition tag_to_identity_key :: "string \<Rightarrow> string \<Rightarrow> nat \<Rightarrow> string" where
  "tag_to_identity_key tag name index =
     (let t = str_lower tag
      in if t \<in> {''skills'', ''skill''} then
           (if name \<noteq> [] then ''skill:'' @ name
            else if t = ''skills'' then ''skills'' else ''skill:'' @ show_nat index)
         else if t \<in> {''user_rules'', ''rules'', ''rule''} then
           (if name \<noteq> [] then ''rules:'' @ name
            else if t = ''user_rules'' then ''rules:user_rules'' else ''rules:'' @ show_nat index)
         else if t \<in> {''tools'', ''tool'', ''tool_def''} then
           (if name \<noteq> [] then ''tool_def:'' @ name
            else if t = ''tools'' then ''tools'' else ''tool_def:'' @ show_nat index)
         else if t \<in> {''thought'', ''thinking''} then ''thought:'' @ show_nat index
         else if t = ''context'' then (if name \<noteq> [] then ''context:'' @ name else ''context'')
         else if t = ''environment'' then (if name \<noteq> [] then ''environment:'' @ name else ''environment'')
         else t @ '':'' @ (if name \<noteq> [] then name else show_nat index))"

subsection \<open>Decomposition along tags\<close>

definition text_part :: "block_type \<Rightarrow> jdict \<Rightarrow> string \<Rightarrow> context_block list" where
  "text_part ty meta s = (if str_strip s = [] then [] else [text_block [] ty (str_strip s) meta []])"

definition set_when :: "bool \<Rightarrow> string \<Rightarrow> json \<Rightarrow> jdict \<Rightarrow> jdict" where
  "set_when b k v d = (if b then AList.update k v d else d)"

definition leaf_block :: "jdict \<Rightarrow> nat \<Rightarrow> tag_match \<Rightarrow> context_block" where
  "leaf_block meta index m =
     (let name = (case extract_name (tg_attrs m) (tg_bracket m) of None \<Rightarrow> [] | Some n \<Rightarrow> n);
          bracket = (case tg_bracket m of None \<Rightarrow> [] | Some b \<Rightarrow> b);
          meta1 = AList.update ''tag'' (JStr (str_lower (tg_tag m))) meta;
          meta2 = set_when (bracket \<noteq> []) ''bracket'' (JStr bracket)
            (set_when (name \<noteq> []) ''name'' (JStr name) meta1)
      in text_block [] (tag_to_block_type (tg_tag m)) (str_strip (tg_body m)) meta2
           (tag_to_identity_key (tg_tag m) name index))"

text \<open>
  The loop over the matches, each with the text before it and, where its body has tags again,
  the blocks of the body; only the other ones count for \<open>tag_index\<close>.
\<close>

fun xml_loop :: "block_type \<Rightarrow> jdict \<Rightarrow> nat \<Rightarrow> (string \<times> tag_match \<times> context_block list option) list
    \<Rightarrow> context_block list" where
  "xml_loop ty meta index [] = []"
| "xml_loop ty meta index ((pre, m, kids) # rest) =
     text_part ty meta pre @
     (case kids of
        Some bs \<Rightarrow> bs @ xml_loop ty meta index rest
      | None \<Rightarrow> leaf_block meta index m # xml_loop ty meta (Suc index) rest)"

definition has_tags :: "string \<Rightarrow> bool" where
  "has_tags s \<longleftrightarrow> fst (tag_scan s) \<noteq> []"

function decompose_xml_tags :: "string \<Rightarrow> block_type \<Rightarrow> jdict \<Rightarrow> context_block list" where
  "decompose_xml_tags text ty meta =
     (if \<not> has_tags text then []
      else
        xml_loop ty meta 0
          (map (\<lambda>p. (fst p, snd p,
               if has_tags (tg_body (snd p))
               then Some (decompose_xml_tags (tg_body (snd p)) (tag_to_block_type (tg_tag (snd p)))
                      (AList.update ''parent_tag'' (JStr (tg_tag (snd p))) meta))
               else None)) (fst (tag_scan text)))
        @ text_part ty meta (snd (tag_scan text)))"
  by pat_completeness auto
termination
  by (relation "measure (\<lambda>(text, ty, meta). length text)") (auto dest: tag_scan_body)

declare decompose_xml_tags.simps [simp del]

subsection \<open>Decomposition along Markdown headers\<close>

text \<open>\<open>^(#{1,6})\s+(.+)$\<close> at the start of a line: the whole header, its level and its title.\<close>

definition header_at :: "string \<Rightarrow> (string \<times> nat \<times> string) option" where
  "header_at s =
     (let k = length (takeWhile (\<lambda>c. c = CHR ''#'') s);
          r = drop k s;
          ws = takeWhile is_space r;
          r2 = drop (length ws) r;
          line = takeWhile (\<lambda>c. c \<noteq> CHR 0x0A)
      in if k = 0 \<or> 6 < k \<or> ws = [] then None
         else if r2 \<noteq> [] then Some (take (k + length ws + length (line r2)) s, k, line r2)
         else
           (case find (\<lambda>j. ws ! j \<noteq> CHR 0x0A) (rev [1..<length ws]) of
              None \<Rightarrow> None
            | Some j \<Rightarrow> Some (take (k + j + length (line (drop j ws))) s, k, line (drop j ws))))"

text \<open>
  \<open>finditer\<close>: the text before the first header, and each header with its level, its title and
  the text up to the next one.
\<close>

type_synonym md_section = "string \<times> nat \<times> string \<times> string"

function md_scan :: "bool \<Rightarrow> string \<Rightarrow> string \<times> md_section list" where
  "md_scan bol s =
     (case s of
        [] \<Rightarrow> ([], [])
      | c # cs \<Rightarrow>
          (case (if bol then header_at s else None) of
             Some (line, level, title) \<Rightarrow>
               (case md_scan False (drop (max 1 (length line)) s) of
                  (body, secs) \<Rightarrow> ([], (line, level, title, body) # secs))
           | None \<Rightarrow> (case md_scan (c = CHR 0x0A) cs of (pre, secs) \<Rightarrow> (c # pre, secs))))"
  by pat_completeness auto
termination
  by (relation "measure (\<lambda>(bol, s). length s)") auto

declare md_scan.simps [simp del]

text \<open>\<open>re.sub(r"[^a-zA-Z0-9_]+", "_", t).strip("_")\<close>\<close>

definition slug_char :: "char \<Rightarrow> bool" where
  "slug_char c =
     (let n = (of_char c :: nat)
      in 48 \<le> n \<and> n \<le> 57 \<or> 65 \<le> n \<and> n \<le> 90 \<or> n = 95 \<or> 97 \<le> n \<and> n \<le> 122)"

fun sub_runs :: "bool \<Rightarrow> string \<Rightarrow> string" where
  "sub_runs inside [] = []"
| "sub_runs inside (c # cs) =
     (if slug_char c then c # sub_runs False cs
      else if inside then sub_runs True cs else CHR ''_'' # sub_runs True cs)"

definition slug :: "string \<Rightarrow> string" where
  "slug t =
     (let under = (\<lambda>c. c = CHR ''_'')
      in rev (dropWhile under (rev (dropWhile under (sub_runs False t)))))"

definition section_subname :: "string \<Rightarrow> string" where
  "section_subname title =
     (case find (\<lambda>sep. sep \<in> set title) [CHR '':'', CHR ''-''] of
        None \<Rightarrow> []
      | Some sep \<Rightarrow> (case cut_at sep title of None \<Rightarrow> [] | Some (_, rest) \<Rightarrow> str_strip rest))"

definition markdown_to_block_info :: "string \<Rightarrow> nat \<Rightarrow> block_type \<Rightarrow> block_type \<times> string" where
  "markdown_to_block_info title index ty =
     (let t = str_lower title; sub = section_subname title;
          key = (\<lambda>p d. if sub \<noteq> [] then p @ '':'' @ sub else d)
      in if str_in ''skill'' t then (SKILL, key ''skill'' ''skills'')
         else if str_in ''tool'' t then (TOOL_DEF, key ''tool_def'' ''tools'')
         else if str_in ''rule'' t then (SYSTEM, key ''rules'' ''rules:user_rules'')
         else if str_in ''thought'' t \<or> str_in ''reasoning'' t \<or> str_in ''thinking'' t
           then (THOUGHT, ''thought:'' @ show_nat index)
         else if str_in ''context'' t then (INJECTED_STATE, key ''context'' ''context'')
         else if str_in ''environment'' t then (INJECTED_STATE, key ''environment'' ''environment'')
         else if str_in ''instruction'' t then (SYSTEM, key ''instructions'' ''instructions'')
         else (ty, ''section:'' @ (if slug t \<noteq> [] then slug t else show_nat index)))"

definition KNOWN_KEYWORDS :: "string list" where
  "KNOWN_KEYWORDS = [''skill'', ''tool'', ''rule'', ''thought'', ''reasoning'', ''thinking'', ''context'',
     ''environment'', ''instruction'']"

definition section_block :: "block_type \<Rightarrow> jdict \<Rightarrow> nat \<times> md_section \<Rightarrow> context_block" where
  "section_block ty meta =
     (\<lambda>(index, line, level, group2, rest).
        let title = str_strip group2; body = str_strip rest;
            (bt, ident) = markdown_to_block_info title index ty;
            meta' = AList.update ''level'' (JInt (int level)) (AList.update ''title'' (JStr title)
              (AList.update ''header'' (JStr line) meta))
        in text_block [] bt (if body \<noteq> [] then body else title) meta' ident)"

definition decompose_markdown_sections :: "string \<Rightarrow> block_type \<Rightarrow> jdict \<Rightarrow> context_block list" where
  "decompose_markdown_sections text ty meta =
     (case md_scan True text of
        (pre, secs) \<Rightarrow>
          if list_ex (\<lambda>(_, _, group2, _). list_ex (\<lambda>k. str_in k (str_lower group2)) KNOWN_KEYWORDS) secs
            \<or> 2 \<le> length secs
          then text_part ty meta pre @ map (section_block ty meta) (enumerate 0 secs)
          else [])"

subsection \<open>The decomposer\<close>

definition single_id :: "string \<Rightarrow> string" where
  "single_id base_id =
     (if CHR ''_'' \<in> set base_id \<and> str_isdigit (rev (takeWhile (\<lambda>c. c \<noteq> CHR ''_'') (rev base_id)))
      then base_id else base_id @ ''_0'')"

definition assign_block_ids :: "context_block list \<Rightarrow> string \<Rightarrow> context_block list" where
  "assign_block_ids blocks base_id =
     (case blocks of
        [b] \<Rightarrow> [b\<lparr>cb_block_id := single_id base_id\<rparr>]
      | _ \<Rightarrow> map (\<lambda>(i, b). b\<lparr>cb_block_id := base_id @ ''_'' @ show_nat i\<rparr>) (enumerate 0 blocks))"

definition decompose :: "string \<Rightarrow> block_type \<Rightarrow> string \<Rightarrow> jdict \<Rightarrow> context_block list" where
  "decompose text ty base_id meta =
     (if str_strip text = [] then []
      else
        (case decompose_xml_tags text ty meta of
           [] \<Rightarrow>
             (case decompose_markdown_sections text ty meta of
                [] \<Rightarrow> [text_block (single_id base_id) ty text meta []]
              | bs \<Rightarrow> assign_block_ids bs base_id)
         | bs \<Rightarrow> assign_block_ids bs base_id))"

subsection \<open>Nothing is invented and nothing is counted twice\<close>

lemma str_in_trans: "str_in a b \<Longrightarrow> str_in b c \<Longrightarrow> str_in a c"
  unfolding str_in_iff by (metis append.assoc)

lemma str_in_strip: "str_in (str_strip s) s"
proof -
  define t where "t = dropWhile is_space s"
  have "s = takeWhile is_space s @ t" by (simp add: t_def)
  moreover have "rev t = takeWhile is_space (rev t) @ dropWhile is_space (rev t)" by simp
  then have "t = str_strip s @ rev (takeWhile is_space (rev t))"
    by (metis rev_append rev_rev_ident str_strip_def t_def)
  ultimately show ?thesis unfolding str_in_iff by (metis append.assoc)
qed

lemma length_strip: "length (str_strip s) \<le> length s"
  using str_in_strip [of s] by (auto simp: str_in_iff) (metis le_add1 le_add2 length_append le_trans)

lemma str_in_Nil [simp]: "str_in [] s"
  by (cases s) (simp_all add: starts_with_def)

lemma str_in_tl: "str_in a s \<Longrightarrow> str_in a (c # s)"
  by simp

lemma cut_at_parts: "cut_at c s = Some (a, rest) \<Longrightarrow> s = a @ c # rest"
proof -
  assume a: "cut_at c s = Some (a, rest)"
  then obtain x where "a = takeWhile (\<lambda>x. x \<noteq> c) s" "dropWhile (\<lambda>x. x \<noteq> c) s = x # rest"
    by (auto simp: cut_at_def split: list.splits)
  then show ?thesis by (metis (lifting) hd_dropWhile list.distinct(1) list.sel(1) takeWhile_dropWhile_id)
qed

lemma close_at_rest: "close_at tag s = Some rest \<Longrightarrow> \<exists>u. s = u @ rest"
proof -
  assume "close_at tag s = Some rest"
  then obtain a where "cut_at CHR ''>'' (drop (2 + length tag) s) = Some (a, rest)"
    by (auto simp: close_at_def split: if_splits)
  from cut_at_parts [OF this] have "s = (take (2 + length tag) s @ a @ ''>'') @ rest"
    by (metis append.assoc append_Cons append_Nil append_take_drop_id)
  then show ?thesis by blast
qed

lemma tag_body_parts: "tag_body tag s = Some (body, rest) \<Longrightarrow> \<exists>u. s = body @ u @ rest"
proof (induction tag s arbitrary: body rest rule: tag_body.induct)
  case (1 tag s)
  show ?case
  proof (cases "close_at tag s")
    case None
    then obtain c cs body' where "s = c # cs" "body = c # body'" "tag_body tag cs = Some (body', rest)"
      using 1(2) by (subst (asm) tag_body.simps) (auto split: list.splits)
    with 1(1) [OF None, of c cs] show ?thesis by auto
  next
    case (Some r)
    then have "body = [] \<and> r = rest" using 1(2) by (simp add: tag_body.simps [of tag s])
    with close_at_rest [of tag s rest] Some show ?thesis by auto
  qed
qed

lemma after_name_parts: "after_name tag b s = Some (m, rest) \<Longrightarrow> \<exists>u v. s = u @ tg_body m @ v @ rest"
proof -
  assume "after_name tag b s = Some (m, rest)"
  then obtain a s' where a: "cut_at CHR ''>'' s = Some (a, s')" "tag_body tag s' = Some (tg_body m, rest)"
    by (auto simp: after_name_def split: option.splits)
  obtain v where "s' = tg_body m @ v @ rest" using tag_body_parts [OF a(2)] by blast
  with cut_at_parts [OF a(1)] have "s = (a @ ''>'') @ tg_body m @ v @ rest" by simp
  then show ?thesis by blast
qed

lemma named_tag_parts: "named_tag name s = Some (m, rest) \<Longrightarrow> \<exists>u v. s = u @ tg_body m @ v @ rest"
proof -
  assume n: "named_tag name s = Some (m, rest)"
  let ?s = "drop (length name) s"
  have "\<exists>w t b tag. ?s = w @ t \<and> after_name tag b t = Some (m, rest)"
  proof (cases "bracket_at ?s")
    case None
    then show ?thesis using n by (auto simp: named_tag_def or_else_def Let_def split: if_splits)
  next
    case (Some p)
    then obtain b r where p: "bracket_at ?s = Some (b, r)" by (cases p) auto
    then obtain w where "?s = w @ r"
      by (auto simp: bracket_at_def split: list.splits option.splits if_splits dest!: cut_at_parts)
    then show ?thesis using n p
      by (auto simp: named_tag_def or_else_def Let_def split: if_splits option.splits)
  qed
  then obtain w t b tag where w: "?s = w @ t" "after_name tag b t = Some (m, rest)" by blast
  obtain u v where "t = u @ tg_body m @ v @ rest" using after_name_parts [OF w(2)] by blast
  with w(1) have "s = (take (length name) s @ w @ u) @ tg_body m @ v @ rest"
    by (metis append.assoc append_take_drop_id)
  then show ?thesis by blast
qed

lemma tag_at_parts: "tag_at s = Some (m, rest) \<Longrightarrow> \<exists>u v. s = u @ tg_body m @ v @ rest"
proof -
  assume t: "tag_at s = Some (m, rest)"
  then obtain c cs where s: "s = c # cs" "foldr (\<lambda>name r. or_else (named_tag name cs) r) TAGS None = Some (m, rest)"
    by (auto simp: tag_at_def split: list.splits if_splits)
  have "foldr (\<lambda>name r. or_else (named_tag name cs) r) names None = Some (m, rest) \<Longrightarrow>
      \<exists>name. named_tag name cs = Some (m, rest)" for names
    by (induction names) (auto simp: or_else_def split: option.splits)
  then obtain u v where "cs = u @ tg_body m @ v @ rest" using s(2) named_tag_parts by blast
  with s(1) show ?thesis by (metis append_Cons)
qed

lemma tag_scan_parts:
  "(\<forall>p\<in>set (fst (tag_scan s)). str_in (fst p) s \<and> str_in (tg_body (snd p)) s) \<and> str_in (snd (tag_scan s)) s
   \<and> (\<exists>u. s = (if fst (tag_scan s) = [] then snd (tag_scan s) else fst (hd (fst (tag_scan s))) @ u))"
proof (induction s rule: tag_scan.induct)
  case (1 s)
  show ?case
  proof (cases s)
    case Nil
    then have "tag_scan s = ([], [])" by (simp add: tag_scan.simps)
    then show ?thesis using Nil by simp
  next
    case (Cons c cs)
    show ?thesis
    proof (cases "tag_at s")
      case None
      obtain ms tail where r: "tag_scan cs = (ms, tail)" by fastforce
      have IH: "\<forall>p\<in>set ms. str_in (fst p) cs \<and> str_in (tg_body (snd p)) cs" "str_in tail cs"
        "\<exists>u. cs = (if ms = [] then tail else fst (hd ms) @ u)"
        using 1(1) [OF Cons None] r by (auto simp: r)
      show ?thesis
      proof (cases ms)
        case Nil
        then have "tag_scan s = ([], c # tail)" using Cons None r by (subst tag_scan.simps) simp
        then show ?thesis using IH(3) Nil Cons by simp
      next
        case (Cons p ms')
        obtain pre m where p: "p = (pre, m)" by (cases p)
        have ts: "tag_scan s = ((c # pre, m) # ms', tail)"
          using \<open>s = c # cs\<close> None r Cons p by (subst tag_scan.simps) simp
        obtain u where u: "cs = pre @ u" using IH(3) Cons p by auto
        then have "str_in (c # pre) s" using \<open>s = c # cs\<close> unfolding str_in_iff by (metis append_Cons append_Nil)
        then show ?thesis using IH ts Cons p u \<open>s = c # cs\<close> by (simp add: str_in_tl)
      qed
    next
      case (Some q)
      then obtain m rest where m: "tag_at s = Some (m, rest)" by (cases q) auto
      obtain ms tail where r: "tag_scan rest = (ms, tail)" by fastforce
      have ts: "tag_scan s = (([], m) # ms, tail)" using Cons m r by (subst tag_scan.simps) simp
      obtain u v where s: "s = u @ tg_body m @ v @ rest" using tag_at_parts [OF m] by blast
      have "str_in (tg_body m) s" unfolding str_in_iff s by blast
      moreover have "str_in rest s" unfolding str_in_iff s by (metis append.assoc append_Nil2)
      moreover have "\<forall>p\<in>set ms. str_in (fst p) rest \<and> str_in (tg_body (snd p)) rest" "str_in tail rest"
        using 1(2) [OF Cons m refl] r by auto
      ultimately show ?thesis by (simp add: ts) (meson str_in_trans)
    qed
  qed
qed

text \<open>The same for the Markdown scan.\<close>

lemma takeWhile_parts: "drop n s = r \<Longrightarrow> \<exists>u. r = takeWhile P r @ u"
  by (metis takeWhile_dropWhile_id)

lemma header_at_parts:
  assumes "header_at s = Some (line, level, title)"
  shows "line \<noteq> [] \<and> (\<exists>u. line = u @ title) \<and> (\<exists>v. s = line @ v) \<and> length title < length line"
proof -
  define k where "k = length (takeWhile (\<lambda>c. c = CHR ''#'') s)"
  define r where "r = drop k s"
  define ws where "ws = takeWhile is_space r"
  define r2 where "r2 = drop (length ws) r"
  define hs where "hs = take k s"
  let ?line = "takeWhile (\<lambda>c. c \<noteq> CHR 0x0A)"
  have k: "0 < k" using assms by (auto simp: header_at_def Let_def k_def split: if_splits)
  have lk: "length hs = k" by (simp add: hs_def k_def length_takeWhile_le)
  have "r = ws @ r2" by (simp add: ws_def r2_def flip: dropWhile_eq_drop)
  then have s: "s = hs @ ws @ r2" by (metis append_take_drop_id r_def hs_def)
  have line: "line = hs @ w @ title \<and> (\<exists>v. s = line @ v)" if w: "w @ x = ws @ r2" "title = ?line x"
    "line = take (k + length w + length (?line x)) s" for w x
  proof -
    have x: "x = title @ dropWhile (\<lambda>c. c \<noteq> CHR 0x0A) x" by (simp add: w(2))
    have "s = (hs @ w @ title) @ dropWhile (\<lambda>c. c \<noteq> CHR 0x0A) x" unfolding s w(1) [symmetric] by (subst x) simp
    moreover have "line = take (length (hs @ w @ title)) s" using w lk by (simp add: add.assoc)
    ultimately show ?thesis by (metis append_eq_conv_conj)
  qed
  have "\<exists>w x. w @ x = ws @ r2 \<and> title = ?line x \<and> line = take (k + length w + length (?line x)) s"
  proof (cases "r2 = []")
    case False
    then have "title = ?line r2 \<and> line = take (k + length ws + length (?line r2)) s"
      using assms by (auto simp: header_at_def Let_def k_def r_def ws_def r2_def split: if_splits)
    then show ?thesis by blast
  next
    case True
    then obtain j where j: "title = ?line (drop j ws)" "line = take (k + j + length (?line (drop j ws))) s" "j < length ws"
      using assms by (auto simp: header_at_def Let_def k_def r_def ws_def r2_def split: if_splits option.splits
          dest!: find_eq_SomeD)
    then have "take j ws @ drop j ws = ws @ r2" "length (take j ws) = j" using True by simp_all
    with j show ?thesis by metis
  qed
  then obtain w x where w: "w @ x = ws @ r2" "title = ?line x" "line = take (k + length w + length (?line x)) s" by blast
  from line [OF w] lk k show ?thesis by auto
qed

definition md_size :: "string \<times> md_section list \<Rightarrow> nat" where
  "md_size r = length (fst r) + sum_list (map (\<lambda>(line, level, title, body). length title + length body) (snd r))"

definition md_within :: "string \<Rightarrow> string \<times> md_section list \<Rightarrow> bool" where
  "md_within s r \<longleftrightarrow> str_in (fst r) s
     \<and> (\<forall>(line, level, title, body)\<in>set (snd r). str_in title s \<and> str_in body s) \<and> (\<exists>u. s = fst r @ u)"

lemma md_scan_parts: "md_within s (md_scan bol s) \<and> md_size (md_scan bol s) \<le> length s"
proof (induction bol s rule: md_scan.induct)
  case (1 bol s)
  show ?case
  proof (cases s)
    case Nil
    then have "md_scan bol s = ([], [])" by (simp add: md_scan.simps)
    then show ?thesis using Nil by (simp add: md_within_def md_size_def)
  next
    case (Cons c cs)
    show ?thesis
    proof (cases "if bol then header_at s else None")
      case None
      obtain pre secs where r: "md_scan (c = CHR 0x0A) cs = (pre, secs)" by fastforce
      have IH: "md_within cs (pre, secs)" "md_size (pre, secs) \<le> length cs" using 1(1) [OF Cons None] r by auto
      have ts: "md_scan bol s = (c # pre, secs)" using Cons None r by (subst md_scan.simps) simp
      obtain u where "cs = pre @ u" using IH(1) by (auto simp: md_within_def)
      then have "str_in (c # pre) s" using Cons unfolding str_in_iff by (metis append_Cons append_Nil)
      then show ?thesis using IH Cons ts \<open>cs = pre @ u\<close>
        by (auto simp: md_within_def md_size_def)
    next
      case (Some q)
      then obtain line level title where h: "header_at s = Some (line, level, title)" and bol: bol
        by (cases q) (auto split: if_splits)
      note parts = header_at_parts [OF h]
      have len: "max 1 (length line) = length line" using parts by (cases line) auto
      obtain body secs where r: "md_scan False (drop (length line) s) = (body, secs)" by fastforce
      have IH: "md_within (drop (length line) s) (body, secs)" "md_size (body, secs) \<le> length (drop (length line) s)"
        using 1(2) [OF Cons _ refl refl, of line level title] h bol r len by auto
      have ts: "md_scan bol s = ([], (line, level, title, body) # secs)"
        using Cons h bol r len by (subst md_scan.simps) simp
      obtain u where u: "line = u @ title" using parts by (elim conjE exE)
      moreover obtain v where v: "s = line @ v" using parts by (elim conjE exE)
      ultimately have "s = u @ title @ v" by simp
      then have t: "str_in title s" unfolding str_in_iff by (intro exI)
      have d: "str_in (drop (length line) s) s" unfolding str_in_iff by (metis append_Nil2 append_take_drop_id)
      have "length title + length (drop (length line) s) \<le> length s" using parts v by simp
      then have "md_size (md_scan bol s) \<le> length s" using IH(2) by (simp add: ts md_size_def)
      moreover have "str_in x s" if "str_in x (drop (length line) s)" for x using that d by (rule str_in_trans)
      then have "md_within s (md_scan bol s)" using IH(1) t by (auto simp: ts md_within_def)
      ultimately show ?thesis by blast
    qed
  qed
qed

text \<open>Blocks taken out of a text: parts of it that together are not longer than it.\<close>

definition content_size :: "context_block list \<Rightarrow> nat" where
  "content_size bs = sum_list (map (\<lambda>b. length (cb_content b)) bs)"

definition taken_from :: "string \<Rightarrow> context_block list \<Rightarrow> bool" where
  "taken_from s bs \<longleftrightarrow> content_size bs \<le> length s
     \<and> (\<forall>b\<in>set bs. str_in (cb_content b) s
          \<and> cb_content_hash b = compute_block_hash (cb_content b)
          \<and> cb_token_count b = estimate_tokens (cb_content b))"

lemma content_size_simps [simp]:
  "content_size [] = 0" "content_size (b # bs) = length (cb_content b) + content_size bs"
  "content_size (as @ bs) = content_size as + content_size bs"
  by (simp_all add: content_size_def)

lemma text_block_fields [simp]:
  "cb_content (text_block bid ty c meta ident) = c"
  "cb_content_hash (text_block bid ty c meta ident) = compute_block_hash c"
  "cb_token_count (text_block bid ty c meta ident) = estimate_tokens c"
  by (simp_all add: text_block_def)

lemma text_part_taken: "taken_from s (text_part ty meta s)"
  by (simp add: taken_from_def text_part_def str_in_strip length_strip)

lemma leaf_block_taken: "taken_from (tg_body m) [leaf_block meta i m]"
  by (simp add: taken_from_def leaf_block_def Let_def str_in_strip length_strip)

lemma section_block_taken:
  "content_size [section_block ty meta (i, line, level, title, body)] \<le> length title + length body
   \<and> (str_in (cb_content (section_block ty meta (i, line, level, title, body))) title
      \<or> str_in (cb_content (section_block ty meta (i, line, level, title, body))) body)
   \<and> cb_content_hash (section_block ty meta (i, line, level, title, body))
       = compute_block_hash (cb_content (section_block ty meta (i, line, level, title, body)))
   \<and> cb_token_count (section_block ty meta (i, line, level, title, body))
       = estimate_tokens (cb_content (section_block ty meta (i, line, level, title, body)))"
  using length_strip [of title] length_strip [of body] str_in_strip
  by (simp add: section_block_def Let_def split_beta)

lemma xml_loop_taken:
  assumes "\<And>pre m kids. (pre, m, kids) \<in> set parts \<Longrightarrow> str_in pre s \<and> str_in (tg_body m) s
      \<and> (case kids of None \<Rightarrow> True | Some bs \<Rightarrow> taken_from (tg_body m) bs)"
  shows "content_size (xml_loop ty meta i parts) \<le> sum_list (map (\<lambda>(pre, m, _). length pre + length (tg_body m)) parts)
    \<and> (\<forall>b\<in>set (xml_loop ty meta i parts). str_in (cb_content b) s
          \<and> cb_content_hash b = compute_block_hash (cb_content b)
          \<and> cb_token_count b = estimate_tokens (cb_content b))"
  using assms
proof (induction ty meta i parts rule: xml_loop.induct)
  case (2 ty meta i pre m kids rest)
  have here: "str_in pre s" "str_in (tg_body m) s" "case kids of None \<Rightarrow> True | Some bs \<Rightarrow> taken_from (tg_body m) bs"
    using 2(3) [of pre m kids] by simp_all
  have rest: "str_in pre s \<and> str_in (tg_body m) s \<and> (case kids of None \<Rightarrow> True | Some bs \<Rightarrow> taken_from (tg_body m) bs)"
    if "(pre, m, kids) \<in> set rest" for pre m kids
    using 2(3) [of pre m kids] that by simp
  show ?case
  proof (cases kids)
    case None
    note IH = 2(1) [OF None rest]
    show ?thesis
      using None here(1,2) IH text_part_taken [of pre ty meta] leaf_block_taken [of m meta i]
      by (auto simp: taken_from_def intro: str_in_trans)
  next
    case (Some bs)
    note IH = 2(2) [OF Some rest]
    show ?thesis
      using Some here IH text_part_taken [of pre ty meta]
      by (auto simp: taken_from_def intro: str_in_trans)
  qed
qed simp

lemma decompose_xml_taken: "taken_from s (decompose_xml_tags s ty meta)"
proof (induction s ty meta rule: decompose_xml_tags.induct)
  case (1 s ty meta)
  show ?case
  proof (cases "has_tags s")
    case False
    then show ?thesis by (simp add: decompose_xml_tags.simps taken_from_def)
  next
    case True
    let ?parts = "map (\<lambda>p. (fst p, snd p,
               if has_tags (tg_body (snd p))
               then Some (decompose_xml_tags (tg_body (snd p)) (tag_to_block_type (tg_tag (snd p)))
                      (AList.update ''parent_tag'' (JStr (tg_tag (snd p))) meta))
               else None)) (fst (tag_scan s))"
    have "str_in pre s \<and> str_in (tg_body m) s
        \<and> (case kids of None \<Rightarrow> True | Some bs \<Rightarrow> taken_from (tg_body m) bs)"
      if "(pre, m, kids) \<in> set ?parts" for pre m kids
      using that 1 True tag_scan_parts [of s] by auto
    from xml_loop_taken [of ?parts s ty meta 0, OF this]
    have loop: "content_size (xml_loop ty meta 0 ?parts) \<le> sum_list (map (\<lambda>(pre, m). length pre + length (tg_body m)) (fst (tag_scan s)))"
      "\<forall>b\<in>set (xml_loop ty meta 0 ?parts). str_in (cb_content b) s
          \<and> cb_content_hash b = compute_block_hash (cb_content b)
          \<and> cb_token_count b = estimate_tokens (cb_content b)"
      by (simp_all add: comp_def case_prod_unfold)
    have "decompose_xml_tags s ty meta = xml_loop ty meta 0 ?parts @ text_part ty meta (snd (tag_scan s))"
      using True by (subst decompose_xml_tags.simps) simp
    then show ?thesis
      using loop text_part_taken [of "snd (tag_scan s)" ty meta] tag_scan_size [of s] tag_scan_parts [of s]
      by (auto simp: taken_from_def scan_size_def intro: str_in_trans)
  qed
qed

lemma decompose_markdown_taken: "taken_from s (decompose_markdown_sections s ty meta)"
proof -
  obtain pre secs where r: "md_scan True s = (pre, secs)" by fastforce
  have within: "md_within s (pre, secs)" "md_size (pre, secs) \<le> length s"
    using md_scan_parts [of s True] r by auto
  have "content_size (map (section_block ty meta) (enumerate n secs)) \<le> sum_list (map (\<lambda>(line, level, title, body). length title + length body) secs)"
    for n
  proof (induction secs arbitrary: n)
    case (Cons x secs)
    obtain line level title body where x: "x = (line, level, title, body)" by (cases x)
    have "content_size [section_block ty meta (n, x)] \<le> length title + length body"
      using section_block_taken unfolding x by blast
    then show ?case using Cons.IH [of "Suc n"] x by simp
  qed simp
  note size = this [of 0]
  have "str_in (cb_content b) s \<and> cb_content_hash b = compute_block_hash (cb_content b)
      \<and> cb_token_count b = estimate_tokens (cb_content b)"
    if "b \<in> set (map (section_block ty meta) (enumerate 0 secs))" for b
  proof -
    obtain i line level title body where x: "(i, line, level, title, body) \<in> set (enumerate 0 secs)"
      and b: "b = section_block ty meta (i, line, level, title, body)" using \<open>b \<in> _\<close> by auto
    from x have "(line, level, title, body) \<in> set secs" by (metis in_set_enumerate_eq nth_mem snd_conv fst_conv minus_nat.diff_0 le0 add.commute add_0 length_enumerate)
    then have "str_in title s" "str_in body s" using within(1) by (auto simp: md_within_def)
    then show ?thesis using section_block_taken [of ty meta i line level title body] str_in_trans b by blast
  qed
  then show ?thesis
    using within size text_part_taken [of pre ty meta]
    by (auto simp: decompose_markdown_sections_def r taken_from_def md_within_def md_size_def intro: str_in_trans)
qed

lemma taken_from_ids:
  assumes "length as = length bs" "map cb_content as = map cb_content bs"
    "map cb_content_hash as = map cb_content_hash bs" "map cb_token_count as = map cb_token_count bs"
    "taken_from s bs"
  shows "taken_from s as"
proof -
  have "content_size xs = sum_list (map length (map cb_content xs))" for xs
    by (simp add: content_size_def comp_def)
  then have "content_size as = content_size bs" by (simp only: assms(2))
  moreover have "\<exists>b\<in>set bs. cb_content a = cb_content b \<and> cb_content_hash a = cb_content_hash b
      \<and> cb_token_count a = cb_token_count b" if "a \<in> set as" for a
    using assms(1-4) that by (metis in_set_conv_nth nth_map)
  ultimately show ?thesis using assms(5) unfolding taken_from_def by metis
qed

lemma assign_taken: "taken_from s bs \<Longrightarrow> taken_from s (assign_block_ids bs base)"
proof (rule taken_from_ids)
  have e: "map (f \<circ> (\<lambda>(i, b). b\<lparr>cb_block_id := g i\<rparr>)) (enumerate n xs) = map f xs"
    if "\<And>b i. f (b\<lparr>cb_block_id := i\<rparr>) = f b" for f :: "context_block \<Rightarrow> 'x" and g n xs
    by (induction xs arbitrary: n) (simp_all add: that)
  show "length (assign_block_ids bs base) = length bs"
    "map cb_content (assign_block_ids bs base) = map cb_content bs"
    "map cb_content_hash (assign_block_ids bs base) = map cb_content_hash bs"
    "map cb_token_count (assign_block_ids bs base) = map cb_token_count bs"
    by (auto simp: assign_block_ids_def e split: list.splits)
qed

lemma assign_distinct: "distinct (map cb_block_id (assign_block_ids bs base))"
proof -
  have "map cb_block_id (map (\<lambda>(i, b). b\<lparr>cb_block_id := base @ ''_'' @ show_nat i\<rparr>) (enumerate n xs))
      = map (\<lambda>i. base @ ''_'' @ show_nat i) [n..<n + length xs]" for n xs
    by (induction xs arbitrary: n) (simp_all add: upt_conv_Cons del: upt_Suc)
  moreover have "distinct (map (\<lambda>i. base @ ''_'' @ show_nat i) [n..<m])" for n m
    by (simp add: distinct_map inj_on_def)
  ultimately have "distinct (map cb_block_id (map (\<lambda>(i, b). b\<lparr>cb_block_id := base @ ''_'' @ show_nat i\<rparr>) (enumerate 0 bs)))"
    by metis
  then show ?thesis by (cases bs; cases "tl bs") (simp_all add: assign_block_ids_def split: list.splits)
qed

lemma decompose_taken:
  "taken_from text (decompose text ty base meta) \<and> distinct (map cb_block_id (decompose text ty base meta))"
proof -
  have one: "taken_from text [text_block (single_id base) ty text meta []]"
    by (simp add: taken_from_def)
  show ?thesis
    using assign_taken [OF decompose_xml_taken, of "text" ty meta base]
      assign_taken [OF decompose_markdown_taken, of "text" ty meta base] one
    by (auto simp: decompose_def assign_distinct taken_from_def split: list.splits)
qed

text \<open>So the estimates of the parts exceed that of the whole by at most one token per part.\<close>

lemma estimate_sum: "sum_tokens bs \<le> int (length bs) + int (content_size bs div 4)"
  if "\<forall>b\<in>set bs. cb_token_count b = estimate_tokens (cb_content b)"
  using that
proof (induction bs)
  case (Cons b bs)
  have "length (cb_content b) div 4 + content_size bs div 4 \<le> (length (cb_content b) + content_size bs) div 4"
    by linarith
  moreover have "estimate_tokens (cb_content b) \<le> 1 + int (length (cb_content b) div 4)"
    using zdiv_int [of "length (cb_content b)" 4] by (simp add: estimate_tokens_def)
  ultimately show ?case using Cons by (simp add: sum_tokens_def)
qed (simp add: sum_tokens_def)

lemma decompose_tokens:
  "sum_tokens (decompose text ty base meta) \<le> int (length (decompose text ty base meta)) + int (length text div 4)"
proof -
  have "taken_from text (decompose text ty base meta)" using decompose_taken by blast
  then have "\<forall>b\<in>set (decompose text ty base meta). cb_token_count b = estimate_tokens (cb_content b)"
    "content_size (decompose text ty base meta) div 4 \<le> length text div 4"
    by (auto simp: taken_from_def intro: div_le_mono)
  with estimate_sum [OF this(1)] show ?thesis by linarith
qed

end
