(* ===== verification/Effects.thy ===== *)
theory Effects
  imports Streams PyValue
begin

text \<open>
  Methods that change an object and may raise half-way: an operation maps the state to its
  result and the state it leaves, so that what was done before the exception is kept, as in
  Python. Then the operations of Python on values of any type (\<open>Any\<close>): attribute access, \<open>in\<close>,
  subscripts, \<open>+\<close> and iteration, with the exceptions they raise.
\<close>

subsection \<open>Operations\<close>

type_synonym ('s, 'a) op = "'s \<Rightarrow> 'a res \<times> 's"

definition op_return :: "'a \<Rightarrow> ('s, 'a) op" where
  "op_return x s = (Inr x, s)"

definition op_bind :: "('s, 'a) op \<Rightarrow> ('a \<Rightarrow> ('s, 'b) op) \<Rightarrow> ('s, 'b) op" where
  "op_bind m f s = (case m s of (Inl e, s') \<Rightarrow> (Inl e, s') | (Inr x, s') \<Rightarrow> f x s')"

definition op_seq :: "('s, unit) op \<Rightarrow> ('s, 'b) op \<Rightarrow> ('s, 'b) op" where
  "op_seq m n = op_bind m (\<lambda>_. n)"

definition op_lift :: "'a res \<Rightarrow> ('s, 'a) op" where
  "op_lift r s = (r, s)"

definition op_get :: "('s \<Rightarrow> 'a) \<Rightarrow> ('s, 'a) op" where
  "op_get f s = (Inr (f s), s)"

definition op_modify :: "('s \<Rightarrow> 's) \<Rightarrow> ('s, unit) op" where
  "op_modify f s = (Inr (), f s)"

definition op_when :: "bool \<Rightarrow> ('s, unit) op \<Rightarrow> ('s, unit) op" where
  "op_when b m = (if b then m else op_return ())"

fun op_each :: "('a \<Rightarrow> ('s, unit) op) \<Rightarrow> 'a list \<Rightarrow> ('s, unit) op" where
  "op_each f [] = op_return ()"
| "op_each f (x # xs) = op_seq (f x) (op_each f xs)"

text \<open>\<open>except Exception: pass\<close>; a value outside the model stays reported.\<close>

definition op_swallow :: "('s, unit) op \<Rightarrow> ('s, unit) op" where
  "op_swallow m s =
     (case m s of
        (Inl (NotModelled k), s') \<Rightarrow> (Inl (NotModelled k), s')
      | (_, s') \<Rightarrow> (Inr (), s'))"

lemmas op_defs = op_return_def op_bind_def op_seq_def op_lift_def op_get_def op_modify_def op_when_def

lemma op_each_append: "op_each f (xs @ ys) = op_seq (op_each f xs) (op_each f ys)"
  by (induction xs) (auto simp: op_defs fun_eq_iff split: prod.splits sum.splits)

text \<open>Operations that keep an invariant, whether they raise or not.\<close>

definition op_keeps :: "('s \<Rightarrow> bool) \<Rightarrow> ('s, 'a) op \<Rightarrow> bool" where
  "op_keeps P m \<longleftrightarrow> (\<forall>s. P s \<longrightarrow> P (snd (m s)))"

named_theorems keeps \<open>closure rules for invariants of operations\<close>

lemma op_keepsI: "(\<And>s. P s \<Longrightarrow> P (snd (m s))) \<Longrightarrow> op_keeps P m"
  by (simp add: op_keeps_def)

lemma op_keepsD: "op_keeps P m \<Longrightarrow> m s = (r, s') \<Longrightarrow> P s \<Longrightarrow> P s'"
  by (metis op_keeps_def snd_conv)

lemma keeps_basic [keeps]:
  "op_keeps P (op_return x)" "op_keeps P (op_lift r)" "op_keeps P (op_get f)"
  by (simp_all add: op_keeps_def op_defs)

lemma keeps_bind [keeps]: "op_keeps P m \<Longrightarrow> (\<And>x. op_keeps P (f x)) \<Longrightarrow> op_keeps P (op_bind m f)"
  by (auto simp: op_keeps_def op_bind_def split: prod.splits sum.splits)

lemma keeps_seq [keeps]: "op_keeps P m \<Longrightarrow> op_keeps P n \<Longrightarrow> op_keeps P (op_seq m n)"
  by (simp add: op_seq_def keeps)

lemma keeps_when [keeps]: "op_keeps P m \<Longrightarrow> op_keeps P (op_when b m)"
  by (simp add: op_when_def keeps)

lemma keeps_each [keeps]: "(\<And>x. op_keeps P (f x)) \<Longrightarrow> op_keeps P (op_each f xs)"
  by (induction xs) (simp_all add: keeps)

lemma keeps_swallow [keeps]: "op_keeps P m \<Longrightarrow> op_keeps P (op_swallow m)"
  by (auto simp: op_keeps_def op_swallow_def split: prod.splits sum.splits py_error.splits)

lemma keeps_modify: "(\<And>s. P s \<Longrightarrow> P (f s)) \<Longrightarrow> op_keeps P (op_modify f)"
  by (simp add: op_keeps_def op_modify_def)

text \<open>A loop over the items of a stream is a chunk machine without output.\<close>

definition each_step :: "('a \<Rightarrow> ('s, unit) op) \<Rightarrow> 's \<Rightarrow> 'a list \<Rightarrow> (unit list \<times> 's) option" where
  "each_step f s xs = (case op_each f xs s of (Inl _, _) \<Rightarrow> None | (Inr _, s') \<Rightarrow> Some ([], s'))"

interpretation each: chunk_machine "each_step f" for f
  by unfold_locales (simp add: each_step_def op_each_append op_defs split: prod.splits sum.splits)

subsection \<open>Values of any type\<close>

text \<open>\<open>v.get(k, d)\<close>, \<open>k in v\<close>, \<open>v[k]\<close>, \<open>a + b\<close> and \<open>for x in v\<close>.\<close>

definition py_get :: "json \<Rightarrow> string \<Rightarrow> json \<Rightarrow> json res" where
  "py_get v k d = (case v of JObj m \<Rightarrow> Inr (dict_get m k d) | _ \<Rightarrow> Inl AttributeError)"

definition py_in :: "string \<Rightarrow> json \<Rightarrow> bool res" where
  "py_in k v =
     (case v of
        JObj m \<Rightarrow> Inr (jhas m k)
      | JStr s \<Rightarrow> Inr (str_in k s)
      | JArr xs \<Rightarrow> Inr (list_ex (py_eq (JStr k)) xs)
      | _ \<Rightarrow> Inl TypeError)"

definition py_item :: "json \<Rightarrow> string \<Rightarrow> json res" where
  "py_item v k = (case v of JObj m \<Rightarrow> need m k | _ \<Rightarrow> Inl TypeError)"

definition py_add :: "json \<Rightarrow> json \<Rightarrow> json res" where
  "py_add a b =
     (case (a, b) of
        (JStr s, JStr t) \<Rightarrow> Inr (JStr (s @ t))
      | (JArr xs, JArr ys) \<Rightarrow> Inr (JArr (xs @ ys))
      | _ \<Rightarrow> if num_value a \<noteq> None \<and> num_value b \<noteq> None then Inl (NotModelled ''+'') else Inl TypeError)"

definition py_iter :: "json \<Rightarrow> json list res" where
  "py_iter v =
     (case v of
        JArr xs \<Rightarrow> Inr xs
      | JObj m \<Rightarrow> Inr (map (\<lambda>(k, _). JStr k) m)
      | JStr s \<Rightarrow> Inr (map (\<lambda>c. JStr [c]) s)
      | _ \<Rightarrow> Inl TypeError)"

definition is_obj :: "json \<Rightarrow> bool" where
  "is_obj v = (case v of JObj _ \<Rightarrow> True | _ \<Rightarrow> False)"

lemma py_get_JObj [simp]: "py_get (JObj m) k d = Inr (dict_get m k d)"
  by (simp add: py_get_def)

lemma py_in_JObj [simp]: "py_in k (JObj m) = Inr (jhas m k)"
  by (simp add: py_in_def)

lemma py_item_JObj [simp]: "py_item (JObj m) k = need m k"
  by (simp add: py_item_def)

lemma py_add_JStr [simp]: "py_add (JStr s) (JStr t) = Inr (JStr (s @ t))"
  by (simp add: py_add_def)

lemma py_iter_JArr [simp]: "py_iter (JArr xs) = Inr xs"
  by (simp add: py_iter_def)

end
