(* ===== verification/NormBase.thy ===== *)
theory NormBase
  imports SubBlocks JsonText Effects
begin

text \<open>
  \<open>core/ast/normalizers/base.py\<close>: what the normalizers share. Payloads are dynamic values; where
  the code would raise the model has the error, and where a block or a turn would hold a value of
  another type than the annotated one the model has \<^const>\<open>NotModelled\<close>. The token counter and the
  decomposer are the default ones (nothing in the program passes others). The wall clock is an
  argument.
\<close>

subsection \<open>Conversions\<close>

fun py_int :: "json \<Rightarrow> int res" where
  "py_int (JInt n) = Inr n"
| "py_int (JBool b) = Inr (if b then 1 else 0)"
| "py_int (JFloat x) = Inr (if 0 \<le> x then \<lfloor>x\<rfloor> else \<lceil>x\<rceil>)"
| "py_int (JStr s) = int_of_str s"
| "py_int _ = Inl TypeError"

text \<open>\<open>a - b\<close> of dynamic values.\<close>

fun int_value :: "json \<Rightarrow> int option" where
  "int_value (JInt n) = Some n"
| "int_value (JBool b) = Some (if b then 1 else 0)"
| "int_value _ = None"

fun float_value :: "json \<Rightarrow> rat option" where
  "float_value (JFloat x) = Some x"
| "float_value v = map_option float_of_int (int_value v)"

definition py_sub :: "json \<Rightarrow> json \<Rightarrow> json res" where
  "py_sub a b =
     (case (int_value a, int_value b) of
        (Some m, Some n) \<Rightarrow> Inr (JInt (m - n))
      | _ \<Rightarrow>
          (case (float_value a, float_value b) of
             (Some x, Some y) \<Rightarrow> Inr (JFloat (fsub x y))
           | _ \<Rightarrow> Inl TypeError))"

definition is_str :: "json \<Rightarrow> bool" where
  "is_str v = (case v of JStr _ \<Rightarrow> True | _ \<Rightarrow> False)"

definition is_arr :: "json \<Rightarrow> bool" where
  "is_arr v = (case v of JArr _ \<Rightarrow> True | _ \<Rightarrow> False)"

definition obj_or_empty :: "json \<Rightarrow> jdict" where
  "obj_or_empty v = (case v of JObj d \<Rightarrow> d | _ \<Rightarrow> [])"

subsection \<open>Blocks\<close>

text \<open>\<open>estimate_tokens\<close> on whatever it is given.\<close>

definition json_tokens :: "json \<Rightarrow> int res" where
  "json_tokens v =
     (if \<not> truthy v then Inr 0
      else
        (case v of
           JStr s \<Rightarrow> Inr (estimate_tokens s)
         | JArr xs \<Rightarrow> Inr (max 1 (int (length xs) div 4))
         | JObj d \<Rightarrow> Inr (max 1 (int (length d) div 4))
         | _ \<Rightarrow> Inl TypeError))"

definition dyn_block :: "string \<Rightarrow> block_type \<Rightarrow> json \<Rightarrow> jdict \<Rightarrow> string \<Rightarrow> json \<Rightarrow> context_block res" where
  "dyn_block bid ty content meta ident call_id =
     rbind (json_tokens content) (\<lambda>n.
     rbind (as_str ''content'' content) (\<lambda>s.
     rbind (as_str ''call_id'' call_id) (\<lambda>c.
       Inr \<lparr>cb_block_id = bid, cb_block_type = ty, cb_content_hash = value_hash content,
            cb_token_count = n, cb_content = s, cb_metadata = meta, cb_identity_key = ident,
            cb_first_seen_turn = 0, cb_turns_survived = 0, cb_call_id = c\<rparr>)))"

definition plain_block :: "string \<Rightarrow> block_type \<Rightarrow> json \<Rightarrow> jdict \<Rightarrow> context_block res" where
  "plain_block bid ty content meta = dyn_block bid ty content meta [] (JStr [])"

definition decompose_value :: "json \<Rightarrow> block_type \<Rightarrow> string \<Rightarrow> jdict \<Rightarrow> context_block list res" where
  "decompose_value v ty base_id meta =
     (if \<not> truthy v then Inr []
      else (case v of JStr s \<Rightarrow> Inr (decompose s ty base_id meta) | _ \<Rightarrow> Inl AttributeError))"

definition single :: "'a res \<Rightarrow> 'a list res" where
  "single r = rbind r (\<lambda>x. Inr [x])"

definition rappend :: "'a list res \<Rightarrow> 'a list res \<Rightarrow> 'a list res" where
  "rappend a b = rbind a (\<lambda>xs. rbind b (\<lambda>ys. Inr (xs @ ys)))"

text \<open>\<open>for i, x in enumerate(v)\<close>, collecting what each item yields.\<close>

definition each_item :: "json \<Rightarrow> (nat \<Rightarrow> json \<Rightarrow> 'a list res) \<Rightarrow> 'a list res" where
  "each_item v f = rbind (py_iter v) (\<lambda>xs. rcollect (\<lambda>(i, x). f i x) (enumerate 0 xs))"

text \<open>The content of a result: containers as JSON with sorted keys, anything else as text.\<close>

definition dump_or_str :: "json \<Rightarrow> json" where
  "dump_or_str v = JStr (if is_obj v \<or> is_arr v then json_dumps_sorted v else py_str v)"

definition str_or_dump :: "json \<Rightarrow> json" where
  "str_or_dump v = (if is_str v then v else JStr (json_dumps_sorted v))"

text \<open>The fallback on accumulated blocks of a response.\<close>

definition raw_blocks :: "jdict \<Rightarrow> context_block list res" where
  "raw_blocks resp =
     (if \<not> truthy (jget resp ''blocks'') then Inr []
      else
        each_item (jget resp ''blocks'') (\<lambda>idx blk.
          case blk of
            JObj d \<Rightarrow>
              single (plain_block (''resp_'' @ py_str (jget_or d ''index'' (JInt (int idx)))) ASSISTANT_MSG
                (or_chain [jget d ''text'', jget d ''partial_json'', JStr []])
                [(''type'', jget_or d ''block_type'' (JStr ''text''))])
          | _ \<Rightarrow> Inr []))"

subsection \<open>Fields of a turn\<close>

datatype raw_turn = RawDict jdict | RawEnvelope wire_envelope

record norm_meta =
  nm_turn_id :: json
  nm_correlation_id :: json
  nm_session_id :: string
  nm_turn_index :: int
  nm_timestamp :: rat
  nm_provider :: json
  nm_model :: json
  nm_usage :: json
  nm_timing :: json

definition raw_dict :: "raw_turn \<Rightarrow> jdict" where
  "raw_dict t = (case t of RawDict d \<Rightarrow> d | RawEnvelope e \<Rightarrow> envelope_to_dict e)"

definition resolve_index :: "int option \<Rightarrow> jdict \<Rightarrow> jdict \<Rightarrow> int res" where
  "resolve_index turn_index raw payload =
     (case turn_index of
        Some i \<Rightarrow> Inr i
      | None \<Rightarrow>
          if jhas raw ''turn_index'' then py_int (jget raw ''turn_index'')
          else if jhas raw ''turnIndex'' then py_int (jget raw ''turnIndex'')
          else if jhas payload ''turn_index'' then py_int (jget payload ''turn_index'')
          else if jhas payload ''turnIndex'' then py_int (jget payload ''turnIndex'')
          else Inr 0)"

definition both :: "jdict \<Rightarrow> jdict \<Rightarrow> string list \<Rightarrow> json list" where
  "both raw payload ks = map (jget raw) ks @ map (jget payload) ks"

definition request_of :: "jdict \<Rightarrow> jdict \<Rightarrow> jdict" where
  "request_of raw payload =
     obj_or_empty (or_chain (both raw payload [''request_payload'', ''requestPayload'', ''request'']
       @ [if list_ex (jhas payload) [''messages'', ''contents'', ''system'', ''tools'']
          then JObj payload else JObj []]))"

definition response_of :: "jdict \<Rightarrow> jdict \<Rightarrow> jdict" where
  "response_of raw payload =
     (let resp = or_chain (both raw payload [''response_payload'', ''responsePayload'', ''response'']
        @ [if list_ex (jhas payload) [''content'', ''choices'', ''candidates'']
           then JObj payload else JObj []])
      in case resp of
           JArr xs \<Rightarrow> [(''candidates'', JArr xs), (''_list'', JArr xs)]
         | JObj d \<Rightarrow> d
         | _ \<Rightarrow> [])"

definition usage_of :: "jdict \<Rightarrow> jdict \<Rightarrow> jdict \<Rightarrow> json" where
  "usage_of raw payload resp =
     or_chain (both raw payload [''usage'', ''usage_metrics'']
       @ [jget resp ''usage'', jget resp ''usageMetadata'',
          (case jget resp ''response'' of JObj d \<Rightarrow> jget d ''usageMetadata'' | _ \<Rightarrow> JNull), JObj []])"

definition extract_base_fields :: "rat \<Rightarrow> raw_turn \<Rightarrow> int option \<Rightarrow> string
    \<Rightarrow> (norm_meta \<times> jdict \<times> jdict) res" where
  "extract_base_fields now turn_data turn_index default_provider =
     (let raw = raw_dict turn_data; payload = obj_or_empty (jget raw ''payload'')
      in
        rbind (resolve_index turn_index raw payload) (\<lambda>index.
        rbind (py_float ''timestamp''
          (or_chain [jget raw ''timestamp'', jget payload ''timestamp'', JFloat now])) (\<lambda>ts.
          let corr = or_chain (both raw payload [''correlation_id'', ''correlationId'']
                @ [JStr (''turn_'' @ show_int index)]);
              sid = or_chain (both raw payload [''session_id'', ''sessionId''] @ [JStr ''sess_default'']);
              tid = or_chain (both raw payload [''turn_id'', ''turnId''] @ [corr]);
              req = request_of raw payload;
              resp = response_of raw payload
          in Inr (\<lparr>nm_turn_id = tid, nm_correlation_id = corr,
                  nm_session_id = normalize_session_id sid (Some default_provider),
                  nm_turn_index = index, nm_timestamp = ts,
                  nm_provider = or_chain [jget raw ''provider'', jget payload ''provider'', JStr default_provider],
                  nm_model = or_chain [jget req ''model'', jget raw ''model'', jget payload ''model'',
                    jget resp ''model'', JStr ''unknown''],
                  nm_usage = usage_of raw payload resp,
                  nm_timing = or_chain (both raw payload [''timing'', ''timing_metrics''] @ [JObj []])\<rparr>,
                req, resp))))"

definition parse_usage :: "json \<Rightarrow> (int \<times> int \<times> int \<times> int) res" where
  "parse_usage usage =
     (case usage of
        JObj d \<Rightarrow>
          (let get = (\<lambda>ks. or_chain (map (jget d) ks @ [JInt 0]));
               detail = (\<lambda>v k. if \<not> truthy v then
                   (case jget d ''prompt_tokens_details'' of JObj p \<Rightarrow> jget_or p k (JInt 0) | _ \<Rightarrow> v) else v)
           in
             rbind (py_int (get [''input_tokens'', ''inputTokens'', ''prompt_tokens'', ''promptTokenCount''])) (\<lambda>i.
             rbind (py_int (get [''output_tokens'', ''outputTokens'', ''completion_tokens'', ''candidatesTokenCount''])) (\<lambda>out.
             rbind (py_int (detail (get [''cache_read_input_tokens'', ''cacheReadInputTokens'',
               ''cachedContentTokenCount'', ''cached_read_tokens'']) ''cached_tokens'')) (\<lambda>rd.
             rbind (py_int (detail (get [''cache_creation_input_tokens'', ''cacheCreationInputTokens'',
               ''cached_created_tokens'']) ''cache_creation_tokens'')) (\<lambda>cr.
               Inr (i, out, rd, cr))))))
      | _ \<Rightarrow> Inr (0, 0, 0, 0))"

definition present :: "jdict \<Rightarrow> string \<Rightarrow> bool" where
  "present d k \<longleftrightarrow> jget d k \<noteq> JNull"

definition parse_timing :: "json \<Rightarrow> (rat \<times> rat option) res" where
  "parse_timing timing =
     (case timing of
        JObj d \<Rightarrow>
          rbind (py_float ''duration_ms'' (or_chain [jget d ''duration_ms'', jget d ''durationMs'',
            jget d ''total_duration_ms'', JFloat 0])) (\<lambda>dur.
            let ttft = py_or (jget d ''ttft_ms'') (jget d ''ttftMs'')
            in if ttft \<noteq> JNull then rbind (py_float ''ttft_ms'' ttft) (\<lambda>t. Inr (dur, Some t))
               else if present d ''first_byte_received_at'' \<and> present d ''request_dispatched_at'' then
                 rbind (py_sub (jget d ''first_byte_received_at'') (jget d ''request_dispatched_at'')) (\<lambda>v.
                 rbind (py_float ''ttft_ms'' v) (\<lambda>x. Inr (dur, Some (fmul x 1000))))
               else if present d ''firstByteReceivedMs'' \<and> present d ''requestDispatchedMs'' then
                 rbind (py_sub (jget d ''firstByteReceivedMs'') (jget d ''requestDispatchedMs'')) (\<lambda>v.
                 rbind (py_float ''ttft_ms'' v) (\<lambda>x. Inr (dur, Some x)))
               else Inr (dur, None))
      | _ \<Rightarrow> Inr (0, None))"

text \<open>The last step of every normalizer.\<close>

record turn_parts =
  pt_system :: "context_block list"
  pt_tools :: "context_block list"
  pt_history :: "context_block list"
  pt_results :: "context_block list"
  pt_assistant :: "context_block list"

definition build_turn :: "norm_meta \<Rightarrow> turn_parts \<Rightarrow> canonical_turn res" where
  "build_turn m p =
     rbind (parse_usage (nm_usage m)) (\<lambda>(i, out, rd, cr).
     rbind (parse_timing (nm_timing m)) (\<lambda>(dur, ttft).
     rbind (as_str ''turn_id'' (nm_turn_id m)) (\<lambda>tid.
     rbind (as_str ''correlation_id'' (nm_correlation_id m)) (\<lambda>cid.
     rbind (as_str ''provider'' (nm_provider m)) (\<lambda>prov.
     rbind (as_str ''model'' (nm_model m)) (\<lambda>model.
       Inr \<lparr>ct_turn_id = tid, ct_correlation_id = cid, ct_session_id = nm_session_id m,
            ct_turn_index = nm_turn_index m, ct_timestamp = nm_timestamp m, ct_provider = prov,
            ct_model = model, ct_system_blocks = pt_system p, ct_tool_defs = pt_tools p,
            ct_conversation_history = pt_history p, ct_tool_results = pt_results p,
            ct_assistant_blocks = pt_assistant p, ct_input_tokens = i, ct_output_tokens = out,
            ct_cached_read_tokens = rd, ct_cached_created_tokens = cr, ct_duration_ms = dur,
            ct_ttft_ms = ttft, ct_violations = [], ct_turn_cost_usd = 0, ct_wasted_cost_usd = 0,
            ct_metadata = []\<rparr>))))))"

end
