(* ===== verification/NormAnthropic.thy ===== *)
theory NormAnthropic
  imports NormBase
begin

text \<open>\<open>core/ast/normalizers/anthropic.py\<close>.\<close>

definition system_of_part :: "nat \<Rightarrow> json \<Rightarrow> context_block list res" where
  "system_of_part i part =
     (let (v, meta) = (case part of
            JObj d \<Rightarrow> (jget_or d ''text'' (JStr []), d)
          | _ \<Rightarrow> (JStr (py_str part), [(''type'', JStr ''text'')]))
      in decompose_value v SYSTEM (''sys_'' @ show_nat i) meta)"

definition anthropic_system :: "jdict \<Rightarrow> context_block list res" where
  "anthropic_system req =
     (case jget_or req ''system'' (JStr []) of
        JStr s \<Rightarrow> decompose_value (JStr s) SYSTEM ''sys'' [(''role'', JStr ''system'')]
      | JArr xs \<Rightarrow> each_item (JArr xs) system_of_part
      | _ \<Rightarrow> Inr [])"

definition anthropic_tool :: "nat \<Rightarrow> json \<Rightarrow> context_block list res" where
  "anthropic_tool i tool =
     rbind (py_get tool ''name'' (JStr (''tool_'' @ show_nat i))) (\<lambda>name.
     rbind (py_get tool ''description'' (JStr [])) (\<lambda>descr.
       single (plain_block (''tool_def_'' @ py_str name) TOOL_DEF (JStr (json_dumps_sorted tool))
         [(''name'', name), (''description'', descr)])))"

definition role_type :: "json \<Rightarrow> block_type" where
  "role_type role = (if role = JStr ''user'' then USER_MSG else ASSISTANT_MSG)"

text \<open>A part of a message goes to the history or to the tool results.\<close>

datatype placed = History context_block | Result context_block

definition place :: "(context_block \<Rightarrow> placed) \<Rightarrow> context_block res \<Rightarrow> placed list res" where
  "place f r = rbind r (\<lambda>b. Inr [f b])"

definition part_id :: "nat \<Rightarrow> nat \<Rightarrow> string" where
  "part_id i j = show_nat i @ ''_'' @ show_nat j"

definition hist_id :: "nat \<Rightarrow> nat \<Rightarrow> string" where
  "hist_id i j = ''hist_'' @ part_id i j"

definition anthropic_result :: "nat \<Rightarrow> nat \<Rightarrow> jdict \<Rightarrow> placed list res" where
  "anthropic_result i j part =
     (let call_id = jget_or part ''tool_use_id'' (JStr (''call_'' @ part_id i j))
      in place Result
           (dyn_block (''tool_res_'' @ py_str call_id) TOOL_RESULT
             (dump_or_str (jget_or part ''content'' (JStr [])))
             [(''tool_use_id'', call_id), (''is_error'', jget_or part ''is_error'' (JBool False))]
             [] call_id))"

definition anthropic_tool_use :: "json \<Rightarrow> nat \<Rightarrow> nat \<Rightarrow> jdict \<Rightarrow> placed list res" where
  "anthropic_tool_use role i j part =
     (let call_id = jget_or part ''id'' (JStr (''call_'' @ part_id i j))
      in place History
           (dyn_block (hist_id i j) ASSISTANT_MSG (JStr (json_dumps_sorted (JObj part)))
             [(''role'', role), (''tool_use_id'', call_id), (''name'', jget part ''name''),
              (''type'', JStr ''tool_use'')] [] call_id))"

definition thought_value :: "jdict \<Rightarrow> json" where
  "thought_value part = py_or (jget part ''thinking'') (jget_or part ''text'' (JStr []))"

definition anthropic_thinking :: "json \<Rightarrow> nat \<Rightarrow> nat \<Rightarrow> jdict \<Rightarrow> placed list res" where
  "anthropic_thinking role i j part =
     place History
       (dyn_block (hist_id i j) THOUGHT (thought_value part)
         [(''role'', role), (''type'', JStr ''thinking''), (''signature'', jget part ''signature'')]
         (''thought:'' @ part_id i j) (JStr []))"

definition anthropic_part :: "json \<Rightarrow> nat \<Rightarrow> nat \<Rightarrow> json \<Rightarrow> placed list res" where
  "anthropic_part role i j part =
     (let hist = (\<lambda>content meta. place History (plain_block (hist_id i j) (role_type role) content meta))
      in case part of
           JObj d \<Rightarrow>
             (let p_type = jget d ''type''
              in if p_type = JStr ''tool_result'' then anthropic_result i j d
                 else if p_type = JStr ''text'' then hist (jget_or d ''text'' (JStr [])) [(''role'', role)]
                 else if p_type = JStr ''tool_use'' then anthropic_tool_use role i j d
                 else if p_type = JStr ''thinking'' then anthropic_thinking role i j d
                 else hist (JStr (json_dumps_sorted part)) [(''role'', role), (''type'', p_type)])
         | _ \<Rightarrow> hist (JStr (py_str part)) [(''role'', role)])"

definition anthropic_message :: "nat \<Rightarrow> json \<Rightarrow> placed list res" where
  "anthropic_message i msg =
     rbind (py_get msg ''role'' JNull) (\<lambda>role.
     rbind (py_get msg ''content'' JNull) (\<lambda>content.
       case content of
         JStr s \<Rightarrow> place History (plain_block (''hist_'' @ show_nat i) (role_type role) content [(''role'', role)])
       | JArr xs \<Rightarrow> each_item content (anthropic_part role i)
       | _ \<Rightarrow> Inr []))"

definition history_of :: "placed list \<Rightarrow> context_block list" where
  "history_of ps = List.map_filter (\<lambda>p. case p of History b \<Rightarrow> Some b | Result _ \<Rightarrow> None) ps"

definition results_of :: "placed list \<Rightarrow> context_block list" where
  "results_of ps = List.map_filter (\<lambda>p. case p of Result b \<Rightarrow> Some b | History _ \<Rightarrow> None) ps"

definition anthropic_response_object :: "nat \<Rightarrow> jdict \<Rightarrow> context_block list res" where
  "anthropic_response_object idx blk =
     (let b_type = jget_or blk ''type'' (JStr ''text'');
          resp = (\<lambda>content meta. single (plain_block (''resp_'' @ show_nat idx) ASSISTANT_MSG content meta))
      in if b_type = JStr ''text'' then resp (jget_or blk ''text'' (JStr [])) [(''type'', JStr ''text'')]
         else if b_type = JStr ''thinking'' then
           single (dyn_block (''resp_thought_'' @ show_nat idx) THOUGHT (thought_value blk)
             [(''type'', JStr ''thinking''), (''signature'', jget blk ''signature'')]
             (''thought:'' @ show_nat idx) (JStr []))
         else if b_type = JStr ''tool_use'' then
           (let tool_id = jget_or blk ''id'' (JStr (''call_'' @ show_nat idx))
            in single (dyn_block (''resp_tool_'' @ py_str tool_id) ASSISTANT_MSG
                 (JStr (json_dumps_sorted (JObj blk)))
                 [(''type'', JStr ''tool_use''), (''name'', jget blk ''name''), (''tool_use_id'', tool_id)]
                 [] tool_id))
         else resp (JStr (json_dumps_sorted (JObj blk))) [(''type'', b_type)])"

definition anthropic_response_block :: "nat \<Rightarrow> json \<Rightarrow> context_block list res" where
  "anthropic_response_block idx blk =
     (case blk of
        JObj d \<Rightarrow> anthropic_response_object idx d
      | JStr s \<Rightarrow> single (plain_block (''resp_'' @ show_nat idx) ASSISTANT_MSG blk [(''type'', JStr ''text'')])
      | _ \<Rightarrow> Inr [])"

definition anthropic_response :: "jdict \<Rightarrow> context_block list res" where
  "anthropic_response resp =
     (case jget_or resp ''content'' (JArr []) of
        JArr xs \<Rightarrow> each_item (JArr xs) anthropic_response_block
      | JStr s \<Rightarrow>
          if s \<noteq> [] then single (plain_block ''resp_0'' ASSISTANT_MSG (JStr s) [(''type'', JStr ''text'')])
          else raw_blocks resp
      | _ \<Rightarrow> raw_blocks resp)"

definition anthropic_parts :: "jdict \<Rightarrow> jdict \<Rightarrow> turn_parts res" where
  "anthropic_parts req resp =
     rbind (anthropic_system req) (\<lambda>sys.
     rbind (each_item (jget_or req ''tools'' (JArr [])) anthropic_tool) (\<lambda>tools.
     rbind (each_item (jget_or req ''messages'' (JArr [])) anthropic_message) (\<lambda>msgs.
     rbind (anthropic_response resp) (\<lambda>out.
       Inr \<lparr>pt_system = sys, pt_tools = tools, pt_history = history_of msgs,
            pt_results = results_of msgs, pt_assistant = out\<rparr>))))"

definition anthropic_normalize :: "rat \<Rightarrow> raw_turn \<Rightarrow> int option \<Rightarrow> canonical_turn res" where
  "anthropic_normalize now turn_data turn_index =
     rbind (extract_base_fields now turn_data turn_index ''anthropic'') (\<lambda>(m, req, resp).
     rbind (anthropic_parts req resp) (\<lambda>p. build_turn m p))"

end
