(* ===== verification/NormOpenAi.thy ===== *)
theory NormOpenAi
  imports NormAnthropic
begin

text \<open>\<open>core/ast/normalizers/openai.py\<close>.\<close>

definition openai_tool :: "nat \<Rightarrow> json \<Rightarrow> context_block list res" where
  "openai_tool i tool =
     rbind (py_get tool ''type'' JNull) (\<lambda>ty.
     rbind (if ty = JStr ''function'' then py_get tool ''function'' (JObj []) else Inr tool) (\<lambda>fn.
     rbind (py_get tool ''name'' (JStr (''tool_'' @ show_nat i))) (\<lambda>outer.
     rbind (py_get fn ''name'' outer) (\<lambda>name.
     rbind (py_get tool ''type'' (JStr ''function'')) (\<lambda>ty'.
       single (plain_block (''tool_def_'' @ py_str name) TOOL_DEF (JStr (json_dumps_sorted tool))
         [(''name'', name), (''type'', ty')]))))))"

text \<open>Messages put blocks into three lists.\<close>

datatype slot = ToSystem context_block | ToHistory context_block | ToResults context_block

definition put :: "(context_block \<Rightarrow> slot) \<Rightarrow> context_block list res \<Rightarrow> slot list res" where
  "put f r = rbind r (\<lambda>bs. Inr (map f bs))"

definition slot_system :: "slot list \<Rightarrow> context_block list" where
  "slot_system ps = List.map_filter (\<lambda>p. case p of ToSystem b \<Rightarrow> Some b | _ \<Rightarrow> None) ps"

definition slot_history :: "slot list \<Rightarrow> context_block list" where
  "slot_history ps = List.map_filter (\<lambda>p. case p of ToHistory b \<Rightarrow> Some b | _ \<Rightarrow> None) ps"

definition slot_results :: "slot list \<Rightarrow> context_block list" where
  "slot_results ps = List.map_filter (\<lambda>p. case p of ToResults b \<Rightarrow> Some b | _ \<Rightarrow> None) ps"

text \<open>Text with a thought in it is split along its tags.\<close>

definition has_thought :: "string \<Rightarrow> bool" where
  "has_thought s \<longleftrightarrow> str_in ''<thought>'' (str_lower s) \<or> str_in ''<thinking>'' (str_lower s)"

definition assistant_text :: "string \<Rightarrow> string \<Rightarrow> jdict \<Rightarrow> context_block list res" where
  "assistant_text bid s meta =
     (if has_thought s then Inr (decompose s ASSISTANT_MSG bid meta)
      else single (plain_block bid ASSISTANT_MSG (JStr s) meta))"

definition reasoning_of :: "json \<Rightarrow> json res" where
  "reasoning_of msg =
     rbind (py_get msg ''reasoning_content'' JNull) (\<lambda>a.
       if truthy a then Inr a else py_get msg ''reasoning'' JNull)"

definition reasoning_block :: "string \<Rightarrow> nat \<Rightarrow> json \<Rightarrow> context_block list res" where
  "reasoning_block bid i reasoning =
     (if truthy reasoning then
        single (dyn_block bid THOUGHT (JStr (py_str reasoning))
          [(''role'', JStr ''assistant''), (''type'', JStr ''reasoning'')] (''thought:'' @ show_nat i) (JStr []))
      else Inr [])"

definition history_call :: "nat \<Rightarrow> nat \<Rightarrow> json \<Rightarrow> context_block list res" where
  "history_call i j tc =
     rbind (py_get tc ''id'' (JStr (''call_'' @ part_id i j))) (\<lambda>call_id.
     rbind (py_get tc ''function'' (JObj [])) (\<lambda>fn.
     rbind (py_get fn ''name'' JNull) (\<lambda>name.
       single (dyn_block (''hist_'' @ show_nat i @ ''_call_'' @ py_str call_id) ASSISTANT_MSG
         (JStr (json_dumps_sorted tc))
         [(''role'', JStr ''assistant''), (''type'', JStr ''tool_call''), (''tool_use_id'', call_id), (''name'', name)]
         [] call_id))))"

definition openai_assistant_message :: "nat \<Rightarrow> json \<Rightarrow> json \<Rightarrow> context_block list res" where
  "openai_assistant_message i msg content =
     rbind (reasoning_of msg) (\<lambda>reasoning.
     rappend (reasoning_block (''hist_'' @ show_nat i @ ''_thought'') i reasoning)
     (rappend
       (if truthy content then
          assistant_text (''hist_'' @ show_nat i) (case str_or_dump content of JStr s \<Rightarrow> s | _ \<Rightarrow> [])
            [(''role'', JStr ''assistant'')]
        else Inr [])
       (rbind (py_get msg ''tool_calls'' (JArr [])) (\<lambda>calls. each_item calls (history_call i)))))"

definition openai_user_message :: "nat \<Rightarrow> json \<Rightarrow> json \<Rightarrow> context_block list res" where
  "openai_user_message i role content =
     (case content of
        JStr s \<Rightarrow> decompose_value content USER_MSG (''hist_'' @ show_nat i) [(''role'', role)]
      | JArr xs \<Rightarrow>
          each_item content (\<lambda>j part.
            decompose_value (case part of JObj d \<Rightarrow> jget_or d ''text'' (JStr []) | _ \<Rightarrow> JStr (py_str part))
              USER_MSG (hist_id i j) [(''role'', role)])
      | _ \<Rightarrow> Inr [])"

definition openai_tool_message :: "nat \<Rightarrow> json \<Rightarrow> json \<Rightarrow> context_block list res" where
  "openai_tool_message i msg content =
     rbind (py_get msg ''tool_call_id'' (JStr (''call_'' @ show_nat i))) (\<lambda>call_id.
     rbind (py_get msg ''name'' JNull) (\<lambda>name.
       single (dyn_block (''tool_res_'' @ py_str call_id) TOOL_RESULT (str_or_dump content)
         [(''tool_use_id'', call_id), (''name'', name)] [] call_id)))"

definition openai_message :: "nat \<Rightarrow> json \<Rightarrow> slot list res" where
  "openai_message i msg =
     rbind (py_get msg ''role'' JNull) (\<lambda>role.
     rbind (py_get msg ''content'' JNull) (\<lambda>content.
       if role = JStr ''system'' \<or> role = JStr ''developer'' then
         put ToSystem (decompose_value (str_or_dump content) SYSTEM (''sys_'' @ show_nat i) [(''role'', role)])
       else if role = JStr ''tool'' then put ToResults (openai_tool_message i msg content)
       else if role = JStr ''assistant'' then put ToHistory (openai_assistant_message i msg content)
       else put ToHistory (openai_user_message i role content)))"

definition response_call :: "nat \<Rightarrow> nat \<Rightarrow> json \<Rightarrow> context_block list res" where
  "response_call i j tc =
     rbind (py_get tc ''id'' (JStr (''call_'' @ part_id i j))) (\<lambda>call_id.
     rbind (py_get tc ''function'' (JObj [])) (\<lambda>fn.
     rbind (py_get fn ''name'' JNull) (\<lambda>name.
       single (dyn_block (''resp_tool_'' @ py_str call_id) ASSISTANT_MSG (JStr (json_dumps_sorted tc))
         [(''type'', JStr ''tool_call''), (''name'', name), (''tool_use_id'', call_id)] [] call_id))))"

text \<open>\<open>content.lower()\<close> needs a string.\<close>

definition openai_choice_blocks :: "nat \<Rightarrow> json \<Rightarrow> context_block list res" where
  "openai_choice_blocks i choice =
     rbind (py_get choice ''message'' (JObj [])) (\<lambda>m.
     rbind (if truthy m then Inr m else py_get choice ''delta'' (JObj [])) (\<lambda>c_msg.
     rbind (reasoning_of c_msg) (\<lambda>reasoning.
     rappend (reasoning_block (''resp_thought_'' @ show_nat i) i reasoning)
     (rappend
       (rbind (py_get c_msg ''content'' JNull) (\<lambda>content.
          if truthy content then
            (case content of
               JStr s \<Rightarrow> assistant_text (''resp_text_'' @ show_nat i) s [(''role'', JStr ''assistant'')]
             | _ \<Rightarrow> Inl AttributeError)
          else Inr []))
       (rbind (py_get c_msg ''tool_calls'' (JArr [])) (\<lambda>calls. each_item calls (response_call i)))))))"

definition openai_response :: "jdict \<Rightarrow> context_block list res" where
  "openai_response resp =
     (case jget_or resp ''choices'' (JArr []) of
        JArr (x # xs) \<Rightarrow> each_item (JArr (x # xs)) openai_choice_blocks
      | _ \<Rightarrow> raw_blocks resp)"

definition openai_parts :: "jdict \<Rightarrow> jdict \<Rightarrow> turn_parts res" where
  "openai_parts req resp =
     rbind (each_item (jget_or req ''tools'' (JArr [])) openai_tool) (\<lambda>tools.
     rbind (each_item (jget_or req ''messages'' (JArr [])) openai_message) (\<lambda>msgs.
     rbind (openai_response resp) (\<lambda>out.
       Inr \<lparr>pt_system = slot_system msgs, pt_tools = tools, pt_history = slot_history msgs,
            pt_results = slot_results msgs, pt_assistant = out\<rparr>)))"

definition openai_normalize :: "rat \<Rightarrow> raw_turn \<Rightarrow> int option \<Rightarrow> canonical_turn res" where
  "openai_normalize now turn_data turn_index =
     rbind (extract_base_fields now turn_data turn_index ''openai'') (\<lambda>(m, req, resp).
     rbind (openai_parts req resp) (\<lambda>p. build_turn m p))"

end
