(* ===== verification/NormGemini.thy ===== *)
theory NormGemini
  imports NormOpenAi
begin

text \<open>\<open>core/ast/normalizers/gemini.py\<close>.\<close>

subsection \<open>Unwrapping\<close>

text \<open>The request inside a wrapper, and the model that the wrapper names.\<close>

definition unwrap_request :: "norm_meta \<Rightarrow> jdict \<Rightarrow> norm_meta \<times> jdict" where
  "unwrap_request m req =
     (case jget req ''request'' of
        JObj inner \<Rightarrow>
          (let outer = jget req ''model''
           in if truthy outer \<and> \<not> jhas inner ''model''
              then (m\<lparr>nm_model := outer\<rparr>, AList.update ''model'' outer inner) else (m, inner))
      | _ \<Rightarrow> (m, req))"

definition inner_item :: "jdict \<Rightarrow> jdict" where
  "inner_item item = (case jget item ''response'' of JObj d \<Rightarrow> d | _ \<Rightarrow> item)"

definition merge_item :: "json list \<times> json \<Rightarrow> json \<Rightarrow> json list \<times> json" where
  "merge_item acc item =
     (case item of
        JObj d \<Rightarrow>
          (let inner = inner_item d; (cands, usage) = acc
           in ((case jget inner ''candidates'' of JArr xs \<Rightarrow> cands @ xs | _ \<Rightarrow> cands),
               (if jhas inner ''usageMetadata'' then jget inner ''usageMetadata'' else usage)))
      | _ \<Rightarrow> acc)"

definition merge_stream :: "json list \<Rightarrow> jdict" where
  "merge_stream items =
     (let (cands, usage) = foldl merge_item ([], JObj []) items
      in [(''candidates'', JArr cands)] @ (if truthy usage then [(''usageMetadata'', usage)] else []))"

definition unwrap_stream :: "jdict \<Rightarrow> jdict" where
  "unwrap_stream resp =
     (case jget resp ''response'' of
        JObj d \<Rightarrow> d
      | _ \<Rightarrow>
          (case map_of resp ''_data'' of
             Some (JArr (x # xs)) \<Rightarrow> merge_stream (x # xs)
           | Some (JObj d) \<Rightarrow> d
           | _ \<Rightarrow> resp))"

definition late_usage :: "norm_meta \<Rightarrow> jdict \<Rightarrow> norm_meta" where
  "late_usage m resp =
     (if jhas resp ''usageMetadata'' \<and> \<not> truthy (nm_usage m)
      then m\<lparr>nm_usage := jget resp ''usageMetadata''\<rparr> else m)"

subsection \<open>Requests\<close>

definition gemini_system :: "jdict \<Rightarrow> context_block list res" where
  "gemini_system req =
     (let meta = [(''role'', JStr ''system'')]
      in case py_or (jget req ''systemInstruction'') (jget req ''system_instruction'') of
           JObj d \<Rightarrow>
             each_item (jget_or d ''parts'' (JArr [])) (\<lambda>i part.
               decompose_value (case part of JObj p \<Rightarrow> jget_or p ''text'' (JStr []) | _ \<Rightarrow> JStr (py_str part))
                 SYSTEM (''sys_'' @ show_nat i) meta)
         | JStr s \<Rightarrow> decompose_value (JStr s) SYSTEM ''sys_0'' meta
         | _ \<Rightarrow> Inr [])"

definition gemini_declaration :: "nat \<Rightarrow> nat \<Rightarrow> json \<Rightarrow> context_block list res" where
  "gemini_declaration i j fn =
     rbind (py_get fn ''name'' (JStr (''tool_'' @ part_id i j))) (\<lambda>name.
     rbind (py_get fn ''description'' (JStr [])) (\<lambda>descr.
       single (plain_block (''tool_def_'' @ py_str name) TOOL_DEF (JStr (json_dumps_sorted fn))
         [(''name'', name), (''description'', descr)])))"

definition gemini_tool :: "nat \<Rightarrow> json \<Rightarrow> context_block list res" where
  "gemini_tool i tool =
     rbind (py_get tool ''functionDeclarations'' JNull) (\<lambda>a.
     rbind (py_get tool ''function_declarations'' JNull) (\<lambda>b.
       case py_or a b of
         JArr (x # xs) \<Rightarrow> each_item (JArr (x # xs)) (gemini_declaration i)
       | _ \<Rightarrow>
           rbind (py_get tool ''name'' (JStr (''tool_'' @ show_nat i))) (\<lambda>name.
             single (plain_block (''tool_def_'' @ py_str name) TOOL_DEF (JStr (json_dumps_sorted tool))
               [(''name'', name)]))))"

definition either :: "jdict \<Rightarrow> string \<Rightarrow> string \<Rightarrow> json" where
  "either part a b = or_chain [jget part a, jget part b, JObj []]"

text \<open>\<open>str(v.get("id") or v.get("call_id") or "")\<close>\<close>

definition gemini_call_id :: "json \<Rightarrow> json res" where
  "gemini_call_id v =
     rbind (py_get v ''id'' JNull) (\<lambda>a.
     rbind (py_get v ''call_id'' JNull) (\<lambda>b.
       Inr (JStr (py_str (or_chain [a, b, JStr []])))))"

definition result_failed :: "json \<Rightarrow> json \<Rightarrow> bool" where
  "result_failed fn_resp data =
     (case fn_resp of
        JObj f \<Rightarrow>
          if jhas f ''is_error'' then truthy (jget f ''is_error'')
          else
            (case data of
               JObj d \<Rightarrow>
                 (jhas d ''error'' \<or> jhas d ''is_error'')
                 \<and> truthy (jget_or d ''is_error'' (jget d ''error''))
             | _ \<Rightarrow> False)
      | _ \<Rightarrow> False)"

definition gemini_result :: "json \<Rightarrow> nat \<Rightarrow> nat \<Rightarrow> jdict \<Rightarrow> placed list res" where
  "gemini_result role i j part =
     (let fn_resp = either part ''functionResponse'' ''function_response''
      in rbind (py_get fn_resp ''name'' (JStr (''tool_'' @ show_nat i))) (\<lambda>name.
         rbind (gemini_call_id fn_resp) (\<lambda>call_id.
         rbind (py_get fn_resp ''response'' (JObj [])) (\<lambda>data.
           place Result
             (dyn_block (''tool_res_'' @ py_str name @ ''_'' @ part_id i j) TOOL_RESULT (dump_or_str data)
               [(''name'', name), (''tool_name'', name), (''role'', role), (''tool_use_id'', call_id),
                (''is_error'', JBool (result_failed fn_resp data))] [] call_id)))))"

definition gemini_history_call :: "json \<Rightarrow> nat \<Rightarrow> nat \<Rightarrow> jdict \<Rightarrow> placed list res" where
  "gemini_history_call role i j part =
     (let fn_call = either part ''functionCall'' ''function_call''
      in rbind (py_get fn_call ''name'' (JStr (''call_'' @ show_nat i))) (\<lambda>name.
         rbind (gemini_call_id fn_call) (\<lambda>call_id.
           place History
             (dyn_block (hist_id i j) ASSISTANT_MSG (JStr (json_dumps_sorted fn_call))
               [(''role'', role), (''name'', name), (''tool_name'', name),
                (''type'', JStr ''function_call''), (''tool_use_id'', call_id)] [] call_id))))"

text \<open>Text of the model: a thought, text with thought tags, or plain text.\<close>

definition model_text :: "string \<Rightarrow> json \<Rightarrow> jdict \<Rightarrow> context_block list res" where
  "model_text bid v meta =
     (case v of
        JStr s \<Rightarrow>
          if has_thought s then Inr (decompose s ASSISTANT_MSG bid meta)
          else single (plain_block bid ASSISTANT_MSG v meta)
      | _ \<Rightarrow> Inl AttributeError)"

definition gemini_text :: "json \<Rightarrow> nat \<Rightarrow> nat \<Rightarrow> jdict \<Rightarrow> context_block list res" where
  "gemini_text role i j part =
     (let v = jget part ''text''
      in if role = JStr ''user'' then decompose_value v USER_MSG (hist_id i j) [(''role'', role)]
         else if jget part ''thought'' = JBool True then
           single (dyn_block (hist_id i j) THOUGHT v [(''role'', role), (''thought'', JBool True)]
             (''thought:'' @ part_id i j) (JStr []))
         else model_text (hist_id i j) v [(''role'', role)])"

definition gemini_content_part :: "json \<Rightarrow> nat \<Rightarrow> nat \<Rightarrow> json \<Rightarrow> placed list res" where
  "gemini_content_part role i j part =
     (case part of
        JObj d \<Rightarrow>
          if jhas d ''functionResponse'' \<or> jhas d ''function_response'' then gemini_result role i j d
          else if jhas d ''functionCall'' \<or> jhas d ''function_call'' then gemini_history_call role i j d
          else if jhas d ''text'' then rbind (gemini_text role i j d) (\<lambda>bs. Inr (map History bs))
          else Inr []
      | _ \<Rightarrow> place History (plain_block (hist_id i j) (role_type role) (JStr (py_str part)) [(''role'', role)]))"

definition gemini_content :: "nat \<Rightarrow> json \<Rightarrow> placed list res" where
  "gemini_content i item =
     rbind (py_get item ''role'' (JStr ''user'')) (\<lambda>role.
     rbind (py_get item ''parts'' (JArr [])) (\<lambda>parts.
       each_item (case parts of JStr s \<Rightarrow> JArr [JObj [(''text'', JStr s)]] | _ \<Rightarrow> parts)
         (gemini_content_part role i)))"

subsection \<open>Responses\<close>

definition gemini_response_call :: "nat \<Rightarrow> nat \<Rightarrow> jdict \<Rightarrow> context_block list res" where
  "gemini_response_call i j part =
     (let fn_call = either part ''functionCall'' ''function_call''
      in rbind (py_get fn_call ''name'' (JStr (''call_'' @ part_id i j))) (\<lambda>name.
         rbind (gemini_call_id fn_call) (\<lambda>call_id.
           single (dyn_block (''resp_tool_'' @ py_str name @ ''_'' @ part_id i j) ASSISTANT_MSG
             (JStr (json_dumps_sorted fn_call))
             [(''role'', JStr ''model''), (''type'', JStr ''function_call''), (''name'', name),
              (''tool_name'', name), (''tool_use_id'', call_id)] [] call_id))))"

definition gemini_response_part :: "nat \<Rightarrow> nat \<Rightarrow> json \<Rightarrow> context_block list res" where
  "gemini_response_part i j part =
     (let meta = [(''role'', JStr ''model'')]; bid = ''resp_text_'' @ part_id i j
      in case part of
           JObj d \<Rightarrow>
             if jhas d ''text'' then
               (if jget d ''thought'' = JBool True then
                  single (dyn_block (''resp_thought_'' @ part_id i j) THOUGHT (jget d ''text'')
                    (meta @ [(''thought'', JBool True)]) (''thought:'' @ part_id i j) (JStr []))
                else model_text bid (jget d ''text'') meta)
             else if jhas d ''functionCall'' \<or> jhas d ''function_call'' then gemini_response_call i j d
             else Inr []
         | JStr s \<Rightarrow> model_text bid part meta
         | _ \<Rightarrow> Inr [])"

definition gemini_candidate_blocks :: "nat \<Rightarrow> json \<Rightarrow> context_block list res" where
  "gemini_candidate_blocks i cand =
     rbind (py_get cand ''content'' (JObj [])) (\<lambda>c.
     rbind (py_get c ''parts'' (JArr [])) (\<lambda>parts. each_item parts (gemini_response_part i)))"

definition gemini_response :: "jdict \<Rightarrow> context_block list res" where
  "gemini_response resp =
     (case jget_or resp ''candidates'' (JArr []) of
        JArr (x # xs) \<Rightarrow> each_item (JArr (x # xs)) gemini_candidate_blocks
      | _ \<Rightarrow> raw_blocks resp)"

definition gemini_parts :: "jdict \<Rightarrow> jdict \<Rightarrow> turn_parts res" where
  "gemini_parts req resp =
     rbind (gemini_system req) (\<lambda>sys.
     rbind (each_item (jget_or req ''tools'' (JArr [])) gemini_tool) (\<lambda>tools.
     rbind (each_item (jget_or req ''contents'' (JArr [])) gemini_content) (\<lambda>msgs.
     rbind (gemini_response resp) (\<lambda>out.
       Inr \<lparr>pt_system = sys, pt_tools = tools, pt_history = history_of msgs,
            pt_results = results_of msgs, pt_assistant = out\<rparr>))))"

definition gemini_normalize :: "rat \<Rightarrow> raw_turn \<Rightarrow> int option \<Rightarrow> canonical_turn res" where
  "gemini_normalize now turn_data turn_index =
     rbind (extract_base_fields now turn_data turn_index ''gemini'') (\<lambda>(m0, req0, resp0).
       let (m1, req) = unwrap_request m0 req0; resp = unwrap_stream resp0; m = late_usage m1 resp
       in rbind (gemini_parts req resp) (\<lambda>p. build_turn m p))"

end
