(* ===== verification/Normalizers.thy ===== *)
theory Normalizers
  imports NormGemini
begin

text \<open>
  The choice of a normalizer (\<open>core/ast/normalizers/__init__.py\<close>) and what all of them guarantee of
  the blocks of a turn.
\<close>

datatype normalizer = AnthropicNorm | OpenAiNorm | GeminiNorm

definition provider_name :: "provider + string \<Rightarrow> string" where
  "provider_name p = (case p of Inl prov \<Rightarrow> provider_value prov | Inr s \<Rightarrow> str_lower s)"

definition get_normalizer :: "provider + string \<Rightarrow> normalizer res" where
  "get_normalizer p =
     (let s = provider_name p
      in if s \<in> {''anthropic'', ''claude''} then Inr AnthropicNorm
         else if s \<in> {''openai'', ''azure_openai'', ''openrouter'', ''ollama''} then Inr OpenAiNorm
         else if s \<in> {''gemini'', ''google''} then Inr GeminiNorm
         else Inl ValueError)"

fun normalize_turn :: "normalizer \<Rightarrow> rat \<Rightarrow> raw_turn \<Rightarrow> int option \<Rightarrow> canonical_turn res" where
  "normalize_turn AnthropicNorm = anthropic_normalize"
| "normalize_turn OpenAiNorm = openai_normalize"
| "normalize_turn GeminiNorm = gemini_normalize"

subsection \<open>What a collecting computation yields\<close>

named_theorems yields_intros

definition yields :: "('a \<Rightarrow> bool) \<Rightarrow> 'a list res \<Rightarrow> bool" where
  "yields P r \<longleftrightarrow> (\<forall>xs. r = Inr xs \<longrightarrow> list_all P xs)"

lemma yieldsD: "yields P (Inr xs) \<Longrightarrow> x \<in> set xs \<Longrightarrow> P x"
  by (simp add: yields_def list_all_iff)

lemma yields_basic [yields_intros]:
  "yields P (Inl e)" "yields P (Inr [])" "list_all P xs \<Longrightarrow> yields P (Inr xs)"
  by (simp_all add: yields_def)

lemma yields_bind [yields_intros]: "(\<And>x. r = Inr x \<Longrightarrow> yields P (f x)) \<Longrightarrow> yields P (rbind r f)"
  by (cases r) (simp_all add: yields_def)

lemma yields_single [yields_intros]: "(\<And>x. r = Inr x \<Longrightarrow> P x) \<Longrightarrow> yields P (single r)"
  by (cases r) (simp_all add: yields_def single_def)

lemma yields_place [yields_intros]: "(\<And>x. r = Inr x \<Longrightarrow> P (f x)) \<Longrightarrow> yields P (place f r)"
  by (cases r) (simp_all add: yields_def place_def)

lemma yields_put [yields_intros]: "yields (\<lambda>x. P (f x)) r \<Longrightarrow> yields P (put f r)"
  by (cases r) (simp_all add: yields_def put_def list_all_iff)

lemma yields_append [yields_intros]: "yields P a \<Longrightarrow> yields P b \<Longrightarrow> yields P (rappend a b)"
  by (cases a; cases b) (simp_all add: yields_def rappend_def)

lemma yields_if [yields_intros]:
  "(b \<Longrightarrow> yields P x) \<Longrightarrow> (\<not> b \<Longrightarrow> yields P y) \<Longrightarrow> yields P (if b then x else y)"
  by simp

lemma yields_each [yields_intros]:
  assumes "\<And>i x. yields P (f i x)"
  shows "yields P (each_item v f)"
proof -
  have "list_all P ys" if "rcollect (\<lambda>(i, x). f i x) xs = Inr ys" for xs ys
    using assms that by (force simp: list_all_iff yields_def dest: rcollect_InrD)
  then show ?thesis by (auto simp: each_item_def yields_def rbind_eq_Inr)
qed

subsection \<open>Blocks of a normalized turn\<close>

text \<open>The hash and the estimate belong to the content.\<close>

definition block_sound :: "context_block \<Rightarrow> bool" where
  "block_sound b \<longleftrightarrow> cb_content_hash b = compute_block_hash (cb_content b)
     \<and> cb_token_count b = estimate_tokens (cb_content b)"

definition is_result :: "context_block \<Rightarrow> bool" where
  "is_result b \<longleftrightarrow> cb_block_type b = TOOL_RESULT"

definition result_sound :: "context_block \<Rightarrow> bool" where
  "result_sound b \<longleftrightarrow> block_sound b \<and> is_result b
     \<and> jget (cb_metadata b) ''tool_use_id'' = JStr (cb_call_id b)"

definition other_sound :: "context_block \<Rightarrow> bool" where
  "other_sound b \<longleftrightarrow> block_sound b \<and> \<not> is_result b"

lemma json_tokens_str: "as_str k v = Inr s \<Longrightarrow> v = JStr s \<and> json_tokens v = Inr (estimate_tokens s)"
  by (cases v) (simp_all add: json_tokens_def estimate_tokens_def)

lemma dyn_block_sound:
  assumes "dyn_block bid ty content meta ident call_id = Inr b"
  shows "block_sound b \<and> cb_block_type b = ty \<and> cb_metadata b = meta \<and> call_id = JStr (cb_call_id b)
    \<and> cb_block_id b = bid \<and> content = JStr (cb_content b)"
proof -
  obtain s c where s: "as_str ''content'' content = Inr s" and c: "as_str ''call_id'' call_id = Inr c"
    using assms by (auto simp: dyn_block_def rbind_eq_Inr)
  have "call_id = JStr c" using c by (cases call_id) simp_all
  with json_tokens_str [OF s] show ?thesis
    using assms by (auto simp: dyn_block_def block_sound_def value_hash_def)
qed

lemma dyn_other: "dyn_block bid ty content meta ident call_id = Inr b \<Longrightarrow> ty \<noteq> TOOL_RESULT \<Longrightarrow> other_sound b"
  using dyn_block_sound by (simp add: other_sound_def is_result_def)

lemma plain_other: "plain_block bid ty content meta = Inr b \<Longrightarrow> ty \<noteq> TOOL_RESULT \<Longrightarrow> other_sound b"
  unfolding plain_block_def by (rule dyn_other)

lemma dyn_result:
  "dyn_block bid TOOL_RESULT content meta ident call_id = Inr b \<Longrightarrow> jget meta ''tool_use_id'' = call_id
    \<Longrightarrow> result_sound b"
  using dyn_block_sound [of bid TOOL_RESULT content meta ident call_id b]
  by (simp add: result_sound_def is_result_def)

text \<open>Parts of a text are never tool results.\<close>

lemma tag_type: "tag_to_block_type t \<noteq> TOOL_RESULT"
  by (simp add: tag_to_block_type_def Let_def)

lemma markdown_type: "ty \<noteq> TOOL_RESULT \<Longrightarrow> fst (markdown_to_block_info title i ty) \<noteq> TOOL_RESULT"
  by (simp add: markdown_to_block_info_def Let_def)

lemma text_block_type [simp]: "cb_block_type (text_block bid ty c meta ident) = ty"
  by (simp add: text_block_def)

lemma text_part_type: "b \<in> set (text_part ty meta s) \<Longrightarrow> cb_block_type b = ty"
  by (simp add: text_part_def split: if_splits)

lemma xml_loop_type:
  assumes "ty \<noteq> TOOL_RESULT"
    "\<And>pre m bs b. (pre, m, Some bs) \<in> set parts \<Longrightarrow> b \<in> set bs \<Longrightarrow> cb_block_type b \<noteq> TOOL_RESULT"
  shows "b \<in> set (xml_loop ty meta i parts) \<Longrightarrow> cb_block_type b \<noteq> TOOL_RESULT"
  using assms
proof (induction ty meta i parts rule: xml_loop.induct)
  case (2 ty meta i pre m kids rest)
  have rest: "(pre, m, Some bs) \<in> set rest \<Longrightarrow> b \<in> set bs \<Longrightarrow> cb_block_type b \<noteq> TOOL_RESULT" for pre m bs b
    using 2(5) [of pre m bs b] by simp
  have leaf: "cb_block_type (leaf_block meta i m) \<noteq> TOOL_RESULT"
    by (simp add: leaf_block_def Let_def tag_type)
  show ?case
  proof (cases kids)
    case None
    then show ?thesis using 2(1) [OF None _ 2(4) rest] 2(3,4) leaf text_part_type [of b ty meta pre] by auto
  next
    case (Some bs)
    then show ?thesis using 2(2) [OF Some _ 2(4) rest] 2(3,4) 2(5) [of pre m bs b] text_part_type [of b ty meta pre] by auto
  qed
qed simp

lemma decompose_xml_type:
  "ty \<noteq> TOOL_RESULT \<Longrightarrow> b \<in> set (decompose_xml_tags s ty meta) \<Longrightarrow> cb_block_type b \<noteq> TOOL_RESULT"
proof (induction s ty meta arbitrary: b rule: decompose_xml_tags.induct)
  case (1 s ty meta)
  show ?case
  proof (cases "has_tags s")
    case True
    have kids: "cb_block_type x \<noteq> TOOL_RESULT"
      if "(pre, m, Some bs) \<in> set (map (\<lambda>p. (fst p, snd p,
               if has_tags (tg_body (snd p))
               then Some (decompose_xml_tags (tg_body (snd p)) (tag_to_block_type (tg_tag (snd p)))
                      (AList.update ''parent_tag'' (JStr (tg_tag (snd p))) meta))
               else None)) (fst (tag_scan s)))" "x \<in> set bs" for pre m bs x
    proof -
      from that(1) obtain p where p: "p \<in> set (fst (tag_scan s))" "has_tags (tg_body (snd p))"
        "bs = decompose_xml_tags (tg_body (snd p)) (tag_to_block_type (tg_tag (snd p)))
                      (AList.update ''parent_tag'' (JStr (tg_tag (snd p))) meta)"
        by (auto split: if_splits)
      have "\<not> \<not> has_tags s" using True by simp
      from 1(1) [OF this p(1,2) tag_type] p(3) that(2) show ?thesis by blast
    qed
    let ?parts = "map (\<lambda>p. (fst p, snd p,
               if has_tags (tg_body (snd p))
               then Some (decompose_xml_tags (tg_body (snd p)) (tag_to_block_type (tg_tag (snd p)))
                      (AList.update ''parent_tag'' (JStr (tg_tag (snd p))) meta))
               else None)) (fst (tag_scan s))"
    have "b \<in> set (xml_loop ty meta 0 ?parts) \<or> b \<in> set (text_part ty meta (snd (tag_scan s)))"
      using 1(3) True by (subst (asm) decompose_xml_tags.simps) simp
    then show ?thesis
    proof
      assume "b \<in> set (xml_loop ty meta 0 ?parts)"
      then show ?thesis using xml_loop_type [OF 1(2), of ?parts b meta 0] kids by blast
    next
      assume "b \<in> set (text_part ty meta (snd (tag_scan s)))"
      then show ?thesis using text_part_type 1(2) by blast
    qed
  qed (use 1(3) in \<open>simp add: decompose_xml_tags.simps\<close>)
qed

lemma decompose_type:
  assumes "ty \<noteq> TOOL_RESULT" "b \<in> set (decompose s ty base meta)"
  shows "cb_block_type b \<noteq> TOOL_RESULT"
proof -
  have assign: "cb_block_type b \<noteq> TOOL_RESULT"
    if "b \<in> set (assign_block_ids bs base)" "\<And>x. x \<in> set bs \<Longrightarrow> cb_block_type x \<noteq> TOOL_RESULT" for bs
  proof -
    have many: "cb_block_type x \<noteq> TOOL_RESULT"
      if "x \<in> set (map (\<lambda>(i, b). b\<lparr>cb_block_id := base @ ''_'' @ show_nat i\<rparr>) (enumerate 0 bs))" for x
      using that \<open>\<And>x. x \<in> set bs \<Longrightarrow> cb_block_type x \<noteq> TOOL_RESULT\<close>
      by (auto simp: enumerate_eq_zip dest: set_zip_rightD)
    show ?thesis
    proof (cases "\<exists>x. bs = [x]")
      case True
      then show ?thesis using that by (auto simp: assign_block_ids_def)
    next
      case False
      then have "assign_block_ids bs base
          = map (\<lambda>(i, b). b\<lparr>cb_block_id := base @ ''_'' @ show_nat i\<rparr>) (enumerate 0 bs)"
        by (simp add: assign_block_ids_def split: list.splits)
      then show ?thesis using that(1) many by simp
    qed
  qed
  have md: "cb_block_type x \<noteq> TOOL_RESULT" if "x \<in> set (decompose_markdown_sections s ty meta)" for x
  proof -
    have "cb_block_type (section_block ty meta q) \<noteq> TOOL_RESULT" for q
      using markdown_type [OF assms(1)] by (cases q) (simp add: section_block_def Let_def split_beta)
    then show ?thesis using that text_part_type [of x ty meta] assms(1)
      by (auto simp: decompose_markdown_sections_def split: prod.splits if_splits)
  qed
  let ?x = "decompose_xml_tags s ty meta" and ?m = "decompose_markdown_sections s ty meta"
  have "b \<in> set (assign_block_ids ?x base) \<or> b \<in> set (assign_block_ids ?m base) \<or> cb_block_type b = ty"
    using assms(2) by (auto simp: decompose_def split: if_splits list.splits)
  then show ?thesis using assign decompose_xml_type [OF assms(1), of _ s meta] md assms(1) by metis
qed

lemma decompose_other: "ty \<noteq> TOOL_RESULT \<Longrightarrow> list_all other_sound (decompose s ty base meta)"
  using decompose_taken [of s ty base meta] decompose_type
  by (auto simp: list_all_iff other_sound_def block_sound_def is_result_def taken_from_def)

lemmas block_intros = plain_other dyn_other dyn_result

lemma decompose_value_yields [yields_intros]:
  "ty \<noteq> TOOL_RESULT \<Longrightarrow> yields other_sound (decompose_value v ty base meta)"
  by (cases v) (simp_all add: decompose_value_def yields_def decompose_other)

lemma raw_blocks_yields [yields_intros]: "yields other_sound (raw_blocks resp)"
  unfolding raw_blocks_def
  by (intro yields_intros; auto intro!: yields_intros intro: block_intros split: json.split)

definition placed_sound :: "placed \<Rightarrow> bool" where
  "placed_sound p = (case p of History b \<Rightarrow> other_sound b | Result b \<Rightarrow> result_sound b)"

lemma placed_simps [simp]:
  "placed_sound (History b) = other_sound b" "placed_sound (Result b) = result_sound b"
  by (simp_all add: placed_sound_def)

definition slot_sound :: "slot \<Rightarrow> bool" where
  "slot_sound p = (case p of ToResults b \<Rightarrow> result_sound b | ToSystem b \<Rightarrow> other_sound b | ToHistory b \<Rightarrow> other_sound b)"

lemma slot_simps [simp]:
  "slot_sound (ToResults b) = result_sound b" "slot_sound (ToSystem b) = other_sound b"
  "slot_sound (ToHistory b) = other_sound b"
  by (simp_all add: slot_sound_def)

definition parts_sound :: "turn_parts \<Rightarrow> bool" where
  "parts_sound p \<longleftrightarrow> list_all other_sound (pt_system p @ pt_tools p @ pt_history p @ pt_assistant p)
     \<and> list_all result_sound (pt_results p)"

lemma role_type_other [simp]: "role_type r \<noteq> TOOL_RESULT"
  by (simp add: role_type_def)

lemma history_sound: "list_all placed_sound ps \<Longrightarrow> list_all other_sound (history_of ps)"
  by (induction ps) (auto simp: history_of_def map_filter_simps split: placed.splits)

lemma results_sound: "list_all placed_sound ps \<Longrightarrow> list_all result_sound (results_of ps)"
  by (induction ps) (auto simp: results_of_def map_filter_simps split: placed.splits)

lemma slots_sound:
  assumes "list_all slot_sound ps"
  shows "list_all other_sound (slot_system ps)" "list_all other_sound (slot_history ps)"
    "list_all result_sound (slot_results ps)"
  using assms
  by (induction ps) (auto simp: slot_system_def slot_history_def slot_results_def map_filter_simps split: slot.splits)

lemma jget_Cons: "jget ((k, v) # d) k' = (if k' = k then v else jget d k')"
  by (simp add: jget_def dict_get_def)

subsection \<open>Anthropic\<close>

lemma anthropic_system_yields [yields_intros]: "yields other_sound (anthropic_system req)"
  by (auto simp: anthropic_system_def system_of_part_def split_beta Let_def
      intro!: yields_intros split: json.split)

lemma anthropic_tool_yields [yields_intros]: "yields other_sound (anthropic_tool i tool)"
  unfolding anthropic_tool_def by (intro yields_intros) (auto intro: block_intros)

lemma anthropic_part_yields [yields_intros]: "yields placed_sound (anthropic_part role i j part)"
proof -
  have r: "yields placed_sound (anthropic_result i j d)" for d
    unfolding anthropic_result_def Let_def
    by (intro yields_intros) (auto intro!: dyn_result simp: jget_Cons)
  have u: "yields placed_sound (anthropic_tool_use role i j d)" for d
    unfolding anthropic_tool_use_def Let_def by (intro yields_intros) (auto intro: block_intros)
  have t: "yields placed_sound (anthropic_thinking role i j d)" for d
    unfolding anthropic_thinking_def by (intro yields_intros) (auto intro: block_intros)
  have h: "yields placed_sound (place History (plain_block bid (role_type role) c m))" for bid c m
    by (intro yields_intros) (auto intro!: plain_other)
  show ?thesis
    unfolding anthropic_part_def Let_def using r u t h by (auto split: json.split)
qed

lemma anthropic_message_yields [yields_intros]: "yields placed_sound (anthropic_message i msg)"
  unfolding anthropic_message_def
  by (intro yields_intros) (auto intro!: yields_intros plain_other split: json.split)

lemma anthropic_response_yields [yields_intros]: "yields other_sound (anthropic_response resp)"
proof -
  have o: "yields other_sound (anthropic_response_object i d)" for i d
    unfolding anthropic_response_object_def Let_def by (intro yields_intros) (auto intro: block_intros)
  have b: "yields other_sound (anthropic_response_block i blk)" for i blk
    unfolding anthropic_response_block_def using o
    by (auto intro!: yields_intros intro: block_intros split: json.split)
  show ?thesis
    unfolding anthropic_response_def using b
    by (auto intro!: yields_intros intro: block_intros split: json.split)
qed

lemma anthropic_parts_sound:
  assumes "anthropic_parts req resp = Inr p"
  shows "parts_sound p"
proof -
  obtain sys tools msgs out where r: "anthropic_system req = Inr sys"
    "each_item (jget_or req ''tools'' (JArr [])) anthropic_tool = Inr tools"
    "each_item (jget_or req ''messages'' (JArr [])) anthropic_message = Inr msgs"
    "anthropic_response resp = Inr out"
    and p: "p = \<lparr>pt_system = sys, pt_tools = tools, pt_history = history_of msgs,
            pt_results = results_of msgs, pt_assistant = out\<rparr>"
    using assms by (auto simp: anthropic_parts_def rbind_eq_Inr)
  have "yields other_sound (anthropic_system req)" "yields other_sound (anthropic_response resp)"
    "yields other_sound (each_item (jget_or req ''tools'' (JArr [])) anthropic_tool)"
    "yields placed_sound (each_item (jget_or req ''messages'' (JArr [])) anthropic_message)"
    by (intro yields_intros)+
  then show ?thesis
    by (simp add: r p parts_sound_def yields_def history_sound results_sound)
qed

subsection \<open>OpenAI\<close>

lemma put_system: "yields other_sound r \<Longrightarrow> yields slot_sound (put ToSystem r)"
  and put_history: "yields other_sound r \<Longrightarrow> yields slot_sound (put ToHistory r)"
  and put_results: "yields result_sound r \<Longrightarrow> yields slot_sound (put ToResults r)"
  by (auto intro: yields_put)

lemma openai_tool_yields [yields_intros]: "yields other_sound (openai_tool i tool)"
  unfolding openai_tool_def by (intro yields_intros) (auto intro: block_intros)

lemma assistant_text_yields [yields_intros]: "yields other_sound (assistant_text bid s meta)"
  unfolding assistant_text_def by (intro yields_intros) (auto intro: block_intros decompose_other)

lemma reasoning_block_yields [yields_intros]: "yields other_sound (reasoning_block bid i r)"
  unfolding reasoning_block_def by (intro yields_intros) (auto intro: block_intros)

lemma calls_yields [yields_intros]:
  "yields other_sound (history_call i j tc)" "yields other_sound (response_call i j tc)"
  unfolding history_call_def response_call_def by (intro yields_intros; auto intro: block_intros)+

lemma openai_message_yields [yields_intros]: "yields slot_sound (openai_message i msg)"
proof -
  have a: "yields other_sound (openai_assistant_message i msg c)" for c
    unfolding openai_assistant_message_def by (intro yields_intros)
  have u: "yields other_sound (openai_user_message i role c)" for role c
    unfolding openai_user_message_def by (auto intro!: yields_intros split: json.split)
  have t: "yields result_sound (openai_tool_message i msg c)" for c
    unfolding openai_tool_message_def by (intro yields_intros) (auto intro!: dyn_result simp: jget_Cons)
  show ?thesis
    unfolding openai_message_def
    by (intro yields_intros put_system put_history put_results a u t) simp
qed

lemma openai_response_yields [yields_intros]: "yields other_sound (openai_response resp)"
proof -
  have c: "yields other_sound (openai_choice_blocks i c)" for i c
    unfolding openai_choice_blocks_def by (auto intro!: yields_intros split: json.split)
  show ?thesis
    unfolding openai_response_def using c by (auto intro!: yields_intros split: json.split list.split)
qed

lemma openai_parts_sound:
  assumes "openai_parts req resp = Inr p"
  shows "parts_sound p"
proof -
  obtain tools msgs out where r: "each_item (jget_or req ''tools'' (JArr [])) openai_tool = Inr tools"
    "each_item (jget_or req ''messages'' (JArr [])) openai_message = Inr msgs"
    "openai_response resp = Inr out"
    and p: "p = \<lparr>pt_system = slot_system msgs, pt_tools = tools, pt_history = slot_history msgs,
            pt_results = slot_results msgs, pt_assistant = out\<rparr>"
    using assms by (auto simp: openai_parts_def rbind_eq_Inr)
  have "yields other_sound (openai_response resp)"
    "yields other_sound (each_item (jget_or req ''tools'' (JArr [])) openai_tool)"
    "yields slot_sound (each_item (jget_or req ''messages'' (JArr [])) openai_message)"
    by (intro yields_intros)+
  then show ?thesis
    by (simp add: r p parts_sound_def yields_def slots_sound)
qed

subsection \<open>Gemini\<close>

lemma gemini_system_yields [yields_intros]: "yields other_sound (gemini_system req)"
  unfolding gemini_system_def Let_def by (auto intro!: yields_intros split: json.split)

lemma gemini_tool_yields [yields_intros]: "yields other_sound (gemini_tool i tool)"
proof -
  have d: "yields other_sound (gemini_declaration i j fn)" for j fn
    unfolding gemini_declaration_def by (intro yields_intros) (auto intro: block_intros)
  show ?thesis
    unfolding gemini_tool_def using d
    by (auto intro!: yields_intros intro: block_intros split: json.split list.split)
qed

lemma model_text_yields [yields_intros]: "yields other_sound (model_text bid v meta)"
  unfolding model_text_def
  by (auto intro!: yields_intros intro: block_intros decompose_other split: json.split)

lemma gemini_content_yields [yields_intros]: "yields placed_sound (gemini_content i item)"
proof -
  have r: "yields placed_sound (gemini_result role i j d)" for role j d
    unfolding gemini_result_def Let_def
    by (intro yields_intros) (auto intro!: dyn_result simp: jget_Cons)
  have c: "yields placed_sound (gemini_history_call role i j d)" for role j d
    unfolding gemini_history_call_def Let_def by (intro yields_intros) (auto intro: block_intros)
  have "yields other_sound (gemini_text role i j d)" for role j d
    unfolding gemini_text_def Let_def by (intro yields_intros) (auto intro: block_intros)
  then have t: "yields placed_sound (rbind (gemini_text role i j d) (\<lambda>bs. Inr (map History bs)))" for role j d
    by (auto simp: yields_def rbind_eq_Inr list_all_iff)
  have p: "yields placed_sound (gemini_content_part role i j part)" for role j part
    unfolding gemini_content_part_def using r c t
    by (auto intro!: yields_intros plain_other split: json.split)
  then show ?thesis unfolding gemini_content_def by (intro yields_intros)
qed

lemma gemini_response_yields [yields_intros]: "yields other_sound (gemini_response resp)"
proof -
  have k: "yields other_sound (gemini_response_call i j d)" for i j d
    unfolding gemini_response_call_def Let_def by (intro yields_intros) (auto intro: block_intros)
  have p: "yields other_sound (gemini_response_part i j part)" for i j part
    unfolding gemini_response_part_def Let_def using k
    by (auto intro!: yields_intros intro: block_intros split: json.split)
  then have "yields other_sound (gemini_candidate_blocks i c)" for i c
    unfolding gemini_candidate_blocks_def by (intro yields_intros)
  then show ?thesis
    unfolding gemini_response_def by (auto intro!: yields_intros split: json.split list.split)
qed

lemma gemini_parts_sound:
  assumes "gemini_parts req resp = Inr p"
  shows "parts_sound p"
proof -
  obtain sys tools msgs out where r: "gemini_system req = Inr sys"
    "each_item (jget_or req ''tools'' (JArr [])) gemini_tool = Inr tools"
    "each_item (jget_or req ''contents'' (JArr [])) gemini_content = Inr msgs"
    "gemini_response resp = Inr out"
    and p: "p = \<lparr>pt_system = sys, pt_tools = tools, pt_history = history_of msgs,
            pt_results = results_of msgs, pt_assistant = out\<rparr>"
    using assms by (auto simp: gemini_parts_def rbind_eq_Inr)
  have "yields other_sound (gemini_system req)" "yields other_sound (gemini_response resp)"
    "yields other_sound (each_item (jget_or req ''tools'' (JArr [])) gemini_tool)"
    "yields placed_sound (each_item (jget_or req ''contents'' (JArr [])) gemini_content)"
    by (intro yields_intros)+
  then show ?thesis
    by (simp add: r p parts_sound_def yields_def history_sound results_sound)
qed

subsection \<open>The turn\<close>

lemma build_turn_blocks:
  assumes "build_turn m p = Inr t"
  shows "ct_system_blocks t = pt_system p \<and> ct_tool_defs t = pt_tools p
    \<and> ct_conversation_history t = pt_history p \<and> ct_tool_results t = pt_results p
    \<and> ct_assistant_blocks t = pt_assistant p"
  using assms by (auto simp: build_turn_def rbind_eq_Inr split: prod.splits)

lemma normalize_sound:
  assumes "normalize_turn n now raw i = Inr t"
  shows "(\<forall>b\<in>set (all_blocks t). block_sound b)
    \<and> filter is_result (all_blocks t) = ct_tool_results t
    \<and> (\<forall>b\<in>set (ct_tool_results t). jget (cb_metadata b) ''tool_use_id'' = JStr (cb_call_id b))"
proof -
  obtain m p where t: "build_turn m p = Inr t" and p: "parts_sound p"
    using assms anthropic_parts_sound openai_parts_sound gemini_parts_sound
    by (cases n)
       (auto simp: anthropic_normalize_def openai_normalize_def gemini_normalize_def rbind_eq_Inr Let_def split_beta)
  have o: "filter is_result bs = []" if "list_all other_sound bs" for bs
    using that by (auto simp: list_all_iff other_sound_def filter_empty_conv)
  have r: "filter is_result bs = bs" if "list_all result_sound bs" for bs
    using that by (auto simp: list_all_iff result_sound_def filter_id_conv)
  show ?thesis
    using build_turn_blocks [OF t] p o r
    by (auto simp: parts_sound_def all_blocks_def list_all_iff other_sound_def result_sound_def)
qed

text \<open>The members of a tool definition may come in any order.\<close>

lemma tool_member_order:
  assumes "distinct (map fst d)" "mset d = mset e"
  shows "anthropic_tool i (JObj d) = anthropic_tool i (JObj e)"
    and "openai_tool i (JObj d) = openai_tool i (JObj e)"
    and "gemini_declaration i j (JObj d) = gemini_declaration i j (JObj e)"
proof -
  have m: "map_of d = map_of e"
    using assms by (metis distinct_map map_of_inject_set mset_eq_imp_distinct_iff mset_eq_setD mset_map)
  have get: "py_get (JObj d) k v = py_get (JObj e) k v" for k v
    by (simp add: dict_get_def m)
  have dump: "json_dumps_sorted (JObj d) = json_dumps_sorted (JObj e)"
    by (rule sorted_text_order [OF assms])
  show "anthropic_tool i (JObj d) = anthropic_tool i (JObj e)"
    by (simp only: anthropic_tool_def get dump)
  show "gemini_declaration i j (JObj d) = gemini_declaration i j (JObj e)"
    by (simp only: gemini_declaration_def get dump)
  show "openai_tool i (JObj d) = openai_tool i (JObj e)"
    using get dump
    by (cases "py_get (JObj e) ''type'' JNull") (simp_all add: openai_tool_def del: py_get_JObj)
qed

text \<open>A request with one tool result, run through the normalizer.\<close>

lemma base_fields_cases:
  assumes "case r of Inr (m, req, resp) \<Rightarrow> req = a \<and> resp = b \<and> P m | _ \<Rightarrow> False"
  shows "\<exists>m. r = Inr (m, a, b) \<and> P m"
  using assms by (cases r) auto

lemma sample_result_turn:
  shows "\<exists>t. normalize_turn AnthropicNorm 0 (RawDict [(''request'', JObj [(''messages'', JArr [JObj
      [(''role'', JStr ''user''), (''content'', JArr [JObj [(''type'', JStr ''tool_result''),
        (''tool_use_id'', JStr ''c1''), (''content'', JStr ''ok'')]])]])])]) None = Inr t
    \<and> length (ct_tool_results t) = 1"
proof -
  let ?part = "JObj [(''type'', JStr ''tool_result''), (''tool_use_id'', JStr ''c1''), (''content'', JStr ''ok'')]"
  let ?req = "[(''messages'', JArr [JObj [(''role'', JStr ''user''), (''content'', JArr [?part])]])]"
  let ?base = "extract_base_fields 0 (RawDict [(''request'', JObj ?req)]) None ''anthropic''"
  note get = jget_def jget_or_def dict_get_def jhas_def
  obtain b where "anthropic_part (JStr ''user'') 0 0 ?part = Inr [Result b]"
    by (simp add: anthropic_part_def anthropic_result_def place_def dyn_block_def json_tokens_def
        dump_or_str_def is_obj_def is_arr_def get)
  then have "anthropic_message 0 (JObj [(''role'', JStr ''user''), (''content'', JArr [?part])]) = Inr [Result b]"
    by (simp add: anthropic_message_def each_item_def py_iter_def rcollect_def get)
  then have parts: "anthropic_parts ?req [] = Inr \<lparr>pt_system = [], pt_tools = [], pt_history = [], pt_results = [b], pt_assistant = []\<rparr>"
    by (simp add: anthropic_parts_def anthropic_system_def decompose_value_def each_item_def py_iter_def rcollect_def
        anthropic_response_def raw_blocks_def history_of_def results_of_def map_filter_simps get)
  have "case ?base of Inr (m, req, resp) \<Rightarrow> req = ?req \<and> resp = [] \<and> nm_usage m = JObj [] \<and> nm_timing m = JObj []
     \<and> nm_turn_id m = JStr ''turn_0'' \<and> nm_correlation_id m = JStr ''turn_0''
     \<and> nm_provider m = JStr ''anthropic'' \<and> nm_model m = JStr ''unknown'' | _ \<Rightarrow> False"
    by code_simp
  from base_fields_cases [OF this] obtain m where base: "?base = Inr (m, ?req, [])"
    and m: "nm_usage m = JObj []" "nm_timing m = JObj []"
      "nm_turn_id m = JStr ''turn_0''" "nm_correlation_id m = JStr ''turn_0''"
      "nm_provider m = JStr ''anthropic''" "nm_model m = JStr ''unknown''"
    by (elim exE conjE)
  from m show ?thesis
    by (simp add: anthropic_normalize_def base parts build_turn_def parse_usage_def parse_timing_def present_def get)
qed

end
