(* ===== verification/Detect.thy ===== *)
theory Detect
  imports PyValue
begin

text \<open>
  \<open>src/interceptor/detection/process_detector.py\<close>: which agent a connection comes from. What the
  operating system answers (the output of \<open>lsof\<close> and \<open>ps\<close>, the files under \<open>/proc\<close>) is the
  argument \<open>os\<close>; everything the detector does with the answers is written out: the parsers, the
  cache, the recognition of the agents and the fallback to the request headers.
\<close>

record process_info =
  pi_pid :: int
  pi_name :: string
  pi_cmdline :: string
  pi_cwd :: "string option"

definition process_info_to_dict :: "process_info \<Rightarrow> jdict" where
  "process_info_to_dict p =
     [(''pid'', JInt (pi_pid p)), (''name'', JStr (pi_name p)), (''cmdline'', JStr (pi_cmdline p)),
      (''cwd'', jopt JStr (pi_cwd p))]"

record agent_identity =
  ai_name :: string
  ai_display_name :: string
  ai_is_known :: bool
  ai_pid :: "int option"
  ai_command :: "string option"
  ai_confidence :: rat
  ai_detection_source :: string
  ai_process_info :: "process_info option"

definition agent_identity_to_dict :: "agent_identity \<Rightarrow> jdict" where
  "agent_identity_to_dict a =
     [(''name'', JStr (ai_name a)), (''displayName'', JStr (ai_display_name a)),
      (''isKnown'', JBool (ai_is_known a)), (''pid'', jopt JInt (ai_pid a)),
      (''command'', jopt JStr (ai_command a)), (''confidence'', JFloat (ai_confidence a)),
      (''detectionSource'', JStr (ai_detection_source a)),
      (''process'', jopt (\<lambda>p. JObj (process_info_to_dict p)) (ai_process_info a))]"

subsection \<open>The operating system\<close>

text \<open>
  \<^const>\<open>None\<close> stands for a command or file that is missing or fails. \<open>os_procs\<close> are the numeric
  directories of \<open>/proc\<close> with the links of their file descriptors.
\<close>

record os_view =
  os_mypid :: int
  os_lsof_port :: "int \<Rightarrow> string option"
  os_cmdline_file :: "int \<Rightarrow> string option"
  os_ps_args :: "int \<Rightarrow> string option"
  os_cwd_link :: "int \<Rightarrow> string option"
  os_lsof_cwd :: "int \<Rightarrow> string option"
  os_tcp_lines :: "string list option"
  os_procs :: "(int \<times> string list) list"
  os_ps_all :: "string option"

definition ascii_strip :: "string \<Rightarrow> string" where
  "ascii_strip s =
     (let ws = (\<lambda>c. c \<in> set [CHR 0x09, CHR 0x0A, CHR 0x0B, CHR 0x0C, CHR 0x0D, CHR '' ''])
      in rev (dropWhile ws (rev (dropWhile ws s))))"

definition get_cmdline_for_pid :: "os_view \<Rightarrow> int \<Rightarrow> string option" where
  "get_cmdline_for_pid os pid =
     (case nonempty (map_option (ascii_strip \<circ> replace_char (CHR 0x00) (CHR '' '')) (os_cmdline_file os pid)) of
        Some s \<Rightarrow> Some s
      | None \<Rightarrow> nonempty (map_option str_strip (os_ps_args os pid)))"

definition tagged_line :: "char \<Rightarrow> string \<Rightarrow> bool" where
  "tagged_line c line \<longleftrightarrow> starts_with [c] line \<and> 1 < length line"

definition get_cwd_for_pid :: "os_view \<Rightarrow> int \<Rightarrow> string option" where
  "get_cwd_for_pid os pid =
     (case os_cwd_link os pid of
        Some s \<Rightarrow> Some s
      | None \<Rightarrow>
          (case os_lsof_cwd os pid of
             None \<Rightarrow> None
           | Some out \<Rightarrow> map_option (\<lambda>l. str_strip (tl l)) (find (tagged_line CHR ''n'') (str_lines out))))"

subsection \<open>Recognising an agent\<close>

text \<open>\<open>re.search(r"(^|[/\s])w(\s|$)", s)\<close>.\<close>

fun word_from :: "string \<Rightarrow> bool \<Rightarrow> string \<Rightarrow> bool" where
  "word_from w start s \<longleftrightarrow>
     start \<and> starts_with w s \<and> (case drop (length w) s of [] \<Rightarrow> True | c # _ \<Rightarrow> is_space c)
     \<or> (case s of [] \<Rightarrow> False | c # t \<Rightarrow> word_from w (c = CHR ''/'' \<or> is_space c) t)"

declare word_from.simps [simp del]

definition has_word :: "string \<Rightarrow> string \<Rightarrow> bool" where
  "has_word w s = word_from w True s"

definition process_agent :: "string \<Rightarrow> string \<Rightarrow> bool \<Rightarrow> rat \<Rightarrow> process_info \<Rightarrow> agent_identity" where
  "process_agent name display known confidence p =
     \<lparr>ai_name = name, ai_display_name = display, ai_is_known = known, ai_pid = Some (pi_pid p),
      ai_command = Some (pi_cmdline p), ai_confidence = confidence,
      ai_detection_source = ''process'', ai_process_info = Some p\<rparr>"

definition identify_from_process :: "process_info \<Rightarrow> agent_identity" where
  "identify_from_process p =
     (let cmdline = str_lower (pi_cmdline p); comm = str_lower (pi_name p)
      in if comm \<in> set [''agy'', ''antigravity'', ''antigravity-cli''] \<or> has_word ''agy'' cmdline
            \<or> str_in ''antigravity'' cmdline
         then process_agent ''agy'' ''Antigravity (agy)'' True 1 p
         else if comm = ''claude'' \<or> str_in ''claude-code'' cmdline
            \<or> str_in ''@anthropic-ai/claude-code'' cmdline \<or> has_word ''claude'' cmdline
         then process_agent ''claude-code'' ''Claude Code'' True 1 p
         else if comm = ''aider'' \<or> has_word ''aider'' cmdline \<or> str_in ''python -m aider'' cmdline
            \<or> str_in ''python3 -m aider'' cmdline
         then process_agent ''aider'' ''Aider'' True 1 p
         else if comm = ''opencode'' \<or> str_in ''opencode'' cmdline
         then process_agent ''opencode'' ''OpenCode'' True 1 p
         else if comm = ''pi'' \<or> has_word ''pi'' cmdline
         then process_agent ''pi'' ''Pi'' True (fl (9/10)) p
         else process_agent ''custom'' (''Process: '' @ pi_name p) False (fl (7/10)) p)"

definition header_agent :: "string \<Rightarrow> string \<Rightarrow> rat \<Rightarrow> agent_identity" where
  "header_agent name display confidence =
     \<lparr>ai_name = name, ai_display_name = display, ai_is_known = True, ai_pid = None,
      ai_command = None, ai_confidence = confidence, ai_detection_source = ''header'',
      ai_process_info = None\<rparr>"

text \<open>\<open>{k.lower(): v for k, v in headers.items()}\<close>.\<close>

definition lower_keys :: "(string \<times> 'v) list \<Rightarrow> (string, 'v) dict" where
  "lower_keys hs = foldl (\<lambda>d (k, v). AList.update (str_lower k) v d) [] hs"

definition identify_from_headers :: "(string, string) dict \<Rightarrow> agent_identity option" where
  "identify_from_headers headers =
     (let hl = lower_keys headers;
          ua = str_lower (dict_get hl ''user-agent'' []);
          client = str_lower (dict_get hl ''anthropic-client'' [])
      in if str_in ''claude-code'' ua \<or> str_in ''claude-code'' client
         then Some (header_agent ''claude-code'' ''Claude Code'' (fl (9/10)))
         else if str_in ''antigravity'' ua then Some (header_agent ''agy'' ''Antigravity (agy)'' (fl (9/10)))
         else if str_in ''aider'' ua then Some (header_agent ''aider'' ''Aider'' (fl (9/10)))
         else if str_in ''opencode'' ua then Some (header_agent ''opencode'' ''OpenCode'' (fl (9/10)))
         else if str_in ''pi-agent'' ua \<or> str_in ''pi/'' ua
         then Some (header_agent ''pi'' ''Pi'' (fl (8/10)))
         else None)"

subsection \<open>The process behind a port\<close>

text \<open>The fields of \<open>lsof -F pc\<close>: a process line, then its command line.\<close>

fun lsof_step :: "int \<Rightarrow> int option \<times> (int \<times> string) list \<Rightarrow> string \<Rightarrow> int option \<times> (int \<times> string) list" where
  "lsof_step my (pid, cands) line =
     (if tagged_line CHR ''p'' line then
        ((case int_of_str (tl line) of Inr n \<Rightarrow> Some n | Inl _ \<Rightarrow> None), cands)
      else if tagged_line CHR ''c'' line then
        (case pid of
           None \<Rightarrow> (pid, cands)
         | Some n \<Rightarrow> (pid, if n \<noteq> my then cands @ [(n, str_strip (tl line))] else cands))
      else (pid, cands))"

definition lsof_candidates :: "int \<Rightarrow> string \<Rightarrow> (int \<times> string) list" where
  "lsof_candidates my out = snd (foldl (lsof_step my) (None, []) (str_lines out))"

definition skip_any :: "string list \<Rightarrow> string \<Rightarrow> bool" where
  "skip_any ws s = list_ex (\<lambda>w. str_in w s) ws"

definition candidate_process :: "os_view \<Rightarrow> int \<times> string \<Rightarrow> process_info option" where
  "candidate_process os = (\<lambda>(pid, comm).
     let cmdline = (case get_cmdline_for_pid os pid of
                      Some s \<Rightarrow> s
                    | None \<Rightarrow> if comm \<noteq> [] then comm else ''pid_'' @ show_int pid)
     in if skip_any [''mitmdump'', ''mitmproxy'', ''ctxins''] (str_lower cmdline) then None
        else Some \<lparr>pi_pid = pid, pi_name = comm, pi_cmdline = cmdline, pi_cwd = get_cwd_for_pid os pid\<rparr>)"

definition lookup_via_lsof :: "os_view \<Rightarrow> int \<Rightarrow> process_info option" where
  "lookup_via_lsof os port =
     (case os_lsof_port os port of
        None \<Rightarrow> None
      | Some out \<Rightarrow>
          (let procs = List.map_filter (candidate_process os) (lsof_candidates (os_mypid os) out)
           in case find (\<lambda>p. ai_is_known (identify_from_process p)) procs of
                Some p \<Rightarrow> Some p
              | None \<Rightarrow> (case procs of [] \<Rightarrow> None | p # _ \<Rightarrow> Some p)))"

text \<open>\<open>f"{port:04X}"\<close>.\<close>

definition hex_upper :: "nat \<Rightarrow> char" where
  "hex_upper n = (if n < 10 then char_of (48 + n) else char_of (55 + n))"

fun hex_of :: "nat \<Rightarrow> string" where
  "hex_of n = (if n < 16 then [hex_upper n] else hex_of (n div 16) @ [hex_upper (n mod 16)])"

declare hex_of.simps [simp del]

definition port_hex :: "int \<Rightarrow> string" where
  "port_hex port = (let h = hex_of (nat port) in replicate (4 - length h) CHR ''0'' @ h)"

definition socket_inode :: "int \<Rightarrow> string list \<Rightarrow> string option" where
  "socket_inode port rows =
     (let suffix = CHR '':'' # port_hex port
      in map_option (\<lambda>parts. parts ! 9)
           (find (\<lambda>parts. 10 \<le> length parts \<and> starts_with (rev suffix) (rev (parts ! 1)))
             (map (\<lambda>line. split_words (length line) line) (tl rows))))"

definition lookup_via_procfs :: "os_view \<Rightarrow> int \<Rightarrow> process_info option" where
  "lookup_via_procfs os port =
     (case os_tcp_lines os of
        None \<Rightarrow> None
      | Some rows \<Rightarrow>
          (case nonempty (socket_inode port rows) of
             None \<Rightarrow> None
           | Some inode \<Rightarrow>
               map_option (\<lambda>(pid, _). \<lparr>pi_pid = pid, pi_name = show_int pid,
                   pi_cmdline = (case get_cmdline_for_pid os pid of Some s \<Rightarrow> s | None \<Rightarrow> ''pid_'' @ show_int pid),
                   pi_cwd = get_cwd_for_pid os pid\<rparr>)
                 (find (\<lambda>(_, links). list_ex (str_in (''socket:['' @ inode @ '']'')) links) (os_procs os))))"

record detector =
  dt_cache_ttl :: rat
  dt_port_cache :: "(string \<times> int, rat \<times> process_info option) dict"

definition new_detector :: "rat \<Rightarrow> detector" where
  "new_detector ttl = \<lparr>dt_cache_ttl = ttl, dt_port_cache = []\<rparr>"

definition resolve_port :: "os_view \<Rightarrow> int \<Rightarrow> process_info option" where
  "resolve_port os port =
     (case lookup_via_lsof os port of Some p \<Rightarrow> Some p | None \<Rightarrow> lookup_via_procfs os port)"

definition lookup_by_port :: "os_view \<Rightarrow> rat \<Rightarrow> int \<Rightarrow> string \<Rightarrow> detector
    \<Rightarrow> process_info option \<times> detector" where
  "lookup_by_port os now port ip d =
     (if port \<le> 0 then (None, d)
      else
        (let fresh = (let p = resolve_port os port
                      in (p, d\<lparr>dt_port_cache := AList.update (ip, port) (now, p) (dt_port_cache d)\<rparr>))
         in case map_of (dt_port_cache d) (ip, port) of
              Some (ts, cached) \<Rightarrow> if fsub now ts < dt_cache_ttl d then (cached, d) else fresh
            | None \<Rightarrow> fresh))"

definition unknown_agent :: agent_identity where
  "unknown_agent =
     \<lparr>ai_name = ''unknown'', ai_display_name = ''Unknown Agent'', ai_is_known = False, ai_pid = None,
      ai_command = None, ai_confidence = 0, ai_detection_source = ''none'', ai_process_info = None\<rparr>"

definition header_identity :: "(string, string) dict option \<Rightarrow> agent_identity option" where
  "header_identity headers =
     (case headers of Some (h # hs) \<Rightarrow> identify_from_headers (h # hs) | _ \<Rightarrow> None)"

definition hybrid :: "process_info \<Rightarrow> agent_identity \<Rightarrow> agent_identity" where
  "hybrid p a = a\<lparr>ai_pid := Some (pi_pid p), ai_command := Some (pi_cmdline p),
     ai_process_info := Some p, ai_confidence := fl (95/100), ai_detection_source := ''hybrid''\<rparr>"

definition identify_client :: "os_view \<Rightarrow> rat \<Rightarrow> string option \<Rightarrow> int option
    \<Rightarrow> (string, string) dict option \<Rightarrow> detector \<Rightarrow> agent_identity \<times> detector" where
  "identify_client os now ip port headers d =
     (let (proc, d') = (case port of
            Some n \<Rightarrow> if 0 < n then
                lookup_by_port os now n (case nonempty ip of Some s \<Rightarrow> s | None \<Rightarrow> ''127.0.0.1'') d
              else (None, d)
          | None \<Rightarrow> (None, d))
      in case proc of
           Some p \<Rightarrow>
             (let identity = identify_from_process p
              in (if ai_is_known identity then identity
                  else case header_identity headers of
                         Some a \<Rightarrow> if ai_is_known a then hybrid p a else identity
                       | None \<Rightarrow> identity, d'))
         | None \<Rightarrow>
             (case header_identity headers of Some a \<Rightarrow> (a, d') | None \<Rightarrow> (unknown_agent, d')))"

definition scan_line :: "int \<Rightarrow> string \<Rightarrow> agent_identity option" where
  "scan_line my line =
     (case split_words 2 (str_strip line) of
        pid # comm # rest \<Rightarrow>
          (case int_of_str pid of
             Inl _ \<Rightarrow> None
           | Inr n \<Rightarrow>
               (let args = (case rest of a # _ \<Rightarrow> a | [] \<Rightarrow> comm)
                in if n = my \<or> skip_any [''grep'', ''pytest'', ''test_'', ''ruff'', ''mypy'', ''ctxins'']
                       (str_lower args) then None
                   else
                     (let a = identify_from_process
                        \<lparr>pi_pid = n, pi_name = comm, pi_cmdline = args, pi_cwd = None\<rparr>
                      in if ai_is_known a then Some a else None)))
      | _ \<Rightarrow> None)"

definition scan_running_agents :: "os_view \<Rightarrow> agent_identity list" where
  "scan_running_agents os =
     (case os_ps_all os of
        None \<Rightarrow> []
      | Some out \<Rightarrow> List.map_filter (scan_line (os_mypid os)) (str_lines out))"

subsection \<open>Identities\<close>

definition known_agents :: "string list" where
  "known_agents = [''agy'', ''claude-code'', ''aider'', ''opencode'', ''pi'']"

text \<open>The fields of an identity agree with each other.\<close>

definition identity_ok :: "agent_identity \<Rightarrow> bool" where
  "identity_ok a \<longleftrightarrow>
     (ai_is_known a \<longleftrightarrow> ai_name a \<in> set known_agents)
     \<and> ai_pid a = map_option pi_pid (ai_process_info a)
     \<and> ai_command a = map_option pi_cmdline (ai_process_info a)
     \<and> (ai_process_info a \<noteq> None \<longleftrightarrow> ai_detection_source a \<in> {''process'', ''hybrid''})"

lemma process_agent_ok:
  "(known \<longleftrightarrow> name \<in> set known_agents) \<Longrightarrow> identity_ok (process_agent name display known conf p)"
  by (simp add: identity_ok_def process_agent_def)

lemma process_identity_ok: "identity_ok (identify_from_process p)"
  by (simp add: identify_from_process_def Let_def process_agent_ok known_agents_def)

lemma header_agent_ok: "name \<in> set known_agents \<Longrightarrow> identity_ok (header_agent name display conf)"
  by (simp add: identity_ok_def header_agent_def)

lemma header_agents:
  "identify_from_headers hs = Some a \<Longrightarrow> \<exists>name display conf. name \<in> set known_agents \<and> a = header_agent name display conf"
  by (fastforce simp: identify_from_headers_def Let_def known_agents_def split: if_split_asm)

lemma header_agent_known [simp]: "ai_is_known (header_agent name display conf)"
  by (simp add: header_agent_def)

lemma header_identity_ok: "header_identity hs = Some a \<Longrightarrow> identity_ok a \<and> ai_is_known a"
  by (auto simp: header_identity_def header_agent_ok split: option.splits list.splits dest!: header_agents)

lemma hybrid_ok: "identity_ok a \<Longrightarrow> identity_ok (hybrid p a)"
  by (simp add: identity_ok_def hybrid_def)

lemma unknown_agent_ok: "identity_ok unknown_agent"
  by (simp add: identity_ok_def unknown_agent_def known_agents_def)

lemma identify_client_ok: "identity_ok (fst (identify_client os now ip port headers d))"
  using header_identity_ok process_identity_ok unknown_agent_ok
  by (auto simp: identify_client_def Let_def hybrid_ok split: prod.splits option.splits)

text \<open>A fresh answer is served from the cache until it is as old as the time to live.\<close>

lemma cached_lookup:
  assumes "0 < port" "lookup_by_port os now port ip d = (p, d')" "map_of (dt_port_cache d) (ip, port) = None"
    "fsub later now < dt_cache_ttl d"
  shows "lookup_by_port os' later port ip d' = (p, d')"
  using assms by (auto simp: lookup_by_port_def Let_def)

lemma scan_line_known: "scan_line my line = Some a \<Longrightarrow> ai_is_known a \<and> ai_pid a \<noteq> Some my"
proof -
  assume a: "scan_line my line = Some a"
  have pid: "ai_pid (identify_from_process p) = Some (pi_pid p)" for p
    by (simp add: identify_from_process_def process_agent_def Let_def)
  from a show ?thesis
    by (auto simp: scan_line_def Let_def pid simp del: split_words.simps
        split: list.split_asm sum.split_asm if_split_asm)
qed

lemma scan_known: "a \<in> set (scan_running_agents os) \<Longrightarrow> ai_is_known a \<and> ai_pid a \<noteq> Some (os_mypid os)"
  by (auto simp: scan_running_agents_def List.map_filter_def split: option.split_asm dest: scan_line_known)

end
