(* ===== verification/Pipeline.thy ===== *)
theory Pipeline
  imports WebApi Normalizers Detect Analyzer Effects
begin

text \<open>
  The pipeline of \<open>src/cli.py\<close>: \<open>CorePipelineBridge\<close> takes the wire envelopes of the proxy,
  normalises them into turns, stores and analyses them, and publishes events for the user
  interfaces. A turn that is in the store is an object the pipeline goes on to change;
  \<open>put_turn\<close> is such a change.
\<close>

subsection \<open>Human interactions\<close>

text \<open>\<open>any\<close> over a list, with a test that may raise; it stops at the first hit.\<close>

fun any_res :: "('a \<Rightarrow> bool res) \<Rightarrow> 'a list \<Rightarrow> bool res" where
  "any_res f [] = Inr False"
| "any_res f (x # xs) = rbind (f x) (\<lambda>b. if b then Inr True else any_res f xs)"

text \<open>\<open>bool(d.get("text", "").strip())\<close>.\<close>

definition text_not_blank :: "jdict \<Rightarrow> bool res" where
  "text_not_blank d =
     (case jget_or d ''text'' (JStr []) of JStr s \<Rightarrow> Inr (str_strip s \<noteq> []) | _ \<Rightarrow> Inl AttributeError)"

definition is_text_part :: "json \<Rightarrow> bool res" where
  "is_text_part p =
     (case p of
        JStr _ \<Rightarrow> Inr True
      | JObj d \<Rightarrow> if jget d ''type'' = JStr ''text'' then text_not_blank d else Inr False
      | _ \<Rightarrow> Inr False)"

definition is_result_part :: "json \<Rightarrow> bool" where
  "is_result_part p = (case p of JObj d \<Rightarrow> jget d ''type'' = JStr ''tool_result'' | _ \<Rightarrow> False)"

text \<open>The verdict of the last message: the Anthropic test, then the OpenAI one.\<close>

definition human_message :: "jdict \<Rightarrow> bool option res" where
  "human_message m =
     (let role = jget m ''role'';
          openai = (if role = JStr ''tool'' then Some False else if role = JStr ''user'' then Some True else None)
      in if role = JStr ''user'' then
           (case jget m ''content'' of
              JArr parts \<Rightarrow>
                rbind (any_res is_text_part parts) (\<lambda>has_user_text.
                  Inr (if list_ex is_result_part parts \<and> \<not> has_user_text then Some False
                       else if has_user_text then Some True else openai))
            | JStr s \<Rightarrow> Inr (if str_strip s \<noteq> [] then Some True else openai)
            | _ \<Rightarrow> Inr openai)
         else if role = JStr ''assistant'' then Inr (Some False)
         else Inr openai)"

definition is_fn_response :: "json \<Rightarrow> bool" where
  "is_fn_response p =
     (case p of JObj d \<Rightarrow> jhas d ''functionResponse'' \<or> jhas d ''function_response'' | _ \<Rightarrow> False)"

definition is_gemini_text :: "json \<Rightarrow> bool res" where
  "is_gemini_text p =
     (case p of JStr _ \<Rightarrow> Inr True | JObj d \<Rightarrow> if jhas d ''text'' then text_not_blank d else Inr False | _ \<Rightarrow> Inr False)"

definition human_item :: "jdict \<Rightarrow> bool option res" where
  "human_item item =
     (case jget_or item ''parts'' (JArr []) of
        JArr parts \<Rightarrow>
          rbind (any_res is_gemini_text parts) (\<lambda>has_text.
            Inr (if list_ex is_fn_response parts \<and> \<not> has_text then Some False
                 else if has_text \<and> jget item ''role'' = JStr ''user'' then Some True else None))
      | _ \<Rightarrow> Inr None)"

text \<open>The last item under a key, when it is a non-empty list that ends with an object.\<close>

definition last_object :: "jdict \<Rightarrow> string \<Rightarrow> jdict option" where
  "last_object d k =
     (case jget d k of
        JArr (x # xs) \<Rightarrow> (case last (x # xs) of JObj m \<Rightarrow> Some m | _ \<Rightarrow> None)
      | _ \<Rightarrow> None)"

definition is_human_interaction :: "wire_envelope \<Rightarrow> bool res" where
  "is_human_interaction e =
     (let payload = we_payload e;
          fallback = \<not> truthy (jget payload ''tool_results'')
      in case or_chain [jget payload ''request_payload'', jget payload ''request'', JObj []] of
           JObj req \<Rightarrow>
             rbind (case last_object req ''messages'' of Some m \<Rightarrow> human_message m | None \<Rightarrow> Inr None) (\<lambda>v.
               case v of
                 Some b \<Rightarrow> Inr b
               | None \<Rightarrow>
                   rbind (case last_object req ''contents'' of Some m \<Rightarrow> human_item m | None \<Rightarrow> Inr None) (\<lambda>w.
                     Inr (case w of Some b \<Rightarrow> b | None \<Rightarrow> fallback)))
         | _ \<Rightarrow> Inl AttributeError)"

subsection \<open>The bridge\<close>

record bridge =
  br_granularity :: string
  br_store :: session_store
  br_broadcaster :: broadcaster
  br_heuristics :: "heuristic_fn list"

definition new_bridge :: "heuristic_fn list \<Rightarrow> session_store option \<Rightarrow> broadcaster option \<Rightarrow> string \<Rightarrow> bridge" where
  "new_bridge hs store bc granularity =
     (let g = str_lower (if granularity = [] then ''step'' else granularity)
      in \<lparr>br_granularity = g, br_store = (case store of Some s \<Rightarrow> s | None \<Rightarrow> new_store 100 g),
          br_broadcaster = (case bc of Some b \<Rightarrow> b | None \<Rightarrow> new_broadcaster 100), br_heuristics = hs\<rparr>)"

type_synonym pipe = "(bridge, unit) op"

definition on_store :: "(session_store \<Rightarrow> session_store) \<Rightarrow> pipe" where
  "on_store f = op_modify (\<lambda>b. b\<lparr>br_store := f (br_store b)\<rparr>)"

definition publish :: "ui_event_type \<Rightarrow> string \<Rightarrow> rat \<Rightarrow> jdict \<Rightarrow> pipe" where
  "publish ty sid ts payload = op_modify (\<lambda>b. b\<lparr>br_broadcaster := publish_nowait
     \<lparr>ue_type = ty, ue_session_id = sid, ue_timestamp = ts, ue_payload = payload\<rparr> (br_broadcaster b)\<rparr>)"

definition registers :: "string \<Rightarrow> jdict \<Rightarrow> pipe" where
  "registers sid meta =
     op_bind (op_get br_store) (\<lambda>s. op_bind (op_lift (register_session sid (Some meta) s)) (\<lambda>s'. on_store (\<lambda>_. s')))"

definition stored_turns :: "session_store \<Rightarrow> string \<Rightarrow> canonical_turn list" where
  "stored_turns s sid = (case get_session s sid of Some ts \<Rightarrow> ts | None \<Rightarrow> [])"

subsection \<open>Agents found by scanning\<close>

definition agent_session_id :: "string \<Rightarrow> string \<Rightarrow> string" where
  "agent_session_id name pid = ''sess_'' @ name @ ''_'' @ pid"

definition detected_payload :: "string \<Rightarrow> agent_identity \<Rightarrow> jdict" where
  "detected_payload sid ag =
     [(''sessionId'', JStr sid), (''agentHarness'', JStr (ai_name ag)), (''harness'', JStr (ai_name ag)),
      (''agent'', JObj (agent_identity_to_dict ag)), (''status'', JStr ''detected''),
      (''model'', JStr ''auto-detect''), (''provider'', JStr ''auto-detect'')]"

definition register_agent :: "rat \<Rightarrow> agent_identity \<Rightarrow> pipe" where
  "register_agent now ag =
     (case ai_pid ag of
        None \<Rightarrow> op_return ()
      | Some pid \<Rightarrow>
          (let sid = agent_session_id (ai_name ag) (show_int pid)
           in op_bind (op_get br_store) (\<lambda>s.
                op_when (sid \<notin> set (list_sessions s))
                  (op_seq (registers sid (detected_payload sid ag))
                     (publish SESSION_CREATED sid now (detected_payload sid ag))))))"

definition scan_and_register_agents :: "rat \<Rightarrow> os_view \<Rightarrow> pipe" where
  "scan_and_register_agents now os = op_each (register_agent now) (scan_running_agents os)"

definition session_pid :: "jdict \<Rightarrow> int option" where
  "session_pid meta =
     (case jget meta ''agent'' of
        JObj a \<Rightarrow>
          (case jget a ''pid'' of
             JInt n \<Rightarrow> if n \<noteq> 0 then Some n else None
           | JBool b \<Rightarrow> if b then Some 1 else None
           | _ \<Rightarrow> None)
      | _ \<Rightarrow> None)"

definition preserved_payload :: "string \<Rightarrow> string \<Rightarrow> jdict" where
  "preserved_payload sid message =
     [(''sessionId'', JStr sid), (''preserved'', JBool True), (''message'', JStr message)]"

text \<open>\<open>alive\<close> says which processes exist.\<close>

definition check_agent_session :: "rat \<Rightarrow> (int \<Rightarrow> bool) \<Rightarrow> string \<Rightarrow> pipe" where
  "check_agent_session now alive sid =
     op_bind (op_get (\<lambda>b. session_meta (br_store b) sid)) (\<lambda>meta.
       case session_pid meta of
         None \<Rightarrow> op_return ()
       | Some pid \<Rightarrow>
           op_when (\<not> alive pid \<and> jget meta ''status'' \<noteq> JStr ''disconnected'')
             (op_seq (registers sid (AList.update ''status'' (JStr ''disconnected'') meta))
                (publish UI_SESSION_DISCONNECTED sid now (preserved_payload sid
                   (''Process '' @ show_int pid @ '' exited. Preserved in memory as long as ctxins is open.'')))))"

definition cleanup_dead_agent_sessions :: "rat \<Rightarrow> (int \<Rightarrow> bool) \<Rightarrow> pipe" where
  "cleanup_dead_agent_sessions now alive =
     op_bind (op_get (\<lambda>b. dict_keys (ss_metadata (br_store b)))) (op_each (check_agent_session now alive))"

subsection \<open>A request begins\<close>

definition client_meta :: "jdict \<Rightarrow> jdict res" where
  "client_meta payload =
     (case jget_or payload ''client_metadata'' (JObj []) of JObj d \<Rightarrow> Inr d | _ \<Rightarrow> Inl AttributeError)"

definition object_field :: "json \<Rightarrow> string \<Rightarrow> json" where
  "object_field v k = (case v of JObj d \<Rightarrow> jget d k | _ \<Rightarrow> JNull)"

text \<open>The turn a request of the session will be part of.\<close>

definition started_index :: "string \<Rightarrow> wire_envelope \<Rightarrow> nat \<Rightarrow> int res" where
  "started_index granularity e n =
     (if granularity = ''human'' then
        rbind (is_human_interaction e) (\<lambda>h. Inr (if n = 0 \<or> h then int n else int (n - 1)))
      else Inr (int n))"

definition link_scanned :: "string \<Rightarrow> json \<Rightarrow> json \<Rightarrow> session_store \<Rightarrow> session_store" where
  "link_scanned sid harness pid s =
     (let scan_sid = agent_session_id (py_str harness) (py_str pid)
      in if truthy pid \<and> harness \<noteq> JStr ''unknown'' \<and> scan_sid \<in> set (list_sessions s) \<and> scan_sid \<noteq> sid
            \<and> stored_turns s scan_sid = []
         then alias_session scan_sid sid s else s)"

definition request_initiated :: "wire_envelope \<Rightarrow> pipe" where
  "request_initiated e =
     (let payload = we_payload e; sid = we_session_id e
      in op_bind (op_lift (client_meta payload)) (\<lambda>cm.
         let agent = py_or (jget cm ''agent'') (jget payload ''agent'');
             harness = or_chain [jget cm ''harness'', jget payload ''harness'', object_field agent ''name'',
               JStr ''unknown''];
             pid = or_chain [jget cm ''pid'', object_field agent ''pid'', JNull];
             model = jget_or payload ''model'' (JStr ''unknown'');
             prov = jget_or payload ''provider'' (JStr ''unknown'')
         in op_bind (op_get br_store) (\<lambda>s.
            op_seq (op_when (sid \<notin> set (list_sessions s))
              (registers sid [(''sessionId'', JStr sid), (''model'', model), (''provider'', prov),
                 (''agentHarness'', harness), (''harness'', harness), (''agent'', agent),
                 (''status'', JStr ''active'')]))
            (op_seq (on_store (link_scanned sid harness pid))
            (op_bind (op_get (\<lambda>b. (br_granularity b, length (stored_turns (br_store b) sid)))) (\<lambda>(g, n).
             op_seq (op_when (n = 0) (publish SESSION_CREATED sid (we_timestamp e)
               [(''sessionId'', JStr sid), (''model'', model), (''provider'', prov), (''agentHarness'', harness),
                (''harness'', harness), (''agent'', agent), (''granularity'', JStr g)]))
             (op_bind (op_lift (started_index g e n)) (\<lambda>i.
               publish TURN_STARTED sid (we_timestamp e)
                 (set_keys [(''turn_index'', JInt i), (''turnIndex'', JInt i), (''granularity'', JStr g)] payload)))))))))"

subsection \<open>A turn is complete\<close>

text \<open>The turn object at a position of a session changes, wherever it is referenced.\<close>

definition graph_put :: "nat \<Rightarrow> canonical_turn \<Rightarrow> canonical_turn \<Rightarrow> context_graph \<Rightarrow> context_graph" where
  "graph_put i old t g =
     g\<lparr>g_turns := (g_turns g)[i := t],
       g_turns_by_id := (if map_of (g_turns_by_id g) (ct_turn_id old) = Some old
         then AList.update (ct_turn_id old) t (g_turns_by_id g) else g_turns_by_id g),
       g_turns_by_index := (if map_of (g_turns_by_index g) (ct_turn_index old) = Some old
         then AList.update (ct_turn_index old) t (g_turns_by_index g) else g_turns_by_index g)\<rparr>"

definition put_turn :: "string \<Rightarrow> nat \<Rightarrow> canonical_turn \<Rightarrow> session_store \<Rightarrow> session_store" where
  "put_turn key i t s =
     (let turns = dict_get (ss_sessions s) key []
      in if i < length turns then
           s\<lparr>ss_sessions := AList.update key (turns[i := t]) (ss_sessions s),
             ss_graphs := (case map_of (ss_graphs s) key of
                None \<Rightarrow> ss_graphs s
              | Some g \<Rightarrow> AList.update key (graph_put i (turns ! i) t g) (ss_graphs s))\<rparr>
         else s)"

definition session_key :: "session_store \<Rightarrow> string \<Rightarrow> string" where
  "session_key s sid =
     (if map_of (ss_sessions s) (resolve_session_id s sid) \<noteq> None then resolve_session_id s sid else sid)"

definition pick_normalizer :: "jdict \<Rightarrow> normalizer" where
  "pick_normalizer payload =
     (case get_normalizer (Inr (py_str (jget_or payload ''provider'' (JStr ''anthropic'')))) of
        Inr n \<Rightarrow> n | Inl _ \<Rightarrow> AnthropicNorm)"

definition mark_steps :: "string \<Rightarrow> json \<Rightarrow> canonical_turn \<Rightarrow> canonical_turn" where
  "mark_steps g n t = t\<lparr>ct_metadata := set_keys [(''granularity'', JStr g), (''step_count'', n)] (ct_metadata t)\<rparr>"

text \<open>A new turn: normalised, marked and appended. The key and position of the stored object.\<close>

definition append_new :: "rat \<Rightarrow> wire_envelope \<Rightarrow> string \<Rightarrow> session_store \<Rightarrow> (session_store \<times> string \<times> nat) res" where
  "append_new now e g s =
     (let n = length (stored_turns s (we_session_id e))
      in rbind (normalize_turn (pick_normalizer (we_payload e)) now (RawDict (envelope_to_dict e)) (Some (int n))) (\<lambda>t.
         let t' = mark_steps g (JInt 1) t; key = ct_session_id t'
         in rbind (append_turn t' None s) (\<lambda>(s', _).
              Inr (s', key, length (dict_get (ss_sessions s') key []) - 1))))"

text \<open>One more step of the human turn that is going on: counters add up, the blocks are replaced.\<close>

definition add_step :: "canonical_turn \<Rightarrow> canonical_turn \<Rightarrow> canonical_turn" where
  "add_step step t =
     t\<lparr>ct_input_tokens := ct_input_tokens t + ct_input_tokens step,
       ct_output_tokens := ct_output_tokens t + ct_output_tokens step,
       ct_cached_read_tokens := ct_cached_read_tokens t + ct_cached_read_tokens step,
       ct_cached_created_tokens := ct_cached_created_tokens t + ct_cached_created_tokens step,
       ct_duration_ms := fadd (ct_duration_ms t) (ct_duration_ms step),
       ct_turn_cost_usd := fadd (ct_turn_cost_usd t) (ct_turn_cost_usd step),
       ct_wasted_cost_usd := fadd (ct_wasted_cost_usd t) (ct_wasted_cost_usd step),
       ct_system_blocks := ct_system_blocks step, ct_tool_defs := ct_tool_defs step,
       ct_conversation_history := ct_conversation_history step, ct_tool_results := ct_tool_results step,
       ct_assistant_blocks := ct_assistant_blocks step\<rparr>"

definition count_step :: "canonical_turn \<Rightarrow> canonical_turn res" where
  "count_step t =
     (case jget_or (ct_metadata t) ''step_count'' (JInt 1) of
        JInt n \<Rightarrow> Inr (t\<lparr>ct_metadata := AList.update ''granularity'' (JStr ''human'')
           (AList.update ''step_count'' (JInt (n + 1)) (ct_metadata t))\<rparr>)
      | _ \<Rightarrow> Inl (NotModelled ''step_count''))"

definition extend_turn :: "rat \<Rightarrow> wire_envelope \<Rightarrow> session_store \<Rightarrow> (session_store \<times> string \<times> nat) res" where
  "extend_turn now e s =
     (let turns = stored_turns s (we_session_id e); i = length turns - 1; key = session_key s (we_session_id e)
      in rbind (normalize_turn (pick_normalizer (we_payload e)) now (RawDict (envelope_to_dict e)) (Some (int i))) (\<lambda>step.
         if turns = [] then Inl IndexError
         else rbind (count_step (add_step step (turns ! i))) (\<lambda>t.
                Inr (store_update_turn t (put_turn key i t s), key, i))))"

definition store_envelope :: "rat \<Rightarrow> wire_envelope \<Rightarrow> bridge \<Rightarrow> (session_store \<times> string \<times> nat) res res" where
  "store_envelope now e b =
     (let s = br_store b
      in if br_granularity b = ''human'' then
           rbind (is_human_interaction e) (\<lambda>h.
             Inr (if stored_turns s (we_session_id e) = [] \<or> h then append_new now e ''human'' s
                  else extend_turn now e s))
         else Inr (append_new now e ''step'' s))"

text \<open>The stored turn is analysed against its graph; a failing analysis reports no violations.\<close>

definition analyze_stored :: "heuristic_fn list \<Rightarrow> string \<Rightarrow> string \<Rightarrow> nat \<Rightarrow> session_store
    \<Rightarrow> (canonical_turn \<times> rule_violation list \<times> session_store) res" where
  "analyze_stored hs sid key i s =
     (let turn = dict_get (ss_sessions s) key [] ! i
      in case analyze_turn hs turn (get_graph s sid) None None of
           Inr t \<Rightarrow> Inr (t, ct_violations t, put_turn key i t s)
         | Inl (NotModelled k) \<Rightarrow> Inl (NotModelled k)
         | Inl _ \<Rightarrow> Inr (turn, [], s))"

definition token_breakdown :: "canonical_turn \<Rightarrow> json" where
  "token_breakdown t =
     JObj [(''system'', JInt (sum_tokens (ct_system_blocks t))), (''tools'', JInt (sum_tokens (ct_tool_defs t))),
       (''history'', JInt (sum_tokens (ct_conversation_history t))),
       (''toolResults'', JInt (sum_tokens (ct_tool_results t))),
       (''assistant'', JInt (sum_tokens (ct_assistant_blocks t))), (''cache'', JInt (ct_cached_read_tokens t))]"

definition turn_payload :: "string \<Rightarrow> canonical_turn \<Rightarrow> rule_violation list \<Rightarrow> jdict \<Rightarrow> jdict" where
  "turn_payload granularity t violations summary =
     (let steps = jget_or (ct_metadata t) ''step_count'' (JInt 1); blocks = blocks_json (all_blocks t)
      in [(''turn_index'', JInt (ct_turn_index t)), (''turn_id'', JStr (ct_turn_id t)),
          (''correlation_id'', JStr (ct_correlation_id t)), (''model'', JStr (ct_model t)),
          (''provider'', JStr (ct_provider t)), (''timestamp'', JFloat (ct_timestamp t)),
          (''duration_ms'', JFloat (ct_duration_ms t)), (''ttft_ms'', jopt JFloat (ct_ttft_ms t)),
          (''input_tokens'', JInt (ct_input_tokens t)), (''output_tokens'', JInt (ct_output_tokens t)),
          (''cached_read_tokens'', JInt (ct_cached_read_tokens t)),
          (''cached_created_tokens'', JInt (ct_cached_created_tokens t)),
          (''turn_cost_usd'', JFloat (ct_turn_cost_usd t)), (''wasted_cost_usd'', JFloat (ct_wasted_cost_usd t)),
          (''system_blocks'', blocks_json (ct_system_blocks t)), (''tool_defs'', blocks_json (ct_tool_defs t)),
          (''conversation_history'', blocks_json (ct_conversation_history t)),
          (''tool_results'', blocks_json (ct_tool_results t)),
          (''assistant_blocks'', blocks_json (ct_assistant_blocks t)), (''all_blocks'', blocks),
          (''turn'', JObj (AList.update ''all_blocks'' blocks (canonical_turn_to_dict t))),
          (''summary'', JObj summary),
          (''turnIndex'', JInt (ct_turn_index t)), (''turnId'', JStr (ct_turn_id t)),
          (''correlationId'', JStr (ct_correlation_id t)), (''durationMs'', JFloat (ct_duration_ms t)),
          (''ttftMs'', jopt JFloat (ct_ttft_ms t)), (''inputTokens'', JInt (ct_input_tokens t)),
          (''outputTokens'', JInt (ct_output_tokens t)), (''cachedReadTokens'', JInt (ct_cached_read_tokens t)),
          (''cachedCreatedTokens'', JInt (ct_cached_created_tokens t)), (''cost'', JFloat (ct_turn_cost_usd t)),
          (''wastedCost'', JFloat (ct_wasted_cost_usd t)), (''tokenBreakdown'', token_breakdown t),
          (''tokens'', JInt (total_tokens t)), (''total_tokens'', JInt (total_tokens t)),
          (''totalTokens'', JInt (total_tokens t)), (''violations'', violations_json violations),
          (''blocks'', blocks), (''granularity'', JStr granularity), (''step_count'', steps), (''stepCount'', steps),
          (''metadata'', JObj (ct_metadata t))])"

text \<open>The events of a completed turn, in order.\<close>

definition turn_events :: "string \<Rightarrow> string \<Rightarrow> canonical_turn \<Rightarrow> rule_violation list \<Rightarrow> jdict \<Rightarrow> ui_event list" where
  "turn_events granularity sid t violations summary =
     (let event = (\<lambda>ty payload. \<lparr>ue_type = ty, ue_session_id = sid, ue_timestamp = ct_timestamp t, ue_payload = payload\<rparr>)
      in event UI_TURN_COMPLETED (turn_payload granularity t violations summary)
         # map (\<lambda>v. event VIOLATION_DETECTED (rule_violation_to_dict v)) violations
         @ [event SESSION_SUMMARY_UPDATED [(''sessionId'', JStr sid), (''summary'', JObj summary)]])"

definition publish_all :: "ui_event list \<Rightarrow> broadcaster \<Rightarrow> broadcaster" where
  "publish_all es b = foldl (\<lambda>b e. publish_nowait e b) b es"

definition turn_completed :: "rat \<Rightarrow> wire_envelope \<Rightarrow> pipe" where
  "turn_completed now e =
     op_bind (op_get (store_envelope now e)) (\<lambda>outcome.
     op_bind (op_lift outcome) (\<lambda>stored.
       op_swallow
         (op_bind (op_lift stored) (\<lambda>(s, key, i).
          op_seq (on_store (\<lambda>_. s))
          (op_bind (op_get br_heuristics) (\<lambda>hs.
           op_bind (op_lift (analyze_stored hs (we_session_id e) key i s)) (\<lambda>(t, violations, s').
            let summary = calculate_summary (stored_turns s' (we_session_id e))
            in op_modify (\<lambda>b. b\<lparr>br_store := s', br_broadcaster := publish_all
                  (turn_events (br_granularity b) (we_session_id e) t violations summary) (br_broadcaster b)\<rparr>))))))))"

subsection \<open>Every envelope\<close>

definition session_disconnected :: "wire_envelope \<Rightarrow> pipe" where
  "session_disconnected e =
     (let sid = we_session_id e
      in op_bind (op_get (\<lambda>b. session_meta (br_store b) sid)) (\<lambda>meta.
         op_seq (registers sid (AList.update ''status'' (JStr ''disconnected'') meta))
           (publish UI_SESSION_DISCONNECTED sid (we_timestamp e) (preserved_payload sid
              (''Session '' @ [CHR 0x27] @ sid @ [CHR 0x27]
               @ '' disconnected. Preserved in memory as long as ctxins is open.'')))))"

definition handle_wire_envelope :: "rat \<Rightarrow> wire_envelope \<Rightarrow> pipe" where
  "handle_wire_envelope now e =
     (case we_event_type e of
        REQUEST_INITIATED \<Rightarrow> request_initiated e
      | SYSTEM_TELEMETRY \<Rightarrow> publish TURN_STREAMING (we_session_id e) (we_timestamp e) (we_payload e)
      | TURN_COMPLETED \<Rightarrow> turn_completed now e
      | SESSION_DISCONNECTED \<Rightarrow> session_disconnected e
      | SESSION_EXPORTED \<Rightarrow> on_store (mark_exported (we_session_id e))
      | _ \<Rightarrow> op_return ())"

text \<open>What arrives from the socket is a dictionary; one that is no envelope is ignored.\<close>

definition handle_wire_dict :: "rat \<Rightarrow> jdict \<Rightarrow> pipe" where
  "handle_wire_dict now d =
     (case envelope_from_dict d of Inr e \<Rightarrow> handle_wire_envelope now e
     | Inl (NotModelled k) \<Rightarrow> op_lift (Inl (NotModelled k))
     | Inl _ \<Rightarrow> op_return ())"

end
