(* ===== verification/TuiState.thy ===== *)
theory TuiState
  imports Pipeline
begin

text \<open>
  The state behind the terminal interface (\<open>src/presentation/tui/state.py\<close>): the event processor
  \<open>apply_event\<close>, switching sessions and loading one from the session store. Turns and violations are
  dictionaries with dynamic values. \<open>turns\<close> and \<open>cumulative_violations\<close> are often the very lists kept
  per session; a \<open>list_ref\<close> says which list they are, so that a change through one name is seen
  through the other. An empty session id stands for \<open>None\<close> too, both are falsy.
\<close>

subsection \<open>The state\<close>

datatype list_ref = OfSession string | Own "jdict list"

record tui =
  tu_session_id :: string
  tu_agent_harness :: json
  tu_model :: json
  tu_provider :: json
  tu_status :: json
  tu_granularity :: json
  tu_total_tokens :: int
  tu_cache_hit_ratio :: rat
  tu_cached_read_tokens :: int
  tu_cached_created_tokens :: int
  tu_total_spend_usd :: rat
  tu_wasted_spend_usd :: rat
  tu_pollution_score :: rat
  tu_turns_ref :: list_ref
  tu_selected_turn_index :: int
  tu_show_all_violations :: bool
  tu_violations_ref :: list_ref
  tu_selected_block_index :: int
  tu_is_exported :: bool
  tu_available_sessions :: "string list"
  tu_sessions_metadata :: "(string, jdict) dict"
  tu_sessions_turns :: "(string, jdict list) dict"
  tu_sessions_violations :: "(string, jdict list) dict"

definition new_tui :: tui where
  "new_tui =
     \<lparr>tu_session_id = [], tu_agent_harness = JStr ''custom'', tu_model = JStr [], tu_provider = JStr [],
      tu_status = JStr ''Idle'', tu_granularity = JStr ''step'', tu_total_tokens = 0, tu_cache_hit_ratio = 0,
      tu_cached_read_tokens = 0, tu_cached_created_tokens = 0, tu_total_spend_usd = 0, tu_wasted_spend_usd = 0,
      tu_pollution_score = 0, tu_turns_ref = Own [], tu_selected_turn_index = 0, tu_show_all_violations = False,
      tu_violations_ref = Own [], tu_selected_block_index = 0, tu_is_exported = False, tu_available_sessions = [], tu_sessions_metadata = [],
      tu_sessions_turns = [], tu_sessions_violations = []\<rparr>"

type_synonym 'a tui_op = "(tui, 'a) op"

definition deref :: "(string, jdict list) dict \<Rightarrow> list_ref \<Rightarrow> jdict list" where
  "deref d r = (case r of OfSession sid \<Rightarrow> dict_get d sid [] | Own xs \<Rightarrow> xs)"

definition tu_turns :: "tui \<Rightarrow> jdict list" where
  "tu_turns s = deref (tu_sessions_turns s) (tu_turns_ref s)"

definition tu_violations :: "tui \<Rightarrow> jdict list" where
  "tu_violations s = deref (tu_sessions_violations s) (tu_violations_ref s)"

text \<open>A list that is dropped from its dictionary lives on under the other name.\<close>

definition detach :: "string \<Rightarrow> (string, jdict list) dict \<Rightarrow> list_ref \<Rightarrow> list_ref" where
  "detach sid d r = (if r = OfSession sid then Own (deref d r) else r)"

definition get2 :: "jdict \<Rightarrow> string \<Rightarrow> string \<Rightarrow> json \<Rightarrow> json" where
  "get2 d a b v = jget_or d a (jget_or d b v)"

text \<open>\<open>a + b\<close> of dynamic values.\<close>

definition num_add :: "json \<Rightarrow> json \<Rightarrow> json res" where
  "num_add a b =
     (case (int_value a, int_value b) of
        (Some m, Some n) \<Rightarrow> Inr (JInt (m + n))
      | _ \<Rightarrow>
          (case (float_value a, float_value b) of
             (Some x, Some y) \<Rightarrow> Inr (JFloat (fadd x y))
           | _ \<Rightarrow> py_add a b))"

text \<open>A block of statements.\<close>

fun op_all :: "('s, unit) op list \<Rightarrow> ('s, unit) op" where
  "op_all [] = op_return ()"
| "op_all (m # ms) = op_seq m (op_all ms)"

subsection \<open>Turns of a session\<close>

definition session_turns :: "string \<Rightarrow> tui \<Rightarrow> jdict list" where
  "session_turns sid s = (if sid \<noteq> [] then dict_get (tu_sessions_turns s) sid [] else tu_turns s)"

definition set_session_turns :: "string \<Rightarrow> jdict list \<Rightarrow> tui \<Rightarrow> tui" where
  "set_session_turns sid ts s =
     (if sid \<noteq> [] then s\<lparr>tu_sessions_turns := AList.update sid ts (tu_sessions_turns s)\<rparr>
      else (case tu_turns_ref s of
              OfSession k \<Rightarrow> s\<lparr>tu_sessions_turns := AList.update k ts (tu_sessions_turns s)\<rparr>
            | Own _ \<Rightarrow> s\<lparr>tu_turns_ref := Own ts\<rparr>))"

definition zero_breakdown :: jdict where
  "zero_breakdown =
     map (\<lambda>k. (k, JInt 0)) [''system'', ''tools'', ''history'', ''toolResults'', ''assistant'', ''cache'',
       ''skills'', ''thought'', ''thoughts'', ''injected_state'']"

definition empty_turn :: "int \<Rightarrow> jdict" where
  "empty_turn i =
     [(''turnIndex'', JInt i), (''turnId'', JStr (''turn_'' @ show_int i)), (''correlationId'', JStr []),
      (''status'', JStr ''idle''), (''tokens'', JInt 0), (''inputTokens'', JInt 0), (''outputTokens'', JInt 0),
      (''cachedReadTokens'', JInt 0), (''cachedCreatedTokens'', JInt 0), (''cost'', JFloat 0),
      (''wastedCost'', JFloat 0), (''durationMs'', JFloat 0), (''ttftMs'', JNull), (''violations'', JArr []),
      (''tokenBreakdown'', JObj zero_breakdown), (''blocks'', JArr [])]"

definition has_index :: "int \<Rightarrow> jdict \<Rightarrow> bool" where
  "has_index i t = py_eq (jget t ''turnIndex'') (JInt i)"

definition sort_turns :: "jdict list \<Rightarrow> jdict list res" where
  "sort_turns ts =
     rbind (rmap_list (\<lambda>t. NormBase.py_int (jget_or t ''turnIndex'' (JInt 0))) ts) (\<lambda>ks.
       Inr (map snd (sort_key fst (zip ks ts))))"

text \<open>The session whose turn was found or created; the turn is the one with the index.\<close>

definition find_or_create_turn :: "int \<Rightarrow> string \<Rightarrow> string tui_op" where
  "find_or_create_turn i session_id =
     op_bind (op_get (\<lambda>s. if session_id \<noteq> [] then session_id else tu_session_id s)) (\<lambda>sid.
     op_seq (op_modify (\<lambda>s. set_session_turns sid (session_turns sid s) s))
     (op_bind (op_get (session_turns sid)) (\<lambda>ts.
      if list_ex (has_index i) ts then op_return sid
      else
        op_seq (op_modify (set_session_turns sid (ts @ [empty_turn i])))
        (op_bind (op_lift (sort_turns (ts @ [empty_turn i]))) (\<lambda>ts'.
         op_seq (op_modify (set_session_turns sid ts'))
         (op_seq (op_modify (\<lambda>s. if sid = tu_session_id s \<and> sid \<noteq> [] then s\<lparr>tu_turns_ref := OfSession sid\<rparr> else s))
          (op_return sid)))))))"

fun update_first :: "('a \<Rightarrow> bool) \<Rightarrow> ('a \<Rightarrow> 'a) \<Rightarrow> 'a list \<Rightarrow> 'a list" where
  "update_first P f [] = []"
| "update_first P f (x # xs) = (if P x then f x # xs else x # update_first P f xs)"

definition turn_now :: "string \<Rightarrow> int \<Rightarrow> tui \<Rightarrow> jdict" where
  "turn_now sid i s = (case find (has_index i) (session_turns sid s) of Some t \<Rightarrow> t | None \<Rightarrow> [])"

definition put_field :: "string \<Rightarrow> int \<Rightarrow> string \<Rightarrow> json \<Rightarrow> unit tui_op" where
  "put_field sid i k v =
     op_modify (\<lambda>s. set_session_turns sid (update_first (has_index i) (AList.update k v) (session_turns sid s)) s)"

definition with_turn :: "string \<Rightarrow> int \<Rightarrow> (jdict \<Rightarrow> 'a tui_op) \<Rightarrow> 'a tui_op" where
  "with_turn sid i f = op_bind (op_get (turn_now sid i)) f"

text \<open>\<open>turn[k] = f(turn)\<close>, where \<open>f\<close> may raise.\<close>

definition compute_field :: "string \<Rightarrow> int \<Rightarrow> string \<Rightarrow> (jdict \<Rightarrow> json res) \<Rightarrow> unit tui_op" where
  "compute_field sid i k f = with_turn sid i (\<lambda>t. op_bind (op_lift (f t)) (put_field sid i k))"

subsection \<open>Violations\<close>

definition normalize_violation :: "json \<Rightarrow> json \<Rightarrow> jdict res" where
  "normalize_violation raw idx =
     (let d = (case raw of JObj d \<Rightarrow> d | _ \<Rightarrow> [(''message'', JStr (py_str raw))]);
          rule = get2 d ''ruleId'' ''rule_id'' (JStr ''CTX-000'')
      in rbind (py_float ''estimatedWasteUSD'' (get2 d ''estimatedWasteUSD'' ''estimated_waste_usd'' (JFloat 0))) (\<lambda>waste.
           Inr [(''ruleId'', rule),
                (''severity'', JStr (map upper_char (py_str (jget_or d ''severity'' (JStr ''WARN''))))),
                (''title'', jget_or d ''title'' rule), (''message'', jget_or d ''message'' (JStr [])),
                (''estimatedWasteUSD'', JFloat waste),
                (''suggestedFix'', get2 d ''suggestedFix'' ''suggested_fix'' (JStr [])),
                (''blockIds'', get2 d ''blockIds'' ''block_ids'' (JArr [])), (''turnIndex'', idx)]))"

definition same_violation :: "jdict \<Rightarrow> jdict \<Rightarrow> bool" where
  "same_violation v x \<longleftrightarrow>
     py_eq (jget x ''ruleId'') (jget v ''ruleId'') \<and> py_eq (jget x ''turnIndex'') (jget v ''turnIndex'')"

definition add_unless :: "('a \<Rightarrow> bool) \<Rightarrow> 'a \<Rightarrow> 'a list \<Rightarrow> 'a list" where
  "add_unless P x xs = (if list_ex P xs then xs else xs @ [x])"

definition add_session_violation :: "string \<Rightarrow> jdict \<Rightarrow> tui \<Rightarrow> tui" where
  "add_session_violation sid v s =
     s\<lparr>tu_sessions_violations :=
       AList.update sid (add_unless (same_violation v) v (dict_get (tu_sessions_violations s) sid [])) (tu_sessions_violations s)\<rparr>"

definition add_to_cumulative :: "jdict \<Rightarrow> tui \<Rightarrow> tui" where
  "add_to_cumulative v s =
     (let vs = add_unless (same_violation v) v (tu_violations s)
      in case tu_violations_ref s of
           OfSession sid \<Rightarrow> s\<lparr>tu_sessions_violations := AList.update sid vs (tu_sessions_violations s)\<rparr>
         | Own _ \<Rightarrow> s\<lparr>tu_violations_ref := Own vs\<rparr>)"

text \<open>\<open>setdefault(sid, [])\<close>, then the violation for the session and, when it is shown, the total.\<close>

definition open_violations :: "string \<Rightarrow> tui \<Rightarrow> tui" where
  "open_violations sid s =
     s\<lparr>tu_sessions_violations :=
       AList.update sid (dict_get (tu_sessions_violations s) sid []) (tu_sessions_violations s)\<rparr>"

definition note_violation :: "string \<Rightarrow> jdict \<Rightarrow> unit tui_op" where
  "note_violation sid v =
     op_modify (\<lambda>s. let s1 = add_session_violation sid v s in if sid = tu_session_id s then add_to_cumulative v s1 else s1)"

subsection \<open>Aggregates\<close>

definition rsum :: "('a \<Rightarrow> int res) \<Rightarrow> 'a list \<Rightarrow> int res" where
  "rsum f xs = rbind (rmap_list f xs) (\<lambda>ns. Inr (sum_list ns))"

definition rfsum :: "('a \<Rightarrow> rat res) \<Rightarrow> 'a list \<Rightarrow> rat res" where
  "rfsum f xs = rbind (rmap_list f xs) (\<lambda>ns. Inr (fsum ns))"

definition turn_int :: "string \<Rightarrow> jdict \<Rightarrow> int res" where
  "turn_int k t = NormBase.py_int (jget_or t k (JInt 0))"

definition turn_float :: "string \<Rightarrow> jdict \<Rightarrow> rat res" where
  "turn_float k t = py_float k (jget_or t k (JFloat 0))"

text \<open>The turns that \<open>CanonicalTurn.from_dict\<close> can read; the others are skipped.\<close>

fun readable_turns :: "jdict list \<Rightarrow> canonical_turn list res" where
  "readable_turns [] = Inr []"
| "readable_turns (t # ts) =
     (case canonical_turn_from_dict t of
        Inl (NotModelled k) \<Rightarrow> Inl (NotModelled k)
      | Inl _ \<Rightarrow> readable_turns ts
      | Inr c \<Rightarrow> rbind (readable_turns ts) (\<lambda>cs. Inr (c # cs)))"

definition rescore :: "unit tui_op" where
  "rescore =
     op_bind (op_get tu_turns) (\<lambda>ts.
     op_bind (op_lift (readable_turns ts)) (\<lambda>cs.
       op_when (cs \<noteq> [])
         (op_swallow (op_bind (op_lift (py_float ''pollutionScore''
              (jget_or (calculate_summary cs) ''pollutionScore'' (JFloat 0)))) (\<lambda>x.
            op_modify (\<lambda>s. s\<lparr>tu_pollution_score := x\<rparr>))))))"

definition recalculate_aggregates :: "unit tui_op" where
  "recalculate_aggregates =
     op_bind (op_get tu_turns) (\<lambda>ts.
     op_bind (op_lift (rsum (turn_int ''tokens'') ts)) (\<lambda>n.
     op_seq (op_modify (\<lambda>s. s\<lparr>tu_total_tokens := n\<rparr>))
     (op_bind (op_lift (rfsum (turn_float ''cost'') ts)) (\<lambda>c.
     op_seq (op_modify (\<lambda>s. s\<lparr>tu_total_spend_usd := c\<rparr>))
     (op_bind (op_lift (rfsum (turn_float ''wastedCost'') ts)) (\<lambda>w.
     op_seq (op_modify (\<lambda>s. s\<lparr>tu_wasted_spend_usd := w\<rparr>))
     (op_bind (op_lift (rsum (turn_int ''cachedReadTokens'') ts)) (\<lambda>r.
     op_seq (op_modify (\<lambda>s. s\<lparr>tu_cached_read_tokens := r\<rparr>))
     (op_bind (op_lift (rsum (turn_int ''inputTokens'') ts)) (\<lambda>i.
     op_seq (op_modify (\<lambda>s. if 0 < i then s\<lparr>tu_cache_hit_ratio := py_round (int_truediv r i) 3\<rparr> else s))
       rescore))))))))))"

subsection \<open>Events\<close>

definition opt_set :: "json \<Rightarrow> (json \<Rightarrow> 'a res) \<Rightarrow> ('a \<Rightarrow> tui \<Rightarrow> tui) \<Rightarrow> unit tui_op" where
  "opt_set v conv upd = op_when (v \<noteq> JNull) (op_bind (op_lift (conv v)) (\<lambda>x. op_modify (upd x)))"

definition event_sid :: "ui_event \<Rightarrow> string res" where
  "event_sid e =
     (if ue_session_id e \<noteq> [] then Inr (ue_session_id e)
      else (case jget (ue_payload e) ''sessionId'' of JNull \<Rightarrow> Inr [] | v \<Rightarrow> as_str ''sessionId'' v))"

definition note_session :: "string \<Rightarrow> tui \<Rightarrow> tui" where
  "note_session sid s =
     (let s1 = (if sid \<noteq> [] \<and> sid \<notin> set (tu_available_sessions s)
                then s\<lparr>tu_available_sessions := tu_available_sessions s @ [sid]\<rparr> else s)
      in if tu_session_id s1 = [] \<and> sid \<noteq> [] then s1\<lparr>tu_session_id := sid\<rparr> else s1)"

definition note_granularity :: "jdict \<Rightarrow> tui \<Rightarrow> tui" where
  "note_granularity p s =
     (if jhas p ''granularity'' then s\<lparr>tu_granularity := jget p ''granularity''\<rparr> else s)"

definition target_session :: "string \<Rightarrow> tui \<Rightarrow> string" where
  "target_session sid s = (if sid \<noteq> [] then sid else tu_session_id s)"

definition when_shown :: "string \<Rightarrow> (tui \<Rightarrow> tui) \<Rightarrow> unit tui_op" where
  "when_shown target f = op_modify (\<lambda>s. if target = tu_session_id s then f s else s)"

definition on_session_created :: "string \<Rightarrow> jdict \<Rightarrow> tui \<Rightarrow> tui" where
  "on_session_created sid p s =
     (let target = target_session sid s;
          s1 = (if target \<noteq> [] \<and> target \<notin> set (tu_available_sessions s)
                then s\<lparr>tu_available_sessions := tu_available_sessions s @ [target]\<rparr> else s);
          s2 = (if target \<noteq> [] then s1\<lparr>tu_sessions_metadata := AList.update target p (tu_sessions_metadata s1)\<rparr> else s1)
      in if tu_session_id s2 = [] \<or> tu_session_id s2 = ''sess_default'' \<or> tu_session_id s2 = target then
           note_granularity p (s2\<lparr>tu_session_id := target, tu_model := jget_or p ''model'' (tu_model s2),
             tu_provider := jget_or p ''provider'' (tu_provider s2),
             tu_agent_harness := get2 p ''agentHarness'' ''agent_harness'' (jget_or p ''harness'' (tu_agent_harness s2)),
             tu_status := jget_or p ''status'' (JStr ''Idle'')\<rparr>)
         else s2)"

definition on_turn_started :: "string \<Rightarrow> jdict \<Rightarrow> unit tui_op" where
  "on_turn_started sid p =
     op_seq (op_modify (note_granularity p))
     (op_bind (op_get (target_session sid)) (\<lambda>target.
      op_seq (when_shown target (\<lambda>s. s\<lparr>tu_status := JStr ''Streaming''\<rparr>))
      (op_bind (op_get (\<lambda>s. length (dict_get (tu_sessions_turns s) target []))) (\<lambda>n.
       op_bind (op_lift (as_int ''turnIndex'' (get2 p ''turnIndex'' ''turn_index'' (JInt (int n))))) (\<lambda>i.
       op_bind (find_or_create_turn i target) (\<lambda>k. op_all
         [put_field k i ''status'' (JStr ''streaming''),
          compute_field k i ''correlationId'' (\<lambda>t.
            Inr (get2 p ''correlationId'' ''correlation_id'' (jget_or t ''correlationId'' (JStr [])))),
          op_when (jhas p ''model'') (op_all
            [put_field k i ''model'' (jget p ''model''), when_shown target (\<lambda>s. s\<lparr>tu_model := jget p ''model''\<rparr>)]),
          op_when (jhas p ''provider'') (op_all
            [put_field k i ''provider'' (jget p ''provider''),
             when_shown target (\<lambda>s. s\<lparr>tu_provider := jget p ''provider''\<rparr>)]),
          when_shown target (\<lambda>s. s\<lparr>tu_selected_turn_index := i\<rparr>)]))))))"

text \<open>\<open>turn["tokens"] = turn.get("inputTokens", 0) + turn["outputTokens"]\<close>.\<close>

definition recount :: "string \<Rightarrow> int \<Rightarrow> unit tui_op" where
  "recount k i = compute_field k i ''tokens'' (\<lambda>t.
     rbind (need t ''outputTokens'') (\<lambda>out. num_add (jget_or t ''inputTokens'' (JInt 0)) out))"

definition on_turn_streaming :: "string \<Rightarrow> jdict \<Rightarrow> unit tui_op" where
  "on_turn_streaming sid p =
     op_bind (op_get (target_session sid)) (\<lambda>target.
     op_seq (when_shown target (\<lambda>s. s\<lparr>tu_status := JStr ''Streaming''\<rparr>))
     (op_bind (op_get tu_selected_turn_index) (\<lambda>sel.
      op_bind (op_lift (as_int ''turnIndex'' (get2 p ''turnIndex'' ''turn_index'' (JInt sel)))) (\<lambda>i.
      op_bind (find_or_create_turn i target) (\<lambda>k. op_all
        [put_field k i ''status'' (JStr ''streaming''),
         if jhas p ''deltaTokens'' \<or> jhas p ''delta_tokens'' then op_all
           [compute_field k i ''outputTokens'' (\<lambda>t. num_add (jget_or t ''outputTokens'' (JInt 0))
              (get2 p ''deltaTokens'' ''delta_tokens'' (JInt 0))), recount k i]
         else op_when (jhas p ''outputTokens'') (op_all
           [put_field k i ''outputTokens'' (jget p ''outputTokens''), recount k i]),
         op_when (jhas p ''tokens'') (put_field k i ''tokens'' (jget p ''tokens'')),
         op_when (jhas p ''ttftMs'' \<or> jhas p ''ttft_ms'') (put_field k i ''ttftMs'' (get2 p ''ttftMs'' ''ttft_ms'' JNull)),
         if jhas p ''streamDurationMs'' then
           compute_field k i ''durationMs'' (\<lambda>_. rbind (py_float ''durationMs'' (jget p ''streamDurationMs'')) (\<lambda>x. Inr (JFloat x)))
         else op_when (jhas p ''durationMs'' \<or> jhas p ''duration_ms'')
           (compute_field k i ''durationMs'' (\<lambda>_. rbind (py_float ''durationMs''
              (get2 p ''durationMs'' ''duration_ms'' (JFloat 0))) (\<lambda>x. Inr (JFloat x))))])))))"

text \<open>\<open>turn[k] = data.get(k, data.get(alt, turn[k]))\<close>.\<close>

definition take_field :: "string \<Rightarrow> int \<Rightarrow> jdict \<Rightarrow> string \<Rightarrow> string \<Rightarrow> unit tui_op" where
  "take_field sid i d k alt = compute_field sid i k (\<lambda>t. rbind (need t k) (\<lambda>v. Inr (get2 d k alt v)))"

definition float_field :: "string \<Rightarrow> int \<Rightarrow> jdict \<Rightarrow> string \<Rightarrow> string \<Rightarrow> string \<Rightarrow> unit tui_op" where
  "float_field sid i d k a b = compute_field sid i k (\<lambda>t.
     rbind (need t k) (\<lambda>v. rbind (py_float k (jget_or d k (get2 d a b v))) (\<lambda>x. Inr (JFloat x))))"

definition is_number :: "json \<Rightarrow> bool" where
  "is_number v = (num_value v \<noteq> None)"

definition total_of :: "json \<Rightarrow> json \<Rightarrow> json res" where
  "total_of raw in_out =
     (case raw of
        JObj d \<Rightarrow> rbind (rsum NormBase.py_int (filter is_number (map snd d))) (\<lambda>n. Inr (JInt n))
      | v \<Rightarrow> rbind (NormBase.py_int (if is_number v then v else in_out)) (\<lambda>n. Inr (JInt n)))"

definition completed_tokens :: "jdict \<Rightarrow> jdict \<Rightarrow> json res" where
  "completed_tokens d t =
     rbind (need t ''inputTokens'') (\<lambda>a. rbind (need t ''outputTokens'') (\<lambda>b. rbind (num_add a b) (\<lambda>in_out.
       total_of (get2 d ''total_tokens'' ''totalTokens'' (jget_or d ''tokens'' in_out)) in_out)))"

definition completed_breakdown :: "jdict \<Rightarrow> jdict \<Rightarrow> json res" where
  "completed_breakdown d t =
     (if jhas d ''tokenBreakdown'' then
        rbind (as_obj ''tokenBreakdown'' (jget d ''tokenBreakdown'')) (\<lambda>b. Inr (JObj b))
      else (case jget d ''tokens'' of JObj b \<Rightarrow> Inr (JObj b) | _ \<Rightarrow> need t ''tokenBreakdown''))"

definition with_cache :: "jdict \<Rightarrow> json res" where
  "with_cache t =
     rbind (need t ''tokenBreakdown'') (\<lambda>b. rbind (as_obj ''tokenBreakdown'' b) (\<lambda>b.
       if jhas b ''cache'' then Inr (JObj b)
       else rbind (need t ''cachedReadTokens'') (\<lambda>c. Inr (JObj (AList.update ''cache'' c b)))))"

definition completed_violation :: "string \<Rightarrow> json \<Rightarrow> json \<Rightarrow> unit tui_op" where
  "completed_violation target idx raw =
     op_bind (op_lift (normalize_violation raw idx)) (note_violation target)"

definition complete_turn :: "jdict \<Rightarrow> string \<Rightarrow> int \<Rightarrow> unit tui_op" where
  "complete_turn d k i = op_all
     [put_field k i ''status'' (JStr ''completed''),
      compute_field k i ''stepCount'' (\<lambda>t. Inr (get2 d ''stepCount'' ''step_count'' (jget_or t ''stepCount'' (JInt 1)))),
      compute_field k i ''step_count'' (\<lambda>t. need t ''stepCount''),
      take_field k i d ''turnId'' ''turn_id'',
      take_field k i d ''correlationId'' ''correlation_id'',
      take_field k i d ''inputTokens'' ''input_tokens'',
      take_field k i d ''outputTokens'' ''output_tokens'',
      take_field k i d ''cachedReadTokens'' ''cached_read_tokens'',
      take_field k i d ''cachedCreatedTokens'' ''cached_created_tokens'',
      compute_field k i ''tokens'' (completed_tokens d),
      compute_field k i ''durationMs'' (\<lambda>t. rbind (need t ''durationMs'') (\<lambda>v.
        rbind (py_float ''durationMs'' (get2 d ''durationMs'' ''duration_ms'' v)) (\<lambda>x. Inr (JFloat x)))),
      op_when (jhas d ''ttftMs'' \<or> jhas d ''ttft_ms'') (put_field k i ''ttftMs'' (get2 d ''ttftMs'' ''ttft_ms'' JNull)),
      float_field k i d ''cost'' ''turnCostUSD'' ''turn_cost_usd'',
      float_field k i d ''wastedCost'' ''wastedCostUSD'' ''wasted_cost_usd'',
      compute_field k i ''tokenBreakdown'' (completed_breakdown d),
      compute_field k i ''tokenBreakdown'' with_cache,
      op_when (jhas d ''blocks'')
        (compute_field k i ''blocks'' (\<lambda>_. rbind (py_iter (jget d ''blocks'')) (\<lambda>bs. Inr (JArr bs))))]"

text \<open>The violations are noted one by one; the turn gets them all at the end.\<close>

definition complete_violations :: "jdict \<Rightarrow> string \<Rightarrow> string \<Rightarrow> int \<Rightarrow> unit tui_op" where
  "complete_violations d target k i =
     op_seq (op_modify (open_violations target))
     (op_bind (op_lift (py_iter (jget_or d ''violations'' (JArr [])))) (\<lambda>raws.
      op_seq (op_each (completed_violation target (JInt i)) raws)
      (op_bind (op_lift (rmap_list (\<lambda>r. normalize_violation r (JInt i)) raws)) (\<lambda>vs.
        put_field k i ''violations'' (JArr (map JObj vs))))))"

definition on_turn_completed :: "string \<Rightarrow> jdict \<Rightarrow> unit tui_op" where
  "on_turn_completed sid p =
     op_seq (op_modify (note_granularity p))
     (op_bind (op_get (target_session sid)) (\<lambda>target.
      op_seq (when_shown target (\<lambda>s. s\<lparr>tu_status := JStr ''Idle''\<rparr>))
      (op_bind (op_lift (case jget_or p ''turn'' (JObj p) of JObj d \<Rightarrow> Inr d | _ \<Rightarrow> Inl AttributeError)) (\<lambda>d.
       op_bind (op_get tu_selected_turn_index) (\<lambda>sel.
       op_bind (op_lift (as_int ''turnIndex'' (get2 d ''turnIndex'' ''turn_index'' (JInt sel)))) (\<lambda>i.
       op_bind (find_or_create_turn i target) (\<lambda>k. op_all
         [complete_turn d k i, complete_violations d target k i,
          op_bind (op_get tu_session_id) (\<lambda>shown. op_when (target = shown) recalculate_aggregates)])))))))"

definition opt_index :: "json \<Rightarrow> int option res" where
  "opt_index v = (case v of JNull \<Rightarrow> Inr None | _ \<Rightarrow> rbind (as_int ''turnIndex'' v) (\<lambda>i. Inr (Some i)))"

definition turn_violation :: "jdict \<Rightarrow> jdict \<Rightarrow> json res" where
  "turn_violation v t =
     rbind (py_iter (jget_or t ''violations'' (JArr []))) (\<lambda>xs.
     rbind (any_res (\<lambda>x. rbind (py_get x ''ruleId'' JNull) (\<lambda>r. Inr (py_eq r (jget v ''ruleId'')))) xs) (\<lambda>hit.
       Inr (JArr (if hit then xs else xs @ [JObj v]))))"

definition on_violation_detected :: "string \<Rightarrow> jdict \<Rightarrow> unit tui_op" where
  "on_violation_detected sid p =
     op_bind (op_get (\<lambda>s. (target_session sid s, tu_selected_turn_index s))) (\<lambda>(target, sel).
     op_bind (op_lift (opt_index (get2 p ''turnIndex'' ''turn_index'' (JInt sel)))) (\<lambda>idx.
     op_bind (op_lift (normalize_violation (jget_or p ''violation'' (JObj p)) (jopt JInt idx))) (\<lambda>v. op_all
       [op_modify (open_violations target),
        note_violation target v,
        (case idx of
           None \<Rightarrow> op_return ()
         | Some i \<Rightarrow> op_bind (find_or_create_turn i target) (\<lambda>k. compute_field k i ''violations'' (turn_violation v))),
        op_bind (op_get (\<lambda>s. (tu_session_id s, tu_violations s))) (\<lambda>(shown, vs).
          op_when (target = shown)
            (op_bind (op_lift (rfsum (turn_float ''estimatedWasteUSD'') vs)) (\<lambda>w.
               op_modify (\<lambda>s. s\<lparr>tu_wasted_spend_usd := w\<rparr>))))])))"

text \<open>\<open>int(d.get(a, d.get(b, 0)) or 0)\<close>.\<close>

definition count_of :: "jdict \<Rightarrow> string \<Rightarrow> string \<Rightarrow> int res" where
  "count_of d a b = NormBase.py_int (py_or (get2 d a b (JInt 0)) (JInt 0))"

definition on_summary_updated :: "jdict \<Rightarrow> unit tui_op" where
  "on_summary_updated p =
     (let d = (case jget p ''summary'' of JObj d \<Rightarrow> d | _ \<Rightarrow> p);
          tot = get2 d ''totalTokens'' ''total_tokens'' JNull;
          flt = (\<lambda>k. py_float k)
      in op_all
        [if tot \<noteq> JNull then opt_set tot NormBase.py_int (\<lambda>n s. s\<lparr>tu_total_tokens := n\<rparr>)
         else op_when (jhas d ''totalInputTokens'' \<or> jhas d ''total_input_tokens'')
           (op_bind (op_lift (count_of d ''totalInputTokens'' ''total_input_tokens'')) (\<lambda>a.
            op_bind (op_lift (count_of d ''totalOutputTokens'' ''total_output_tokens'')) (\<lambda>b.
              op_modify (\<lambda>s. s\<lparr>tu_total_tokens := a + b\<rparr>)))),
         opt_set (get2 d ''cacheHitRatio'' ''cache_hit_ratio'' JNull) (flt ''cacheHitRatio'') (\<lambda>x s. s\<lparr>tu_cache_hit_ratio := x\<rparr>),
         opt_set (get2 d ''cachedReadTokens'' ''cached_read_tokens'' (jget d ''cachedInputTokens'')) NormBase.py_int
           (\<lambda>n s. s\<lparr>tu_cached_read_tokens := n\<rparr>),
         opt_set (get2 d ''totalCostUSD'' ''total_cost_usd'' (jget d ''estimatedCostUSD'')) (flt ''totalCostUSD'')
           (\<lambda>x s. s\<lparr>tu_total_spend_usd := x\<rparr>),
         opt_set (get2 d ''wastedCostUSD'' ''wasted_cost_usd'' (jget d ''potentialSavingsUSD'')) (flt ''wastedCostUSD'')
           (\<lambda>x s. s\<lparr>tu_wasted_spend_usd := x\<rparr>),
         opt_set (get2 d ''pollutionScore'' ''pollution_score'' JNull) (flt ''pollutionScore'')
           (\<lambda>x s. s\<lparr>tu_pollution_score := x\<rparr>)])"

subsection \<open>Turns from the session store\<close>

definition block_tokens :: "jdict \<Rightarrow> int res" where
  "block_tokens b = NormBase.py_int (get2 b ''token_count'' ''tokenCount'' (JInt 0))"

definition block_kind_of :: "jdict \<Rightarrow> string" where
  "block_kind_of b = str_lower (py_str (get2 b ''block_type'' ''blockType'' (JStr [])))"

definition is_thought :: "jdict \<Rightarrow> bool" where
  "is_thought b \<longleftrightarrow> block_kind_of b \<in> {''thought'', ''thoughts''} \<or>
     (case jget b ''metadata'' of
        JObj m \<Rightarrow> jget m ''type'' \<in> {JStr ''thinking'', JStr ''thought''} \<or> jget m ''thought'' = JBool True
      | _ \<Rightarrow> False)"

definition kind_tokens :: "(jdict \<Rightarrow> bool) \<Rightarrow> jdict list \<Rightarrow> int res" where
  "kind_tokens P bs = rsum block_tokens (filter P bs)"

definition is_skill :: "jdict \<Rightarrow> bool" where
  "is_skill b \<longleftrightarrow> block_kind_of b \<in> {''skill'', ''skills''}"

definition is_injected :: "jdict \<Rightarrow> bool" where
  "is_injected b \<longleftrightarrow> block_kind_of b \<in> {''injected_state'', ''injected_context''}"

definition block_dicts :: "context_block list \<Rightarrow> jdict list" where
  "block_dicts = map context_block_to_dict"

definition set_default :: "string \<Rightarrow> json \<Rightarrow> jdict \<Rightarrow> jdict" where
  "set_default k v d = (if jhas d k then d else AList.update k v d)"

definition dicts_json :: "jdict list \<Rightarrow> json" where
  "dicts_json ds = JArr (map JObj ds)"

definition loaded_total :: "jdict \<Rightarrow> int \<Rightarrow> int \<Rightarrow> int res" where
  "loaded_total d inp out =
     rbind (case jget d ''tokens'' of
              JObj m \<Rightarrow> rsum NormBase.py_int (filter is_number (map snd m))
            | v \<Rightarrow> (case num_value v of
                Some x \<Rightarrow> if 0 < x then NormBase.py_int v
                  else NormBase.py_int (get2 d ''total_tokens'' ''totalTokens'' (JInt 0))
              | None \<Rightarrow> NormBase.py_int (get2 d ''total_tokens'' ''totalTokens'' (JInt 0))))
       (\<lambda>n. Inr (if n = 0 then inp + out else n))"

definition loaded_breakdown :: "jdict \<Rightarrow> canonical_turn \<Rightarrow> int \<Rightarrow> int \<Rightarrow> int \<Rightarrow> int \<Rightarrow> jdict" where
  "loaded_breakdown d t cached skills thought injected =
     (let counted =
        [(''system'', JInt (sum_tokens (ct_system_blocks t))), (''tools'', JInt (sum_tokens (ct_tool_defs t))),
         (''history'', JInt (sum_tokens (ct_conversation_history t))),
         (''toolResults'', JInt (sum_tokens (ct_tool_results t))),
         (''assistant'', JInt (sum_tokens (ct_assistant_blocks t))), (''cache'', JInt cached),
         (''skills'', JInt skills), (''thought'', JInt thought), (''thoughts'', JInt thought),
         (''injected_state'', JInt injected)]
      in case get2 d ''tokenBreakdown'' ''token_breakdown'' (JObj []) of
        JObj b \<Rightarrow>
          if list_all (\<lambda>(_, v). py_eq v (JInt 0)) b then counted
          else
            (let b1 = set_default ''skills'' (JInt skills) b;
                 b2 = (if \<not> jhas b1 ''thought'' then AList.update ''thought'' (jget_or b1 ''thoughts'' (JInt thought)) b1 else b1)
             in set_default ''injected_state'' (JInt injected) (set_default ''thoughts'' (jget b2 ''thought'') b2))
      | _ \<Rightarrow> counted)"

definition loaded_violations :: "jdict \<Rightarrow> canonical_turn \<Rightarrow> json" where
  "loaded_violations d t =
     (let vs = jget_or d ''violations'' (JArr [])
      in if truthy vs then vs else JArr (map (\<lambda>v. JObj (rule_violation_to_dict v)) (ct_violations t)))"

text \<open>A stored turn as the interface shows it; \<open>n\<close> turns were converted before it.\<close>

definition convert_turn :: "tui \<Rightarrow> nat \<Rightarrow> canonical_turn \<Rightarrow> jdict res" where
  "convert_turn s n t =
     (let d = canonical_turn_to_dict t;
          idx = get2 d ''turnIndex'' ''turn_index'' (JInt (int n));
          bs = block_dicts (all_blocks t);
          all = (if bs \<noteq> [] then bs else block_dicts (ct_system_blocks t @ ct_tool_defs t @ ct_conversation_history t
                   @ ct_tool_results t @ ct_assistant_blocks t))
      in rbind (NormBase.py_int (get2 d ''inputTokens'' ''input_tokens'' (JInt (ct_input_tokens t)))) (\<lambda>inp.
         rbind (NormBase.py_int (get2 d ''outputTokens'' ''output_tokens'' (JInt (ct_output_tokens t)))) (\<lambda>out.
         rbind (NormBase.py_int (get2 d ''cachedReadTokens'' ''cached_read_tokens'' (JInt (ct_cached_read_tokens t)))) (\<lambda>cread.
         rbind (NormBase.py_int (get2 d ''cachedCreatedTokens'' ''cached_created_tokens'' (JInt (ct_cached_created_tokens t)))) (\<lambda>ccre.
         rbind (py_float ''cost'' (jget_or d ''cost'' (get2 d ''turnCostUSD'' ''turn_cost_usd'' (JFloat (ct_turn_cost_usd t))))) (\<lambda>cost.
         rbind (py_float ''wastedCost'' (jget_or d ''wastedCost'' (get2 d ''wastedCostUSD'' ''wasted_cost_usd''
            (JFloat (ct_wasted_cost_usd t))))) (\<lambda>wasted.
         rbind (loaded_total d inp out) (\<lambda>total.
         rbind (kind_tokens is_skill all) (\<lambda>skills.
         rbind (kind_tokens is_thought all) (\<lambda>thought.
         rbind (kind_tokens is_injected all) (\<lambda>injected.
         rbind (py_float ''durationMs'' (get2 d ''durationMs'' ''duration_ms'' (JFloat (ct_duration_ms t)))) (\<lambda>dur.
           Inr [(''turnIndex'', idx),
                (''turnId'', get2 d ''turnId'' ''turn_id'' (JStr (''turn_'' @ py_str idx))),
                (''correlationId'', get2 d ''correlationId'' ''correlation_id'' (JStr [])),
                (''status'', jget_or d ''status'' (JStr ''completed'')),
                (''model'', jget_or d ''model'' (JStr (ct_model t))),
                (''provider'', jget_or d ''provider'' (JStr (ct_provider t))),
                (''timestamp'', jget_or d ''timestamp'' (JFloat (ct_timestamp t))), (''durationMs'', JFloat dur),
                (''ttftMs'', get2 d ''ttftMs'' ''ttft_ms'' (jopt JFloat (ct_ttft_ms t))),
                (''tokens'', JInt total), (''inputTokens'', JInt inp), (''outputTokens'', JInt out),
                (''cachedReadTokens'', JInt cread), (''cachedCreatedTokens'', JInt ccre), (''cost'', JFloat cost),
                (''wastedCost'', JFloat wasted), (''violations'', loaded_violations d t),
                (''tokenBreakdown'', JObj (loaded_breakdown d t cread skills thought injected)),
                (''blocks'', dicts_json all), (''system_blocks'', dicts_json (block_dicts (ct_system_blocks t))),
                (''tool_defs'', dicts_json (block_dicts (ct_tool_defs t))),
                (''conversation_history'', dicts_json (block_dicts (ct_conversation_history t))),
                (''tool_results'', dicts_json (block_dicts (ct_tool_results t))),
                (''assistant_blocks'', dicts_json (block_dicts (ct_assistant_blocks t))),
                (''all_blocks'', dicts_json all)]))))))))))))"

text \<open>\<open>[v for t in turns for v in t.get("violations", [])]\<close>.\<close>

definition turn_violations :: "jdict \<Rightarrow> jdict list res" where
  "turn_violations t =
     rbind (py_iter (jget_or t ''violations'' (JArr []))) (rmap_list (as_obj ''violations''))"

definition load_turns_from_store :: "session_store \<Rightarrow> string \<Rightarrow> unit tui_op" where
  "load_turns_from_store store sid =
     op_bind (op_get (\<lambda>s. rmap_list (\<lambda>(n, t). convert_turn s n t) (enumerate 0 (stored_turns store sid)))) (\<lambda>r.
     op_bind (op_lift r) (\<lambda>converted.
     op_seq (op_modify (\<lambda>s. s\<lparr>tu_sessions_turns := AList.update sid converted (tu_sessions_turns s),
                               tu_turns_ref := OfSession sid\<rparr>))
     (op_bind (op_lift (rcollect turn_violations converted)) (\<lambda>viols. op_all
       [op_modify (\<lambda>s. s\<lparr>tu_sessions_violations := AList.update sid viols (tu_sessions_violations s),
                          tu_violations_ref := OfSession sid\<rparr>),
        recalculate_aggregates,
        op_modify (\<lambda>s. s\<lparr>tu_selected_turn_index := max 0 (int (length (tu_turns s)) - 1)\<rparr>)]))))"

subsection \<open>Switching sessions\<close>

definition ref_or_empty :: "(string, jdict list) dict \<Rightarrow> string \<Rightarrow> list_ref" where
  "ref_or_empty d sid = (if map_of d sid = None then Own [] else OfSession sid)"

definition find_index_of :: "'a \<Rightarrow> 'a list \<Rightarrow> nat option" where
  "find_index_of x xs = map_option fst (find (\<lambda>(_, y). y = x) (enumerate 0 xs))"

definition next_session :: "string option \<Rightarrow> tui \<Rightarrow> string" where
  "next_session target s =
     (let ids = tu_available_sessions s;
          after = (case find_index_of (tu_session_id s) ids of Some i \<Rightarrow> ids ! (Suc i mod length ids) | None \<Rightarrow> hd ids)
      in case target of Some t \<Rightarrow> if t \<noteq> [] \<and> t \<in> set ids then t else after | None \<Rightarrow> after)"

definition show_session :: "string \<Rightarrow> tui \<Rightarrow> tui" where
  "show_session sid s =
     (let m = dict_get (tu_sessions_metadata s) sid []
      in s\<lparr>tu_session_id := sid,
           tu_agent_harness := get2 m ''agentHarness'' ''harness'' (tu_agent_harness s),
           tu_model := jget_or m ''model'' (tu_model s), tu_provider := jget_or m ''provider'' (tu_provider s),
           tu_status := jget_or m ''status'' (JStr ''Active'')\<rparr>)"

definition switch_session :: "string option \<Rightarrow> session_store option \<Rightarrow> string option tui_op" where
  "switch_session target store =
     op_bind (op_get (\<lambda>s. (tu_available_sessions s, next_session target s))) (\<lambda>(ids, sid).
       if ids = [] then op_return None
       else
         op_seq (op_modify (show_session sid))
         (op_seq (case store of
            Some st \<Rightarrow> load_turns_from_store st sid
          | None \<Rightarrow> op_seq (op_modify (\<lambda>s. s\<lparr>tu_turns_ref := ref_or_empty (tu_sessions_turns s) sid,
               tu_violations_ref := ref_or_empty (tu_sessions_violations s) sid\<rparr>)) recalculate_aggregates)
         (op_seq (op_modify (\<lambda>s. s\<lparr>tu_selected_turn_index := max 0 (int (length (tu_turns s)) - 1)\<rparr>))
          (op_return (Some sid)))))"

subsection \<open>Sessions that end\<close>

definition forget_session :: "string \<Rightarrow> tui \<Rightarrow> tui" where
  "forget_session sid s =
     (if sid = [] then s
      else s\<lparr>tu_available_sessions := remove1 sid (tu_available_sessions s),
             tu_sessions_metadata := AList.delete sid (tu_sessions_metadata s),
             tu_turns_ref := detach sid (tu_sessions_turns s) (tu_turns_ref s),
             tu_sessions_turns := AList.delete sid (tu_sessions_turns s),
             tu_violations_ref := detach sid (tu_sessions_violations s) (tu_violations_ref s),
             tu_sessions_violations := AList.delete sid (tu_sessions_violations s)\<rparr>)"

text \<open>\<open>turns.clear()\<close> empties the list under every name.\<close>

definition clear_list :: "list_ref \<Rightarrow> (string, jdict list) dict \<Rightarrow> list_ref \<times> (string, jdict list) dict" where
  "clear_list r d =
     (case r of
        OfSession sid \<Rightarrow> (r, if map_of d sid = None then d else AList.update sid [] d)
      | Own _ \<Rightarrow> (Own [], d))"

definition clear_shown :: "tui \<Rightarrow> tui" where
  "clear_shown s =
     (let (tr, ts) = clear_list (tu_turns_ref s) (tu_sessions_turns s);
          (vr, vs) = clear_list (tu_violations_ref s) (tu_sessions_violations s)
      in s\<lparr>tu_turns_ref := tr, tu_sessions_turns := ts, tu_violations_ref := vr, tu_sessions_violations := vs,
           tu_total_tokens := 0, tu_cached_read_tokens := 0, tu_cached_created_tokens := 0, tu_cache_hit_ratio := 0,
           tu_total_spend_usd := 0, tu_wasted_spend_usd := 0, tu_pollution_score := 0, tu_selected_turn_index := 0,
           tu_is_exported := False\<rparr>)"

definition no_session :: "tui \<Rightarrow> tui" where
  "no_session s =
     s\<lparr>tu_session_id := ''sess_default'', tu_status := JStr ''Erased (Unexported)'',
       tu_agent_harness := JStr ''unknown'', tu_model := JStr ''unknown'', tu_provider := JStr ''unknown''\<rparr>"

definition on_session_erased :: "string \<Rightarrow> unit tui_op" where
  "on_session_erased sid =
     op_seq (op_modify (forget_session sid))
     (op_bind (op_get (\<lambda>s. sid = tu_session_id s \<or> tu_session_id s = [])) (\<lambda>shown. op_when shown
       (op_seq (op_modify clear_shown)
        (op_bind (op_get tu_available_sessions) (\<lambda>ids.
          case ids of
            [] \<Rightarrow> op_modify no_session
          | other # _ \<Rightarrow> op_bind (switch_session (Some other) None) (\<lambda>_. op_return ()))))))"

definition on_session_disconnected :: "string \<Rightarrow> tui \<Rightarrow> tui" where
  "on_session_disconnected sid s =
     (let s1 = (case map_of (tu_sessions_metadata s) sid of
                  Some m \<Rightarrow> if sid \<noteq> [] then s\<lparr>tu_sessions_metadata :=
                     AList.update sid (AList.update ''status'' (JStr ''disconnected'') m) (tu_sessions_metadata s)\<rparr> else s
                | None \<Rightarrow> s)
      in if sid = tu_session_id s1 \<or> tu_session_id s1 = []
         then s1\<lparr>tu_status := JStr ''Disconnected (Exported)''\<rparr> else s1)"

definition apply_event :: "ui_event \<Rightarrow> unit tui_op" where
  "apply_event e =
     op_bind (op_lift (event_sid e)) (\<lambda>sid.
     op_seq (op_modify (note_session sid))
       (case ue_type e of
          SESSION_CREATED \<Rightarrow> op_modify (on_session_created sid (ue_payload e))
        | TURN_STARTED \<Rightarrow> on_turn_started sid (ue_payload e)
        | TURN_STREAMING \<Rightarrow> on_turn_streaming sid (ue_payload e)
        | UI_TURN_COMPLETED \<Rightarrow> on_turn_completed sid (ue_payload e)
        | VIOLATION_DETECTED \<Rightarrow> on_violation_detected sid (ue_payload e)
        | SESSION_SUMMARY_UPDATED \<Rightarrow> on_summary_updated (ue_payload e)
        | SESSION_ENDED \<Rightarrow> op_modify (\<lambda>s. s\<lparr>tu_status := JStr ''Ended''\<rparr>)
        | SESSION_ERASED \<Rightarrow> on_session_erased (ue_session_id e)
        | UI_SESSION_DISCONNECTED \<Rightarrow> op_modify (on_session_disconnected (ue_session_id e))))"

end
