(* ===== verification/TuiViews.thy ===== *)
theory TuiViews
  imports TuiState
begin

text \<open>
  What the terminal interface shows of its state (the getters of \<open>src/presentation/tui/state.py\<close>):
  the selected turn, the session summary, violations grouped by rule, the token breakdown, the
  blocks of a turn and their transitions from the previous one, and the exported document.
\<close>

subsection \<open>The selected turn\<close>

definition get_selected_turn :: "tui \<Rightarrow> jdict option" where
  "get_selected_turn s =
     (let ts = tu_turns s; i = tu_selected_turn_index s
      in if ts = [] then None
         else (case find (has_index i) ts of
                 Some t \<Rightarrow> Some t
               | None \<Rightarrow> Some (if 0 \<le> i \<and> i < int (length ts) then ts ! nat i else last ts)))"

definition get_summary :: "tui \<Rightarrow> jdict" where
  "get_summary s =
     [(''sessionId'', JStr (tu_session_id s)), (''agentHarness'', tu_agent_harness s), (''model'', tu_model s),
      (''provider'', tu_provider s), (''status'', tu_status s), (''totalTokens'', JInt (tu_total_tokens s)),
      (''cacheHitRatio'', JFloat (tu_cache_hit_ratio s)), (''cachedReadTokens'', JInt (tu_cached_read_tokens s)),
      (''cachedCreatedTokens'', JInt (tu_cached_created_tokens s)), (''totalCostUSD'', JFloat (tu_total_spend_usd s)),
      (''wastedCostUSD'', JFloat (tu_wasted_spend_usd s)), (''pollutionScore'', JFloat (tu_pollution_score s)),
      (''turnCount'', JInt (int (length (tu_turns s))))]"

definition get_violations_for_selected_turn :: "tui \<Rightarrow> json list res" where
  "get_violations_for_selected_turn s =
     (if tu_show_all_violations s then Inr (map JObj (tu_violations s))
      else (case get_selected_turn s of
              Some t \<Rightarrow> if jhas t ''violations'' then py_iter (jget t ''violations'') else Inr []
            | None \<Rightarrow> Inr []))"

subsection \<open>Violations by rule\<close>

text \<open>Rule ids and turn indices are strings, integers or \<open>None\<close>; as keys they are compared structurally.\<close>

text \<open>\<open>int(v.get("turnIndex", 0) or 0)\<close> and \<open>v.get(a) or v.get(b, d)\<close>.\<close>

definition viol_turn :: "jdict \<Rightarrow> int res" where
  "viol_turn v = NormBase.py_int (py_or (jget_or v ''turnIndex'' (JInt 0)) (JInt 0))"

definition either_key :: "jdict \<Rightarrow> string \<Rightarrow> string \<Rightarrow> json \<Rightarrow> json" where
  "either_key v a b d = py_or (jget v a) (jget_or v b d)"

definition current_turn_index :: "tui \<Rightarrow> int res" where
  "current_turn_index s =
     (let n = int (length (tu_turns s)); i = tu_selected_turn_index s
      in if tu_turns s \<noteq> [] then Inr (if 0 \<le> i \<and> i < n then i else n - 1)
         else if tu_violations s \<noteq> [] then
           rbind (rmap_list viol_turn (tu_violations s)) (\<lambda>is. Inr (Max (set is)))
         else Inr i)"

definition viol_key :: "jdict \<Rightarrow> json \<times> json" where
  "viol_key v = (jget v ''ruleId'', jget v ''turnIndex'')"

text \<open>The violations of the turns that are not in the total yet.\<close>

definition turn_raw_violations :: "jdict \<Rightarrow> jdict list res" where
  "turn_raw_violations t =
     rbind (py_iter (jget_or t ''violations'' (JArr []))) (rmap_list (\<lambda>v.
       case v of
         JObj d \<Rightarrow> if jhas d ''turnIndex'' then Inr d else normalize_violation v (get2 t ''turnIndex'' ''turn_index'' (JInt 0))
       | _ \<Rightarrow> normalize_violation v (get2 t ''turnIndex'' ''turn_index'' (JInt 0))))"

definition all_raw_violations :: "tui \<Rightarrow> jdict list res" where
  "all_raw_violations s =
     rbind (rcollect turn_raw_violations (tu_turns s)) (\<lambda>vs.
       Inr (tu_violations s @ uniq_by viol_key (viol_key ` set (tu_violations s)) vs))"

definition group_name :: "jdict \<Rightarrow> json" where
  "group_name v =
     (let rule = either_key v ''ruleId'' ''rule_id'' (JStr []); fix' = either_key v ''suggestedFix'' ''suggested_fix'' (JStr []);
          title = or_chain [jget v ''title'', rule, JStr ''UNKNOWN'']
      in if truthy rule then rule else py_or fix' title)"

text \<open>A group map keeps the order in which the groups were opened.\<close>

fun tui_groups :: "(json, jdict list) dict \<Rightarrow> jdict list \<Rightarrow> (json, jdict list) dict" where
  "tui_groups g [] = g"
| "tui_groups g (v # vs) = tui_groups (AList.update (group_name v) (dict_get g (group_name v) [] @ [v]) g) vs"

definition sort_by_turn :: "jdict list \<Rightarrow> (int \<times> jdict) list res" where
  "sort_by_turn vs = rbind (rmap_list viol_turn vs) (\<lambda>is. Inr (sort_key fst (zip is vs)))"

definition worst_severity :: "jdict list \<Rightarrow> string" where
  "worst_severity vs =
     (let sevs = map (\<lambda>v. map upper_char (py_str (jget_or v ''severity'' (JStr ''WARN'')))) vs
      in if ''CRITICAL'' \<in> set sevs then ''CRITICAL'' else if ''WARN'' \<in> set sevs then ''WARN'' else ''INFO'')"

definition any_fix :: "jdict \<Rightarrow> json" where
  "any_fix v = either_key v ''suggestedFix'' ''suggested_fix'' JNull"

definition fix_of_group :: "jdict option \<Rightarrow> jdict list \<Rightarrow> json" where
  "fix_of_group cur vs =
     (let own = (case cur of Some v \<Rightarrow> any_fix v | None \<Rightarrow> JStr [])
      in py_or own (case find truthy (map any_fix (rev vs)) of Some f \<Rightarrow> f | None \<Rightarrow> JStr ''No suggestion provided.''))"

definition viol_waste :: "jdict \<Rightarrow> rat res" where
  "viol_waste v = py_float ''estimatedWasteUSD'' (py_or (jget_or v ''estimatedWasteUSD'' (JFloat 0)) (JFloat 0))"

definition viol_blocks :: "jdict \<Rightarrow> json list res" where
  "viol_blocks v = py_iter (or_chain [jget v ''blockIds'', jget v ''block_ids'', JArr []])"

definition ints_json :: "int list \<Rightarrow> json" where
  "ints_json is = JArr (map JInt is)"

definition waste_sum :: "jdict list \<Rightarrow> (rat \<times> json) res" where
  "waste_sum vs = rbind (rfsum viol_waste vs) (\<lambda>x. Inr (x, if vs = [] then JInt 0 else JFloat x))"

definition severity_rank :: "string \<Rightarrow> int" where
  "severity_rank sev = (if sev = ''CRITICAL'' then 0 else if sev = ''WARN'' then 1 else if sev = ''INFO'' then 2 else 3)"

text \<open>A group with its rank; a group without a violation of the current turn may be skipped.\<close>

definition tui_group :: "bool \<Rightarrow> int \<Rightarrow> jdict list \<Rightarrow> ((int \<times> rat) \<times> jdict) list res" where
  "tui_group skip current vs =
     rbind (sort_by_turn vs) (\<lambda>pairs.
       let sorted = map snd pairs; first = hd sorted;
           rule = either_key first ''ruleId'' ''rule_id'' (JStr ''CTX-000''); title = jget_or first ''title'' rule;
           sev = worst_severity sorted;
           earlier = map snd (filter (\<lambda>(i, _). i < current) pairs);
           now = map snd (filter (\<lambda>(i, _). i = current) pairs);
           later = map snd (filter (\<lambda>(i, _). current < i) pairs);
           cur = (case now of [] \<Rightarrow> None | v # _ \<Rightarrow> Some v);
           fix' = fix_of_group cur sorted;
           cur_json = (case cur of None \<Rightarrow> JNull | Some v \<Rightarrow> JObj v);
           all_idx = sorted_list_of_set (fst ` set pairs);
           early_idx = sorted_list_of_set (fst ` set (filter (\<lambda>(i, _). i < current) pairs))
       in if skip \<and> cur = None then Inr [] else
          rbind (waste_sum sorted) (\<lambda>(w, total). rbind (waste_sum earlier) (\<lambda>(_, before).
          rbind (waste_sum now) (\<lambda>(_, present). rbind (rcollect viol_blocks sorted) (\<lambda>ids.
          let blocks = JArr (uniq_by id {} ids) in
          Inr [((severity_rank sev, - w),
            [(''ruleId'', rule), (''rule_id'', rule), (''severity'', JStr sev), (''title'', title),
             (''suggestedFix'', fix'), (''suggested_fix'', fix'),
             (''totalOccurrences'', JInt (int (length sorted))), (''total_occurrences'', JInt (int (length sorted))),
             (''turnCount'', JInt (int (length all_idx))), (''turn_count'', JInt (int (length all_idx))),
             (''turnIndices'', ints_json all_idx), (''turn_indices'', ints_json all_idx),
             (''currentTurnIndex'', JInt current), (''current_turn_index'', JInt current),
             (''currentTurnViolation'', cur_json), (''current_violation'', cur_json),
             (''earlierViolations'', dicts_json earlier), (''earlier_violations'', dicts_json earlier),
             (''earlierTurnIndices'', ints_json early_idx), (''earlier_turn_indices'', ints_json early_idx),
             (''laterViolations'', dicts_json later), (''later_violations'', dicts_json later),
             (''totalWasteUSD'', total), (''total_waste_usd'', total),
             (''estimatedWasteUSD'', total), (''estimated_waste_usd'', total),
             (''earlierWasteUSD'', before), (''earlier_waste_usd'', before),
             (''currentWasteUSD'', present), (''current_waste_usd'', present),
             (''blockIds'', blocks), (''block_ids'', blocks),
             (''allViolations'', dicts_json sorted), (''all_violations'', dicts_json sorted)])])))))"

definition tui_grouped_violations :: "bool option \<Rightarrow> tui \<Rightarrow> jdict list res" where
  "tui_grouped_violations selected_only s =
     (let selected = (case selected_only of Some b \<Rightarrow> b | None \<Rightarrow> \<not> tu_show_all_violations s)
      in rbind (current_turn_index s) (\<lambda>current.
         rbind (all_raw_violations s) (\<lambda>vs.
         rbind (rcollect (\<lambda>(_, g). tui_group (selected \<and> tu_turns s \<noteq> []) current g) (tui_groups [] vs)) (\<lambda>groups.
           Inr (map snd (sort_key fst groups))))))"

subsection \<open>Blocks and the token breakdown of a turn\<close>

definition add_lists :: "jdict \<Rightarrow> string list \<Rightarrow> json res" where
  "add_lists t ks = foldl (\<lambda>acc k. rbind acc (\<lambda>a. py_add a (jget_or t k (JArr [])))) (Inr (JArr [])) ks"

definition block_objects :: "json list \<Rightarrow> jdict list" where
  "block_objects bs = concat (map (\<lambda>b. case b of JObj d \<Rightarrow> [d] | _ \<Rightarrow> []) bs)"

definition extract_blocks_from_turn :: "jdict option \<Rightarrow> jdict list res" where
  "extract_blocks_from_turn turn =
     (case turn of
        None \<Rightarrow> Inr []
      | Some t \<Rightarrow>
          if t = [] then Inr []
          else
            (let raw = py_or (jget t ''blocks'') (jget t ''all_blocks'')
             in rbind (if truthy raw then Inr raw
                       else add_lists t [''system_blocks'', ''tool_defs'', ''conversation_history'', ''tool_results'', ''assistant_blocks''])
                  (\<lambda>bs. rbind (py_iter bs) (\<lambda>xs. Inr (block_objects xs)))))"

definition get_blocks_for_selected_turn :: "tui \<Rightarrow> json list res" where
  "get_blocks_for_selected_turn s =
     (case get_selected_turn s of
        None \<Rightarrow> Inr []
      | Some [] \<Rightarrow> Inr []
      | Some t \<Rightarrow>
          rbind (extract_blocks_from_turn (Some t)) (\<lambda>bs.
            if bs \<noteq> [] then Inr (map JObj bs) else py_iter (jget_or t ''blocks'' (JArr []))))"

definition is_zero :: "json \<Rightarrow> bool" where
  "is_zero v = py_eq v (JInt 0)"

text \<open>A category that is missing or zero is counted from the blocks.\<close>

definition count_category :: "string \<Rightarrow> (jdict \<Rightarrow> bool) \<Rightarrow> jdict list \<Rightarrow> jdict \<Rightarrow> jdict res" where
  "count_category k P blocks b =
     (if \<not> jhas b k \<or> is_zero (jget b k) then
        rbind (kind_tokens P blocks) (\<lambda>n. Inr (if 0 < n \<or> \<not> jhas b k then AList.update k (JInt n) b else b))
      else Inr b)"

definition count_thoughts :: "jdict list \<Rightarrow> jdict \<Rightarrow> jdict res" where
  "count_thoughts blocks b =
     (if \<not> jhas b ''thought'' \<or> is_zero (jget b ''thought'') then
        rbind (if truthy (jget_or b ''thoughts'' (JInt 0)) then Inr (jget_or b ''thoughts'' (JInt 0))
               else rbind (kind_tokens is_thought blocks) (\<lambda>n. Inr (JInt n)))
          (\<lambda>v. Inr (set_default ''thoughts'' v (AList.update ''thought'' v b)))
      else Inr (set_default ''thoughts'' (jget b ''thought'') b))"

definition get_context_breakdown_for_selected_turn :: "tui \<Rightarrow> jdict res" where
  "get_context_breakdown_for_selected_turn s =
     (case get_selected_turn s of
        None \<Rightarrow> Inr zero_breakdown
      | Some [] \<Rightarrow> Inr zero_breakdown
      | Some t \<Rightarrow>
          rbind (as_obj ''tokenBreakdown'' (jget_or t ''tokenBreakdown'' (JObj []))) (\<lambda>b.
          let b1 = foldl (\<lambda>b k. set_default k (JInt 0) b) b [''system'', ''tools'', ''history'', ''toolResults'', ''assistant''];
              b2 = set_default ''cache'' (jget_or t ''cachedReadTokens'' (JInt 0)) b1
          in rbind (extract_blocks_from_turn (Some t)) (\<lambda>blocks.
             rbind (count_category ''skills'' is_skill blocks b2) (\<lambda>b3.
             rbind (count_thoughts blocks b3) (count_category ''injected_state'' is_injected blocks)))))"

subsection \<open>Block transitions\<close>

definition bfield :: "jdict \<Rightarrow> string \<Rightarrow> string \<Rightarrow> json" where
  "bfield b a a' = get2 b a a' (JStr [])"

definition bid_of :: "jdict \<Rightarrow> json" where
  "bid_of b = bfield b ''block_id'' ''blockId''"

definition tui_match_key :: "jdict \<Rightarrow> string \<times> string" where
  "tui_match_key b =
     (let ty = py_str (bfield b ''block_type'' ''blockType''); ident = py_str (bfield b ''identity_key'' ''identityKey'');
          hash = py_str (bfield b ''content_hash'' ''contentHash'')
      in if ident \<noteq> [] then (ty, ident) else if hash \<noteq> [] then (ty, hash) else (ty, py_str (bid_of b)))"

definition make_transition :: "jdict \<Rightarrow> string \<Rightarrow> string \<Rightarrow> jdict res" where
  "make_transition b status tag =
     rbind (block_tokens b) (\<lambda>n.
       Inr [(''block_id'', bid_of b), (''identity_key'', bfield b ''identity_key'' ''identityKey''),
            (''block_type'', get2 b ''block_type'' ''blockType'' (JStr ''unknown'')), (''status'', JStr status),
            (''status_tag'', JStr tag), (''token_count'', JInt n), (''content'', jget_or b ''content'' (JStr [])),
            (''block'', JObj b)])"

datatype block_change = NewBlock | KeptBlock | ChangedBlock | GoneBlock

fun transition :: "jdict \<Rightarrow> block_change \<Rightarrow> jdict res" where
  "transition b NewBlock = make_transition b ''added'' ''[+] Added''"
| "transition b KeptBlock = make_transition b ''persisted'' ''[=] Persisted''"
| "transition b ChangedBlock = make_transition b ''mutated'' ''[~] Mutated''"
| "transition b GoneBlock = make_transition b ''evicted'' ''[-] Evicted''"

text \<open>The first block of each key, and the blocks whose id occurs for the first time.\<close>

definition by_match_key :: "jdict list \<Rightarrow> (string \<times> string, jdict) dict" where
  "by_match_key = index_first tui_match_key"

definition first_blocks :: "jdict list \<Rightarrow> jdict list" where
  "first_blocks = uniq_by bid_of {}"

definition computed_status :: "jdict list \<Rightarrow> jdict \<Rightarrow> block_change" where
  "computed_status prev b =
     (case map_of (by_match_key prev) (tui_match_key b) of
        None \<Rightarrow> NewBlock
      | Some p \<Rightarrow>
          if truthy (bfield b ''identity_key'' ''identityKey'')
             \<and> bfield b ''content_hash'' ''contentHash'' \<noteq> bfield p ''content_hash'' ''contentHash''
          then ChangedBlock else KeptBlock)"

definition given_status :: "json list \<Rightarrow> json list \<Rightarrow> jdict \<Rightarrow> block_change" where
  "given_status mutated persisted b =
     (if bid_of b \<in> set mutated then ChangedBlock else if bid_of b \<in> set persisted then KeptBlock else NewBlock)"

definition change_ids :: "block_change \<Rightarrow> (jdict \<times> block_change) list \<Rightarrow> json list" where
  "change_ids st ps = map (\<lambda>(b, _). bid_of b) (filter (\<lambda>(_, x). x = st) ps)"

definition removed_blocks :: "jdict list \<Rightarrow> jdict list \<Rightarrow> jdict list" where
  "removed_blocks cur prev = filter (\<lambda>b. map_of (by_match_key cur) (tui_match_key b) = None) (first_blocks prev)"

definition inputs_of :: "jdict \<Rightarrow> int res" where
  "inputs_of t = NormBase.py_int (get2 t ''inputTokens'' ''input_tokens'' (JInt 0))"

definition tokens_of_blocks :: "jdict list \<Rightarrow> int res" where
  "tokens_of_blocks = rsum block_tokens"

definition delta_dict :: "int \<Rightarrow> json list \<Rightarrow> json list \<Rightarrow> json list \<Rightarrow> json list \<Rightarrow> json \<Rightarrow> int \<Rightarrow> jdict list \<Rightarrow> jdict" where
  "delta_dict i added persisted mutated removed cb growth trs =
     [(''turn_index'', JInt i), (''added_block_ids'', JArr added), (''persisted_block_ids'', JArr persisted),
      (''mutated_block_ids'', JArr mutated), (''removed_block_ids'', JArr removed), (''evicted_block_ids'', JArr removed),
      (''cache_breakpoint_block_id'', cb), (''token_growth'', JInt growth),
      (''added_count'', JInt (int (length added))), (''persisted_count'', JInt (int (length persisted))),
      (''mutated_count'', JInt (int (length mutated))), (''evicted_count'', JInt (int (length removed))),
      (''transitions'', dicts_json trs)]"

definition first_turn_delta :: "int \<Rightarrow> jdict \<Rightarrow> jdict list \<Rightarrow> jdict res" where
  "first_turn_delta i t cur =
     rbind (rmap_list (\<lambda>b. transition b NewBlock) (first_blocks cur)) (\<lambda>trs.
     rbind (inputs_of t) (\<lambda>n.
     rbind (if n = 0 then tokens_of_blocks cur else Inr n) (\<lambda>growth.
       Inr (delta_dict i (map bid_of (first_blocks cur)) [] [] [] JNull growth trs))))"

text \<open>The delta a turn carries, and the lists of ids in it.\<close>

definition attached_delta :: "jdict \<Rightarrow> jdict" where
  "attached_delta t = (case py_or (jget t ''delta'') (jget t ''turnDelta'') of JObj d \<Rightarrow> d | _ \<Rightarrow> [])"

definition id_list :: "jdict \<Rightarrow> string \<Rightarrow> string \<Rightarrow> json list res" where
  "id_list d a a' = py_iter (get2 d a a' (JArr []))"

definition growth_between :: "jdict \<Rightarrow> jdict \<Rightarrow> jdict option \<Rightarrow> jdict list \<Rightarrow> jdict list \<Rightarrow> int res" where
  "growth_between d t prev cur before =
     (if jhas d ''token_growth'' \<or> jhas d ''tokenGrowth'' then
        NormBase.py_int (get2 d ''token_growth'' ''tokenGrowth'' (JInt 0))
      else
        rbind (inputs_of t) (\<lambda>a.
        rbind (case prev of Some (x # xs) \<Rightarrow> inputs_of (x # xs) | _ \<Rightarrow> Inr 0) (\<lambda>b.
          if 0 < a \<or> 0 < b then Inr (a - b)
          else rbind (tokens_of_blocks cur) (\<lambda>x. rbind (tokens_of_blocks before) (\<lambda>y. Inr (x - y))))))"

definition delta_between :: "int \<Rightarrow> jdict \<Rightarrow> jdict option \<Rightarrow> jdict list \<Rightarrow> jdict list \<Rightarrow> jdict res" where
  "delta_between i t prev cur before =
     (let d = attached_delta t
      in rbind (id_list d ''added_block_ids'' ''addedBlockIds'') (\<lambda>added.
         rbind (id_list d ''persisted_block_ids'' ''persistedBlockIds'') (\<lambda>persisted.
         rbind (id_list d ''mutated_block_ids'' ''mutatedBlockIds'') (\<lambda>mutated.
         rbind (id_list d ''removed_block_ids'' ''removedBlockIds'') (\<lambda>removed.
         let compute = (added = [] \<and> persisted = [] \<and> mutated = [] \<and> removed = []);
             status = (if compute then computed_status before else given_status mutated persisted);
             ps = map (\<lambda>b. (b, status b)) (first_blocks cur);
             gone = (if compute then removed_blocks cur before
                     else filter (\<lambda>b. bid_of b \<in> set removed) (first_blocks before));
             added' = added @ (if compute then change_ids NewBlock ps else []);
             persisted' = persisted @ (if compute then change_ids KeptBlock ps else []);
             mutated' = mutated @ (if compute then change_ids ChangedBlock ps else []);
             removed' = removed @ (if compute then map bid_of gone else []);
             cb = get2 d ''cache_breakpoint_block_id'' ''cacheBreakpointBlockId'' JNull;
             cb' = (if cb \<noteq> JNull then cb
                    else (case find (\<lambda>b. bid_of b \<notin> set persisted') cur of Some b \<Rightarrow> bid_of b | None \<Rightarrow> JNull))
         in rbind (rmap_list (\<lambda>(b, st). transition b st) ps) (\<lambda>trs.
            rbind (rmap_list (\<lambda>b. transition b GoneBlock) gone) (\<lambda>outs.
            rbind (growth_between d t prev cur before) (\<lambda>growth.
              Inr (delta_dict i added' persisted' mutated' removed' cb' growth (trs @ outs))))))))))"

definition turn_position :: "int \<Rightarrow> jdict list \<Rightarrow> nat" where
  "turn_position target ts =
     (case find (\<lambda>(_, t). has_index target t) (enumerate 0 ts) of
        Some (n, _) \<Rightarrow> n
      | None \<Rightarrow> if 0 \<le> target \<and> target < int (length ts) then nat target else length ts - 1)"

definition get_turn_delta :: "int option \<Rightarrow> tui \<Rightarrow> jdict res" where
  "get_turn_delta turn_index s =
     (let ts = tu_turns s; target = (case turn_index of Some i \<Rightarrow> i | None \<Rightarrow> tu_selected_turn_index s)
      in if ts = [] then Inr (delta_dict 0 [] [] [] [] JNull 0 [])
         else
           (let n = turn_position target ts; t = ts ! n; prev = (if 0 < n then Some (ts ! (n - 1)) else None)
            in rbind (NormBase.py_int (jget_or t ''turnIndex'' (JInt target))) (\<lambda>i.
               rbind (extract_blocks_from_turn (Some t)) (\<lambda>cur.
               rbind (extract_blocks_from_turn prev) (\<lambda>before.
                 if prev = None \<and> attached_delta t = [] then first_turn_delta i t cur
                 else delta_between i t prev cur before)))))"

definition get_delta_for_selected_turn :: "tui \<Rightarrow> jdict res" where
  "get_delta_for_selected_turn s = get_turn_delta (Some (tu_selected_turn_index s)) s"

definition get_block_transitions_for_selected_turn :: "tui \<Rightarrow> json list res" where
  "get_block_transitions_for_selected_turn s =
     rbind (get_delta_for_selected_turn s) (\<lambda>d. py_iter (jget_or d ''transitions'' (JArr [])))"

subsection \<open>The exported document\<close>

text \<open>The time stamp and \<open>json.dumps\<close> with indentation are arguments.\<close>

definition tui_document :: "string \<Rightarrow> tui \<Rightarrow> jdict" where
  "tui_document now s =
     (let sid = (if tu_session_id s \<noteq> [] then tu_session_id s else ''sess_default'')
      in [(''$schema'', JStr ''https://ctxins.dev/schemas/session.v1.json''), (''sessionId'', JStr sid),
          (''version'', JStr ''1.0''), (''timestamp'', JStr now),
          (''client'', JObj [(''harness'', tu_agent_harness s), (''version'', JStr ''1.0.0''), (''source'', JStr ''ctxins-tui'')]),
          (''model'', JObj [(''provider'', py_or (tu_provider s) (JStr ''unknown'')), (''name'', py_or (tu_model s) (JStr ''unknown''))]),
          (''summary'', JObj (get_summary s)), (''turns'', dicts_json (tu_turns s)),
          (''violations'', dicts_json (tu_violations s))])"

definition comment_line :: "string \<Rightarrow> string" where
  "comment_line l = ''// '' @ l @ [CHR 0x0A]"

definition export_to_jsonc :: "(json \<Rightarrow> string) \<Rightarrow> string \<Rightarrow> tui \<Rightarrow> string \<times> tui" where
  "export_to_jsonc dumps now s =
     (let sid = (if tu_session_id s \<noteq> [] then tu_session_id s else ''sess_default'')
      in (comment_line ''ctxins Session Export'' @ comment_line (''Session ID: '' @ sid)
          @ comment_line (''Exported At: '' @ now)
          @ comment_line (''Provider: '' @ py_str (tu_provider s) @ '' | Model: '' @ py_str (tu_model s))
          @ [CHR 0x0A] @ dumps (JObj (tui_document now s)), s\<lparr>tu_is_exported := True\<rparr>))"

end
