(* ===== verification/PipelineProps.thy ===== *)
theory PipelineProps
  imports Pipeline
begin

text \<open>
  What the pipeline guarantees over any sequence of envelopes, scans and cleanups: the store
  invariant holds, turns are numbered by their position, and every completed turn is published with
  its violations and the new summary. Also what it loses.
\<close>

subsection \<open>Normalised envelopes\<close>

lemma or_chain_truthy: "truthy x \<Longrightarrow> or_chain (x # xs) = x"
  by (cases xs) (simp_all add: py_or_def)

lemma base_fields:
  assumes "extract_base_fields now (RawDict (envelope_to_dict e)) (Some i) dflt = Inr (m, req, resp)"
    and "canonical_session_id (we_session_id e)"
  shows "nm_turn_index m = i" "nm_session_id m = we_session_id e"
proof -
  have sid: "we_session_id e \<noteq> []" using assms(2) by (auto simp: canonical_session_id_def)
  have "jget (envelope_to_dict e) ''session_id'' = JStr (we_session_id e)"
    by (simp add: envelope_to_dict_def jget_def dict_get_def)
  then have "or_chain (both (envelope_to_dict e) p [''session_id'', ''sessionId''] @ xs) = JStr (we_session_id e)" for p xs
    using sid by (simp add: both_def or_chain_truthy del: or_chain.simps)
  with assms normalize_canonical [OF assms(2)] show "nm_turn_index m = i" "nm_session_id m = we_session_id e"
    by (auto simp: extract_base_fields_def resolve_index_def raw_dict_def rbind_eq_Inr Let_def)
qed

lemma build_fields:
  assumes "build_turn m p = Inr t"
  shows "ct_turn_index t = nm_turn_index m" "ct_session_id t = nm_session_id m" "ct_violations t = []"
    "ct_metadata t = []"
  using assms by (auto simp: build_turn_def rbind_eq_Inr split: prod.splits)

lemma gemini_meta_kept:
  "nm_turn_index (late_usage m resp) = nm_turn_index m" "nm_session_id (late_usage m resp) = nm_session_id m"
  "nm_turn_index (fst (unwrap_request m req)) = nm_turn_index m"
  "nm_session_id (fst (unwrap_request m req)) = nm_session_id m"
  by (auto simp: late_usage_def unwrap_request_def Let_def split: json.splits option.splits list.splits)

lemma normalized_fields:
  assumes t: "normalize_turn n now (RawDict (envelope_to_dict e)) (Some i) = Inr t"
    and sid: "canonical_session_id (we_session_id e)"
  shows "ct_turn_index t = i \<and> ct_session_id t = we_session_id e \<and> ct_violations t = [] \<and> ct_metadata t = []"
proof -
  have "\<exists>m p. build_turn m p = Inr t \<and> nm_turn_index m = i \<and> nm_session_id m = we_session_id e"
  proof (cases n)
    case AnthropicNorm
    with t obtain m req resp p where "extract_base_fields now (RawDict (envelope_to_dict e)) (Some i) ''anthropic'' = Inr (m, req, resp)"
        "build_turn m p = Inr t"
      by (auto simp: anthropic_normalize_def rbind_eq_Inr)
    with base_fields [OF _ sid] show ?thesis by blast
  next
    case OpenAiNorm
    with t obtain m req resp p where "extract_base_fields now (RawDict (envelope_to_dict e)) (Some i) ''openai'' = Inr (m, req, resp)"
        "build_turn m p = Inr t"
      by (auto simp: openai_normalize_def rbind_eq_Inr)
    with base_fields [OF _ sid] show ?thesis by blast
  next
    case GeminiNorm
    with t obtain m req resp where m: "extract_base_fields now (RawDict (envelope_to_dict e)) (Some i) ''gemini'' = Inr (m, req, resp)"
      by (auto simp: gemini_normalize_def rbind_eq_Inr)
    obtain m1 req1 where u: "unwrap_request m req = (m1, req1)" by fastforce
    from t GeminiNorm m u obtain p where "build_turn (late_usage m1 (unwrap_stream resp)) p = Inr t"
      by (auto simp: gemini_normalize_def rbind_eq_Inr Let_def)
    then have b: "build_turn (late_usage (fst (unwrap_request m req)) (unwrap_stream resp)) p = Inr t" by (simp add: u)
    with base_fields [OF m sid] show ?thesis
      by (intro exI [of _ "late_usage (fst (unwrap_request m req)) (unwrap_stream resp)"] exI [of _ p])
        (simp add: gemini_meta_kept)
  qed
  then show ?thesis using build_fields by metis
qed

lemma normalized_built:
  assumes "normalize_turn n now raw i = Inr t"
  obtains m p where "build_turn m p = Inr t"
proof (cases n)
  case AnthropicNorm
  with assms that show ?thesis by (auto simp: anthropic_normalize_def rbind_eq_Inr)
next
  case OpenAiNorm
  with assms that show ?thesis by (auto simp: openai_normalize_def rbind_eq_Inr)
next
  case GeminiNorm
  with assms obtain m req resp where m: "extract_base_fields now raw i ''gemini'' = Inr (m, req, resp)"
    by (auto simp: gemini_normalize_def rbind_eq_Inr)
  obtain m1 req1 where u: "unwrap_request m req = (m1, req1)" by fastforce
  with assms GeminiNorm m that show ?thesis by (auto simp: gemini_normalize_def rbind_eq_Inr Let_def)
qed

lemma normalized_violations: "normalize_turn n now raw i = Inr t \<Longrightarrow> ct_violations t = []"
  using normalized_built build_fields(3) by metis

subsection \<open>The store\<close>

lemma analyze_turn_fields:
  assumes "analyze_turn hs t g prev pricing = Inr t'"
  shows "ct_session_id t' = ct_session_id t" "ct_turn_index t' = ct_turn_index t"
  using assms by (auto simp: analyze_turn_def rbind_eq_Inr Let_def)

text \<open>A turn object that changes keeps its session and index.\<close>

definition same_place :: "canonical_turn \<Rightarrow> canonical_turn \<Rightarrow> bool" where
  "same_place t t' \<longleftrightarrow> ct_session_id t' = ct_session_id t \<and> ct_turn_index t' = ct_turn_index t"

lemma put_turn_get:
  "dict_get (ss_sessions (put_turn key i t s)) k [] =
     (if k = key then (dict_get (ss_sessions s) key [])[i := t] else dict_get (ss_sessions s) k [])"
  by (auto simp: put_turn_def Let_def dict_get_def list_update_beyond)

lemma dict_get_Some: "d' \<noteq> v \<Longrightarrow> dict_get d k v = d' \<Longrightarrow> map_of d k = Some d'"
  by (auto simp: dict_get_def split: option.splits)

lemma put_turn_ok:
  assumes ok: "store_ok s" and i: "i < length (dict_get (ss_sessions s) key [])"
    and same: "ct_session_id t = ct_session_id (dict_get (ss_sessions s) key [] ! i)"
  shows "store_ok (put_turn key i t s)"
proof -
  obtain ts where ts: "map_of (ss_sessions s) key = Some ts" "i < length ts"
    using i by (auto simp: dict_get_def split: option.splits)
  then have "session_ok key ts (map_of (ss_graphs s) key)" using ok by (simp add: store_ok_def)
  then obtain g where g: "map_of (ss_graphs s) key = Some g" "g_turns g = ts" "g_session_id g = Some key"
      "list_all (\<lambda>t. ct_session_id t = key) ts"
    by (auto simp: session_ok_def)
  have "ct_session_id t = key" using same ts g(4) by (simp add: dict_get_def list_all_iff)
  then have "session_ok key (ts[i := t]) (Some (graph_put i (ts ! i) t g))"
    using g by (simp add: session_ok_def graph_put_def list_all_update)
  moreover have "key \<in> live s" using ts by (simp add: live_iff)
  ultimately have "store_ok (s\<lparr>ss_sessions := AList.update key (ts[i := t]) (ss_sessions s),
      ss_graphs := AList.update key (graph_put i (ts ! i) t g) (ss_graphs s),
      ss_models := ss_models s, ss_violations := ss_violations s\<rparr>)"
    using ok by (intro store_ok_replace) (simp_all add: store_ok_def)
  then show ?thesis using ts g(1) by (simp add: put_turn_def dict_get_def)
qed

text \<open>
  Turns are numbered by their position: in one session, and in every session whose name is not an
  alias of another one.
\<close>

definition numbered_at :: "session_store \<Rightarrow> string \<Rightarrow> bool" where
  "numbered_at s sid \<longleftrightarrow>
     map ct_turn_index (dict_get (ss_sessions s) sid []) = map int [0..<length (dict_get (ss_sessions s) sid [])]"

definition numbered_own :: "session_store \<Rightarrow> bool" where
  "numbered_own s \<longleftrightarrow> (\<forall>sid. sid \<notin> set (dict_keys (ss_aliases s)) \<longrightarrow> numbered_at s sid)"

lemma numbered_nth:
  assumes "numbered_at s sid" "i < length (dict_get (ss_sessions s) sid [])"
  shows "ct_turn_index (dict_get (ss_sessions s) sid [] ! i) = int i"
  using arg_cong [OF assms(1) [unfolded numbered_at_def], of "\<lambda>xs. xs ! i"] assms(2) by simp

lemma numbered_update:
  "map ct_turn_index ts = map int [0..<length ts] \<Longrightarrow> i < length ts \<longrightarrow> ct_turn_index t = int i \<Longrightarrow>
     map ct_turn_index (ts[i := t]) = map int [0..<length ts]"
proof (cases "i < length ts")
  case True
  assume a: "map ct_turn_index ts = map int [0..<length ts]" "i < length ts \<longrightarrow> ct_turn_index t = int i"
  have "(map ct_turn_index ts)[i := int i] = map ct_turn_index ts"
    unfolding a(1) using True by (intro list_update_same_conv [THEN iffD2]) simp_all
  with a True show ?thesis by (simp add: map_update)
qed (simp add: list_update_beyond)

lemma put_turn_numbered:
  assumes "numbered_at s sid" "sid = key \<Longrightarrow> i < length (dict_get (ss_sessions s) key []) \<Longrightarrow> ct_turn_index t = int i"
  shows "numbered_at (put_turn key i t s) sid"
  using assms by (auto simp: numbered_at_def put_turn_get intro!: numbered_update)

lemma ensure_sessions:
  assumes "ensure_session sid s = Inr s1"
  shows "map_of (ss_sessions s1) k =
      (if k = sid then Some (dict_get (ss_sessions s) sid []) else map_of (ss_sessions s1) k)"
    "k \<noteq> sid \<Longrightarrow> map_of (ss_sessions s1) k = map_of (ss_sessions s) k \<or> map_of (ss_sessions s1) k = None"
  using assms
  by (auto simp: ensure_session_def dict_get_def evict_session_def rbind_eq_Inr split: if_splits list.splits option.splits)

lemma append_sessions:
  assumes "append_turn t p s = Inr (s', d)"
  obtains L where "\<And>k. map_of (ss_sessions s') k =
      (if k = ct_session_id t then Some (dict_get (ss_sessions s) k [] @ [snd (lineage_turn L t)])
       else map_of (ss_sessions s') k)"
    "\<And>k. k \<noteq> ct_session_id t \<Longrightarrow> map_of (ss_sessions s') k = map_of (ss_sessions s) k \<or> map_of (ss_sessions s') k = None"
proof -
  obtain s1 where s1: "ensure_session (ct_session_id t) s = Inr s1"
    using assms by (auto simp: append_turn_def rbind_eq_Inr Let_def)
  then obtain graph where g: "map_of (ss_graphs s1) (ct_session_id t) = Some graph"
    using assms by (auto simp: append_turn_def Let_def split: option.splits)
  have get: "dict_get (ss_sessions s1) (ct_session_id t) [] = dict_get (ss_sessions s) (ct_session_id t) []"
    using ensure_sessions(1) [OF s1, of "ct_session_id t"] by (simp add: dict_get_def)
  have s': "ss_sessions s' = AList.update (ct_session_id t)
      (dict_get (ss_sessions s) (ct_session_id t) [] @ [snd (lineage_turn (g_lineage graph) t)])
      (dict_move_to_end (ct_session_id t) (ss_sessions s1))"
    using assms s1 g get add_turn_fields(2) [of graph t p]
    by (auto simp: append_turn_def Let_def index_turn_def dict_get_def split: prod.splits)
  show thesis
    using ensure_sessions(2) [OF s1] by (intro that [of "g_lineage graph"]) (auto simp: s')
qed

lemma append_get:
  assumes "append_turn t p s = Inr (s', d)"
  obtains L where "dict_get (ss_sessions s') (ct_session_id t) []
      = dict_get (ss_sessions s) (ct_session_id t) [] @ [snd (lineage_turn L t)]"
    "\<And>k. k \<noteq> ct_session_id t \<Longrightarrow> dict_get (ss_sessions s') k [] \<in> {[], dict_get (ss_sessions s) k []}"
proof -
  obtain L where L: "\<And>k. map_of (ss_sessions s') k =
      (if k = ct_session_id t then Some (dict_get (ss_sessions s) k [] @ [snd (lineage_turn L t)])
       else map_of (ss_sessions s') k)"
    "\<And>k. k \<noteq> ct_session_id t \<Longrightarrow> map_of (ss_sessions s') k = map_of (ss_sessions s) k \<or> map_of (ss_sessions s') k = None"
    using append_sessions [OF assms] by blast
  show thesis
  proof (rule that [of L])
    show "dict_get (ss_sessions s') (ct_session_id t) [] = dict_get (ss_sessions s) (ct_session_id t) [] @ [snd (lineage_turn L t)]"
      using L(1) [of "ct_session_id t"] by (simp add: dict_get_def)
    fix k assume "k \<noteq> ct_session_id t"
    from L(2) [OF this] show "dict_get (ss_sessions s') k [] \<in> {[], dict_get (ss_sessions s) k []}"
      by (auto simp: dict_get_def)
  qed
qed

lemma append_numbered:
  assumes "numbered_at s sid" "append_turn t p s = Inr (s', d)"
    "sid = ct_session_id t \<Longrightarrow> ct_turn_index t = int (length (dict_get (ss_sessions s) sid []))"
  shows "numbered_at s' sid"
proof -
  obtain L where L: "dict_get (ss_sessions s') (ct_session_id t) []
      = dict_get (ss_sessions s) (ct_session_id t) [] @ [snd (lineage_turn L t)]"
    "\<And>k. k \<noteq> ct_session_id t \<Longrightarrow> dict_get (ss_sessions s') k [] \<in> {[], dict_get (ss_sessions s) k []}"
    using append_get [OF assms(2)] by blast
  show ?thesis
  proof (cases "sid = ct_session_id t")
    case True
    with assms(1,3) L(1) show ?thesis by (simp add: numbered_at_def)
  next
    case False
    with assms(1) L(2) [OF False] show ?thesis by (auto simp: numbered_at_def)
  qed
qed

lemma register_numbered:
  assumes "numbered_at s k" "register_session sid m s = Inr s'"
  shows "numbered_at s' k"
proof -
  obtain s1 where s1: "ensure_session sid s = Inr s1" using assms(2) by (auto simp: register_session_def rbind_eq_Inr)
  then have "map_of (ss_sessions s') = map_of (ss_sessions s1)"
    using assms(2) by (auto simp: register_session_def Let_def split: option.splits if_splits)
  then have "dict_get (ss_sessions s') k [] \<in> {[], dict_get (ss_sessions s) k []}"
    using ensure_sessions [OF s1, of k] by (cases "k = sid") (auto simp: dict_get_def)
  with assms(1) show ?thesis by (auto simp: numbered_at_def)
qed

lemma stored_key: "stored_turns s sid = dict_get (ss_sessions s) (session_key s sid) []"
  by (auto simp: stored_turns_def get_session_def session_key_def dict_get_def split: option.split)

lemma stored_direct: "resolve_session_id s sid = sid \<Longrightarrow> stored_turns s sid = dict_get (ss_sessions s) sid []"
  by (simp add: stored_key session_key_def)

subsection \<open>One completed turn\<close>

lemma mark_steps_fields [simp]:
  "ct_session_id (mark_steps g n t) = ct_session_id t" "ct_turn_index (mark_steps g n t) = ct_turn_index t"
  "ct_violations (mark_steps g n t) = ct_violations t"
  by (simp_all add: mark_steps_def)

lemma append_new_ok:
  assumes ok: "store_ok s" and new: "append_new now e g s = Inr (s', key, i)"
  shows "store_ok s' \<and> i < length (dict_get (ss_sessions s') key [])"
proof -
  obtain t d where a: "append_turn (mark_steps g (JInt 1) t) None s = Inr (s', d)"
      and k: "key = ct_session_id t" "i = length (dict_get (ss_sessions s') key []) - 1"
    using new by (auto simp: append_new_def rbind_eq_Inr Let_def)
  have "store_ok s'" using append_turn_ok [OF ok, of "mark_steps g (JInt 1) t" None] a by auto
  moreover have "dict_get (ss_sessions s') key [] \<noteq> []" using append_get [OF a] k(1)
    by (metis mark_steps_fields(1) snoc_eq_iff_butlast)
  ultimately show ?thesis using k(2) by simp
qed

text \<open>
  A session is direct when no other session stands for it; an envelope with a canonical name appends
  to the session of that name only.
\<close>

definition direct :: "session_store \<Rightarrow> string \<Rightarrow> bool" where
  "direct s sid \<longleftrightarrow> sid \<notin> set (dict_keys (ss_aliases s))"

lemma resolve_direct: "direct s sid \<Longrightarrow> resolve_session_id s sid = sid"
proof -
  assume "direct s sid"
  then have "map_of (ss_aliases s) sid = None" by (simp add: direct_def dict_keys_def map_of_eq_None_iff)
  then show ?thesis by (simp add: resolve_session_id_def dict_get_def)
qed

lemma append_new_numbered:
  assumes new: "append_new now e g s = Inr (s', key, i)" and sid: "canonical_session_id (we_session_id e)"
    and k: "direct s k" "numbered_at s k"
  shows "numbered_at s' k"
proof -
  let ?n = "length (stored_turns s (we_session_id e))"
  obtain t d where t: "normalize_turn (pick_normalizer (we_payload e)) now (RawDict (envelope_to_dict e)) (Some (int ?n)) = Inr t"
      and a: "append_turn (mark_steps g (JInt 1) t) None s = Inr (s', d)"
    using new by (auto simp: append_new_def rbind_eq_Inr Let_def)
  show ?thesis
    by (rule append_numbered [OF k(2) a])
      (use normalized_fields [OF t sid] stored_direct [OF resolve_direct [OF k(1)]] in auto)
qed

lemma add_step_fields [simp]:
  "ct_session_id (add_step step t) = ct_session_id t" "ct_turn_index (add_step step t) = ct_turn_index t"
  by (simp_all add: add_step_def)

lemma count_step_fields:
  "count_step t = Inr t' \<Longrightarrow> ct_session_id t' = ct_session_id t \<and> ct_turn_index t' = ct_turn_index t"
  by (auto simp: count_step_def split: json.splits)

lemma session_of_turn:
  assumes "store_ok s" "i < length (dict_get (ss_sessions s) key [])"
  shows "ct_session_id (dict_get (ss_sessions s) key [] ! i) = key"
proof -
  obtain ts where ts: "map_of (ss_sessions s) key = Some ts" "i < length ts"
    using assms(2) by (auto simp: dict_get_def split: option.splits)
  then have "list_all (\<lambda>t. ct_session_id t = key) ts" using assms(1) by (auto simp: store_ok_def session_ok_def)
  with ts show ?thesis by (simp add: dict_get_def list_all_iff)
qed

lemma update_turn_get:
  "dict_get (ss_sessions (store_update_turn t s)) k [] =
    (let ts = dict_get (ss_sessions s) k []
     in if k = ct_session_id t
        then ts[(if 0 \<le> ct_turn_index t \<and> ct_turn_index t < int (length ts) then nat (ct_turn_index t) else length ts - 1) := t]
        else ts)"
  by (auto simp: store_update_turn_def Let_def index_turn_def dict_get_def)

lemma extend_turn_parts:
  assumes "extend_turn now e s = Inr (s', key, i)"
  obtains step t where "count_step (add_step step (dict_get (ss_sessions s) key [] ! i)) = Inr t"
    "i < length (dict_get (ss_sessions s) key [])" "s' = store_update_turn t (put_turn key i t s)"
proof -
  let ?turns = "dict_get (ss_sessions s) (session_key s (we_session_id e)) []"
  obtain step t where "count_step (add_step step (?turns ! i)) = Inr t" "?turns \<noteq> []"
      and "key = session_key s (we_session_id e)" "i = length ?turns - 1"
      and "s' = store_update_turn t (put_turn key i t s)"
    using assms by (auto simp: extend_turn_def rbind_eq_Inr Let_def stored_key split: if_splits)
  then show thesis by (intro that [of step t]) auto
qed

lemma extend_turn_ok:
  assumes ok: "store_ok s" and ext: "extend_turn now e s = Inr (s', key, i)"
  shows "store_ok s' \<and> i < length (dict_get (ss_sessions s') key [])"
proof -
  obtain step t where t: "count_step (add_step step (dict_get (ss_sessions s) key [] ! i)) = Inr t"
      "i < length (dict_get (ss_sessions s) key [])" "s' = store_update_turn t (put_turn key i t s)"
    using extend_turn_parts [OF ext] by blast
  have "store_ok (put_turn key i t s)"
    using put_turn_ok [OF ok t(2)] count_step_fields [OF t(1)] by simp
  then show ?thesis using t(2) update_turn_ok by (auto simp: t(3) update_turn_get put_turn_get Let_def)
qed

lemma extend_turn_numbered:
  assumes ok: "store_ok s" and ext: "extend_turn now e s = Inr (s', key, i)" and k: "numbered_at s k"
  shows "numbered_at s' k"
proof -
  obtain step t where t: "count_step (add_step step (dict_get (ss_sessions s) key [] ! i)) = Inr t"
      "i < length (dict_get (ss_sessions s) key [])" "s' = store_update_turn t (put_turn key i t s)"
    using extend_turn_parts [OF ext] by blast
  have f: "ct_session_id t = key" "k = key \<Longrightarrow> ct_turn_index t = int i"
    using count_step_fields [OF t(1)] session_of_turn [OF ok t(2)] numbered_nth [OF k] t(2) by auto
  have "numbered_at (put_turn key i t s) k" by (rule put_turn_numbered [OF k]) (simp add: f)
  then show ?thesis
    using f t(2) by (cases "k = key") (simp_all add: t(3) numbered_at_def update_turn_get Let_def put_turn_get)
qed

lemma analyze_stored_ok:
  assumes ok: "store_ok s" "i < length (dict_get (ss_sessions s) key [])"
    and an: "analyze_stored hs sid key i s = Inr (t, vs, s')"
  shows "store_ok s' \<and> (numbered_at s k \<longrightarrow> numbered_at s' k)"
proof (cases "analyze_turn hs (dict_get (ss_sessions s) key [] ! i) (get_graph s sid) None None")
  case (Inr t')
  then have s': "s' = put_turn key i t' s" using an by (auto simp: analyze_stored_def Let_def)
  have "numbered_at s k \<Longrightarrow> numbered_at s' k"
    unfolding s' by (rule put_turn_numbered) (use analyze_turn_fields [OF Inr] numbered_nth ok(2) in auto)
  then show ?thesis using put_turn_ok [OF ok, of t'] analyze_turn_fields [OF Inr] by (simp add: s')
next
  case (Inl e)
  then show ?thesis using an ok by (cases e) (simp_all add: analyze_stored_def Let_def)
qed

lemma store_envelope_cases:
  assumes "store_envelope now e b = Inr (Inr (s', key, i))"
  obtains g where "append_new now e g (br_store b) = Inr (s', key, i)"
  | "extend_turn now e (br_store b) = Inr (s', key, i)"
  using assms by (cases "is_human_interaction e") (auto simp: store_envelope_def Let_def split: if_splits)

lemma store_envelope_ok:
  assumes ok: "store_ok (br_store b)" and st: "store_envelope now e b = Inr (Inr (s', key, i))"
  shows "store_ok s' \<and> i < length (dict_get (ss_sessions s') key [])"
  using store_envelope_cases [OF st] append_new_ok [OF ok] extend_turn_ok [OF ok] by metis

lemma store_envelope_numbered:
  assumes ok: "store_ok (br_store b)" and st: "store_envelope now e b = Inr (Inr (s', key, i))"
    and sid: "canonical_session_id (we_session_id e)" and k: "direct (br_store b) k" "numbered_at (br_store b) k"
  shows "numbered_at s' k"
  using store_envelope_cases [OF st] append_new_numbered [OF _ sid k] extend_turn_numbered [OF ok _ k(2)] by metis

text \<open>A completed turn: what fails before the store changes leaves the bridge as it was.\<close>

lemma turn_completed_unreadable:
  "store_envelope now e b = Inl err \<Longrightarrow> turn_completed now e b = (Inl err, b)"
  by (simp add: turn_completed_def op_defs)

lemma turn_completed_failed:
  "store_envelope now e b = Inr (Inl err) \<Longrightarrow> snd (turn_completed now e b) = b"
  by (cases err) (simp_all add: turn_completed_def op_defs op_swallow_def)

lemma analyze_stored_cases:
  obtains t vs s' where "analyze_stored hs sid key i s = Inr (t, vs, s')"
  | k where "analyze_stored hs sid key i s = Inl (NotModelled k)"
proof (cases "analyze_turn hs (dict_get (ss_sessions s) key [] ! i) (get_graph s sid) None None")
  case (Inl err)
  then show thesis using that by (cases err) (simp_all add: analyze_stored_def Let_def)
next
  case (Inr t)
  then show thesis using that(1) by (simp add: analyze_stored_def Let_def)
qed

lemma turn_completed_done:
  assumes "store_envelope now e b = Inr (Inr (s, key, i))"
    "analyze_stored (br_heuristics b) (we_session_id e) key i s = Inr (t, vs, s')"
  shows "turn_completed now e b =
    (Inr (), b\<lparr>br_store := s', br_broadcaster := publish_all (turn_events (br_granularity b) (we_session_id e) t vs
       (calculate_summary (stored_turns s' (we_session_id e)))) (br_broadcaster b)\<rparr>)"
  using assms by (simp add: turn_completed_def op_defs op_swallow_def on_store_def Let_def)

lemma turn_completed_outside:
  assumes "store_envelope now e b = Inr (Inr (s, key, i))"
    "analyze_stored (br_heuristics b) (we_session_id e) key i s = Inl (NotModelled k)"
  shows "turn_completed now e b = (Inl (NotModelled k), b\<lparr>br_store := s\<rparr>)"
  using assms by (simp add: turn_completed_def op_defs op_swallow_def on_store_def Let_def)

lemma turn_completed_ok:
  assumes ok: "store_ok (br_store b)"
  shows "store_ok (br_store (snd (turn_completed now e b)))
    \<and> (canonical_session_id (we_session_id e) \<and> direct (br_store b) k \<and> numbered_at (br_store b) k \<longrightarrow>
         numbered_at (br_store (snd (turn_completed now e b))) k)"
proof (cases "store_envelope now e b")
  case (Inl err)
  then show ?thesis using ok by (simp add: turn_completed_unreadable)
next
  case (Inr r)
  show ?thesis
  proof (cases r)
    case (Inl err)
    then show ?thesis using ok \<open>store_envelope now e b = Inr r\<close> by (simp add: turn_completed_failed)
  next
    case (Inr q)
    obtain s key i where st: "store_envelope now e b = Inr (Inr (s, key, i))"
      using \<open>store_envelope now e b = Inr r\<close> Inr by (cases q) auto
    note s = store_envelope_ok [OF ok st] and num = store_envelope_numbered [OF ok st, of k]
    show ?thesis
    proof (cases rule: analyze_stored_cases [of "br_heuristics b" "we_session_id e" key i s])
      case (1 t vs s')
      then show ?thesis using analyze_stored_ok [OF _ _ 1, of k] s num by (simp add: turn_completed_done [OF st 1])
    next
      case (2 k)
      then show ?thesis using s num by (simp add: turn_completed_outside [OF st 2])
    qed
  qed
qed

subsection \<open>Any sequence of events\<close>

datatype pipe_event =
    Arrive rat wire_envelope
  | ScanAgents rat os_view
  | CleanupAgents rat "int \<Rightarrow> bool"

fun pipe_step :: "bridge \<Rightarrow> pipe_event \<Rightarrow> bridge" where
  "pipe_step b (Arrive now e) = snd (handle_wire_envelope now e b)"
| "pipe_step b (ScanAgents now os) = snd (scan_and_register_agents now os b)"
| "pipe_step b (CleanupAgents now alive) = snd (cleanup_dead_agent_sessions now alive b)"

definition pipe_run :: "bridge \<Rightarrow> pipe_event list \<Rightarrow> bridge" where
  "pipe_run = foldl pipe_step"

text \<open>
  Placeholder sessions of scanned agents are called \<open>sess_NAME_PID\<close>, and only such names become
  aliases. With \<open>canon\<close> the envelopes carry session names that the normalizers leave as they are.
\<close>

definition scan_named :: "string \<Rightarrow> bool" where
  "scan_named sid \<longleftrightarrow> starts_with ''sess_'' sid \<and> CHR ''_'' \<in> set (drop 5 sid)"

fun canonical_name :: "pipe_event \<Rightarrow> bool" where
  "canonical_name (Arrive now e) = canonical_session_id (we_session_id e)"
| "canonical_name _ = True"

definition bridge_ok :: "bool \<Rightarrow> bridge \<Rightarrow> bool" where
  "bridge_ok canon b \<longleftrightarrow> store_ok (br_store b) \<and> (canon \<longrightarrow> numbered_own (br_store b))
     \<and> list_all scan_named (dict_keys (ss_aliases (br_store b)))"

lemma numbered_own_iff: "numbered_own s \<longleftrightarrow> (\<forall>k. direct s k \<longrightarrow> numbered_at s k)"
  by (simp add: numbered_own_def direct_def)

lemma agent_session_scan_named: "scan_named (agent_session_id name pid)"
  by (simp add: scan_named_def agent_session_id_def starts_with_def)

lemma ensure_aliases: "ensure_session sid s = Inr s' \<Longrightarrow> ss_aliases s' = ss_aliases s"
  by (auto simp: ensure_session_def evict_session_def rbind_eq_Inr split: if_splits list.splits)

lemma register_aliases: "register_session sid m s = Inr s' \<Longrightarrow> ss_aliases s' = ss_aliases s"
proof -
  assume r: "register_session sid m s = Inr s'"
  then obtain s1 where s1: "ensure_session sid s = Inr s1" by (auto simp: register_session_def rbind_eq_Inr)
  with r have "ss_aliases s' = ss_aliases s1"
    by (auto simp: register_session_def Let_def split: option.splits if_splits)
  then show ?thesis using ensure_aliases [OF s1] by simp
qed

lemma append_aliases: "append_turn t p s = Inr (s', d) \<Longrightarrow> ss_aliases s' = ss_aliases s"
proof -
  assume a: "append_turn t p s = Inr (s', d)"
  obtain s1 where s1: "ensure_session (ct_session_id t) s = Inr s1"
    using a by (auto simp: append_turn_def rbind_eq_Inr Let_def)
  then obtain g where "map_of (ss_graphs s1) (ct_session_id t) = Some g"
    using a by (auto simp: append_turn_def Let_def split: option.splits)
  with a s1 show ?thesis using ensure_aliases [OF s1]
    by (cases "add_turn g t p") (auto simp: append_turn_def Let_def index_turn_def)
qed

lemma put_turn_aliases [simp]: "ss_aliases (put_turn key i t s) = ss_aliases s"
  by (simp add: put_turn_def Let_def)

lemma update_aliases [simp]: "ss_aliases (store_update_turn t s) = ss_aliases s"
  by (simp add: store_update_turn_def Let_def index_turn_def)

lemma store_envelope_aliases:
  assumes "store_envelope now e b = Inr (Inr (s', key, i))"
  shows "ss_aliases s' = ss_aliases (br_store b)"
proof -
  have "(\<exists>g. append_new now e g (br_store b) = Inr (s', key, i)) \<or> extend_turn now e (br_store b) = Inr (s', key, i)"
    using assms by (cases "is_human_interaction e") (auto simp: store_envelope_def Let_def split: if_splits)
  then show ?thesis
    by (auto simp: append_new_def extend_turn_def rbind_eq_Inr Let_def dest: append_aliases split: if_splits)
qed

lemma analyze_aliases: "analyze_stored hs sid key i s = Inr (t, vs, s') \<Longrightarrow> ss_aliases s' = ss_aliases s"
  by (cases "analyze_turn hs (dict_get (ss_sessions s) key [] ! i) (get_graph s sid) None None")
    (auto simp: analyze_stored_def Let_def split: py_error.splits)

lemma turn_completed_aliases: "ss_aliases (br_store (snd (turn_completed now e b))) = ss_aliases (br_store b)"
proof (cases "store_envelope now e b")
  case (Inr r)
  show ?thesis
  proof (cases r)
    case (Inr q)
    obtain s key i where st: "store_envelope now e b = Inr (Inr (s, key, i))"
      using \<open>store_envelope now e b = Inr r\<close> Inr by (cases q) auto
    show ?thesis
    proof (cases rule: analyze_stored_cases [of "br_heuristics b" "we_session_id e" key i s])
      case (1 t vs s')
      then show ?thesis using store_envelope_aliases [OF st] analyze_aliases [OF 1]
        by (simp add: turn_completed_done [OF st 1])
    next
      case (2 k)
      then show ?thesis using store_envelope_aliases [OF st] by (simp add: turn_completed_outside [OF st 2])
    qed
  qed (use \<open>store_envelope now e b = Inr r\<close> in \<open>simp add: turn_completed_failed\<close>)
qed (simp add: turn_completed_unreadable)

text \<open>What the small operations keep.\<close>

lemma keeps_registers [keeps]: "op_keeps (bridge_ok canon) (registers sid meta)"
proof (rule op_keepsI)
  fix b assume ok: "bridge_ok canon b"
  then have "store_ok (br_store b)" by (simp add: bridge_ok_def)
  from register_ok [OF this] obtain s' where s': "register_session sid (Some meta) (br_store b) = Inr s'" "store_ok s'"
    by blast
  then show "bridge_ok canon (snd (registers sid meta b))"
    using ok register_numbered [OF _ s'(1)] register_aliases [OF s'(1)]
    by (simp add: registers_def op_defs on_store_def bridge_ok_def numbered_own_def)
qed

lemma keeps_publish [keeps]: "op_keeps (bridge_ok canon) (publish ty sid ts payload)"
  unfolding publish_def by (rule keeps_modify) (simp add: bridge_ok_def)

lemma store_frame:
  "numbered_at (s\<lparr>ss_exported := x\<rparr>) k = numbered_at s k" "numbered_at (s\<lparr>ss_aliases := al\<rparr>) k = numbered_at s k"
  "numbered_own (s\<lparr>ss_exported := x\<rparr>) = numbered_own s"
  by (simp_all add: numbered_own_def numbered_at_def)

lemma keeps_exported [keeps]: "op_keeps (bridge_ok canon) (on_store (mark_exported sid))"
  unfolding on_store_def by (rule keeps_modify) (simp add: bridge_ok_def mark_exported_def store_frame)

lemma keeps_link [keeps]: "op_keeps (bridge_ok canon) (on_store (link_scanned sid harness pid))"
proof -
  have keys: "set (dict_keys (AList.update k v d)) = insert k (set (dict_keys d))" for k v and d :: "(string, string) dict"
    by (auto simp: dict_keys_def update_keys)
  then have "list_all scan_named (dict_keys (AList.update k v d))" if "scan_named k" "list_all scan_named (dict_keys d)"
    for k v and d :: "(string, string) dict"
    using that by (simp add: list_all_iff)
  moreover have "numbered_own (s\<lparr>ss_aliases := AList.update k v (ss_aliases s)\<rparr>)" if "numbered_own s" for k v s
    using that by (simp add: numbered_own_def keys store_frame)
  ultimately show ?thesis unfolding on_store_def
    by (intro keeps_modify) (simp add: bridge_ok_def link_scanned_def alias_session_def
        agent_session_scan_named Let_def)
qed

lemma keeps_get_bind:
  "(\<And>b. op_keeps P (f (g b))) \<Longrightarrow> op_keeps P (op_bind (op_get g) f)"
  by (simp add: op_keeps_def op_defs)

lemma keeps_turn_completed:
  assumes "canon \<longrightarrow> canonical_session_id (we_session_id e)"
  shows "op_keeps (bridge_ok canon) (turn_completed now e)"
proof (rule op_keepsI)
  fix b assume ok: "bridge_ok canon b"
  then have "numbered_at (br_store (snd (turn_completed now e b))) k"
    if "direct (br_store b) k" canon for k
    using turn_completed_ok [of b now e k] assms that by (simp add: bridge_ok_def numbered_own_iff)
  with ok show "bridge_ok canon (snd (turn_completed now e b))"
    using turn_completed_ok [of b now e] by (simp add: bridge_ok_def numbered_own_iff direct_def turn_completed_aliases)
qed

lemma keeps_request_initiated: "op_keeps (bridge_ok canon) (request_initiated e)"
  unfolding request_initiated_def Let_def
  by (intro keeps keeps_get_bind) (auto simp: keeps intro!: keeps split: prod.split)

lemma keeps_disconnected: "op_keeps (bridge_ok canon) (session_disconnected e)"
  unfolding session_disconnected_def Let_def by (intro keeps)

lemma pipe_step_ok: "bridge_ok canon b \<Longrightarrow> canon \<longrightarrow> canonical_name ev \<Longrightarrow> bridge_ok canon (pipe_step b ev)"
proof (induction b ev rule: pipe_step.induct)
  case (1 b now e)
  have "op_keeps (bridge_ok canon) (handle_wire_envelope now e)"
    using 1(2) keeps_turn_completed keeps_request_initiated keeps_disconnected
    by (cases "we_event_type e") (simp_all add: handle_wire_envelope_def keeps)
  then show ?case using 1 by (simp add: op_keeps_def)
next
  case (2 b now os)
  have "op_keeps (bridge_ok canon) (register_agent now ag)" for ag
    by (cases "ai_pid ag") (auto simp: register_agent_def Let_def intro!: keeps)
  then have "op_keeps (bridge_ok canon) (scan_and_register_agents now os)"
    unfolding scan_and_register_agents_def by (intro keeps)
  then show ?case using 2 by (simp add: op_keeps_def)
next
  case (3 b now alive)
  have "op_keeps (bridge_ok canon) (check_agent_session now alive sid)" for sid
    unfolding check_agent_session_def by (intro keeps) (auto intro!: keeps split: option.split)
  then have "op_keeps (bridge_ok canon) (cleanup_dead_agent_sessions now alive)"
    unfolding cleanup_dead_agent_sessions_def by (intro keeps)
  then show ?case using 3 by (simp add: op_keeps_def)
qed

interpretation bridge_machine: invariant_machine pipe_step "bridge_ok canon" "\<lambda>ev. canon \<longrightarrow> canonical_name ev"
  for canon
  by unfold_locales (rule pipe_step_ok)

lemma pipe_run_ok:
  assumes "bridge_ok canon b" "canon \<longrightarrow> list_all canonical_name evs"
  shows "bridge_ok canon (pipe_run b evs)"
proof -
  have "list_all (\<lambda>ev. canon \<longrightarrow> canonical_name ev) evs" using assms(2) by (auto simp: list_all_iff)
  then show ?thesis unfolding pipe_run_def by (rule bridge_machine.run_ok [OF assms(1)])
qed

lemma new_bridge_ok: "bridge_ok canon (new_bridge hs None bc g)"
proof -
  have "store_ok (new_store 100 g')" for g' by (rule new_store_ok) simp
  moreover have "numbered_own (new_store 100 g')" "ss_aliases (new_store 100 g') = []" for g'
    by (simp_all add: numbered_own_def numbered_at_def new_store_def dict_get_def)
  ultimately show ?thesis by (simp add: bridge_ok_def new_bridge_def Let_def dict_keys_def)
qed

subsection \<open>What is published\<close>

lemma lineage_kept:
  "ct_violations (snd (lineage_turn L t)) = ct_violations t" "ct_metadata (snd (lineage_turn L t)) = ct_metadata t"
  "ct_input_tokens (snd (lineage_turn L t)) = ct_input_tokens t"
  "ct_output_tokens (snd (lineage_turn L t)) = ct_output_tokens t"
  by (simp_all add: lineage_turn_def Let_def split_beta)

lemma mark_steps_kept [simp]:
  "ct_input_tokens (mark_steps g n t) = ct_input_tokens t" "ct_output_tokens (mark_steps g n t) = ct_output_tokens t"
  by (simp_all add: mark_steps_def)

lemma analyze_turn_kept:
  assumes "analyze_turn hs t g prev pricing = Inr t'"
  shows "ct_input_tokens t' = ct_input_tokens t" "ct_output_tokens t' = ct_output_tokens t"
    "ct_metadata t' = ct_metadata t"
  using assms by (auto simp: analyze_turn_def rbind_eq_Inr Let_def)

text \<open>The published turn is the one the store keeps, with the violations it carries.\<close>

definition counts_as :: "canonical_turn \<Rightarrow> canonical_turn \<Rightarrow> bool" where
  "counts_as t t' \<longleftrightarrow> ct_turn_index t' = ct_turn_index t \<and> ct_session_id t' = ct_session_id t
     \<and> ct_input_tokens t' = ct_input_tokens t \<and> ct_output_tokens t' = ct_output_tokens t
     \<and> ct_metadata t' = ct_metadata t"

lemma analyze_stored_put:
  assumes "analyze_stored hs sid key i s = Inr (t, vs, s')" and i: "i < length (dict_get (ss_sessions s) key [])"
  shows "dict_get (ss_sessions s') key [] = (dict_get (ss_sessions s) key [])[i := t]"
    "counts_as (dict_get (ss_sessions s) key [] ! i) t" "ss_aliases s' = ss_aliases s"
    "vs = ct_violations t \<or> (vs = [] \<and> t = dict_get (ss_sessions s) key [] ! i)"
proof -
  let ?r = "analyze_turn hs (dict_get (ss_sessions s) key [] ! i) (get_graph s sid) None None"
  have "(?r = Inr t \<and> vs = ct_violations t \<and> s' = put_turn key i t s)
      \<or> (vs = [] \<and> t = dict_get (ss_sessions s) key [] ! i \<and> s' = s)"
    using assms(1) by (cases ?r) (auto simp: analyze_stored_def Let_def split: py_error.splits)
  then show "dict_get (ss_sessions s') key [] = (dict_get (ss_sessions s) key [])[i := t]"
    "counts_as (dict_get (ss_sessions s) key [] ! i) t" "ss_aliases s' = ss_aliases s"
    "vs = ct_violations t \<or> (vs = [] \<and> t = dict_get (ss_sessions s) key [] ! i)"
    using analyze_turn_fields analyze_turn_kept put_turn_get [of key i t s key]
    by (auto simp: counts_as_def)
qed

lemma append_new_stores:
  assumes "append_new now e g s = Inr (s', key, i)"
    and t: "normalize_turn (pick_normalizer (we_payload e)) now (RawDict (envelope_to_dict e))
       (Some (int (length (stored_turns s (we_session_id e))))) = Inr t"
  obtains t0 where "key = ct_session_id t" "i = length (dict_get (ss_sessions s) key [])"
    "dict_get (ss_sessions s') key [] = dict_get (ss_sessions s) key [] @ [t0]"
    "counts_as (mark_steps g (JInt 1) t) t0" "ct_violations t0 = []"
proof -
  let ?t = "mark_steps g (JInt 1) t"
  obtain d where a: "append_turn ?t None s = Inr (s', d)" and k: "key = ct_session_id t"
      "i = length (dict_get (ss_sessions s') key []) - 1"
    using assms(1) t by (auto simp: append_new_def Let_def rbind_eq_Inr)
  obtain L where "dict_get (ss_sessions s') key [] = dict_get (ss_sessions s) key [] @ [snd (lineage_turn L ?t)]"
    using append_get [OF a] k(1) by (metis mark_steps_fields(1))
  then show thesis
    using k normalized_violations [OF t]
    by (intro that [of "snd (lineage_turn L ?t)"]) (simp_all add: counts_as_def lineage_kept)
qed

lemma append_new_defined:
  assumes "store_ok s" "normalize_turn (pick_normalizer (we_payload e)) now (RawDict (envelope_to_dict e))
       (Some (int (length (stored_turns s (we_session_id e))))) = Inr t"
  shows "\<exists>s' key i. append_new now e g s = Inr (s', key, i)"
proof -
  obtain s' d where "append_turn (mark_steps g (JInt 1) t) None s = Inr (s', d)"
    using append_turn_ok [OF assms(1), of "mark_steps g (JInt 1) t" None] by auto
  with assms(2) show ?thesis by (simp add: append_new_def Let_def)
qed

text \<open>The turn an envelope completes, as the normalizer of its provider reads it.\<close>

definition completed_by :: "rat \<Rightarrow> wire_envelope \<Rightarrow> session_store \<Rightarrow> canonical_turn res" where
  "completed_by now e s =
     normalize_turn (pick_normalizer (we_payload e)) now (RawDict (envelope_to_dict e))
       (Some (int (length (stored_turns s (we_session_id e)))))"

text \<open>The turns kept under a key of the session table.\<close>

definition kept_turns :: "bridge \<Rightarrow> string \<Rightarrow> canonical_turn list" where
  "kept_turns b key = dict_get (ss_sessions (br_store b)) key []"

lemma turn_completed_outcome:
  assumes ok: "store_ok (br_store b)" and g: "br_granularity b \<noteq> ''human''"
  shows "case completed_by now e (br_store b) of
      Inl err \<Rightarrow> snd (turn_completed now e b) = b
    | Inr t \<Rightarrow> (case turn_completed now e b of
        (Inl err, _) \<Rightarrow> \<exists>k. err = NotModelled k
      | (Inr _, b') \<Rightarrow> \<exists>t'. counts_as (mark_steps ''step'' (JInt 1) t) t'
          \<and> kept_turns b' (ct_session_id t) = kept_turns b (ct_session_id t) @ [t']
          \<and> br_broadcaster b' = publish_all (turn_events (br_granularity b) (we_session_id e) t' (ct_violations t')
               (calculate_summary (stored_turns (br_store b') (we_session_id e)))) (br_broadcaster b))"
proof (cases "completed_by now e (br_store b)")
  case (Inl err)
  then have "store_envelope now e b = Inr (Inl err)"
    using g by (simp add: store_envelope_def append_new_def completed_by_def)
  then show ?thesis using Inl by (simp add: turn_completed_failed)
next
  case (Inr t)
  then have t: "normalize_turn (pick_normalizer (we_payload e)) now (RawDict (envelope_to_dict e))
       (Some (int (length (stored_turns (br_store b) (we_session_id e))))) = Inr t" by (simp add: completed_by_def)
  obtain s key i where new: "append_new now e ''step'' (br_store b) = Inr (s, key, i)"
    using append_new_defined [OF ok t] by blast
  with g have st: "store_envelope now e b = Inr (Inr (s, key, i))" by (simp add: store_envelope_def)
  obtain t0 where t0: "key = ct_session_id t" "i = length (dict_get (ss_sessions (br_store b)) key [])"
      "dict_get (ss_sessions s) key [] = dict_get (ss_sessions (br_store b)) key [] @ [t0]"
      "counts_as (mark_steps ''step'' (JInt 1) t) t0" "ct_violations t0 = []"
    using append_new_stores [OF new t] by metis
  show ?thesis
  proof (cases rule: analyze_stored_cases [of "br_heuristics b" "we_session_id e" key i s])
    case (1 t' vs s')
    have i: "i < length (dict_get (ss_sessions s) key [])" using t0 by simp
    note p = analyze_stored_put [OF 1 i]
    have "dict_get (ss_sessions s') key [] = dict_get (ss_sessions (br_store b)) key [] @ [t']"
      using p(1) t0 by simp
    moreover have "counts_as (mark_steps ''step'' (JInt 1) t) t'" "vs = ct_violations t'"
      using p(2,4) t0 by (auto simp: counts_as_def)
    ultimately show ?thesis
      using t0(1) by (auto simp: Inr turn_completed_done [OF st 1] kept_turns_def)
  next
    case (2 k)
    then show ?thesis by (simp add: Inr turn_completed_outside [OF st 2])
  qed
qed

text \<open>The granularity is fixed when the bridge is built.\<close>

lemma keeps_mode:
  "op_keeps (\<lambda>b. br_granularity b = g) (handle_wire_envelope now e)"
  "op_keeps (\<lambda>b. br_granularity b = g) (scan_and_register_agents now os)"
  "op_keeps (\<lambda>b. br_granularity b = g) (cleanup_dead_agent_sessions now alive)"
proof -
  let ?P = "\<lambda>b. br_granularity b = g"
  have st: "op_keeps ?P (on_store f)" for f unfolding on_store_def by (rule keeps_modify) simp
  have pub: "op_keeps ?P (publish ty sid ts p)" for ty sid ts p unfolding publish_def by (rule keeps_modify) simp
  have reg: "op_keeps ?P (registers sid m)" for sid m unfolding registers_def by (intro keeps st)
  have completed: "op_keeps ?P (turn_completed now e)"
    unfolding turn_completed_def Let_def
    by (intro keeps) (auto intro!: keeps st keeps_modify split: prod.split)
  have req: "op_keeps ?P (request_initiated e)"
    unfolding request_initiated_def Let_def
    by (intro keeps st pub reg) (auto intro!: keeps st pub reg split: prod.split)
  have disc: "op_keeps ?P (session_disconnected e)"
    unfolding session_disconnected_def Let_def by (intro keeps pub reg)
  show "op_keeps ?P (handle_wire_envelope now e)"
    using completed req disc st pub by (cases "we_event_type e") (simp_all add: handle_wire_envelope_def keeps)
  have ag: "op_keeps ?P (register_agent now a)" for a
    by (cases "ai_pid a") (auto simp: register_agent_def Let_def intro!: keeps pub reg)
  show "op_keeps ?P (scan_and_register_agents now os)"
    unfolding scan_and_register_agents_def by (intro keeps ag)
  have chk: "op_keeps ?P (check_agent_session now alive sid)" for sid
    unfolding check_agent_session_def by (intro keeps) (auto intro!: keeps pub reg split: option.split)
  show "op_keeps ?P (cleanup_dead_agent_sessions now alive)"
    unfolding cleanup_dead_agent_sessions_def by (intro keeps chk)
qed

lemma pipe_run_mode: "br_granularity (pipe_run b evs) = br_granularity b"
proof -
  have "br_granularity (pipe_step b ev) = br_granularity b" for b ev
    using keeps_mode by (cases ev) (auto simp: op_keeps_def)
  then show ?thesis by (induction evs arbitrary: b) (simp_all add: pipe_run_def)
qed

end
