(* ===== verification/TuiProps.thy ===== *)
theory TuiProps
  imports TuiViews PipelineProps
begin

text \<open>
  What the terminal interface guarantees over any sequence of events and session switches: the
  turns of every session stay in strictly increasing order, and the pollution score is never
  computed from the turns. A session shown from the store has the store's totals, and its
  ledger of block changes is the one of the diff engine.
\<close>

subsection \<open>The turns stay ordered\<close>

definition good_turns :: "jdict list \<Rightarrow> bool" where
  "good_turns ts \<longleftrightarrow>
     (\<exists>is. map (\<lambda>t. jget t ''turnIndex'') ts = map JInt is \<and> sorted_wrt (<) is) \<and> list_all (\<lambda>t. \<not> jhas t ''turn_id'') ts"

definition tui_ok :: "tui \<Rightarrow> bool" where
  "tui_ok s \<longleftrightarrow>
     (\<forall>sid ts. map_of (tu_sessions_turns s) sid = Some ts \<longrightarrow> good_turns ts)
     \<and> (case tu_turns_ref s of Own ts \<Rightarrow> good_turns ts | OfSession _ \<Rightarrow> True)"

lemma good_Nil [simp]: "good_turns []"
  by (simp add: good_turns_def)

lemma tui_okI:
  assumes "tui_ok s" "tu_sessions_turns s' = tu_sessions_turns s" "tu_turns_ref s' = tu_turns_ref s"
  shows "tui_ok s'"
  using assms by (simp add: tui_ok_def)

lemma ok_get: "tui_ok s \<Longrightarrow> good_turns (dict_get (tu_sessions_turns s) sid [])"
  by (auto simp: tui_ok_def dict_get_def split: option.split)

lemma ok_turns: "tui_ok s \<Longrightarrow> good_turns (tu_turns s)"
  using ok_get by (auto simp: tu_turns_def deref_def tui_ok_def split: list_ref.splits)

lemma ok_session_turns: "tui_ok s \<Longrightarrow> good_turns (session_turns sid s)"
  by (simp add: session_turns_def ok_get ok_turns)

lemma ok_set_turns: "tui_ok s \<Longrightarrow> good_turns ts \<Longrightarrow> tui_ok (set_session_turns sid ts s)"
  by (auto simp: tui_ok_def set_session_turns_def split: list_ref.splits)

lemma ok_set_twice: "tui_ok s \<Longrightarrow> good_turns ts \<Longrightarrow> tui_ok (set_session_turns sid ts (set_session_turns sid us s))"
  by (auto simp: tui_ok_def set_session_turns_def split: list_ref.splits)

lemma session_turns_set [simp]: "session_turns sid (set_session_turns sid ts s) = ts"
  by (auto simp: session_turns_def set_session_turns_def tu_turns_def deref_def dict_get_def split: list_ref.splits)

lemma map_fst_sort_key: "map fst (sort_key fst ps) = sort (map fst ps)"
  for ps :: "('k :: linorder \<times> 'a) list"
  by (rule properties_for_sort [symmetric]) (simp_all only: mset_map mset_sort sorted_sort_key)

lemma has_index_int: "jget t ''turnIndex'' = JInt n \<Longrightarrow> has_index i t \<longleftrightarrow> n = i"
  by (simp add: has_index_def py_eq_def)

lemma sort_new_turn:
  assumes good: "good_turns ts" and new: "\<not> list_ex (has_index i) ts"
  shows "\<exists>ts'. sort_turns (ts @ [empty_turn i]) = Inr ts' \<and> good_turns ts' \<and> mset ts' = mset (ts @ [empty_turn i])"
proof -
  obtain "is" where ix: "map (\<lambda>t. jget t ''turnIndex'') ts = map JInt is" "sorted_wrt (<) is"
    using good by (auto simp: good_turns_def)
  let ?ts = "ts @ [empty_turn i]" and ?is = "is @ [i]"
  have e: "jget (empty_turn i) ''turnIndex'' = JInt i" "\<not> jhas (empty_turn i) ''turn_id''"
    by (simp_all add: empty_turn_def jget_def dict_get_def jhas_def)
  have all: "map (\<lambda>t. jget t ''turnIndex'') ?ts = map JInt ?is" using ix e by simp
  have len: "length ?is = length ?ts" using arg_cong [OF all, of length] by simp
  have keys: "rmap_list (\<lambda>t. NormBase.py_int (jget_or t ''turnIndex'' (JInt 0))) ts0 = Inr is0"
    if "map (\<lambda>t. jget t ''turnIndex'') ts0 = map JInt is0" for ts0 is0
    using that
  proof (induction ts0 arbitrary: is0)
    case (Cons t ts0)
    then obtain n ns where n: "is0 = n # ns" by (cases is0) auto
    with Cons.prems have "jget_or t ''turnIndex'' (JInt 0) = JInt n"
      by (auto simp: jget_def jget_or_def dict_get_def split: option.splits)
    with Cons n show ?case by simp
  qed simp
  have notin: "i \<notin> set is"
  proof
    assume "i \<in> set is"
    then have "JInt i \<in> set (map (\<lambda>t. jget t ''turnIndex'') ts)" using ix(1) by simp
    then show False using new has_index_int [where i = i and n = i] by (fastforce simp: list_ex_iff)
  qed
  let ?ps = "sort_key fst (zip ?is ?ts)"
  have pairs: "jget t ''turnIndex'' = JInt n" if "(n, t) \<in> set ?ps" for n t
  proof -
    from that have "(n, t) \<in> set (zip ?is ?ts)" by simp
    then obtain k where "k < length ?ts" "?is ! k = n" "?ts ! k = t" using len by (auto simp: set_zip)
    then show ?thesis using arg_cong [OF all, of "\<lambda>xs. xs ! k"] len by (simp del: map_append)
  qed
  have "map (\<lambda>t. jget t ''turnIndex'') (map snd ?ps) = map JInt (map fst ?ps)"
    using pairs by (auto simp del: set_sort)
  moreover have fst: "map fst ?ps = sort ?is" using len by (simp only: map_fst_sort_key map_fst_zip)
  moreover have "sorted_wrt (<) (sort ?is)"
    using notin ix(2) by (simp add: strict_sorted_iff)
  moreover have m: "mset (map snd ?ps) = mset ?ts"
  proof -
    have "mset (map snd ?ps) = mset (map snd (zip ?is ?ts))" by (simp only: mset_map mset_sort)
    then show ?thesis using len by (simp only: map_snd_zip)
  qed
  then have "set (map snd ?ps) = set ?ts" by (metis set_mset_mset)
  then have "list_all (\<lambda>t. \<not> jhas t ''turn_id'') (map snd ?ps)"
    using good e by (simp add: list_all_iff good_turns_def del: set_map)
  ultimately have "good_turns (map snd ?ps)" unfolding good_turns_def by metis
  then show ?thesis using keys [OF all] m by (simp add: sort_turns_def)
qed

lemma keeps_find [keeps]: "op_keeps tui_ok (find_or_create_turn i sid)"
proof (rule op_keepsI)
  fix s assume ok: "tui_ok s"
  define k where "k = (if sid \<noteq> [] then sid else tu_session_id s)"
  define ts where "ts = session_turns k s"
  define s1 where "s1 = set_session_turns k ts s"
  have good: "good_turns ts" unfolding ts_def using ok by (rule ok_session_turns)
  have s1: "tui_ok s1" "session_turns k s1 = ts" unfolding s1_def using ok_set_turns [OF ok good] by simp_all
  show "tui_ok (snd (find_or_create_turn i sid s))"
  proof (cases "list_ex (has_index i) ts")
    case True
    then show ?thesis
      using s1 by (simp add: find_or_create_turn_def op_defs flip: k_def ts_def s1_def)
  next
    case False
    then obtain ts' where ts': "sort_turns (ts @ [empty_turn i]) = Inr ts'" "good_turns ts'"
      using sort_new_turn [OF good] by blast
    let ?s3 = "set_session_turns k ts' (set_session_turns k (ts @ [empty_turn i]) s1)"
    have ok3: "tui_ok ?s3" using ok_set_twice [OF s1(1) ts'(2)] .
    then have "tui_ok (?s3\<lparr>tu_turns_ref := OfSession k\<rparr>)" by (simp add: tui_ok_def)
    with ok3 False ts' s1 show ?thesis
      by (simp add: find_or_create_turn_def op_defs flip: k_def ts_def s1_def)
  qed
qed

lemma map_update_first:
  "(\<And>x. f (g x) = f x) \<Longrightarrow> map f (update_first P g xs) = map f xs"
  by (induction xs) auto

lemma list_all_update_first:
  "list_all Q xs \<Longrightarrow> (\<And>x. Q x \<Longrightarrow> Q (g x)) \<Longrightarrow> list_all Q (update_first P g xs)"
  by (induction xs) auto

lemma good_put:
  assumes "good_turns ts" "k \<noteq> ''turnIndex''" "k \<noteq> ''turn_id''"
  shows "good_turns (update_first P (AList.update k v) ts)"
proof -
  have "jget (AList.update k v t) ''turnIndex'' = jget t ''turnIndex''" for t
    using assms(2) by (simp add: jget_def)
  then have "map (\<lambda>t. jget t ''turnIndex'') (update_first P (AList.update k v) ts) = map (\<lambda>t. jget t ''turnIndex'') ts"
    by (rule map_update_first)
  moreover have "list_all (\<lambda>t. \<not> jhas t ''turn_id'') (update_first P (AList.update k v) ts)"
    using assms by (intro list_all_update_first) (simp_all add: good_turns_def jhas_def)
  ultimately show ?thesis using assms(1) by (simp add: good_turns_def)
qed

lemma tui_keeps_put: "k \<noteq> ''turnIndex'' \<Longrightarrow> k \<noteq> ''turn_id'' \<Longrightarrow> op_keeps tui_ok (put_field sid i k v)"
  unfolding put_field_def
  by (rule keeps_modify) (blast intro: ok_set_turns good_put ok_session_turns)

lemma keeps_compute: "k \<noteq> ''turnIndex'' \<Longrightarrow> k \<noteq> ''turn_id'' \<Longrightarrow> op_keeps tui_ok (compute_field sid i k f)"
  unfolding compute_field_def with_turn_def by (intro keeps tui_keeps_put)

text \<open>Changes of other fields of the state.\<close>

lemma keeps_all [keeps]: "(\<And>m. m \<in> set ms \<Longrightarrow> op_keeps P m) \<Longrightarrow> op_keeps P (op_all ms)"
  by (induction ms) (simp_all add: keeps)

lemma keeps_if: "op_keeps P m \<Longrightarrow> op_keeps P n \<Longrightarrow> op_keeps P (if b then m else n)"
  by simp

lemma keeps_other: "(\<And>s. tu_sessions_turns (f s) = tu_sessions_turns s \<and> tu_turns_ref (f s) = tu_turns_ref s) \<Longrightarrow>
    op_keeps tui_ok (op_modify f)"
  by (rule keeps_modify) (metis tui_okI)

lemma keeps_shown: "(\<And>s. tu_sessions_turns (f s) = tu_sessions_turns s \<and> tu_turns_ref (f s) = tu_turns_ref s) \<Longrightarrow>
    op_keeps tui_ok (when_shown sid f)"
  unfolding when_shown_def by (rule keeps_other) simp

lemma keeps_opt: "(\<And>x s. tu_sessions_turns (upd x s) = tu_sessions_turns s \<and> tu_turns_ref (upd x s) = tu_turns_ref s) \<Longrightarrow>
    op_keeps tui_ok (opt_set v conv upd)"
  unfolding opt_set_def by (intro keeps keeps_other)

lemma granularity_fields [simp]:
  "tu_sessions_turns (note_granularity p s) = tu_sessions_turns s \<and> tu_turns_ref (note_granularity p s) = tu_turns_ref s"
  by (simp add: note_granularity_def)

lemma noted_fields [simp]:
  "tu_sessions_turns (note_session sid s) = tu_sessions_turns s \<and> tu_turns_ref (note_session sid s) = tu_turns_ref s"
  by (cases "sid = []"; cases "tu_session_id s = []") (simp_all add: note_session_def Let_def)

lemma open_fields [simp]:
  "tu_sessions_turns (open_violations sid s) = tu_sessions_turns s \<and> tu_turns_ref (open_violations sid s) = tu_turns_ref s"
  by (simp add: open_violations_def)

lemma violation_fields [simp]:
  "tu_sessions_turns (add_session_violation sid v s) = tu_sessions_turns s
   \<and> tu_turns_ref (add_session_violation sid v s) = tu_turns_ref s"
  by (simp add: add_session_violation_def)

lemma show_fields [simp]:
  "tu_sessions_turns (show_session sid s) = tu_sessions_turns s \<and> tu_turns_ref (show_session sid s) = tu_turns_ref s"
  by (simp add: show_session_def Let_def)

lemma cumulative_fields [simp]:
  "tu_sessions_turns (add_to_cumulative v s) = tu_sessions_turns s" "tu_turns_ref (add_to_cumulative v s) = tu_turns_ref s"
  by (simp_all add: add_to_cumulative_def Let_def split: list_ref.split)

lemma created_fields [simp]:
  "tu_sessions_turns (on_session_created sid p s) = tu_sessions_turns s \<and> tu_turns_ref (on_session_created sid p s) = tu_turns_ref s"
proof -
  define t where "t = target_session sid s"
  define s1 where "s1 = (if t \<noteq> [] \<and> t \<notin> set (tu_available_sessions s)
    then s\<lparr>tu_available_sessions := tu_available_sessions s @ [t]\<rparr> else s)"
  define s2 where "s2 = (if t \<noteq> [] then s1\<lparr>tu_sessions_metadata := AList.update t p (tu_sessions_metadata s1)\<rparr> else s1)"
  have "tu_sessions_turns s2 = tu_sessions_turns s" "tu_turns_ref s2 = tu_turns_ref s"
    by (simp_all add: s2_def s1_def)
  then show ?thesis
    unfolding on_session_created_def Let_def t_def [symmetric] s1_def [symmetric] s2_def [symmetric] by simp
qed

lemma disconnected_fields [simp]:
  "tu_sessions_turns (on_session_disconnected sid s) = tu_sessions_turns s \<and> tu_turns_ref (on_session_disconnected sid s) = tu_turns_ref s"
  by (cases "map_of (tu_sessions_metadata s) sid") (simp_all add: on_session_disconnected_def Let_def)

lemma keeps_note [keeps]: "op_keeps tui_ok (note_violation sid v)"
  unfolding note_violation_def by (rule keeps_other) (simp add: Let_def)

lemma keeps_rescore [keeps]: "op_keeps tui_ok rescore"
  unfolding rescore_def by (intro keeps keeps_other) simp

lemma keeps_recalculate [keeps]: "op_keeps tui_ok recalculate_aggregates"
  unfolding recalculate_aggregates_def by (intro keeps keeps_other) simp_all

lemma keeps_complete [keeps]: "op_keeps tui_ok (complete_turn d k i)"
  unfolding complete_turn_def take_field_def float_field_def op_all.simps
  by (intro keeps tui_keeps_put keeps_compute) simp_all

lemma keeps_complete_violations [keeps]: "op_keeps tui_ok (complete_violations d target k i)"
  unfolding complete_violations_def completed_violation_def
  by (intro keeps tui_keeps_put keeps_other) simp_all

lemma tui_keeps_event: "op_keeps tui_ok (apply_event e)"
proof -
  have started: "op_keeps tui_ok (on_turn_started sid p)" for sid p
    unfolding on_turn_started_def
    unfolding op_all.simps by (intro keeps keeps_other keeps_shown tui_keeps_put keeps_compute) simp_all
  have streaming: "op_keeps tui_ok (on_turn_streaming sid p)" for sid p
    unfolding on_turn_streaming_def recount_def
    unfolding op_all.simps
    by (intro keeps keeps_other keeps_shown tui_keeps_put keeps_compute keeps_if) simp_all
  have completed: "op_keeps tui_ok (on_turn_completed sid p)" for sid p
    unfolding on_turn_completed_def
    unfolding op_all.simps by (intro keeps keeps_other keeps_shown) simp_all
  have violation: "op_keeps tui_ok (on_violation_detected sid p)" for sid p
    unfolding on_violation_detected_def
    unfolding op_all.simps
    by (auto intro!: keeps keeps_compute keeps_other split: option.split)
  have summary: "op_keeps tui_ok (on_summary_updated p)" for p
    unfolding on_summary_updated_def Let_def
    unfolding op_all.simps by (intro keeps keeps_opt keeps_other keeps_if) simp_all
  have forget: "tui_ok s \<Longrightarrow> tui_ok (forget_session sid s)" for sid s
    using ok_get [of s sid] by (auto simp: tui_ok_def forget_session_def detach_def deref_def split: list_ref.splits if_splits)
  have clear: "tui_ok s \<Longrightarrow> tui_ok (clear_shown s)" for s
    by (auto simp: tui_ok_def clear_shown_def clear_list_def split: list_ref.splits prod.splits if_splits)
  have switch: "op_keeps tui_ok (switch_session t None)" for t
  proof -
    have "tui_ok s \<Longrightarrow> tui_ok (s\<lparr>tu_turns_ref := ref_or_empty (tu_sessions_turns s) sid, tu_violations_ref := r\<rparr>)" for s sid r
      by (auto simp: tui_ok_def ref_or_empty_def)
    then have refs: "op_keeps tui_ok (op_modify (\<lambda>s. s\<lparr>tu_turns_ref := ref_or_empty (tu_sessions_turns s) sid,
        tu_violations_ref := ref_or_empty (tu_sessions_violations s) sid\<rparr>))" for sid
      by (rule keeps_modify)
    show ?thesis unfolding switch_session_def
      by (intro keeps) (auto intro!: refs keeps keeps_other)
  qed
  have erased: "op_keeps tui_ok (on_session_erased sid)" for sid
    unfolding on_session_erased_def
    by (intro keeps keeps_modify forget clear) (auto intro!: keeps switch keeps_other simp: no_session_def split: list.split)
  show ?thesis unfolding apply_event_def
    by (intro keeps keeps_other)
      (auto intro!: keeps_other started streaming completed violation summary erased split: ui_event_type.split)
qed

subsection \<open>Turns from the store\<close>

lemma rmap_list_total: "(\<And>x. x \<in> set xs \<Longrightarrow> f x = Inr (g x)) \<Longrightarrow> rmap_list f xs = Inr (map g xs)"
  by (induction xs) simp_all

lemma block_tokens_dict [simp]: "block_tokens (context_block_to_dict b) = Inr (cb_token_count b)"
  by (simp add: block_tokens_def get2_def jget_or_def dict_get_def context_block_to_dict_def)

lemma tokens_of_dicts: "rsum block_tokens (block_dicts bs) = Inr (sum_tokens bs)"
proof -
  have "rmap_list block_tokens (map context_block_to_dict bs) = Inr (map cb_token_count bs)"
    by (induction bs) simp_all
  then show ?thesis by (simp add: rsum_def block_dicts_def sum_tokens_def)
qed

lemma kind_tokens_dicts: "\<exists>n. kind_tokens P (block_dicts bs) = Inr n"
proof -
  have "rmap_list block_tokens ds = Inr (map (\<lambda>d. projr (block_tokens d)) ds)" if "set ds \<subseteq> set (block_dicts bs)" for ds
    using that by (intro rmap_list_total) (auto simp: block_dicts_def)
  then show ?thesis by (simp add: kind_tokens_def rsum_def)
qed

text \<open>The fields of a converted turn that the views read.\<close>

definition shows_turn :: "canonical_turn \<Rightarrow> jdict \<Rightarrow> bool" where
  "shows_turn t d \<longleftrightarrow>
     jget d ''turnIndex'' = JInt (ct_turn_index t) \<and> \<not> jhas d ''turn_id''
     \<and> jget d ''tokens'' = JInt (ct_input_tokens t + ct_output_tokens t)
     \<and> jget d ''inputTokens'' = JInt (ct_input_tokens t)
     \<and> jget d ''cachedReadTokens'' = JInt (ct_cached_read_tokens t)
     \<and> jget d ''cost'' = JFloat (ct_turn_cost_usd t) \<and> jget d ''wastedCost'' = JFloat (ct_wasted_cost_usd t)
     \<and> jget d ''blocks'' = dicts_json (block_dicts (all_blocks t))
     \<and> jget d ''all_blocks'' = dicts_json (block_dicts (all_blocks t))
     \<and> jget d ''system_blocks'' = dicts_json (block_dicts (ct_system_blocks t))
     \<and> jget d ''tool_defs'' = dicts_json (block_dicts (ct_tool_defs t))
     \<and> jget d ''conversation_history'' = dicts_json (block_dicts (ct_conversation_history t))
     \<and> jget d ''tool_results'' = dicts_json (block_dicts (ct_tool_results t))
     \<and> jget d ''assistant_blocks'' = dicts_json (block_dicts (ct_assistant_blocks t))
     \<and> jget d ''violations'' = JArr (map (\<lambda>v. JObj (rule_violation_to_dict v)) (ct_violations t))
     \<and> jget d ''delta'' = JNull \<and> jget d ''turnDelta'' = JNull"

lemma loaded_total_stored: "loaded_total (canonical_turn_to_dict t) a b = Inr (a + b)"
  by (simp add: loaded_total_def jget_def get2_def jget_or_def dict_get_def canonical_turn_to_dict_def)

lemma loaded_violations_stored:
  "loaded_violations (canonical_turn_to_dict t) t = JArr (map (\<lambda>v. JObj (rule_violation_to_dict v)) (ct_violations t))"
  by (simp add: loaded_violations_def jget_or_def dict_get_def canonical_turn_to_dict_def)

lemma convert_shows: "\<exists>d. convert_turn s n t = Inr d \<and> shows_turn t d"
proof -
  let ?d = "canonical_turn_to_dict t" and ?bs = "block_dicts (all_blocks t)"
  define all where "all = (if ?bs \<noteq> [] then ?bs else block_dicts (ct_system_blocks t @ ct_tool_defs t @ ct_conversation_history t
                   @ ct_tool_results t @ ct_assistant_blocks t))"
  have all: "all = ?bs" by (simp add: all_def all_blocks_def)
  obtain sk th inj where k: "kind_tokens is_skill ?bs = Inr sk" "kind_tokens is_thought ?bs = Inr th"
      "kind_tokens is_injected ?bs = Inr inj"
    using kind_tokens_dicts [of _ "all_blocks t"] by meson
  have f: "get2 ?d ''turnIndex'' ''turn_index'' v = JInt (ct_turn_index t)"
    "get2 ?d ''inputTokens'' ''input_tokens'' v = JInt (ct_input_tokens t)"
    "get2 ?d ''outputTokens'' ''output_tokens'' v = JInt (ct_output_tokens t)"
    "get2 ?d ''cachedReadTokens'' ''cached_read_tokens'' v = JInt (ct_cached_read_tokens t)"
    "get2 ?d ''cachedCreatedTokens'' ''cached_created_tokens'' v = JInt (ct_cached_created_tokens t)"
    "jget_or ?d ''cost'' (get2 ?d ''turnCostUSD'' ''turn_cost_usd'' v) = JFloat (ct_turn_cost_usd t)"
    "jget_or ?d ''wastedCost'' (get2 ?d ''wastedCostUSD'' ''wasted_cost_usd'' v) = JFloat (ct_wasted_cost_usd t)"
    "get2 ?d ''durationMs'' ''duration_ms'' v = JFloat (ct_duration_ms t)" for v
    by (simp_all add: get2_def jget_or_def dict_get_def canonical_turn_to_dict_def)
  show ?thesis
    unfolding convert_turn_def Let_def all_def [symmetric] all
    by (simp add: f k loaded_total_stored loaded_violations_stored shows_turn_def)
      (simp add: jget_def dict_get_def jhas_def)
qed

lemma converted_turns:
  "\<exists>ds. rmap_list (\<lambda>(n, t). convert_turn s n t) (enumerate k ts) = Inr ds \<and> list_all2 shows_turn ts ds"
proof (induction ts arbitrary: k)
  case (Cons t ts)
  obtain d where "convert_turn s k t = Inr d" "shows_turn t d" using convert_shows by blast
  with Cons [of "Suc k"] show ?case by auto
qed simp

lemma shown_index: "list_all2 shows_turn ts ds \<Longrightarrow> map (\<lambda>d. jget d ''turnIndex'') ds = map JInt (map ct_turn_index ts)"
  by (induction rule: list_all2_induct) (simp_all add: shows_turn_def)

lemma shown_good:
  assumes "list_all2 shows_turn ts ds" "sorted_wrt (<) (map ct_turn_index ts)"
  shows "good_turns ds"
proof -
  have "list_all (\<lambda>d. \<not> jhas d ''turn_id'') ds"
    using assms(1) by (auto simp: list_all_iff list_all2_conv_all_nth in_set_conv_nth shows_turn_def)
  with shown_index [OF assms(1)] assms(2) show ?thesis unfolding good_turns_def by blast
qed

text \<open>Loading a session: the list, then the aggregates.\<close>

lemma jget_or_jget: "jget d k = v \<Longrightarrow> v \<noteq> JNull \<Longrightarrow> jget_or d k w = v"
  by (auto simp: jget_def jget_or_def dict_get_def split: option.splits)

lemma shown_numbers:
  assumes "shows_turn t d"
  shows "turn_int ''tokens'' d = Inr (ct_input_tokens t + ct_output_tokens t)"
    "turn_int ''inputTokens'' d = Inr (ct_input_tokens t)"
    "turn_int ''cachedReadTokens'' d = Inr (ct_cached_read_tokens t)"
    "turn_float ''cost'' d = Inr (ct_turn_cost_usd t)" "turn_float ''wastedCost'' d = Inr (ct_wasted_cost_usd t)"
    "turn_violations d = Inr (map rule_violation_to_dict (ct_violations t))"
proof -
  have f: "jget d ''tokens'' = JInt (ct_input_tokens t + ct_output_tokens t)"
    "jget d ''inputTokens'' = JInt (ct_input_tokens t)" "jget d ''cachedReadTokens'' = JInt (ct_cached_read_tokens t)"
    "jget d ''cost'' = JFloat (ct_turn_cost_usd t)" "jget d ''wastedCost'' = JFloat (ct_wasted_cost_usd t)"
    "jget d ''violations'' = JArr (map (\<lambda>v. JObj (rule_violation_to_dict v)) (ct_violations t))"
    using assms unfolding shows_turn_def by blast+
  have v: "rmap_list (as_obj ''violations'') (map (\<lambda>v. JObj (rule_violation_to_dict v)) vs) = Inr (map rule_violation_to_dict vs)" for vs
    by (induction vs) simp_all
  show "turn_int ''tokens'' d = Inr (ct_input_tokens t + ct_output_tokens t)"
    "turn_int ''inputTokens'' d = Inr (ct_input_tokens t)"
    "turn_int ''cachedReadTokens'' d = Inr (ct_cached_read_tokens t)"
    "turn_float ''cost'' d = Inr (ct_turn_cost_usd t)" "turn_float ''wastedCost'' d = Inr (ct_wasted_cost_usd t)"
    using f by (simp_all add: turn_int_def turn_float_def jget_or_jget)
  show "turn_violations d = Inr (map rule_violation_to_dict (ct_violations t))"
    using jget_or_jget [OF f(6)] by (simp add: turn_violations_def v)
qed

lemma shown_violations:
  assumes "list_all2 shows_turn ts ds"
  shows "rcollect turn_violations ds = Inr (concat (map (\<lambda>t. map rule_violation_to_dict (ct_violations t)) ts))"
proof -
  have "rmap_list turn_violations ds = Inr (map (\<lambda>t. map rule_violation_to_dict (ct_violations t)) ts)"
    using assms by (induction rule: list_all2_induct) (simp_all add: shown_numbers)
  then show ?thesis by (simp add: rcollect_def)
qed

lemma shown_sums:
  assumes "list_all2 shows_turn ts ds"
  shows "rsum (turn_int ''tokens'') ds = Inr (sum_list (map (\<lambda>t. ct_input_tokens t + ct_output_tokens t) ts))"
    "rsum (turn_int ''inputTokens'') ds = Inr (sum_list (map ct_input_tokens ts))"
    "rsum (turn_int ''cachedReadTokens'') ds = Inr (sum_list (map ct_cached_read_tokens ts))"
    "rfsum (turn_float ''cost'') ds = Inr (fsum (map ct_turn_cost_usd ts))"
    "rfsum (turn_float ''wastedCost'') ds = Inr (fsum (map ct_wasted_cost_usd ts))"
proof -
  have "rmap_list (turn_int ''tokens'') ds = Inr (map (\<lambda>t. ct_input_tokens t + ct_output_tokens t) ts)
      \<and> rmap_list (turn_int ''inputTokens'') ds = Inr (map ct_input_tokens ts)
      \<and> rmap_list (turn_int ''cachedReadTokens'') ds = Inr (map ct_cached_read_tokens ts)
      \<and> rmap_list (turn_float ''cost'') ds = Inr (map ct_turn_cost_usd ts)
      \<and> rmap_list (turn_float ''wastedCost'') ds = Inr (map ct_wasted_cost_usd ts)"
    using assms
    by (induction rule: list_all2_induct) (simp_all add: shown_numbers)
  then show "rsum (turn_int ''tokens'') ds = Inr (sum_list (map (\<lambda>t. ct_input_tokens t + ct_output_tokens t) ts))"
    "rsum (turn_int ''inputTokens'') ds = Inr (sum_list (map ct_input_tokens ts))"
    "rsum (turn_int ''cachedReadTokens'') ds = Inr (sum_list (map ct_cached_read_tokens ts))"
    "rfsum (turn_float ''cost'') ds = Inr (fsum (map ct_turn_cost_usd ts))"
    "rfsum (turn_float ''wastedCost'') ds = Inr (fsum (map ct_wasted_cost_usd ts))"
    by (simp_all add: rsum_def rfsum_def)
qed

lemma unreadable: "list_all (\<lambda>t. \<not> jhas t ''turn_id'') ts \<Longrightarrow> readable_turns ts = Inr []"
  by (induction ts) (simp_all add: canonical_turn_from_dict_def need_def jhas_def)

lemma rescore_nothing: "list_all (\<lambda>t. \<not> jhas t ''turn_id'') (tu_turns s) \<Longrightarrow> rescore s = (Inr (), s)"
  by (simp add: rescore_def op_defs unreadable)

definition shows_session :: "canonical_turn list \<Rightarrow> tui \<Rightarrow> bool" where
  "shows_session ts s \<longleftrightarrow>
     list_all2 shows_turn ts (tu_turns s)
     \<and> tu_total_tokens s = sum_list (map (\<lambda>t. ct_input_tokens t + ct_output_tokens t) ts)
     \<and> tu_cached_read_tokens s = sum_list (map ct_cached_read_tokens ts)
     \<and> tu_total_spend_usd s = fsum (map ct_turn_cost_usd ts)
     \<and> tu_wasted_spend_usd s = fsum (map ct_wasted_cost_usd ts)
     \<and> tu_violations s = concat (map (\<lambda>t. map rule_violation_to_dict (ct_violations t)) ts)
     \<and> tu_selected_turn_index s = max 0 (int (length ts) - 1)"

lemma op_run:
  "op_bind (op_lift (Inr x)) f s = f x s" "op_bind (op_lift (Inl e)) f s = (Inl e, s)"
  "op_bind (op_get g) f s = f (g s) s" "op_seq (op_modify h) m s = m (h s)"
  "op_bind (op_return x) f s = f x s"
  by (simp_all add: op_defs)

lemma tu_turns_other [simp]:
  "tu_turns (s\<lparr>tu_total_tokens := n\<rparr>) = tu_turns s" "tu_turns (s\<lparr>tu_total_spend_usd := x\<rparr>) = tu_turns s"
  "tu_turns (s\<lparr>tu_wasted_spend_usd := x\<rparr>) = tu_turns s" "tu_turns (s\<lparr>tu_cached_read_tokens := n\<rparr>) = tu_turns s"
  "tu_turns (s\<lparr>tu_cache_hit_ratio := x\<rparr>) = tu_turns s" "tu_turns (s\<lparr>tu_selected_turn_index := n\<rparr>) = tu_turns s"
  by (simp_all add: tu_turns_def)

lemma recalculate_shown:
  assumes "list_all2 shows_turn ts (tu_turns s)"
  shows "\<exists>r. recalculate_aggregates s = (Inr (), s\<lparr>
     tu_total_tokens := sum_list (map (\<lambda>t. ct_input_tokens t + ct_output_tokens t) ts),
     tu_total_spend_usd := fsum (map ct_turn_cost_usd ts), tu_wasted_spend_usd := fsum (map ct_wasted_cost_usd ts),
     tu_cached_read_tokens := sum_list (map ct_cached_read_tokens ts), tu_cache_hit_ratio := r\<rparr>)"
proof -
  have no_id: "list_all (\<lambda>d. \<not> jhas d ''turn_id'') (tu_turns s)"
    using assms by (auto simp: list_all_iff list_all2_conv_all_nth in_set_conv_nth shows_turn_def)
  have "rescore s' = (Inr (), s')" if "tu_turns s' = tu_turns s" for s'
    using no_id that by (simp add: rescore_nothing)
  let ?s = "s\<lparr>tu_total_tokens := sum_list (map (\<lambda>t. ct_input_tokens t + ct_output_tokens t) ts),
     tu_total_spend_usd := fsum (map ct_turn_cost_usd ts), tu_wasted_spend_usd := fsum (map ct_wasted_cost_usd ts),
     tu_cached_read_tokens := sum_list (map ct_cached_read_tokens ts)\<rparr>"
  have "recalculate_aggregates s = rescore (if 0 < sum_list (map ct_input_tokens ts)
      then ?s\<lparr>tu_cache_hit_ratio := py_round (int_truediv (sum_list (map ct_cached_read_tokens ts)) (sum_list (map ct_input_tokens ts))) 3\<rparr>
      else ?s)"
    by (simp add: recalculate_aggregates_def op_run shown_sums [OF assms])
  also have "\<dots> = (Inr (), if 0 < sum_list (map ct_input_tokens ts)
      then ?s\<lparr>tu_cache_hit_ratio := py_round (int_truediv (sum_list (map ct_cached_read_tokens ts)) (sum_list (map ct_input_tokens ts))) 3\<rparr>
      else ?s\<lparr>tu_cache_hit_ratio := tu_cache_hit_ratio s\<rparr>)"
    using no_id by (simp add: rescore_nothing)
  finally have run: "recalculate_aggregates s = \<dots>" .
  show ?thesis
  proof (cases "0 < sum_list (map ct_input_tokens ts)")
    case True
    then show ?thesis unfolding run by (simp only: if_True) blast
  next
    case False
    then show ?thesis unfolding run by (intro exI [of _ "tu_cache_hit_ratio s"]) simp
  qed
qed

lemma load_shows:
  "\<exists>s'. load_turns_from_store store sid s = (Inr (), s') \<and> shows_session (stored_turns store sid) s'
     \<and> tu_session_id s' = tu_session_id s \<and> tu_pollution_score s' = tu_pollution_score s
     \<and> tu_turns_ref s' = OfSession sid
     \<and> tu_sessions_turns s' = AList.update sid (tu_turns s') (tu_sessions_turns s)"
proof -
  let ?ts = "stored_turns store sid"
  obtain ds where ds: "rmap_list (\<lambda>(n, t). convert_turn s n t) (enumerate 0 ?ts) = Inr ds" "list_all2 shows_turn ?ts ds"
    using converted_turns by blast
  let ?vs = "concat (map (\<lambda>t. map rule_violation_to_dict (ct_violations t)) ?ts)"
  let ?s1 = "s\<lparr>tu_sessions_turns := AList.update sid ds (tu_sessions_turns s), tu_turns_ref := OfSession sid\<rparr>"
  let ?s2 = "?s1\<lparr>tu_sessions_violations := AList.update sid ?vs (tu_sessions_violations s), tu_violations_ref := OfSession sid\<rparr>"
  have turns: "tu_turns ?s2 = ds" by (simp add: tu_turns_def deref_def)
  with ds(2) have "list_all2 shows_turn ?ts (tu_turns ?s2)" by simp
  from recalculate_shown [OF this] obtain s3 where s3: "recalculate_aggregates ?s2 = (Inr (), s3)"
      "tu_total_tokens s3 = sum_list (map (\<lambda>t. ct_input_tokens t + ct_output_tokens t) ?ts)"
      "tu_cached_read_tokens s3 = sum_list (map ct_cached_read_tokens ?ts)"
      "tu_total_spend_usd s3 = fsum (map ct_turn_cost_usd ?ts)" "tu_wasted_spend_usd s3 = fsum (map ct_wasted_cost_usd ?ts)"
      "tu_sessions_turns s3 = tu_sessions_turns ?s2" "tu_turns_ref s3 = OfSession sid"
      "tu_sessions_violations s3 = tu_sessions_violations ?s2" "tu_violations_ref s3 = OfSession sid"
      "tu_session_id s3 = tu_session_id s" "tu_pollution_score s3 = tu_pollution_score s"
    by auto
  have t3: "tu_turns s3 = ds" using s3 by (simp add: tu_turns_def deref_def)
  have v3: "tu_violations s3 = ?vs" using s3 by (simp add: tu_violations_def deref_def)
  have len: "length ds = length ?ts" using ds(2) by (simp add: list_all2_lengthD)
  let ?s4 = "s3\<lparr>tu_selected_turn_index := max 0 (int (length ds) - 1)\<rparr>"
  have "load_turns_from_store store sid s = (Inr (), ?s4)"
    using ds(1) shown_violations [OF ds(2)] s3(1) t3
    by (simp add: load_turns_from_store_def op_run) (simp add: op_defs)
  moreover have "shows_session ?ts ?s4"
    using s3 t3 v3 ds(2) len by (simp add: shows_session_def tu_violations_def)
  ultimately show ?thesis using s3 t3 by (intro exI [of _ ?s4]) simp
qed

subsection \<open>The ledger is the delta of the engine\<close>

abbreviation bdict :: "context_block \<Rightarrow> jdict" where
  "bdict \<equiv> context_block_to_dict"

lemma bdict_fields [simp]:
  "bid_of (bdict b) = JStr (cb_block_id b)" "tui_match_key (bdict b) = block_match_key b"
  "bfield (bdict b) ''identity_key'' ''identityKey'' = JStr (cb_identity_key b)"
  "bfield (bdict b) ''content_hash'' ''contentHash'' = JStr (cb_content_hash b)"
  by (simp_all add: bid_of_def tui_match_key_def block_match_key_def bfield_def get2_def jget_or_def dict_get_def
      context_block_to_dict_def)

lemma uniq_by_map_eq:
  "(\<And>x y. f (g x) = f (g y) \<longleftrightarrow> h x = h y) \<Longrightarrow> uniq_by f ((\<lambda>x. f (g x)) ` S) (map g xs) = map g (uniq_by h (h ` S) xs)"
proof (induction xs arbitrary: S)
  case (Cons x xs)
  have "f (g x) \<in> (\<lambda>x. f (g x)) ` S \<longleftrightarrow> h x \<in> h ` S" using Cons.prems by auto
  then show ?case
    using Cons.IH [OF Cons.prems, of S] Cons.IH [OF Cons.prems, of "insert x S"]
    by (cases "h x \<in> h ` S") simp_all
qed simp

lemma find_map_eq: "find P (map f xs) = map_option f (find (\<lambda>x. P (f x)) xs)"
  by (induction xs) simp_all

lemma first_dicts: "first_blocks (map bdict bs) = map bdict (uniq_by cb_block_id {} bs)"
  using uniq_by_map_eq [of bid_of bdict cb_block_id "{}" bs] by (simp add: first_blocks_def)

lemma by_key_dicts: "map_of (by_match_key (map bdict bs)) k = map_option bdict (map_of (index_first block_match_key bs) k)"
  by (simp add: by_match_key_def map_of_index_first find_map_eq)

fun change_of :: "block_status \<Rightarrow> block_change" where
  "change_of Added = NewBlock"
| "change_of Persisted = KeptBlock"
| "change_of Mutated = ChangedBlock"

lemma status_dicts: "computed_status (map bdict prev) (bdict b) = change_of (block_status prev b)"
  by (simp add: computed_status_def block_status_def by_key_dicts map_of_index_first split: option.split)

lemma change_of_inj: "change_of x = change_of y \<longleftrightarrow> x = y"
  by (cases x; cases y) simp_all

lemma ids_dicts:
  "change_ids (change_of st) (map (\<lambda>b. (b, computed_status (map bdict prev) b)) (first_blocks (map bdict cur)))
     = map JStr (ids_with prev st cur)"
  by (simp add: change_ids_def first_dicts ids_with_def filter_map comp_def status_dicts change_of_inj)

lemma removed_dicts:
  "map bid_of (removed_blocks (map bdict cur) (map bdict prev)) = map JStr (diff_removed (index_first block_match_key cur) {} prev)"
proof -
  have "map_of (index_first block_match_key cur) k = None \<longleftrightarrow> k \<notin> block_match_key ` set cur" for k
    by (auto simp: map_of_index_first find_None_iff)
  then show ?thesis
    by (simp add: removed_blocks_def first_dicts by_key_dicts diff_removed_eq filter_map comp_def)
qed

lemma transitions_defined: "\<exists>trs. rmap_list (\<lambda>b. transition b (st b)) (map bdict bs) = Inr trs"
proof -
  have "\<exists>d. transition (bdict b) x = Inr d" for b x by (cases x) (simp_all add: make_transition_def)
  then have "\<forall>b x. \<exists>d. transition (bdict b) x = Inr d" by blast
  then obtain f where f: "\<And>b x. transition (bdict b) x = Inr (f b x)" by metis
  have "rmap_list (\<lambda>b. transition b (st b)) (map bdict bs) = Inr (map (\<lambda>b. f b (st (bdict b))) bs)"
    by (induction bs) (simp_all add: f)
  then show ?thesis by blast
qed

lemma block_objects_map [simp]: "block_objects (map JObj ds) = ds"
  by (induction ds) (simp_all add: block_objects_def)

lemma shown_blocks:
  assumes "shows_turn t d"
  shows "extract_blocks_from_turn (Some d) = Inr (map bdict (all_blocks t))"
proof -
  have d: "d \<noteq> []" using assms by (auto simp: shows_turn_def jget_def dict_get_def)
  have or: "jget_or d k w = jget d k" if "jget d k \<noteq> JNull" for k w
    using that by (auto simp: jget_def jget_or_def dict_get_def split: option.splits)
  show ?thesis
  proof (cases "all_blocks t")
    case Nil
    then have e: "ct_system_blocks t = []" "ct_tool_defs t = []" "ct_conversation_history t = []" "ct_tool_results t = []"
      "ct_assistant_blocks t = []" by (simp_all add: all_blocks_def)
    show ?thesis using assms d e Nil
      by (simp add: extract_blocks_from_turn_def shows_turn_def add_lists_def or dicts_json_def block_dicts_def py_add_def
          block_objects_def)
  next
    case (Cons b bs)
    then have "truthy (jget d ''blocks'')" "jget d ''blocks'' = JArr (map JObj (map bdict (all_blocks t)))"
      using assms by (simp_all add: shows_turn_def dicts_json_def block_dicts_def)
    then show ?thesis using d by (simp add: extract_blocks_from_turn_def del: map_map)
  qed
qed

text \<open>The position of an index is that of the first turn that has it.\<close>

definition first_with :: "int \<Rightarrow> canonical_turn list \<Rightarrow> nat" where
  "first_with i ts = length (takeWhile (\<lambda>t. ct_turn_index t \<noteq> i) ts)"

lemma first_with_less: "i \<in> ct_turn_index ` set ts \<Longrightarrow> first_with i ts < length ts"
  by (induction ts) (auto simp: first_with_def)

lemma first_with_nth: "i \<in> ct_turn_index ` set ts \<Longrightarrow> ct_turn_index (ts ! first_with i ts) = i"
  using nth_length_takeWhile [of "\<lambda>t. ct_turn_index t \<noteq> i" ts] first_with_less [of i ts]
  by (auto simp: first_with_def)

lemma position_of_index:
  assumes "list_all2 shows_turn ts ds" "i \<in> ct_turn_index ` set ts"
  shows "turn_position i ds = first_with i ts"
proof -
  have len: "length ds = length ts" using assms(1) by (simp add: list_all2_lengthD)
  have ix: "has_index i (ds ! k) \<longleftrightarrow> ct_turn_index (ts ! k) = i" if "k < length ts" for k
    using arg_cong [OF shown_index [OF assms(1)], of "\<lambda>xs. xs ! k"] that len by (simp add: has_index_int)
  have before: "ct_turn_index (ts ! k) \<noteq> i" if "k < first_with i ts" for k
    using that nth_mem [of k "takeWhile (\<lambda>t. ct_turn_index t \<noteq> i) ts"] set_takeWhileD
    by (fastforce simp: first_with_def takeWhile_nth)
  note p = first_with_less [OF assms(2)] first_with_nth [OF assms(2)]
  have "find (\<lambda>(_, t). has_index i t) (enumerate 0 ds) = Some (first_with i ts, ds ! first_with i ts)"
    unfolding find_Some_iff using p before ix len
    by (intro exI [of _ "first_with i ts"]) (simp add: nth_enumerate_eq)
  then show ?thesis by (simp add: turn_position_def)
qed

lemma shown_misc:
  assumes "shows_turn t d"
  shows "inputs_of d = Inr (ct_input_tokens t)" "attached_delta d = []"
    "NormBase.py_int (jget_or d ''turnIndex'' v) = Inr (ct_turn_index t)" "d \<noteq> []"
proof -
  have f: "jget d ''inputTokens'' = JInt (ct_input_tokens t)" "jget d ''turnIndex'' = JInt (ct_turn_index t)"
    "jget d ''delta'' = JNull" "jget d ''turnDelta'' = JNull"
    using assms unfolding shows_turn_def by blast+
  show "inputs_of d = Inr (ct_input_tokens t)" "attached_delta d = []"
    "NormBase.py_int (jget_or d ''turnIndex'' v) = Inr (ct_turn_index t)"
    using jget_or_jget [OF f(1)] jget_or_jget [OF f(2)] f(3,4)
    by (simp_all add: inputs_of_def get2_def attached_delta_def py_or_def)
  show "d \<noteq> []" using f(2) by (auto simp: jget_def dict_get_def)
qed

text \<open>The entry of the ledger for a delta of the engine.\<close>

definition ledger_entry :: "int \<Rightarrow> turn_delta \<Rightarrow> jdict list \<Rightarrow> jdict" where
  "ledger_entry i d trs =
     delta_dict i (map JStr (td_added_block_ids d)) (map JStr (td_persisted_block_ids d)) (map JStr (td_mutated_block_ids d))
       (map JStr (td_removed_block_ids d)) (jopt JStr (td_cache_breakpoint_block_id d)) (td_token_growth d) trs"

lemma tokens_of_bdicts: "tokens_of_blocks (map bdict bs) = Inr (sum_tokens bs)"
  using tokens_of_dicts [of bs] by (simp add: tokens_of_blocks_def block_dicts_def)

lemma first_ledger:
  assumes "shows_turn t d" "0 \<le> ct_input_tokens t"
  shows "\<exists>trs. first_turn_delta i d (map bdict (all_blocks t)) = Inr (ledger_entry i (compute_delta None t) trs)"
proof -
  obtain trs where "rmap_list (\<lambda>b. transition b NewBlock) (map bdict (uniq_by cb_block_id {} (all_blocks t))) = Inr trs"
    using transitions_defined [of "\<lambda>_. NewBlock"] by blast
  then show ?thesis
    using assms(2)
    by (simp add: first_turn_delta_def first_dicts shown_misc [OF assms(1)] tokens_of_bdicts ledger_entry_def
        compute_delta_def initial_delta_def comp_def jopt_def)
      (intro conjI impI; blast)
qed

lemma growth_dicts:
  assumes "shows_turn t d" "shows_turn t' d'"
  shows "growth_between [] d (Some d') (map bdict (all_blocks t)) (map bdict (all_blocks t')) =
     Inr (td_token_growth (compute_delta (Some t') t))"
proof -
  obtain x xs where "d' = x # xs" using shown_misc(4) [OF assms(2)] by (cases d') auto
  then show ?thesis
    using shown_misc(1) [OF assms(1)] shown_misc(1) [OF assms(2)]
    by (simp add: growth_between_def tokens_of_bdicts compute_delta_def Let_def jhas_def split: prod.split)
qed

lemma next_ledger:
  assumes d: "shows_turn t d" "shows_turn t' d'"
  shows "\<exists>trs. delta_between i d (Some d') (map bdict (all_blocks t)) (map bdict (all_blocks t')) =
     Inr (ledger_entry i (compute_delta (Some t') t) trs)"
proof -
  let ?cur = "all_blocks t" and ?prev = "all_blocks t'"
  let ?st = "computed_status (map bdict ?prev)"
  let ?ps = "map (\<lambda>b. (b, ?st b)) (first_blocks (map bdict ?cur))"
  have dup: "rmap_list (\<lambda>(b, st). transition b st) (map (\<lambda>b. (b, f b)) bs) = rmap_list (\<lambda>b. transition b (f b)) bs" for f bs
    by (induction bs) simp_all
  obtain trs where trs: "rmap_list (\<lambda>(b, st). transition b st) ?ps = Inr trs"
    unfolding dup first_dicts using transitions_defined by blast
  have "\<exists>bs. removed_blocks (map bdict ?cur) (map bdict ?prev) = map bdict bs"
    unfolding removed_blocks_def first_dicts filter_map by blast
  then obtain outs where outs: "rmap_list (\<lambda>b. transition b GoneBlock) (removed_blocks (map bdict ?cur) (map bdict ?prev)) = Inr outs"
    using transitions_defined [of "\<lambda>_. GoneBlock"] by metis
  have ids: "change_ids NewBlock ?ps = map JStr (ids_with ?prev Added ?cur)"
    "change_ids KeptBlock ?ps = map JStr (ids_with ?prev Persisted ?cur)"
    "change_ids ChangedBlock ?ps = map JStr (ids_with ?prev Mutated ?cur)"
    using ids_dicts [of Added ?prev ?cur] ids_dicts [of Persisted ?prev ?cur] ids_dicts [of Mutated ?prev ?cur] by simp_all
  have "find (\<lambda>b. bid_of b \<notin> JStr ` set ids) (map bdict ?cur) = map_option bdict (find (\<lambda>b. cb_block_id b \<notin> set ids) ?cur)" for ids
  proof -
    have "bid_of (bdict b) \<notin> JStr ` set ids \<longleftrightarrow> cb_block_id b \<notin> set ids" for b by auto
    then show ?thesis by (simp only: find_map_eq)
  qed
  then have cb: "(case find (\<lambda>b. bid_of b \<notin> JStr ` set ids) (map bdict ?cur) of Some b \<Rightarrow> bid_of b | None \<Rightarrow> JNull) =
      jopt JStr (map_option cb_block_id (find (\<lambda>b. cb_block_id b \<notin> set ids) ?cur))" for ids
    by (simp add: jopt_def split: option.split)
  have eng: "compute_delta (Some t') t =
     \<lparr>td_turn_index = ct_turn_index t, td_added_block_ids = ids_with ?prev Added ?cur,
      td_removed_block_ids = diff_removed (index_first block_match_key ?cur) {} ?prev,
      td_persisted_block_ids = ids_with ?prev Persisted ?cur, td_mutated_block_ids = ids_with ?prev Mutated ?cur,
      td_cache_breakpoint_block_id = map_option cb_block_id (find (\<lambda>b. cb_block_id b \<notin> set (ids_with ?prev Persisted ?cur)) ?cur),
      td_token_growth = td_token_growth (compute_delta (Some t') t)\<rparr>"
    by (simp add: compute_delta_def Let_def diff_curr_eq ids_with_def)
  have none: "id_list [] a a' = Inr []" "get2 [] a a' v = v" for a a' v
    by (simp_all add: id_list_def get2_def jget_or_def dict_get_def)
  show ?thesis
    unfolding delta_between_def shown_misc(2) [OF d(1)] Let_def
    using trs outs
    by (subst eng) (simp add: none ids cb growth_dicts [OF d] removed_dicts ledger_entry_def, blast)
qed

lemma ledger_is_delta:
  assumes shown: "list_all2 shows_turn ts (tu_turns s)" and i: "i \<in> ct_turn_index ` set ts"
    and p: "p = first_with i ts" "p = 0 \<Longrightarrow> 0 \<le> ct_input_tokens (ts ! 0)"
  shows "\<exists>trs. get_turn_delta (Some i) s =
    Inr (ledger_entry i (compute_delta (if p = 0 then None else Some (ts ! (p - 1))) (ts ! p)) trs)"
proof -
  have len: "length (tu_turns s) = length ts" using shown by (simp add: list_all2_lengthD)
  have pos: "turn_position i (tu_turns s) = p" using position_of_index [OF shown i] p(1) by simp
  have lt: "p < length ts" and ix: "ct_turn_index (ts ! p) = i"
    using first_with_less [OF i] first_with_nth [OF i] p(1) by simp_all
  have d: "shows_turn (ts ! p) (tu_turns s ! p)" using shown lt by (simp add: list_all2_nthD)
  have ne: "tu_turns s \<noteq> []" using len lt by auto
  show ?thesis
  proof (cases "p = 0")
    case True
    then have "0 \<le> ct_input_tokens (ts ! p)" using p(2) by simp
    from first_ledger [OF d this, of i] True show ?thesis
      using pos ne shown_blocks [OF d] shown_misc [OF d] ix
      by (simp add: get_turn_delta_def Let_def extract_blocks_from_turn_def)
  next
    case False
    then have d': "shows_turn (ts ! (p - 1)) (tu_turns s ! (p - 1))" using shown lt by (simp add: list_all2_nthD)
    show ?thesis
      using next_ledger [OF d d', of i] pos ne shown_blocks [OF d] shown_blocks [OF d'] shown_misc [OF d] ix False
      by (simp add: get_turn_delta_def Let_def)
  qed
qed

subsection \<open>Events and switches\<close>

datatype tui_input = Show ui_event | Switch "string option" "session_store option"

fun tui_step :: "tui \<Rightarrow> tui_input \<Rightarrow> tui" where
  "tui_step s (Show e) = snd (apply_event e s)"
| "tui_step s (Switch target store) = snd (switch_session target store s)"

definition tui_run :: "tui_input list \<Rightarrow> tui" where
  "tui_run = foldl tui_step new_tui"

text \<open>A store from which a session is loaded keeps the turns of each session in the order of their indices.\<close>

definition ordered_store :: "session_store \<Rightarrow> bool" where
  "ordered_store store \<longleftrightarrow> list_all (\<lambda>(sid, ts). sorted_wrt (<) (map ct_turn_index ts)) (ss_sessions store)"

fun input_ok :: "tui_input \<Rightarrow> bool" where
  "input_ok (Switch _ (Some store)) = ordered_store store"
| "input_ok _ = True"

lemma ordered_stored: "ordered_store store \<Longrightarrow> sorted_wrt (<) (map ct_turn_index (stored_turns store sid))"
  by (auto simp: stored_key dict_get_def ordered_store_def list_all_iff split: option.split dest!: map_of_SomeD)

lemma ok_load:
  assumes "tui_ok s" "ordered_store store"
  shows "tui_ok (snd (load_turns_from_store store sid s))"
proof -
  obtain s' where s': "load_turns_from_store store sid s = (Inr (), s')" "shows_session (stored_turns store sid) s'"
      "tu_turns_ref s' = OfSession sid" "tu_sessions_turns s' = AList.update sid (tu_turns s') (tu_sessions_turns s)"
    using load_shows by blast
  have "good_turns (tu_turns s')"
    using s'(2) ordered_stored [OF assms(2)] by (auto simp: shows_session_def intro: shown_good)
  then show ?thesis using assms(1) s' by (auto simp: tui_ok_def)
qed

lemma ok_refs: "tui_ok s \<Longrightarrow> tui_ok (s\<lparr>tu_turns_ref := ref_or_empty (tu_sessions_turns s) sid, tu_violations_ref := r\<rparr>)"
  by (auto simp: tui_ok_def ref_or_empty_def)

lemma keeps_switch:
  assumes "\<And>st. store = Some st \<Longrightarrow> ordered_store st"
  shows "op_keeps tui_ok (switch_session target store)"
proof -
  have refs: "op_keeps tui_ok (op_modify (\<lambda>s. s\<lparr>tu_turns_ref := ref_or_empty (tu_sessions_turns s) sid,
      tu_violations_ref := ref_or_empty (tu_sessions_violations s) sid\<rparr>))" for sid
    by (intro keeps_modify ok_refs)
  have load: "op_keeps tui_ok (load_turns_from_store st sid)" if "store = Some st" for st sid
    using ok_load assms [OF that] by (simp add: op_keeps_def)
  show ?thesis unfolding switch_session_def
    by (intro keeps) (auto intro!: refs load keeps keeps_other split: option.split)
qed

lemma tui_step_ok: "tui_ok s \<Longrightarrow> input_ok x \<Longrightarrow> tui_ok (tui_step s x)"
proof (cases x)
  case (Show e)
  then show "tui_ok s \<Longrightarrow> ?thesis" using tui_keeps_event [of e] by (simp add: op_keeps_def)
next
  case (Switch target store)
  assume "tui_ok s" "input_ok x"
  then show ?thesis using keeps_switch [of store target] Switch by (cases store) (simp_all add: op_keeps_def)
qed

interpretation tui_machine: invariant_machine tui_step tui_ok input_ok
  by unfold_locales (rule tui_step_ok)

lemma tui_run_ok: "list_all input_ok xs \<Longrightarrow> tui_ok (tui_run xs)"
  unfolding tui_run_def by (rule tui_machine.run_ok) (simp_all add: tui_ok_def new_tui_def)

subsection \<open>What is lost\<close>

text \<open>The turns of the interface have no \<open>turn_id\<close>, so the score is never computed from them.\<close>

lemma score_not_recalculated:
  assumes "tui_ok s"
  shows "tu_pollution_score (snd (recalculate_aggregates s)) = tu_pollution_score s"
proof -
  let ?P = "\<lambda>s'. tu_turns s' = tu_turns s \<and> tu_pollution_score s' = tu_pollution_score s"
  have no_id: "list_all (\<lambda>t. \<not> jhas t ''turn_id'') (tu_turns s)"
    using ok_turns [OF assms] by (simp add: good_turns_def)
  have "op_keeps ?P rescore" using no_id by (simp add: op_keeps_def rescore_nothing)
  then have "op_keeps ?P recalculate_aggregates"
    unfolding recalculate_aggregates_def by (intro keeps keeps_modify) simp_all
  then show ?thesis by (simp add: op_keeps_def)
qed

text \<open>The turn with an index, while it has neither blocks nor a breakdown.\<close>

definition bare_turn :: "string \<Rightarrow> int \<Rightarrow> tui \<Rightarrow> bool" where
  "bare_turn sid i s \<longleftrightarrow>
     (\<exists>d. find (has_index i) (session_turns sid s) = Some d \<and> jget d ''blocks'' = JArr []
        \<and> jget d ''tokenBreakdown'' = JObj zero_breakdown)"

lemma find_update_first:
  "(\<And>x. P (g x) \<longleftrightarrow> P x) \<Longrightarrow> find P (update_first P g xs) = map_option g (find P xs)"
  by (induction xs) auto

lemma has_index_update: "k \<noteq> ''turnIndex'' \<Longrightarrow> has_index i (AList.update k v d) \<longleftrightarrow> has_index i d"
  by (simp add: has_index_def jget_def)

lemma bare_put:
  assumes "k \<notin> {''turnIndex'', ''blocks'', ''tokenBreakdown''}"
  shows "op_keeps (bare_turn sid i) (put_field sid i k v)"
  unfolding put_field_def using assms
  by (intro keeps_modify) (auto simp: bare_turn_def find_update_first has_index_update jget_def)

lemma bare_compute:
  "k \<notin> {''turnIndex'', ''blocks'', ''tokenBreakdown''} \<Longrightarrow> op_keeps (bare_turn sid i) (compute_field sid i k f)"
  unfolding compute_field_def with_turn_def by (intro keeps bare_put)

lemma bare_breakdown:
  assumes "\<And>d. jget d ''tokenBreakdown'' = JObj zero_breakdown \<Longrightarrow> f d = Inr (JObj zero_breakdown)"
  shows "op_keeps (bare_turn sid i) (compute_field sid i ''tokenBreakdown'' f)"
proof (rule op_keepsI)
  fix s assume "bare_turn sid i s"
  then obtain d where d: "find (has_index i) (session_turns sid s) = Some d" "jget d ''blocks'' = JArr []"
      "jget d ''tokenBreakdown'' = JObj zero_breakdown" by (auto simp: bare_turn_def)
  then have "turn_now sid i s = d" by (simp add: turn_now_def)
  then show "bare_turn sid i (snd (compute_field sid i ''tokenBreakdown'' f s))"
    using d assms [OF d(3)]
    by (simp add: compute_field_def with_turn_def put_field_def op_defs bare_turn_def find_update_first has_index_update)
      (simp add: jget_def)
qed

lemma bare_other:
  "(\<And>s. tu_sessions_turns (f s) = tu_sessions_turns s \<and> tu_turns_ref (f s) = tu_turns_ref s) \<Longrightarrow>
    op_keeps (bare_turn sid i) (op_modify f)"
proof -
  assume f: "\<And>s. tu_sessions_turns (f s) = tu_sessions_turns s \<and> tu_turns_ref (f s) = tu_turns_ref s"
  have "session_turns sid (f s) = session_turns sid s" for s using f [of s] by (simp add: session_turns_def tu_turns_def)
  then show ?thesis by (intro keeps_modify) (simp add: bare_turn_def)
qed

lemma need_jget: "jget d k = v \<Longrightarrow> v \<noteq> JNull \<Longrightarrow> need d k = Inr v"
  by (auto simp: need_def jget_def dict_get_def split: option.splits)

lemma bare_complete:
  assumes "\<not> jhas d ''blocks''" "\<not> jhas d ''tokenBreakdown''" "\<not> jhas d ''tokens''"
  shows "op_keeps (bare_turn k i) (complete_turn d k i)"
proof -
  have "jget d ''tokens'' = JNull" using assms(3) by (simp add: jhas_def jget_def dict_get_def)
  then have b: "completed_breakdown d t = Inr (JObj zero_breakdown)" if "jget t ''tokenBreakdown'' = JObj zero_breakdown" for t
    using assms(2) need_jget [OF that] by (simp add: completed_breakdown_def)
  have c: "with_cache t = Inr (JObj zero_breakdown)" if "jget t ''tokenBreakdown'' = JObj zero_breakdown" for t
    using need_jget [OF that] by (simp add: with_cache_def jhas_def zero_breakdown_def)
  have w: "op_keeps (bare_turn k i) (op_when (jhas d ''blocks'') m)" for m
    using assms(1) by (simp add: op_when_def keeps)
  show ?thesis
    unfolding complete_turn_def take_field_def float_field_def op_all.simps
    by (intro w keeps bare_put bare_compute bare_breakdown b c) simp_all
qed

lemma find_new_bare:
  assumes ok: "tui_ok s" and sid: "sid \<noteq> []" and new: "\<not> list_ex (has_index i) (session_turns sid s)"
  shows "\<exists>s'. find_or_create_turn i sid s = (Inr sid, s') \<and> bare_turn sid i s' \<and> tu_session_id s' = tu_session_id s"
proof -
  let ?ts = "session_turns sid s"
  define s1 where "s1 = set_session_turns sid ?ts s"
  obtain ts' where ts': "sort_turns (?ts @ [empty_turn i]) = Inr ts'" "good_turns ts'" "mset ts' = mset (?ts @ [empty_turn i])"
    using sort_new_turn [OF ok_session_turns [OF ok] new] by blast
  have e: "has_index i (empty_turn i)" "jget (empty_turn i) ''blocks'' = JArr []"
    "jget (empty_turn i) ''tokenBreakdown'' = JObj zero_breakdown"
    by (simp_all add: has_index_def empty_turn_def jget_def dict_get_def)
  have "set ts' = set (?ts @ [empty_turn i])" using ts'(3) by (metis set_mset_mset)
  then have only: "d = empty_turn i" if "d \<in> set ts'" "has_index i d" for d
    using that new by (auto simp: list_ex_iff)
  have "empty_turn i \<in> set ts'" using \<open>set ts' = _\<close> by simp
  from find_is_Some [OF this, of "has_index i"] e(1) obtain d where d: "find (has_index i) ts' = Some d" by blast
  with find_eq_SomeD [OF d] only have "d = empty_turn i" by blast
  then have bare: "bare_turn sid i s'" if "session_turns sid s' = ts'" for s'
    using that d e by (simp add: bare_turn_def)
  let ?s3 = "set_session_turns sid ts' (set_session_turns sid (?ts @ [empty_turn i]) s1)"
  have sess: "session_turns sid ?s3 = ts'" "session_turns sid (?s3\<lparr>tu_turns_ref := r\<rparr>) = ts'" for r
    using sid by (simp_all add: session_turns_def set_session_turns_def)
  have id3: "tu_session_id ?s3 = tu_session_id s" using sid by (simp add: set_session_turns_def s1_def)
  have "session_turns sid s1 = ?ts" by (simp add: s1_def)
  define s4 where "s4 = (if sid = tu_session_id ?s3 then ?s3\<lparr>tu_turns_ref := OfSession sid\<rparr> else ?s3)"
  have "find_or_create_turn i sid s = (Inr sid, s4)"
    unfolding s4_def using sid new ts'(1) \<open>session_turns sid s1 = ?ts\<close>
    by (simp add: find_or_create_turn_def op_defs flip: s1_def)
  moreover have "session_turns sid s4 = ts'" "tu_session_id s4 = tu_session_id s"
    using sess id3 by (auto simp: s4_def)
  ultimately show ?thesis using bare by blast
qed

lemma other_session [simp]: "tu_session_id (open_violations sid s) = tu_session_id s"
  by (simp add: open_violations_def)

lemma bare_recalculate: "op_keeps (bare_turn sid i) recalculate_aggregates"
  unfolding recalculate_aggregates_def rescore_def by (intro keeps bare_other) simp_all

lemma bare_violations: "op_keeps (bare_turn sid i) (complete_violations d target sid i)"
  unfolding complete_violations_def completed_violation_def note_violation_def
  by (intro keeps bare_put bare_other) (simp_all add: Let_def)

text \<open>A turn the pipeline reports as complete arrives under the key \<open>turn\<close>, in the form of the store.\<close>

lemma reported_turn:
  "jget (turn_payload g t vs sm) ''turn'' = JObj (AList.update ''all_blocks'' (blocks_json (all_blocks t)) (canonical_turn_to_dict t))"
  by (simp add: turn_payload_def Let_def jget_def dict_get_def)

lemma reported_turn_is_bare:
  assumes ok: "tui_ok s" and sid: "sid \<noteq> []"
    and new: "\<not> list_ex (has_index (ct_turn_index t)) (session_turns sid s)"
    and e: "e = hd (turn_events g sid t vs sm)"
  shows "bare_turn sid (ct_turn_index t) (snd (apply_event e s))"
proof -
  let ?d = "AList.update ''all_blocks'' (blocks_json (all_blocks t)) (canonical_turn_to_dict t)"
  let ?p = "turn_payload g t vs sm" and ?i = "ct_turn_index t"
  have ev: "ue_type e = UI_TURN_COMPLETED" "ue_session_id e = sid" "ue_payload e = ?p"
    by (simp_all add: e turn_events_def Let_def)
  have f: "\<not> jhas ?d ''blocks''" "\<not> jhas ?d ''tokenBreakdown''" "\<not> jhas ?d ''tokens''"
    "get2 ?d ''turnIndex'' ''turn_index'' v = JInt ?i" for v
    by (simp_all add: jhas_def get2_def jget_or_def dict_get_def canonical_turn_to_dict_def)
  define s1 where "s1 = note_session sid s"
  define s2 where "s2 = note_granularity ?p s1"
  define s3 where "s3 = (if sid = tu_session_id s2 then s2\<lparr>tu_status := JStr ''Idle''\<rparr> else s2)"
  have same: "tu_sessions_turns s3 = tu_sessions_turns s" "tu_turns_ref s3 = tu_turns_ref s"
    by (simp_all add: s3_def s2_def s1_def)
  then have "tui_ok s3" "session_turns sid s3 = session_turns sid s"
    using tui_okI [OF ok] by (simp_all add: session_turns_def tu_turns_def)
  then obtain s4 where s4: "find_or_create_turn ?i sid s3 = (Inr sid, s4)" "bare_turn sid ?i s4"
    using find_new_bare [of s3 sid ?i] sid new by auto
  have turn: "jget_or ?p ''turn'' v = JObj ?d" for v using reported_turn [of g t vs sm] by (rule jget_or_jget) simp
  let ?rest = "op_all [complete_turn ?d sid ?i, complete_violations ?d sid sid ?i,
    op_bind (op_get tu_session_id) (\<lambda>shown. op_when (sid = shown) recalculate_aggregates)]"
  have "apply_event e s = ?rest s4"
    using sid s4(1)
    by (simp add: apply_event_def event_sid_def ev on_turn_completed_def op_run when_shown_def target_session_def turn f
        flip: s1_def s2_def s3_def) (simp add: op_defs)
  moreover have "op_keeps (bare_turn sid ?i) ?rest"
    unfolding op_all.simps by (intro keeps bare_complete bare_violations bare_recalculate f)
  ultimately show ?thesis using s4(2) by (simp add: op_keeps_def)
qed

end
