(* ===== verification/RingBuffer.thy ===== *)
theory RingBuffer
  imports Prelude
begin

text \<open>
  \<open>src/interceptor/egress/ring_buffer.py\<close>: the bounded queue between the proxy and the egress
  thread. Every method holds the lock, so the operations are atomic steps. The locale
  \<open>bounded_queue\<close> is the interface the egress client uses; it is interpreted on the model.
\<close>

record 'a ring =
  rb_capacity :: nat
  rb_queue :: "'a list"
  rb_dropped :: int

definition new_ring :: "int \<Rightarrow> 'a ring res" where
  "new_ring capacity =
     (if capacity \<le> 0 then Inl ValueError
      else Inr \<lparr>rb_capacity = nat capacity, rb_queue = [], rb_dropped = 0\<rparr>)"

text \<open>\<open>deque(maxlen=n).append\<close>: a full deque first loses its leftmost item.\<close>

definition deque_append :: "nat \<Rightarrow> 'a \<Rightarrow> 'a list \<Rightarrow> 'a list" where
  "deque_append maxlen x q = (if length q = maxlen then drop 1 (q @ [x]) else q @ [x])"

definition push :: "'a \<Rightarrow> 'a ring \<Rightarrow> bool \<times> 'a ring" where
  "push x r =
     (let d = (if length (rb_queue r) = rb_capacity r then rb_dropped r + 1 else rb_dropped r)
      in (True, r\<lparr>rb_dropped := d, rb_queue := deque_append (rb_capacity r) x (rb_queue r)\<rparr>))"

definition pop :: "'a ring \<Rightarrow> 'a option \<times> 'a ring" where
  "pop r =
     (case rb_queue r of
        [] \<Rightarrow> (None, r)
      | x # q \<Rightarrow> (Some x, r\<lparr>rb_queue := q\<rparr>))"

definition unpop :: "'a \<Rightarrow> 'a ring \<Rightarrow> 'a ring" where
  "unpop x r =
     (if length (rb_queue r) < rb_capacity r then r\<lparr>rb_queue := x # rb_queue r\<rparr>
      else r\<lparr>rb_dropped := rb_dropped r + 1\<rparr>)"

definition get_dropped_count :: "'a ring \<Rightarrow> int" where
  "get_dropped_count r = rb_dropped r"

definition set_dropped_count :: "int \<Rightarrow> 'a ring \<Rightarrow> 'a ring" where
  "set_dropped_count v r = r\<lparr>rb_dropped := v\<rparr>"

definition ring_len :: "'a ring \<Rightarrow> nat" where
  "ring_len r = length (rb_queue r)"

definition ring_is_empty :: "'a ring \<Rightarrow> bool" where
  "ring_is_empty r = (length (rb_queue r) = 0)"

definition ring_is_full :: "'a ring \<Rightarrow> bool" where
  "ring_is_full r = (rb_capacity r \<le> length (rb_queue r))"

definition ring_clear :: "'a ring \<Rightarrow> 'a ring" where
  "ring_clear r = r\<lparr>rb_queue := [], rb_dropped := 0\<rparr>"

subsection \<open>Invariant\<close>

definition ring_wf :: "'a ring \<Rightarrow> bool" where
  "ring_wf r \<longleftrightarrow> 0 < rb_capacity r \<and> length (rb_queue r) \<le> rb_capacity r"

lemma new_ring_wf: "new_ring c = Inr r \<Longrightarrow> ring_wf r \<and> rb_queue r = [] \<and> rb_dropped r = 0"
  by (auto simp: new_ring_def ring_wf_def split: if_splits)

lemma push_wf: "ring_wf r \<Longrightarrow> ring_wf (snd (push x r))"
  by (auto simp: ring_wf_def push_def deque_append_def)

lemma pop_wf: "ring_wf r \<Longrightarrow> ring_wf (snd (pop r))"
  by (auto simp: ring_wf_def pop_def split: list.splits)

lemma unpop_wf: "ring_wf r \<Longrightarrow> ring_wf (unpop x r)"
  by (auto simp: ring_wf_def unpop_def)

lemma clear_wf: "ring_wf r \<Longrightarrow> ring_wf (ring_clear r)"
  by (simp add: ring_wf_def ring_clear_def)

lemma tl_drop_snoc:
  assumes "0 < c" "c \<le> length l"
  shows "tl (drop (length l - c) l) @ [x] = drop (length (l @ [x]) - c) (l @ [x])"
proof -
  have "length (l @ [x]) - c = Suc (length l - c)" using assms by simp
  moreover have "l \<noteq> []" "length l - c - (length l - 1) = 0" "Suc 0 - c = 0" using assms by auto
  ultimately show ?thesis by (simp add: tl_drop drop_Suc)
qed

subsection \<open>The interface of a fail-open queue\<close>

text \<open>
  \<open>items\<close> is the abstract content, \<open>lost\<close> the number of discarded items. A full queue may
  forget its oldest item on \<open>enq\<close> and the returned item on \<open>putback\<close>, never any other.
\<close>

locale bounded_queue =
  fixes inv :: "'q \<Rightarrow> bool" and items :: "'q \<Rightarrow> 'a list" and lost :: "'q \<Rightarrow> int" and cap :: "'q \<Rightarrow> nat"
    and enq :: "'a \<Rightarrow> 'q \<Rightarrow> 'q" and deq :: "'q \<Rightarrow> 'a option \<times> 'q" and putback :: "'a \<Rightarrow> 'q \<Rightarrow> 'q"
  assumes bounded: "inv q \<Longrightarrow> length (items q) \<le> cap q"
    and cap_pos: "inv q \<Longrightarrow> 0 < cap q"
    and inv_ops: "inv q \<Longrightarrow> inv (enq x q)" "inv q \<Longrightarrow> inv (snd (deq q))" "inv q \<Longrightarrow> inv (putback x q)"
    and cap_ops: "inv q \<Longrightarrow> cap (enq x q) = cap q" "inv q \<Longrightarrow> cap (snd (deq q)) = cap q"
      "inv q \<Longrightarrow> cap (putback x q) = cap q"
    and enq_room: "inv q \<Longrightarrow> length (items q) < cap q \<Longrightarrow>
      items (enq x q) = items q @ [x] \<and> lost (enq x q) = lost q"
    and enq_full: "inv q \<Longrightarrow> length (items q) = cap q \<Longrightarrow>
      items (enq x q) = tl (items q) @ [x] \<and> lost (enq x q) = lost q + 1"
    and deq_items: "inv q \<Longrightarrow> (case items q of
        [] \<Rightarrow> fst (deq q) = None \<and> items (snd (deq q)) = []
      | x # xs \<Rightarrow> fst (deq q) = Some x \<and> items (snd (deq q)) = xs)"
    and deq_lost: "inv q \<Longrightarrow> lost (snd (deq q)) = lost q"
    and putback_room: "inv q \<Longrightarrow> length (items q) < cap q \<Longrightarrow>
      items (putback x q) = x # items q \<and> lost (putback x q) = lost q"
    and putback_full: "inv q \<Longrightarrow> length (items q) = cap q \<Longrightarrow>
      items (putback x q) = items q \<and> lost (putback x q) = lost q + 1"
begin

lemma full_or_room: "inv q \<Longrightarrow> length (items q) < cap q \<or> length (items q) = cap q"
  using bounded [of q] by linarith

text \<open>Accounting: one item more in the queue or one more lost.\<close>

lemma enq_accounts: "inv q \<Longrightarrow> int (length (items (enq x q))) + lost (enq x q)
    = int (length (items q)) + lost q + 1"
  using full_or_room [of q] enq_room [of q x] enq_full [of q x] cap_pos [of q]
  by (cases "items q") auto

lemma putback_accounts: "inv q \<Longrightarrow> int (length (items (putback x q))) + lost (putback x q)
    = int (length (items q)) + lost q + 1"
  using full_or_room [of q] putback_room [of q x] putback_full [of q x] by auto

lemma putback_suffix: "inv q \<Longrightarrow> items (putback x q) \<in> {x # items q, items q}"
  using full_or_room [of q] putback_room [of q x] putback_full [of q x] by auto

lemma enq_suffix: "inv q \<Longrightarrow> items (enq x q) \<in> {items q @ [x], tl (items q) @ [x]}"
  using full_or_room [of q] enq_room [of q x] enq_full [of q x] by auto

definition enqs :: "'a list \<Rightarrow> 'q \<Rightarrow> 'q" where
  "enqs xs q = foldl (\<lambda>q x. enq x q) q xs"

lemma enqs_inv: "inv q \<Longrightarrow> inv (enqs xs q) \<and> cap (enqs xs q) = cap q"
  unfolding enqs_def by (induction xs arbitrary: q) (auto simp: inv_ops cap_ops)

text \<open>A queue that is only pushed to holds the newest items and has lost the rest.\<close>

lemma enqs_newest:
  assumes "inv q"
  shows "items (enqs xs q) = drop (length (items q @ xs) - cap q) (items q @ xs)
    \<and> lost (enqs xs q) = lost q + int (length (items q @ xs) - cap q)"
proof (induction xs rule: rev_induct)
  case Nil
  then show ?case using bounded [OF assms] by (simp add: enqs_def)
next
  case (snoc x xs)
  let ?q = "enqs xs q" and ?all = "items q @ xs"
  have inv: "inv ?q" and c: "cap ?q = cap q" using enqs_inv [OF assms] by simp_all
  have step: "enqs (xs @ [x]) q = enq x ?q" by (simp add: enqs_def)
  have len: "length (items ?q) = length ?all - (length ?all - cap q)" using snoc by simp
  show ?case
  proof (cases "length ?all < cap q")
    case True
    then have "length (items ?q) < cap ?q" using len c by simp
    with enq_room [OF inv, of x] True snoc step show ?thesis by simp
  next
    case False
    then have "length (items ?q) = cap ?q" using len c by simp
    note full = enq_full [OF inv this, of x]
    have "tl (drop (length ?all - cap q) ?all) @ [x]
        = drop (length (?all @ [x]) - cap q) (?all @ [x])"
      using cap_pos [OF assms] False by (intro tl_drop_snoc) simp_all
    with full snoc step False show ?thesis by (simp add: Suc_diff_le)
  qed
qed

end

interpretation ring: bounded_queue ring_wf rb_queue rb_dropped rb_capacity
  "\<lambda>x r. snd (push x r)" pop unpop
  by unfold_locales
    (auto simp: push_wf pop_wf unpop_wf ring_wf_def push_def pop_def unpop_def deque_append_def
      drop_Suc split: list.splits)

end
