(* ===== verification/LogConfig.thy ===== *)
theory LogConfig
  imports RingBuffer Markdown
begin

text \<open>
  \<open>src/core/logging_config.py\<close>: which handlers and level the root logger gets in each mode, and the
  in-memory buffer of recent log lines. The environment, the resolution of paths and whether a log
  file can be opened are arguments; what logging itself does with a record is the library's.
\<close>

subsection \<open>The memory buffer\<close>

record memory_handler =
  mh_capacity :: nat
  mh_buffer :: "string list"

definition new_memory_handler :: "nat \<Rightarrow> memory_handler" where
  "new_memory_handler capacity = \<lparr>mh_capacity = capacity, mh_buffer = []\<rparr>"

text \<open>A record that cannot be formatted is passed to \<open>handleError\<close>, not kept.\<close>

definition mh_emit :: "string option \<Rightarrow> memory_handler \<Rightarrow> memory_handler" where
  "mh_emit msg h =
     (case msg of None \<Rightarrow> h | Some m \<Rightarrow> h\<lparr>mh_buffer := deque_append (mh_capacity h) m (mh_buffer h)\<rparr>)"

definition get_recent_logs :: "int \<Rightarrow> memory_handler \<Rightarrow> string list" where
  "get_recent_logs limit h =
     (let items = mh_buffer h
      in if limit \<le> 0 \<or> int (length items) \<le> limit then items else slice_from (- limit) items)"

definition mh_clear :: "memory_handler \<Rightarrow> memory_handler" where
  "mh_clear h = h\<lparr>mh_buffer := []\<rparr>"

subsection \<open>Level and file\<close>

definition DEBUG_LEVEL :: int where "DEBUG_LEVEL = 10"
definition WARNING_LEVEL :: int where "WARNING_LEVEL = 30"

text \<open>
  \<open>int(getattr(logging, name))\<close> for the names in capitals the module has: the levels, and two
  attributes that are no numbers.
\<close>

definition LOGGING_NAMES :: "(string, int res) dict" where
  "LOGGING_NAMES =
     [(''CRITICAL'', Inr 50), (''FATAL'', Inr 50), (''ERROR'', Inr 40), (''WARNING'', Inr 30), (''WARN'', Inr 30),
      (''INFO'', Inr 20), (''DEBUG'', Inr 10), (''NOTSET'', Inr 0), (''BASIC_FORMAT'', Inl ValueError),
      (''_STYLES'', Inl TypeError)]"

datatype level_arg = NoLevel | LevelInt int | LevelStr string

definition upper :: "string \<Rightarrow> string" where
  "upper s = map upper_char s"

definition env_level :: "(string, string) dict \<Rightarrow> int res" where
  "env_level env =
     (let debug = str_lower (str_strip (dict_get env ''CTXINS_DEBUG'' []));
          name = upper (str_strip (dict_get env ''CTXINS_LOG_LEVEL'' []))
      in if debug \<in> {''1'', ''true'', ''yes'', ''on''} then Inr DEBUG_LEVEL
         else (case map_of LOGGING_NAMES name of Some r \<Rightarrow> r | None \<Rightarrow> Inr WARNING_LEVEL))"

definition resolve_log_level :: "(string, string) dict \<Rightarrow> level_arg \<Rightarrow> bool \<Rightarrow> int res" where
  "resolve_log_level env level debug =
     (if debug then Inr DEBUG_LEVEL
      else
        (case level of
           NoLevel \<Rightarrow> env_level env
         | LevelInt n \<Rightarrow> Inr n
         | LevelStr s \<Rightarrow>
             (case map_of LOGGING_NAMES (upper (str_strip s)) of Some r \<Rightarrow> r | None \<Rightarrow> env_level env)))"

text \<open>\<open>path\<close> is \<open>Path(p).expanduser().resolve()\<close>.\<close>

definition resolve_log_file :: "(string, string) dict \<Rightarrow> (string \<Rightarrow> string) \<Rightarrow> string \<Rightarrow> string option \<Rightarrow> bool \<Rightarrow> string
    \<Rightarrow> string option" where
  "resolve_log_file env path default_file log_file debug mode =
     (let env_file = str_strip (dict_get env ''CTXINS_LOG_FILE'' []);
          fallback = (if env_file \<noteq> [] then Some (path env_file)
                      else if debug \<or> mode \<in> {''tui'', ''run''} then Some (path default_file) else None)
      in case log_file of Some f \<Rightarrow> if str_strip f \<noteq> [] then Some (path f) else fallback | None \<Rightarrow> fallback)"

subsection \<open>The root logger\<close>

datatype log_handler = FileHandler string int | ConsoleHandler int | MemoryHandler int | Foreign nat

record log_state =
  lg_level :: int
  lg_handlers :: "log_handler list"
  lg_mode :: "string option"
  lg_external :: "(string, int) dict"
  lg_stderr :: "string list"

definition NOISY_EXTERNAL_LOGGERS :: "string list" where
  "NOISY_EXTERNAL_LOGGERS =
     [''uvicorn'', ''uvicorn.access'', ''uvicorn.error'', ''mitmproxy'', ''urllib3'', ''asyncio'', ''websockets'',
      ''hpack'', ''httpcore'', ''httpx'']"

definition suppress_external_loggers :: "int \<Rightarrow> log_state \<Rightarrow> log_state" where
  "suppress_external_loggers n s =
     s\<lparr>lg_external := foldl (\<lambda>d name. AList.update name n d) (lg_external s) NOISY_EXTERNAL_LOGGERS\<rparr>"

definition managed :: "log_handler \<Rightarrow> bool" where
  "managed h = (case h of Foreign _ \<Rightarrow> False | _ \<Rightarrow> True)"

definition quiet_mode :: "string \<Rightarrow> bool" where
  "quiet_mode mode \<longleftrightarrow> mode \<in> {''tui'', ''run''}"

definition stream_default :: "bool option \<Rightarrow> string \<Rightarrow> bool" where
  "stream_default stream mode = (case stream of Some b \<Rightarrow> b | None \<Rightarrow> mode \<notin> {''tui'', ''run'', ''env''})"

definition new_handlers :: "(string \<Rightarrow> bool) \<Rightarrow> int \<Rightarrow> string option \<Rightarrow> bool \<Rightarrow> string \<Rightarrow> bool \<Rightarrow> log_handler list" where
  "new_handlers can_open level file stream mode memory =
     (case file of Some f \<Rightarrow> if can_open f then [FileHandler f level] else [] | None \<Rightarrow> [])
     @ (if stream \<and> \<not> quiet_mode mode then [ConsoleHandler level] else [])
     @ (if memory then [MemoryHandler level] else [])"

definition file_warning :: "(string \<Rightarrow> bool) \<Rightarrow> string option \<Rightarrow> bool \<Rightarrow> string \<Rightarrow> string list" where
  "file_warning can_open file stream mode =
     (case file of
        Some f \<Rightarrow> if \<not> can_open f \<and> (stream \<or> \<not> quiet_mode mode) then [''Warning: Failed to initialize log file at '' @ f] else []
      | None \<Rightarrow> [])"

text \<open>The message of the failed open is cut after the file name. The mode is set before the level is resolved.\<close>

definition configure_logging :: "(string, string) dict \<Rightarrow> (string \<Rightarrow> string) \<Rightarrow> (string \<Rightarrow> bool) \<Rightarrow> string \<Rightarrow> level_arg \<Rightarrow> bool
    \<Rightarrow> string option \<Rightarrow> bool option \<Rightarrow> string \<Rightarrow> bool \<Rightarrow> bool \<Rightarrow> log_state \<Rightarrow> unit res \<times> log_state" where
  "configure_logging env path can_open default_file level debug log_file stream mode memory force s =
     (if \<not> force \<and> lg_mode s \<in> {Some ''tui'', Some ''run'', Some ''web'', Some ''env''} \<and> mode = ''headless'' then (Inr (), s)
      else
        (let s1 = s\<lparr>lg_mode := Some mode\<rparr>
         in case resolve_log_level env level debug of
              Inl e \<Rightarrow> (Inl e, s1)
            | Inr n \<Rightarrow>
                (let st = stream_default stream mode;
                     file = resolve_log_file env path default_file log_file (n \<le> DEBUG_LEVEL) mode
                 in (Inr (), suppress_external_loggers WARNING_LEVEL
                      (s1\<lparr>lg_level := n,
                          lg_handlers := filter (\<lambda>h. \<not> managed h) (lg_handlers s) @ new_handlers can_open n file st mode memory,
                          lg_stderr := lg_stderr s @ file_warning can_open file st mode\<rparr>)))))"

subsection \<open>Properties\<close>

text \<open>The interface modes never write log lines to the console.\<close>

lemma quiet_modes:
  assumes "quiet_mode mode" "fst (configure_logging env path can_open dflt level debug file stream mode memory force s) = Inr ()"
  shows "ConsoleHandler n \<notin> set (lg_handlers (snd (configure_logging env path can_open dflt level debug file stream mode memory force s)))"
proof -
  have "mode \<noteq> ''headless''" using assms(1) by (auto simp: quiet_mode_def)
  then show ?thesis using assms
    by (cases "resolve_log_level env level debug")
      (auto simp: configure_logging_def Let_def new_handlers_def suppress_external_loggers_def managed_def split: option.splits if_splits)
qed

lemma new_managed: "filter (\<lambda>h. \<not> managed h) (new_handlers can_open n file st mode memory) = []"
  by (auto simp: new_handlers_def managed_def split: option.split)

text \<open>Configuring twice leaves the handlers of configuring once.\<close>

lemma configure_handlers:
  assumes "force \<or> mode \<noteq> ''headless''" "resolve_log_level env level debug = Inr n"
  shows "lg_handlers (snd (configure_logging env path can_open dflt level debug file stream mode memory force s)) =
    filter (\<lambda>h. \<not> managed h) (lg_handlers s)
    @ new_handlers can_open n (resolve_log_file env path dflt file (n \<le> DEBUG_LEVEL) mode) (stream_default stream mode) mode memory"
  using assms by (auto simp: configure_logging_def Let_def suppress_external_loggers_def)

lemma configure_twice:
  assumes "force \<or> mode \<noteq> ''headless''" "resolve_log_level env level debug = Inr n"
  shows "lg_handlers (snd (configure_logging env path can_open dflt level debug file stream mode memory force (snd (configure_logging env path can_open dflt level debug file stream mode memory force s)))) = lg_handlers (snd (configure_logging env path can_open dflt level debug file stream mode memory force s))"
  unfolding configure_handlers [OF assms] by (simp add: new_managed)

text \<open>The buffer keeps the newest lines.\<close>

lemma recent_logs_suffix: "\<exists>older. mh_buffer h = older @ get_recent_logs limit h"
proof (cases "limit \<le> 0 \<or> int (length (mh_buffer h)) \<le> limit")
  case True
  then show ?thesis by (auto simp: get_recent_logs_def)
next
  case False
  then have "get_recent_logs limit h = drop (length (mh_buffer h) - nat limit) (mh_buffer h)"
    by (simp add: get_recent_logs_def Let_def slice_from_def)
  then show ?thesis by (metis append_take_drop_id)
qed

end
