(* ===== verification/Cli.thy ===== *)
theory Cli
  imports Pipeline LogConfig
begin

text \<open>
  The rest of \<open>src/cli.py\<close> that computes something: the port search, the environment the user
  exports or unsets, the exit warning, the environment and command of the proxy process, and the
  scanner loop, the environment of a command run under the proxy, and what \<open>main\<close> does between parsing its
  arguments and starting the chosen mode. Whether a port can be bound, a file exists or a stream is a terminal are arguments;
  starting processes and servers is not modelled.
\<close>

definition DEFAULT_PROXY_PORT :: int where "DEFAULT_PROXY_PORT = 8080"
definition DEFAULT_WEB_PORT :: int where "DEFAULT_WEB_PORT = 8484"

subsection \<open>Ports and environment\<close>

definition find_available_port :: "(int \<Rightarrow> bool) \<Rightarrow> int \<Rightarrow> nat \<Rightarrow> int" where
  "find_available_port can_bind start_port max_attempts =
     (case find can_bind (map (\<lambda>k. start_port + int k) [0..<max_attempts]) of Some p \<Rightarrow> p | None \<Rightarrow> start_port)"

definition proxy_url :: "int \<Rightarrow> string" where
  "proxy_url port = ''http://127.0.0.1:'' @ show_int port"

text \<open>\<open>cert\<close> is the expanded path of the certificate, when the file exists.\<close>

definition get_env_exports :: "string option \<Rightarrow> int \<Rightarrow> (string, string) dict" where
  "get_env_exports cert port =
     map (\<lambda>k. (k, proxy_url port)) [''HTTP_PROXY'', ''HTTPS_PROXY'', ''ALL_PROXY'', ''http_proxy'', ''https_proxy'', ''all_proxy'']
     @ (case cert of
          None \<Rightarrow> []
        | Some path \<Rightarrow> map (\<lambda>k. (k, path)) [''SSL_CERT_FILE'', ''REQUESTS_CA_BUNDLE'', ''NODE_EXTRA_CA_CERTS''])"

definition get_unset_env_exports :: "string list" where
  "get_unset_env_exports =
     [''HTTP_PROXY'', ''HTTPS_PROXY'', ''ALL_PROXY'', ''GRPC_PROXY'', ''http_proxy'', ''https_proxy'', ''all_proxy'',
      ''grpc_proxy'', ''NO_PROXY'', ''no_proxy'', ''SSL_CERT_FILE'', ''SSL_CERT_DIR'', ''REQUESTS_CA_BUNDLE'',
      ''NODE_EXTRA_CA_CERTS'', ''CTXINS_TARGET'']"

definition quoted :: "string \<Rightarrow> string" where
  "quoted s = CHR 0x22 # s @ [CHR 0x22]"

text \<open>What \<open>ctxins env\<close> prints on standard output, and the hint on the error stream of a terminal.\<close>

definition env_note :: "string \<Rightarrow> string list" where
  "env_note cmd =
     ['''', ''# Note: A subprocess cannot directly modify your parent shell.'',
      ''# To apply this to your current terminal session, run:'', ''#   eval $(uv run ctxins '' @ cmd @ '')'']"

definition run_env :: "(json \<Rightarrow> string) \<Rightarrow> string option \<Rightarrow> bool \<Rightarrow> int \<Rightarrow> bool \<Rightarrow> bool \<Rightarrow> string list \<times> string list" where
  "run_env dumps cert isatty port as_json unset =
     (if unset then
        (if as_json then ([dumps (JObj (map (\<lambda>k. (k, JNull)) get_unset_env_exports))], [])
         else
           ([''unset '' @ str_join '' '' get_unset_env_exports],
            if isatty then env_note ''env --unset''
              @ [''# Or copy and paste the unset command printed above directly into your terminal.'']
            else []))
      else if as_json then ([dumps (JObj (map (\<lambda>(k, v). (k, JStr v)) (get_env_exports cert port)))], [])
      else
        (map (\<lambda>(k, v). ''export '' @ k @ ''='' @ quoted v) (get_env_exports cert port),
         if isatty then env_note ''env''
           @ [''# Or run your agent directly without altering shell variables:'',
              ''#   uv run ctxins run -- <agent-command>'']
         else []))"

subsection \<open>The exit warning\<close>

definition supports_color :: "(string, string) dict \<Rightarrow> bool \<Rightarrow> bool" where
  "supports_color env isatty =
     (if dict_get env ''NO_COLOR'' [] \<noteq> [] then False
      else if map_of env ''FORCE_COLOR'' = Some ''1'' then True else isatty)"

text \<open>Whether the warning is printed, in colour or not, and the flag it leaves.\<close>

definition print_exit_proxy_warning :: "(string, string) dict \<Rightarrow> bool \<Rightarrow> bool \<Rightarrow> bool option \<Rightarrow> bool \<Rightarrow> bool option \<times> bool" where
  "print_exit_proxy_warning env isatty force force_color printed =
     (if printed \<and> \<not> force then (None, printed)
      else (Some (case force_color of Some c \<Rightarrow> c | None \<Rightarrow> supports_color env isatty), True))"

definition reset_exit_warning_state :: "bool \<Rightarrow> bool" where
  "reset_exit_warning_state printed = False"

subsection \<open>The proxy process\<close>

definition first_nonempty :: "string list \<Rightarrow> string \<Rightarrow> string" where
  "first_nonempty xs d = (case find (\<lambda>x. x \<noteq> []) xs of Some x \<Rightarrow> x | None \<Rightarrow> d)"

definition env_get :: "(string, string) dict \<Rightarrow> string \<Rightarrow> string" where
  "env_get env k = dict_get env k []"

text \<open>An absent option is the empty string; \<open>default_log\<close> and \<open>repo_root\<close> are resolved paths.\<close>

definition mitm_env :: "(string, string) dict \<Rightarrow> string \<Rightarrow> string \<Rightarrow> int \<Rightarrow> string \<Rightarrow> string \<Rightarrow> int option
    \<Rightarrow> string \<Rightarrow> string \<Rightarrow> (string, string) dict" where
  "mitm_env env default_log repo_root port socket_path target target_port log_level log_file =
     (let e1 = AList.update ''CTXINS_PROXY_PORT'' (show_int port) (AList.update ''CTXINS_SOCKET_PATH'' socket_path env);
          e2 = (if target \<noteq> [] then AList.update ''CTXINS_TARGET'' target e1
                else (case target_port of Some p \<Rightarrow> AList.update ''CTXINS_TARGET'' (proxy_url p) e1 | None \<Rightarrow> e1));
          e3 = AList.update ''CTXINS_LOG_FILE'' (first_nonempty [log_file, env_get env ''CTXINS_LOG_FILE''] default_log) e2;
          level = first_nonempty [log_level, env_get env ''CTXINS_LOG_LEVEL'']
            (if env_get env ''CTXINS_DEBUG'' \<in> {''1'', ''true'', ''yes''} then ''DEBUG'' else ''INFO'');
          e4 = AList.update ''CTXINS_LOG_LEVEL'' level e3;
          path = env_get e4 ''PYTHONPATH''
      in AList.update ''PYTHONPATH'' (if path \<noteq> [] then repo_root @ '':'' @ path else repo_root) e4)"

definition mitm_cmd :: "string option \<Rightarrow> string \<Rightarrow> string \<Rightarrow> int \<Rightarrow> string list" where
  "mitm_cmd mitmdump python addon_path port =
     (case mitmdump of
        Some path \<Rightarrow> [path, ''-p'', show_int port, ''-s'', addon_path, ''-q'']
      | None \<Rightarrow> [python, ''-c'', ''import sys; from mitmproxy.tools.main import mitmdump; sys.exit(mitmdump())'',
          ''-p'', show_int port, ''-s'', addon_path, ''-q''])"

text \<open>
  The command and environment of the process that is started, unless something already listens on the
  port. Waiting for the port to open is not modelled.
\<close>

definition spawn_mitmproxy :: "bool \<Rightarrow> string option \<Rightarrow> string \<Rightarrow> string \<Rightarrow> (string, string) dict \<Rightarrow> string \<Rightarrow> string
    \<Rightarrow> int \<Rightarrow> string \<Rightarrow> string \<Rightarrow> int option \<Rightarrow> string \<Rightarrow> string \<Rightarrow> (string list \<times> (string, string) dict) option" where
  "spawn_mitmproxy listening mitmdump python addon_path env default_log repo_root port socket_path target target_port
     log_level log_file =
     (if listening then None
      else Some (mitm_cmd mitmdump python addon_path port,
        mitm_env env default_log repo_root port socket_path target target_port log_level log_file))"

text \<open>One round of the scanner: an error of either half is logged and ends the round.\<close>

definition scanner_round :: "rat \<Rightarrow> os_view \<Rightarrow> (int \<Rightarrow> bool) \<Rightarrow> pipe" where
  "scanner_round now os alive =
     op_swallow (op_seq (scan_and_register_agents now os) (cleanup_dead_agent_sessions now alive))"

subsection \<open>The environment of a command\<close>

text \<open>\<open>run_with_harness\<close>: the command runs with the proxy, the target and the certificate set.\<close>

definition harness_env :: "(string, string) dict \<Rightarrow> string option \<Rightarrow> int \<Rightarrow> string \<Rightarrow> int option \<Rightarrow> (string, string) dict" where
  "harness_env env cert port target target_port =
     (let proxied = fold (\<lambda>k. AList.update k (proxy_url port))
            [''HTTP_PROXY'', ''HTTPS_PROXY'', ''ALL_PROXY'', ''http_proxy'', ''https_proxy'', ''all_proxy''] env;
          targeted = (if target \<noteq> [] then AList.update ''CTXINS_TARGET'' target proxied
            else (case target_port of Some p \<Rightarrow> AList.update ''CTXINS_TARGET'' (proxy_url p) proxied | None \<Rightarrow> proxied))
      in case cert of
           None \<Rightarrow> targeted
         | Some path \<Rightarrow> fold (\<lambda>k. AList.update k path)
             [''SSL_CERT_FILE'', ''REQUESTS_CA_BUNDLE'', ''NODE_EXTRA_CA_CERTS''] targeted)"

text \<open>\<open>ctxins run -- command\<close>.\<close>

definition harness_command :: "string list \<Rightarrow> string list" where
  "harness_command cmd = (case cmd of c # cs \<Rightarrow> if c = ''--'' then cs else cmd | [] \<Rightarrow> [])"

subsection \<open>The entry point\<close>

definition KNOWN_SUBCOMMANDS :: "string list" where
  "KNOWN_SUBCOMMANDS = [''tui'', ''web'', ''live'', ''run'', ''env'', ''unset-env'', ''diff'']"

definition default_args :: "string list \<Rightarrow> string list" where
  "default_args raw =
     (if raw = [] then [''tui'']
      else if list_ex (\<lambda>a. a = ''-h'' \<or> a = ''--help'') raw \<or> list_ex (\<lambda>a. a \<in> set KNOWN_SUBCOMMANDS) raw then raw
      else ''tui'' # raw)"

text \<open>
  What \<open>main\<close> takes from the two parsers: the options of the subcommand and the logging options in
  front of it. An absent option is the empty string.
\<close>

record cli_options =
  co_subcommand :: string
  co_debug :: bool
  co_log_level :: string
  co_log_file :: string
  co_granularity :: string
  co_ui_mode :: string

definition merge_options :: "cli_options \<Rightarrow> cli_options \<Rightarrow> cli_options" where
  "merge_options parsed outer =
     parsed\<lparr>co_debug := co_debug parsed \<or> co_debug outer,
       co_log_level := first_nonempty [co_log_level parsed] (co_log_level outer),
       co_log_file := first_nonempty [co_log_file parsed] (co_log_file outer)\<rparr>"

definition effective_granularity :: "(string, string) dict \<Rightarrow> cli_options \<Rightarrow> string" where
  "effective_granularity env opts =
     str_lower (first_nonempty [co_granularity opts, env_get env ''CTXINS_GRANULARITY''] ''step'')"

text \<open>The environment the rest of the program and its children see.\<close>

definition main_env :: "(string, string) dict \<Rightarrow> string \<Rightarrow> cli_options \<Rightarrow> (string, string) dict" where
  "main_env env default_log opts =
     (let e1 = AList.update ''CTXINS_GRANULARITY'' (effective_granularity env opts) env;
          e2 = (if co_debug opts then AList.update ''CTXINS_LOG_LEVEL'' ''DEBUG'' (AList.update ''CTXINS_DEBUG'' ''1'' e1)
                else AList.update ''CTXINS_LOG_LEVEL'' (first_nonempty [co_log_level opts] ''INFO'') e1)
      in AList.update ''CTXINS_LOG_FILE'' (first_nonempty [co_log_file opts] default_log) e2)"

definition main_mode :: "cli_options \<Rightarrow> string" where
  "main_mode opts =
     (let subcmd = first_nonempty [co_subcommand opts] ''tui''
      in if subcmd \<in> {''env'', ''unset-env''} then ''env''
         else if subcmd = ''web'' \<or> co_ui_mode opts = ''web'' then ''web'' else subcmd)"

definition main_logging :: "(string, string) dict \<Rightarrow> (string \<Rightarrow> string) \<Rightarrow> (string \<Rightarrow> bool) \<Rightarrow> string \<Rightarrow> cli_options \<Rightarrow> log_state
    \<Rightarrow> unit res \<times> log_state" where
  "main_logging env path can_open default_log opts s =
     (let env' = main_env env default_log opts
      in configure_logging env' path can_open default_log (LevelStr (env_get env' ''CTXINS_LOG_LEVEL'')) (co_debug opts)
           (Some (env_get env' ''CTXINS_LOG_FILE'')) None (main_mode opts) True False s)"

subsection \<open>Properties\<close>

lemma env_get_update [simp]: "env_get (AList.update k v env) k' = (if k' = k then v else env_get env k')"
  by (simp add: env_get_def dict_get_def)

text \<open>
  A level in the environment never reaches the logging of the program: without an option, the
  entry point puts its own default there first.
\<close>

lemma level_of_environment_ignored:
  assumes "\<not> co_debug opts" "co_log_level opts = []"
  shows "env_get (main_env env default_log opts) ''CTXINS_LOG_LEVEL'' = ''INFO''
    \<and> resolve_log_level (main_env env default_log opts) (LevelStr ''INFO'') False = Inr 20"
proof
  show "env_get (main_env env default_log opts) ''CTXINS_LOG_LEVEL'' = ''INFO''"
    using assms by (simp add: main_env_def Let_def first_nonempty_def)
  have "map_of LOGGING_NAMES (upper (str_strip ''INFO'')) = Some (Inr 20)" by code_simp
  then show "resolve_log_level (main_env env default_log opts) (LevelStr ''INFO'') False = Inr 20"
    by (simp add: resolve_log_level_def)
qed

text \<open>A command run under the proxy sees everything \<open>ctxins env\<close> would have exported.\<close>

lemma harness_env_exports:
  "map_of (get_env_exports cert port) k = Some v \<Longrightarrow> map_of (harness_env env cert port target target_port) k = Some v"
  by (cases cert; cases target_port)
    (auto simp: harness_env_def get_env_exports_def Let_def split: if_splits)

text \<open>The entry point always ends up with a subcommand or a request for help.\<close>

lemma default_args_start:
  "list_ex (\<lambda>a. a \<in> set KNOWN_SUBCOMMANDS \<or> a = ''-h'' \<or> a = ''--help'') (default_args raw)"
  by (auto simp: default_args_def KNOWN_SUBCOMMANDS_def list_ex_iff)

lemma port_in_range:
  assumes "0 < n"
  shows "start \<le> find_available_port can_bind start n \<and> find_available_port can_bind start n < start + int n"
proof (cases "find can_bind (map (\<lambda>k. start + int k) [0..<n])")
  case (Some p)
  then have "p \<in> set (map (\<lambda>k. start + int k) [0..<n])" by (blast dest: find_eq_SomeD)
  then show ?thesis using Some by (auto simp: find_available_port_def)
qed (use assms in \<open>simp add: find_available_port_def\<close>)

lemma port_is_first_free:
  assumes "p < n" "can_bind (start + int p)"
  shows "can_bind (find_available_port can_bind start n)"
    "start \<le> q \<Longrightarrow> q < find_available_port can_bind start n \<Longrightarrow> \<not> can_bind q"
proof -
  have "start + int p \<in> set (map (\<lambda>k. start + int k) [0..<n])" using assms(1) by auto
  then obtain r where r: "find can_bind (map (\<lambda>k. start + int k) [0..<n]) = Some r"
    using find_is_Some assms(2) by metis
  then obtain i where i: "i < n" "can_bind r" "r = start + int i" "\<And>j. j < i \<Longrightarrow> \<not> can_bind (start + int j)"
    by (auto simp: find_Some_iff)
  have p: "find_available_port can_bind start n = r" using r by (simp add: find_available_port_def)
  then show "can_bind (find_available_port can_bind start n)" using i by simp
  assume "start \<le> q" "q < find_available_port can_bind start n"
  then have "nat (q - start) < i" "q = start + int (nat (q - start))" using p i(3) by auto
  then show "\<not> can_bind q" using i(4) by metis
qed

text \<open>Whatever \<open>ctxins env\<close> sets, \<open>ctxins env --unset\<close> unsets.\<close>

lemma unset_covers_exports: "set (dict_keys (get_env_exports cert port)) \<subseteq> set get_unset_env_exports"
  by (cases cert) (simp_all add: get_env_exports_def dict_keys_def get_unset_env_exports_def)

lemma warning_once:
  assumes "print_exit_proxy_warning env tty force c False = (r, printed)"
  shows "r \<noteq> None" "print_exit_proxy_warning env' tty' False c' printed = (None, printed)"
  using assms by (auto simp: print_exit_proxy_warning_def)

end
