(* ===== verification/TuiApp.thy ===== *)
theory TuiApp
  imports TuiProps Cli
begin

text \<open>
  The terminal application (\<open>src/presentation/tui/app.py\<close>) around the state of the interface:
  seeding it from the session store, handling an event of the broadcaster, the selection of turns
  and sessions, and the texts its keys copy. Drawing the widgets is not modelled; \<open>ap_selected\<close> is
  the reactive attribute \<open>selected_turn_index\<close>, whose watcher runs when its value changes.
\<close>

record tui_app =
  ap_state :: tui
  ap_selected :: int
  ap_proxy_port :: int
  ap_web_url :: "string option"

type_synonym 'a app_op = "(tui_app, 'a) op"

text \<open>An operation of the state, seen from the application.\<close>

definition on_state :: "'a tui_op \<Rightarrow> 'a app_op" where
  "on_state m a = (case m (ap_state a) of (r, s) \<Rightarrow> (r, a\<lparr>ap_state := s\<rparr>))"

subsection \<open>Seeding from the store\<close>

definition store_metadata :: "session_store \<Rightarrow> string \<Rightarrow> jdict" where
  "store_metadata store sid = (case get_session_metadata store sid of Some m \<Rightarrow> m | None \<Rightarrow> [])"

definition list_session :: "string \<Rightarrow> tui \<Rightarrow> tui" where
  "list_session sid s =
     (if sid \<in> set (tu_available_sessions s) then s
      else s\<lparr>tu_available_sessions := tu_available_sessions s @ [sid]\<rparr>)"

definition adopt_session :: "string \<Rightarrow> jdict \<Rightarrow> tui \<Rightarrow> tui" where
  "adopt_session sid m s =
     (if tu_session_id s = [] \<or> tu_session_id s = ''sess_default'' then
        s\<lparr>tu_session_id := sid, tu_agent_harness := get2 m ''agentHarness'' ''harness'' (tu_agent_harness s),
          tu_model := jget_or m ''model'' (tu_model s), tu_provider := jget_or m ''provider'' (tu_provider s),
          tu_status := jget_or m ''status'' (JStr ''Idle'')\<rparr>
      else s)"

definition sync_session :: "session_store \<Rightarrow> string \<Rightarrow> unit tui_op" where
  "sync_session store sid =
     (let m = store_metadata store sid
      in op_seq (op_modify (\<lambda>s. (list_session sid s)\<lparr>tu_sessions_metadata := AList.update sid m (tu_sessions_metadata s)\<rparr>))
         (op_bind (op_get (\<lambda>s. map_of (tu_sessions_turns s) sid = None)) (\<lambda>unseen.
          op_seq (op_when (stored_turns store sid \<noteq> [] \<and> unseen) (load_turns_from_store store sid))
          (op_modify (adopt_session sid m)))))"

definition sync_state :: "session_store \<Rightarrow> unit tui_op" where
  "sync_state store =
     op_seq (op_each (sync_session store) (list_sessions store))
     (op_bind (op_get tu_session_id) (\<lambda>sid. op_when (sid \<noteq> []) (load_turns_from_store store sid)))"

definition sync_store_sessions :: "session_store option \<Rightarrow> unit app_op" where
  "sync_store_sessions store =
     (case store of
        None \<Rightarrow> op_return ()
      | Some st \<Rightarrow>
          op_seq (on_state (sync_state st))
          (op_modify (\<lambda>a. if tu_session_id (ap_state a) \<noteq> []
             then a\<lparr>ap_selected := tu_selected_turn_index (ap_state a)\<rparr> else a)))"

definition new_tui_app :: "tui \<Rightarrow> session_store option \<Rightarrow> int \<Rightarrow> string option \<Rightarrow> string \<Rightarrow> unit res \<times> tui_app" where
  "new_tui_app s store port web_url granularity =
     sync_store_sessions store
       \<lparr>ap_state = s\<lparr>tu_granularity := JStr granularity\<rparr>, ap_selected = 0, ap_proxy_port = port, ap_web_url = web_url\<rparr>"

subsection \<open>Events and keys\<close>

definition note_known :: "session_store \<Rightarrow> string \<Rightarrow> tui \<Rightarrow> tui" where
  "note_known store sid s =
     (let s1 = list_session sid s
      in if map_of (tu_sessions_metadata s1) sid = None
         then s1\<lparr>tu_sessions_metadata := AList.update sid (store_metadata store sid) (tu_sessions_metadata s1)\<rparr> else s1)"

definition handle_ui_event :: "session_store option \<Rightarrow> ui_event \<Rightarrow> unit tui_op" where
  "handle_ui_event store e =
     op_seq (op_modify (\<lambda>s. case store of None \<Rightarrow> s | Some st \<Rightarrow> fold (note_known st) (list_sessions st) s)) (apply_event e)"

definition select_turn :: "int \<Rightarrow> tui_app \<Rightarrow> tui_app" where
  "select_turn i a =
     (if i = ap_selected a then a
      else a\<lparr>ap_selected := i, ap_state := (ap_state a)\<lparr>tu_selected_turn_index := i\<rparr>\<rparr>)"

definition toggle_rule_filter :: "tui_app \<Rightarrow> string \<times> tui_app" where
  "toggle_rule_filter a =
     (let all = (\<not> tu_show_all_violations (ap_state a))
      in (''Showing violations for: '' @ (if all then ''all session turns'' else ''turn #'' @ show_int (ap_selected a)),
          a\<lparr>ap_state := (ap_state a)\<lparr>tu_show_all_violations := all\<rparr>\<rparr>))"

definition copied_env :: "string option \<Rightarrow> int \<Rightarrow> string" where
  "copied_env cert port = ''export '' @ str_join '' '' (map (\<lambda>(k, v). k @ ''='' @ quoted v) (get_env_exports cert port))"

definition copied_unset :: string where
  "copied_unset = ''unset '' @ str_join '' '' get_unset_env_exports"

text \<open>A session chosen in the timeline, in the panel or in the dialog, and the key that goes to the next one.\<close>

definition choose_session :: "string option \<Rightarrow> session_store option \<Rightarrow> string option app_op" where
  "choose_session target store =
     op_bind (on_state (switch_session target store)) (\<lambda>r.
     op_seq (op_when (target \<noteq> None \<or> r \<notin> {None, Some []}) (op_modify (\<lambda>a. a\<lparr>ap_selected := tu_selected_turn_index (ap_state a)\<rparr>)))
     (op_return r))"

subsection \<open>What the application shows at start\<close>

lemma keeps_lists:
  "op_keeps (\<lambda>s. tu_available_sessions s = A \<and> tu_sessions_metadata s = M) (load_turns_from_store store sid)"
proof -
  have mod: "op_keeps (\<lambda>s. tu_available_sessions s = A \<and> tu_sessions_metadata s = M) (op_modify f)"
    if "\<And>s. tu_available_sessions (f s) = tu_available_sessions s" "\<And>s. tu_sessions_metadata (f s) = tu_sessions_metadata s" for f
    using that by (intro keeps_modify) simp
  show ?thesis
    unfolding load_turns_from_store_def recalculate_aggregates_def rescore_def op_all.simps
    by (intro keeps mod) (simp_all split: if_splits)
qed

lemma load_lists:
  assumes "load_turns_from_store store sid s = (r, s')"
  shows "tu_available_sessions s' = tu_available_sessions s" "tu_sessions_metadata s' = tu_sessions_metadata s"
  using op_keepsD [OF keeps_lists assms, of "tu_available_sessions s" "tu_sessions_metadata s"] by simp_all

lemma list_session_fields [simp]:
  "set (tu_available_sessions (list_session sid s)) = insert sid (set (tu_available_sessions s))"
  "tu_session_id (list_session sid s) = tu_session_id s" "tu_sessions_turns (list_session sid s) = tu_sessions_turns s"
  "tu_sessions_metadata (list_session sid s) = tu_sessions_metadata s"
  by (auto simp: list_session_def)

definition unset :: "string \<Rightarrow> bool" where
  "unset sid \<longleftrightarrow> sid = [] \<or> sid = ''sess_default''"

lemma adopt_fields [simp]:
  "tu_available_sessions (adopt_session sid m s) = tu_available_sessions s"
  "tu_sessions_metadata (adopt_session sid m s) = tu_sessions_metadata s"
  "tu_session_id (adopt_session sid m s) = (if unset (tu_session_id s) then sid else tu_session_id s)"
  by (simp_all add: adopt_session_def unset_def)

lemma sync_session_run:
  "\<exists>s'. sync_session store sid s = (Inr (), s')
     \<and> set (tu_available_sessions s') = insert sid (set (tu_available_sessions s))
     \<and> tu_sessions_metadata s' = AList.update sid (store_metadata store sid) (tu_sessions_metadata s)
     \<and> tu_session_id s' = (if unset (tu_session_id s) then sid else tu_session_id s)"
proof -
  let ?m = "store_metadata store sid"
  let ?s1 = "(list_session sid s)\<lparr>tu_sessions_metadata := AList.update sid ?m (tu_sessions_metadata s)\<rparr>"
  obtain s2 where s2: "load_turns_from_store store sid ?s1 = (Inr (), s2)" "tu_session_id s2 = tu_session_id ?s1"
    using load_shows [of store sid ?s1] by blast
  define s3 where "s3 = (if stored_turns store sid \<noteq> [] \<and> map_of (tu_sessions_turns ?s1) sid = None then s2 else ?s1)"
  have "sync_session store sid s = (Inr (), adopt_session sid ?m s3)"
    using s2(1) by (simp add: sync_session_def Let_def op_run s3_def) (simp add: op_defs)
  moreover have "tu_available_sessions s3 = tu_available_sessions ?s1" "tu_sessions_metadata s3 = tu_sessions_metadata ?s1"
    "tu_session_id s3 = tu_session_id ?s1"
    using load_lists [OF s2(1)] s2(2) by (simp_all add: s3_def)
  ultimately show ?thesis by simp
qed

definition shown_after :: "string list \<Rightarrow> string \<Rightarrow> string" where
  "shown_after ids cur = fold (\<lambda>sid c. if unset c then sid else c) ids cur"

lemma shown_after_simps [simp]:
  "shown_after [] cur = cur" "shown_after (i # ids) cur = shown_after ids (if unset cur then i else cur)"
  by (simp_all add: shown_after_def)

lemma shown_after_set: "\<not> unset cur \<Longrightarrow> shown_after ids cur = cur"
  by (induction ids) simp_all

text \<open>A session already chosen stays; otherwise the first one of the store that is not the placeholder.\<close>

definition shown_session :: "string list \<Rightarrow> string \<Rightarrow> string" where
  "shown_session ids cur =
     (if \<not> unset cur then cur
      else (case find (\<lambda>i. \<not> unset i) ids of Some i \<Rightarrow> i | None \<Rightarrow> last (cur # ids)))"

lemma shown_after_eq: "shown_after ids cur = shown_session ids cur"
proof (induction ids arbitrary: cur)
  case (Cons i ids)
  then show ?case
    by (cases "unset cur"; cases "unset i") (auto simp: shown_after_set shown_session_def split: option.split)
qed (simp add: shown_session_def)

lemma sync_each_run:
  "\<exists>s'. op_each (sync_session store) ids s = (Inr (), s')
     \<and> set (tu_available_sessions s') = set ids \<union> set (tu_available_sessions s)
     \<and> (\<forall>i. map_of (tu_sessions_metadata s') i =
          (if i \<in> set ids then Some (store_metadata store i) else map_of (tu_sessions_metadata s) i))
     \<and> tu_session_id s' = shown_after ids (tu_session_id s)"
proof (induction ids arbitrary: s)
  case (Cons sid ids)
  obtain s1 where s1: "sync_session store sid s = (Inr (), s1)"
      "set (tu_available_sessions s1) = insert sid (set (tu_available_sessions s))"
      "tu_sessions_metadata s1 = AList.update sid (store_metadata store sid) (tu_sessions_metadata s)"
      "tu_session_id s1 = (if unset (tu_session_id s) then sid else tu_session_id s)"
    using sync_session_run by blast
  obtain s2 where "op_each (sync_session store) ids s1 = (Inr (), s2)"
      "set (tu_available_sessions s2) = set ids \<union> set (tu_available_sessions s1)"
      "\<forall>i. map_of (tu_sessions_metadata s2) i =
          (if i \<in> set ids then Some (store_metadata store i) else map_of (tu_sessions_metadata s1) i)"
      "tu_session_id s2 = shown_after ids (tu_session_id s1)"
    using Cons.IH [of s1] by blast
  with s1 show ?case by (intro exI [of _ s2]) (auto simp: op_seq_def op_bind_def update_conv)
qed (simp add: op_defs)

lemma sync_state_run:
  assumes "sid = shown_after (list_sessions store) (tu_session_id s)"
  shows "\<exists>s'. sync_state store s = (Inr (), s') \<and> tu_session_id s' = sid
     \<and> (sid \<noteq> [] \<longrightarrow> shows_session (stored_turns store sid) s')
     \<and> set (tu_available_sessions s') = set (list_sessions store) \<union> set (tu_available_sessions s)
     \<and> (\<forall>i\<in>set (list_sessions store). map_of (tu_sessions_metadata s') i = Some (store_metadata store i))"
proof -
  obtain s1 where s1: "op_each (sync_session store) (list_sessions store) s = (Inr (), s1)"
      "set (tu_available_sessions s1) = set (list_sessions store) \<union> set (tu_available_sessions s)"
      "\<forall>i. map_of (tu_sessions_metadata s1) i =
          (if i \<in> set (list_sessions store) then Some (store_metadata store i) else map_of (tu_sessions_metadata s) i)"
      "tu_session_id s1 = sid"
    using sync_each_run [of store "list_sessions store" s] assms by blast
  obtain s2 where s2: "load_turns_from_store store sid s1 = (Inr (), s2)" "shows_session (stored_turns store sid) s2"
      "tu_session_id s2 = sid"
    using load_shows [of store sid s1] s1(4) by auto
  let ?s = "if sid = [] then s1 else s2"
  have "sync_state store s = (Inr (), ?s)"
    using s1 s2(1) by (auto simp: sync_state_def op_seq_def op_bind_def op_get_def op_when_def op_return_def)
  then show ?thesis using s1 s2 load_lists [OF s2(1)] by (intro exI [of _ ?s]) auto
qed

lemma app_start:
  assumes "sid = shown_session (list_sessions store) (tu_session_id s)"
  shows "\<exists>a. new_tui_app s (Some store) port url g = (Inr (), a) \<and> tu_session_id (ap_state a) = sid
     \<and> (sid \<noteq> [] \<longrightarrow> shows_session (stored_turns store sid) (ap_state a) \<and> ap_selected a = tu_selected_turn_index (ap_state a))
     \<and> set (tu_available_sessions (ap_state a)) = set (list_sessions store) \<union> set (tu_available_sessions s)
     \<and> (\<forall>i\<in>set (list_sessions store). map_of (tu_sessions_metadata (ap_state a)) i = Some (store_metadata store i))"
proof -
  let ?s = "s\<lparr>tu_granularity := JStr g\<rparr>"
  have "sid = shown_after (list_sessions store) (tu_session_id ?s)" using assms by (simp add: shown_after_eq)
  from sync_state_run [OF this] obtain s' where s': "sync_state store ?s = (Inr (), s')"
      "tu_session_id s' = sid" "sid \<noteq> [] \<longrightarrow> shows_session (stored_turns store sid) s'"
      "set (tu_available_sessions s') = set (list_sessions store) \<union> set (tu_available_sessions s)"
      "\<forall>i\<in>set (list_sessions store). map_of (tu_sessions_metadata s') i = Some (store_metadata store i)"
    by auto
  have "new_tui_app s (Some store) port url g =
      (Inr (), \<lparr>ap_state = s', ap_selected = (if sid = [] then 0 else tu_selected_turn_index s'),
        ap_proxy_port = port, ap_web_url = url\<rparr>)"
    using s'(1,2)
    by (simp add: new_tui_app_def sync_store_sessions_def on_state_def op_seq_def op_bind_def op_modify_def)
  then show ?thesis using s' by auto
qed

end
