(* ===== verification/TuiWidgets.thy ===== *)
theory TuiWidgets
  imports TuiApp
begin

text \<open>
  What the widgets of the terminal interface compute before they draw (\<open>presentation/tui/theme.py\<close>
  and \<open>presentation/tui/widgets\<close>): the pollution meter, the bars and shares of the composition view, the
  rows of the timeline, the window of the ledger around the selected block and the keys that move
  the selection. Text is code points; styles
  are left out, except in the rows of the timeline, which are markup.
\<close>

subsection \<open>The pollution meter\<close>

definition get_pollution_color :: "rat \<Rightarrow> string" where
  "get_pollution_color score = (if score < 20 then ''#3fb950'' else if score \<le> 50 then ''#d29922'' else ''#f85149'')"

definition get_pollution_label :: "rat \<Rightarrow> string" where
  "get_pollution_label score = (if score < 20 then ''Clean'' else if score \<le> 50 then ''Moderate'' else ''High Pollution'')"

definition meter_cells :: "rat \<Rightarrow> int \<Rightarrow> int" where
  "meter_cells score width = round_he (fmul (fdiv score 100) (of_int width))"

definition render_pollution_bar :: "rat \<Rightarrow> int \<Rightarrow> ustring" where
  "render_pollution_bar score width =
     (let clamped = max 0 (min 100 score); filled = meter_cells clamped width
      in utxt ''['' @ replicate (nat filled) 0x25A0 @ replicate (nat (width - filled)) 0x25A1
         @ utxt (''] '' @ show_fixed 1 clamped @ ''/100 ('' @ get_pollution_label clamped @ '')''))"

subsection \<open>Rows of the timeline\<close>

definition short_tokens :: "int \<Rightarrow> string" where
  "short_tokens n = (if 1000 \<le> n then show_fixed 1 (int_truediv n 1000) @ ''k'' else show_int n)"

definition timeline_row :: "string \<Rightarrow> jdict \<Rightarrow> ustring res" where
  "timeline_row granularity t =
     rbind (NormBase.py_int (jget_or t ''turnIndex'' (JInt 0))) (\<lambda>idx.
     rbind (NormBase.py_int (jget_or t ''tokens'' (JInt 0))) (\<lambda>tokens.
     rbind (py_iter (jget_or t ''violations'' (JArr []))) (\<lambda>viols.
     rbind (py_float ''durationMs'' (jget_or t ''durationMs'' (JFloat 0))) (\<lambda>dur.
     rbind (py_float ''cost'' (jget_or t ''cost'' (JFloat 0))) (\<lambda>cost.
     rbind (NormBase.py_int (get2 t ''stepCount'' ''step_count'' (JInt 1))) (\<lambda>steps.
       let tok = short_tokens tokens;
           steps_str = (if granularity = ''human'' \<and> 1 < steps then utxt '' '' @ [0xB7] @ utxt ('' '' @ show_int steps @ '' steps'') else []);
           head = utxt ('' Turn #'' @ show_int idx @ ''[dim]'') @ steps_str @ utxt ''[/] ''
       in Inr (if py_str (jget_or t ''status'' (JStr ''idle'')) = ''streaming'' then
             utxt ''[bold cyan]'' @ [0x25CF] @ utxt ''[/]'' @ head
             @ utxt (''[dim]'' @ [CHR 0x5C] @ ''[streaming '' @ show_fixed 1 (fdiv dur 1000) @ ''s'' @ [CHR 0x5C] @ ''][/] '' @ tok @ '' tok'')
           else if viols \<noteq> [] then
             utxt ''[bold yellow]'' @ [0x26A0] @ utxt ''[/]'' @ head
             @ utxt (''('' @ tok @ '' tok, '' @ show_nat (length viols) @ '' viols)'')
           else
             utxt ''[bold green]'' @ [0x2713] @ utxt ''[/]'' @ head
             @ utxt (''('' @ tok @ '' tok, $'' @ show_fixed 3 cost @ '')''))))))))"

subsection \<open>The composition view\<close>

definition tok :: "jdict \<Rightarrow> string \<Rightarrow> json \<Rightarrow> int res" where
  "tok d k dflt = (case jget_or d k dflt of JInt n \<Rightarrow> Inr n | _ \<Rightarrow> Inl (NotModelled k))"

text \<open>The eight parts of the prompt and, last, what was read from the cache.\<close>

definition composition_parts :: "jdict \<Rightarrow> jdict \<Rightarrow> (string \<times> int) list res" where
  "composition_parts turn tb =
     rmap_list (\<lambda>(name, k, dflt). rbind (tok tb k dflt) (\<lambda>n. Inr (name, n)))
       [(''Skills'', ''skills'', JInt 0), (''Tool Definitions'', ''tools'', JInt 0), (''System Prompt'', ''system'', JInt 0),
        (''Conversation'', ''history'', JInt 0), (''Tool Results'', ''toolResults'', JInt 0),
        (''Thoughts'', ''thought'', jget_or tb ''thoughts'' (JInt 0)), (''Injected State'', ''injected_state'', JInt 0),
        (''Assistant Output'', ''assistant'', JInt 0), (''Cache Read'', ''cache'', jget_or turn ''cachedReadTokens'' (JInt 0))]"

definition base_tokens :: "(string \<times> int) list \<Rightarrow> int" where
  "base_tokens parts = sum_list (map snd (butlast parts))"

definition share_base :: "int \<Rightarrow> int \<Rightarrow> int" where
  "share_base base turn_tokens = (if 0 < base then base else if turn_tokens \<noteq> 0 then turn_tokens else 1)"

definition make_bar :: "int \<Rightarrow> int \<Rightarrow> int \<Rightarrow> ustring" where
  "make_bar toks max_toks width =
     (if max_toks \<le> 0 then []
      else replicate (nat (round_he (fmul (int_truediv toks max_toks) (of_int width)))) 0x25A0)"

definition pad_right :: "nat \<Rightarrow> string \<Rightarrow> string" where
  "pad_right n s = s @ replicate (n - length s) CHR '' ''"

definition pad_left :: "nat \<Rightarrow> string \<Rightarrow> string" where
  "pad_left n s = replicate (n - length s) CHR '' '' @ s"

definition share :: "int \<Rightarrow> int \<Rightarrow> rat" where
  "share n denom = fmul (int_truediv n denom) 100"

definition composition_line :: "int \<Rightarrow> int \<Rightarrow> string \<times> int \<Rightarrow> ustring" where
  "composition_line denom biggest part =
     (case part of (name, n) \<Rightarrow>
        let pct = (if name = ''Cache Read'' \<and> denom \<le> 0 then 0 else share n denom)
        in utxt (pad_right 16 name @ '': '' @ pad_left 7 (show_commas n) @ '' tok ['' @ pad_left 5 (show_fixed 1 pct) @ ''%] '')
           @ make_bar n biggest 12)"

definition composition_lines :: "jdict \<Rightarrow> jdict \<Rightarrow> ustring list res" where
  "composition_lines turn tb =
     rbind (composition_parts turn tb) (\<lambda>parts.
     rbind (if 0 < base_tokens parts then Inr 0 else tok turn ''tokens'' (JInt 0)) (\<lambda>turn_tokens.
       let denom = share_base (base_tokens parts) turn_tokens; biggest = Max (set (map snd parts @ [1]))
       in Inr (map (composition_line denom biggest) parts)))"

subsection \<open>The cursor of the ledger\<close>

definition clamp_selected :: "int \<Rightarrow> int \<Rightarrow> int" where
  "clamp_selected n sel = (let s = (if n \<le> sel then n - 1 else sel) in if s < 0 then 0 else s)"

definition ledger_window :: "int \<Rightarrow> int \<Rightarrow> int \<times> int" where
  "ledger_window n sel =
     (let start = max 0 (min (sel - 10 div 2) (n - 10)) in (start, min n (start + 10)))"

definition viewed_items :: "bool \<Rightarrow> tui \<Rightarrow> json list res" where
  "viewed_items diff s = (if diff then get_block_transitions_for_selected_turn s else get_blocks_for_selected_turn s)"

definition move_block :: "int \<Rightarrow> bool \<Rightarrow> unit tui_op" where
  "move_block step diff =
     op_bind (op_get (viewed_items diff)) (\<lambda>r.
     op_bind (op_lift r) (\<lambda>items.
       op_when (items \<noteq> []) (op_modify (\<lambda>s. s\<lparr>tu_selected_block_index :=
         (tu_selected_block_index s + step) mod int (length items)\<rparr>))))"

definition action_next_block :: "bool \<Rightarrow> unit tui_op" where
  "action_next_block diff = move_block 1 diff"

definition action_prev_block :: "bool \<Rightarrow> unit tui_op" where
  "action_prev_block diff = move_block (- 1) diff"

subsection \<open>Properties\<close>

lemma fdiv_mono: "0 < c \<Longrightarrow> a \<le> b \<Longrightarrow> fdiv a c \<le> fdiv b c"
  by (simp add: fdiv_def fl_mono divide_right_mono)

lemma meter_bounds:
  assumes "0 \<le> width" "width \<le> 2 ^ 53" "0 \<le> score" "score \<le> 100"
  shows "0 \<le> meter_cells score width \<and> meter_cells score width \<le> width"
proof -
  have lo: "0 \<le> fdiv score 100" using assms by (simp add: fdiv_nonneg)
  have hi: "fdiv score 100 \<le> 1" using fdiv_mono [of 100 score 100] assms by (simp add: fdiv_def)
  have w: "fl (of_int width) = of_int width" using assms by (simp add: fl_of_int)
  have "fdiv score 100 * of_int width \<le> of_int width" using lo hi assms(1) by (simp add: mult_left_le_one_le)
  then have "fmul (fdiv score 100) (of_int width) \<le> of_int width"
    unfolding fmul_def using fl_mono w by metis
  then have "round_he (fmul (fdiv score 100) (of_int width)) \<le> width"
    using round_he_mono [of _ "of_int width"] by simp
  moreover have "0 \<le> fmul (fdiv score 100) (of_int width)" using lo assms(1) by (simp add: fmul_nonneg)
  ultimately show ?thesis by (simp add: meter_cells_def round_he_nonneg)
qed

text \<open>The meter is always \<open>width\<close> cells wide, whatever the score.\<close>

lemma meter_width:
  assumes "0 \<le> width" "width \<le> 2 ^ 53"
  shows "\<exists>k. k \<le> nat width \<and> render_pollution_bar score width =
    utxt ''['' @ replicate k 0x25A0 @ replicate (nat width - k) 0x25A1
    @ utxt (''] '' @ show_fixed 1 (max 0 (min 100 score)) @ ''/100 ('' @ get_pollution_label (max 0 (min 100 score)) @ '')'')"
proof -
  have "0 \<le> max 0 (min 100 score)" "max 0 (min 100 score) \<le> 100" by simp_all
  from meter_bounds [OF assms this] show ?thesis
    by (intro exI [of _ "nat (meter_cells (max 0 (min 100 score)) width)"])
      (simp add: render_pollution_bar_def Let_def nat_diff_distrib nat_mono)
qed

text \<open>The window holds ten entries, or all of them, and the selected one is among them.\<close>

lemma window_shows_selected:
  assumes "0 < n" "ledger_window n (clamp_selected n sel) = (a, b)"
  shows "0 \<le> a \<and> b \<le> n \<and> b - a = min n 10 \<and> a \<le> clamp_selected n sel \<and> clamp_selected n sel < b"
  using assms by (auto simp: ledger_window_def clamp_selected_def Let_def min_def max_def split: if_splits)

lemma bar_bound:
  assumes "0 \<le> toks" "toks \<le> max_toks" "0 \<le> width" "width \<le> 2 ^ 53"
  shows "length (make_bar toks max_toks width) \<le> nat width"
proof (cases "max_toks \<le> 0")
  case False
  have "int_truediv toks max_toks \<le> 1"
    using False assms fl_mono [of "of_int toks / of_int max_toks" 1] by (simp add: int_truediv_def)
  moreover have "0 \<le> int_truediv toks max_toks" using assms by (simp add: int_truediv_nonneg)
  ultimately have "int_truediv toks max_toks * of_int width \<le> of_int width"
    using assms(3) by (simp add: mult_left_le_one_le)
  moreover have "fl (of_int width) = of_int width" using assms by (simp add: fl_of_int)
  ultimately have "fmul (int_truediv toks max_toks) (of_int width) \<le> of_int width"
    unfolding fmul_def using fl_mono by metis
  then have "round_he (fmul (int_truediv toks max_toks) (of_int width)) \<le> width"
    using round_he_mono [of _ "of_int width"] by simp
  then show ?thesis by (simp add: make_bar_def nat_mono)
qed (simp add: make_bar_def)

lemma move_keeps_in_range:
  assumes "move_block step diff s = (Inr (), s')" "viewed_items diff s = Inr items" "items \<noteq> []"
  shows "0 \<le> tu_selected_block_index s' \<and> tu_selected_block_index s' < int (length items)"
  using assms by (auto simp: move_block_def op_defs)

end
