(* ===== verification/SampleRuns.thy ===== *)
theory SampleRuns
  imports Samples TuiWidgets WebApi
begin

text \<open>
  Concrete inputs for the properties that span the pipeline and the interfaces: an envelope as the
  proxy sends it, and a store that holds the first turns of the sample session.
\<close>

definition sample_envelope :: wire_envelope where
  "sample_envelope =
     \<lparr>we_event_type = TURN_COMPLETED, we_correlation_id = ''c-1'', we_session_id = ''s'', we_timestamp = 12,
      we_payload =
        [(''provider'', JStr ''anthropic''), (''model'', JStr ''claude''),
         (''request'', JObj [(''messages'', JArr [JObj [(''role'', JStr ''user''), (''content'', JStr ''hi'')]])]),
         (''response'', JObj [(''usage'', JObj [(''input_tokens'', JInt 3), (''output_tokens'', JInt 2)])])]\<rparr>"

definition sample_store :: session_store where
  "sample_store = (new_store 5 ''step'')\<lparr>ss_sessions := [(''s'', [turn0, turn1])]\<rparr>"

definition sample_event :: ui_event where
  "sample_event =
     \<lparr>ue_type = TURN_STARTED, ue_session_id = ''s'', ue_timestamp = 12, ue_payload = [(''turnIndex'', JInt 2)]\<rparr>"

lemma sample_names: "canonical_name (Arrive now sample_envelope)"
  by (simp add: sample_envelope_def canonical_session_id_def starts_with_def str_isdigit_def str_strip_def)
    (code_simp)?

lemma sample_ordered: "ordered_store sample_store"
  by (simp add: ordered_store_def sample_store_def new_store_def turn0_def turn1_def mk_turn_def)

lemma sample_turns: "stored_turns sample_store ''s'' = [turn0, turn1]"
  by (simp add: stored_turns_def get_session_def sample_store_def new_store_def resolve_session_id_def dict_get_def)

end
