(* ===== verification/Framing.thy ===== *)
theory Framing
  imports Schema Utf8
begin

text \<open>
  The length-prefixed IPC protocol: \<open>src/core/server/framer.py\<close> (\<open>encode_frame\<close>,
  \<open>FrameDecoder\<close>, \<open>decode_payload\<close>), \<open>src/interceptor/egress/framing.py\<close> and the connection
  handler of \<open>src/core/server/uds_server.py\<close>. A byte is an 8-bit word; the buffer of the decoder
  is the whole of its state. UTF-8 decoding followed by \<open>json.loads\<close> is the parameter \<open>loads\<close>
  (\<open>None\<close> is a \<open>UnicodeDecodeError\<close> or a \<open>JSONDecodeError\<close>).
\<close>

subsection \<open>Headers\<close>

text \<open>\<open>struct.pack(">I", n)\<close> and \<open>struct.unpack(">I", b)\<close>; a word keeps its low 8 bits.\<close>

definition pack_u32 :: "int \<Rightarrow> bytes" where
  "pack_u32 n = [word_of_int (n div 16777216), word_of_int (n div 65536), word_of_int (n div 256),
                 word_of_int n]"

definition unpack_u32 :: "bytes \<Rightarrow> int" where
  "unpack_u32 b =
     uint (b ! 0) * 16777216 + uint (b ! 1) * 65536 + uint (b ! 2) * 256 + uint (b ! 3)"

definition encode_frame :: "bytes \<Rightarrow> bytes res" where
  "encode_frame payload =
     (let n = int (length payload)
      in if 0xFFFFFFFF < n then Inl ValueError else Inr (pack_u32 n @ payload))"

definition MAX_PAYLOAD_SIZE :: int where
  "MAX_PAYLOAD_SIZE = 0xFFFFFFFF"

definition egress_encode_frame :: "bytes \<Rightarrow> bytes res" where
  "egress_encode_frame payload =
     (let n = int (length payload)
      in if MAX_PAYLOAD_SIZE < n then Inl ValueError else Inr (pack_u32 n @ payload))"

definition decode_frame_header :: "bytes \<Rightarrow> int res" where
  "decode_frame_header header =
     (if length header \<noteq> 4 then Inl ValueError else Inr (unpack_u32 header))"

lemma length_pack [simp]: "length (pack_u32 n) = 4"
  by (simp add: pack_u32_def)

lemma uint_byte: "uint (word_of_int n :: byte) = n mod 256"
  by (simp add: uint_word_of_int)

lemma unpack_bytes:
  "unpack_u32 (a # b # c # d # rest) = uint a * 16777216 + uint b * 65536 + uint c * 256 + uint d"
  by (simp add: unpack_u32_def)

lemma unpack_pack:
  assumes "0 \<le> n" "n \<le> 0xFFFFFFFF"
  shows "unpack_u32 (pack_u32 n @ rest) = n"
proof -
  let ?a = "n div 256" and ?b = "n div 256 div 256" and ?c = "n div 256 div 256 div 256"
  have d: "n div 16777216 = ?c" "n div 65536 = ?b" by (simp_all flip: zdiv_zmult2_eq)
  have "?c mod 256 = ?c"
  proof (rule mod_pos_pos_trivial)
    show "0 \<le> ?c" using assms(1) by (simp add: pos_imp_zdiv_nonneg_iff)
    show "?c < 256" using assms(2) by (simp flip: d)
  qed
  then have u: "unpack_u32 (pack_u32 n @ rest)
      = ?c * 16777216 + ?b mod 256 * 65536 + ?a mod 256 * 256 + n mod 256"
    unfolding pack_u32_def append.simps unpack_bytes uint_byte by (simp only: d)
  have "?a * 256 + n mod 256 = n" "?b * 256 + ?a mod 256 = ?a" "?c * 256 + ?b mod 256 = ?b"
    by (rule div_mult_mod_eq)+
  then show ?thesis unfolding u by (simp only: distrib_right)
qed

lemma unpack_nonneg: "0 \<le> unpack_u32 b"
  by (simp add: unpack_u32_def)

lemma unpack_append: "4 \<le> length b \<Longrightarrow> unpack_u32 (b @ c) = unpack_u32 b"
  by (cases b) (auto simp: unpack_u32_def nth_append)

subsection \<open>FrameDecoder\<close>

text \<open>
  The loop of \<open>feed\<close>: the frames extracted, what is left in the buffer, and whether the loop
  raised because of a header above \<open>max_frame_size\<close>.
\<close>

definition DEFAULT_MAX_FRAME_SIZE :: int where
  "DEFAULT_MAX_FRAME_SIZE = 64 * 1024 * 1024"

function extract_frames :: "int \<Rightarrow> bytes \<Rightarrow> bytes list \<times> bytes \<times> bool" where
  "extract_frames mx buf =
     (if length buf < 4 then ([], buf, False)
      else
        (let n = unpack_u32 buf
         in if mx < n then ([], buf, True)
            else if int (length buf) < 4 + n then ([], buf, False)
            else
              (let (frames, rest, err) = extract_frames mx (drop (4 + nat n) buf)
               in (take (nat n) (drop 4 buf) # frames, rest, err))))"
  by pat_completeness auto
termination
  by (relation "measure (\<lambda>(mx, buf). length buf)") auto

declare extract_frames.simps [simp del]

lemma extract_frames_Nil [simp]: "extract_frames mx [] = ([], [], False)"
  by (subst extract_frames.simps) simp

text \<open>
  \<open>feed\<close>: the result (the frames, or the exception) and the new buffer. When it raises, the
  frames already cut off the buffer in this call are not returned.
\<close>

definition feed :: "int \<Rightarrow> bytes \<Rightarrow> bytes \<Rightarrow> bytes list res \<times> bytes" where
  "feed mx buf chunk =
     (let (frames, rest, err) = extract_frames mx (buf @ chunk)
      in if err then (Inl FrameDecodeError, rest) else (Inr frames, rest))"

definition feed_step :: "int \<Rightarrow> bytes \<Rightarrow> bytes \<Rightarrow> (bytes list \<times> bytes) option" where
  "feed_step mx buf chunk =
     (case feed mx buf chunk of (Inl _, _) \<Rightarrow> None | (Inr frames, rest) \<Rightarrow> Some (frames, rest))"

text \<open>The loop is a scanner whose items are the frames.\<close>

definition frame_head :: "int \<Rightarrow> unit \<Rightarrow> bytes \<Rightarrow> (bytes, unit) scanned" where
  "frame_head mx u buf =
     (if length buf < 4 then More
      else if mx < unpack_u32 buf then Fail () 0
      else if int (length buf) < 4 + unpack_u32 buf then More
      else Item [take (nat (unpack_u32 buf)) (drop 4 buf)] () (4 + nat (unpack_u32 buf)))"

interpretation frame_scan: scanner "frame_head mx"
  "\<lambda>u buf. case extract_frames mx buf of (frames, rest, err) \<Rightarrow> (frames, (), rest, err)" for mx
proof
  fix u :: unit and x y :: bytes
  show "frame_head mx u x \<noteq> More \<Longrightarrow> frame_head mx u (x @ y) = frame_head mx u x"
    using unpack_nonneg [of x] by (auto simp: frame_head_def unpack_append split: if_splits)
  show "(case extract_frames mx x of (frames, rest, err) \<Rightarrow> (frames, (), rest, err)) =
      (case frame_head mx u x of
         More \<Rightarrow> ([], u, x, False)
       | Fail s' n \<Rightarrow> ([], s', drop n x, True)
       | Item os s' n \<Rightarrow>
           (case case extract_frames mx (drop n x) of (frames, rest, err) \<Rightarrow> (frames, (), rest, err) of
              (es, t, r, e) \<Rightarrow> (os @ es, t, r, e)))"
    by (subst extract_frames.simps) (simp add: frame_head_def Let_def split: prod.splits)
qed (auto simp: frame_head_def unpack_nonneg split: if_splits)

lemma extract_append:
  "extract_frames mx (x @ y) =
     (case extract_frames mx x of
        (fs, r, True) \<Rightarrow> (fs, r @ y, True)
      | (fs, r, False) \<Rightarrow> (case extract_frames mx (r @ y) of (gs, s, e) \<Rightarrow> (fs @ gs, s, e)))"
  using frame_scan.scan_append [of mx x y] by (simp split: prod.splits bool.splits)

interpretation decoder: chunk_machine "feed_step mx" for mx
proof
  fix buf a b :: bytes
  show "feed_step mx buf (a @ b) =
     (case feed_step mx buf a of
        None \<Rightarrow> None
      | Some (out, s') \<Rightarrow>
          (case feed_step mx s' b of None \<Rightarrow> None | Some (out', s'') \<Rightarrow> Some (out @ out', s'')))"
    using extract_append [of mx "buf @ a" b]
    by (simp add: feed_step_def feed_def split: prod.splits bool.splits)
qed

subsection \<open>The codec contract\<close>

text \<open>
  What both encoders promise to a decoder that is a chunk machine: one encoded payload decodes
  to itself. The client is any transport that cuts the byte stream where it likes.
\<close>

locale frame_codec = chunk_machine step
  for step :: "bytes \<Rightarrow> bytes \<Rightarrow> (bytes list \<times> bytes) option" +
  fixes encode :: "bytes \<Rightarrow> bytes res" and fits :: "bytes \<Rightarrow> bool"
  assumes encode_total: "fits p \<Longrightarrow> \<exists>f. encode p = Inr f"
    and decode_one: "fits p \<Longrightarrow> encode p = Inr f \<Longrightarrow> step [] f = Some ([p], [])"
    and decode_none: "step [] [] = Some ([], [])"
begin

definition frames :: "bytes list \<Rightarrow> bytes" where
  "frames ps = concat (map (\<lambda>p. case encode p of Inr f \<Rightarrow> f | Inl _ \<Rightarrow> []) ps)"

lemma decode_frames:
  assumes "\<forall>p\<in>set ps. fits p"
  shows "step [] (frames ps) = Some (ps, [])"
  using assms
proof (induction ps)
  case Nil
  then show ?case by (simp add: frames_def decode_none)
next
  case (Cons p ps)
  then obtain f where f: "encode p = Inr f" using encode_total by auto
  then have "frames (p # ps) = f @ frames ps" by (simp add: frames_def)
  moreover have "step [] f = Some ([p], [])" using Cons.prems f by (simp add: decode_one)
  ultimately show ?case using Cons by (simp add: step_append)
qed

lemma any_chunking:
  assumes "\<forall>p\<in>set ps. fits p" "cs \<noteq> []" "concat cs = frames ps"
  shows "run_chunks step [] cs = Some (ps, [])"
  using assms by (simp add: run_concat decode_frames)

end

lemma extract_frame:
  assumes "int (length p) \<le> 0xFFFFFFFF" "int (length p) \<le> mx"
  shows "extract_frames mx (pack_u32 (int (length p)) @ p) = ([p], [], False)"
proof -
  have "unpack_u32 (pack_u32 (int (length p)) @ p) = int (length p)"
    using assms by (intro unpack_pack) auto
  then show ?thesis using assms by (subst extract_frames.simps) simp
qed

definition frame_fits :: "int \<Rightarrow> bytes \<Rightarrow> bool" where
  "frame_fits mx p \<longleftrightarrow> int (length p) \<le> 0xFFFFFFFF \<and> int (length p) \<le> mx"

interpretation server_codec: frame_codec "feed_step mx" encode_frame "frame_fits mx" for mx
  by unfold_locales
    (auto simp: encode_frame_def frame_fits_def feed_step_def feed_def extract_frame)

interpretation egress_codec: frame_codec "feed_step mx" egress_encode_frame "frame_fits mx" for mx
  by unfold_locales
    (auto simp: egress_encode_frame_def MAX_PAYLOAD_SIZE_def frame_fits_def feed_step_def feed_def
      extract_frame)

subsection \<open>Payloads\<close>

text \<open>
  \<open>WireEnvelope.from_dict\<close> may fail with \<open>KeyError\<close>, \<open>ValueError\<close> or \<open>TypeError\<close>: the
  dictionary itself is then the payload. An envelope with a field of a type \<open>envelope_from_dict\<close>
  does not follow (\<open>Schema\<close>) is a payload all the same; \<open>Unfollowed\<close> keeps its dictionary.
\<close>

datatype decoded = Envelope wire_envelope | Raw json | Unfollowed json

definition decode_payload :: "(bytes \<Rightarrow> json option) \<Rightarrow> bytes \<Rightarrow> decoded res" where
  "decode_payload loads payload =
     (case loads payload of
        None \<Rightarrow> Inl FrameDecodeError
      | Some (JObj d) \<Rightarrow>
          (case envelope_from_dict d of
             Inr e \<Rightarrow> Inr (Envelope e)
           | Inl (NotModelled k) \<Rightarrow> Inr (Unfollowed (JObj d))
           | Inl _ \<Rightarrow> Inr (Raw (JObj d)))
      | Some j \<Rightarrow> Inr (Raw j))"

definition envelope_to_bytes :: "(json \<Rightarrow> bytes) \<Rightarrow> wire_envelope \<Rightarrow> bytes" where
  "envelope_to_bytes dumps e = dumps (JObj (envelope_to_dict e))"

lemma decode_envelope:
  "loads (dumps (JObj (envelope_to_dict e))) = Some (JObj (envelope_to_dict e)) \<Longrightarrow>
     decode_payload loads (envelope_to_bytes dumps e) = Inr (Envelope e)"
  by (simp add: decode_payload_def envelope_to_bytes_def)

subsection \<open>A client connection\<close>

text \<open>
  \<open>_handle_client\<close> on the chunks that \<open>reader.read\<close> returns (an empty chunk is the end of the
  stream), giving the payloads handed to the callback in order. A frame that cannot be decoded
  is skipped; an oversize header ends the connection; an exception of the callback is logged.
\<close>

definition dispatch_frame :: "(bytes \<Rightarrow> json option) \<Rightarrow> bytes \<Rightarrow> decoded list" where
  "dispatch_frame loads frame =
     (case decode_payload loads frame of Inl _ \<Rightarrow> [] | Inr d \<Rightarrow> [d])"

text \<open>Only bytes that are not JSON text are skipped.\<close>

lemma dispatch_frame_skips: "dispatch_frame loads frame = [] \<longleftrightarrow> loads frame = None"
  by (auto simp: dispatch_frame_def decode_payload_def split: option.splits json.splits sum.splits py_error.splits)

fun handle_client :: "(bytes \<Rightarrow> json option) \<Rightarrow> int \<Rightarrow> bytes \<Rightarrow> bytes list \<Rightarrow> decoded list" where
  "handle_client loads mx buf [] = []"
| "handle_client loads mx buf (chunk # chunks) =
     (if chunk = [] then []
      else
        (case feed mx buf chunk of
           (Inl _, _) \<Rightarrow> []
         | (Inr frames, rest) \<Rightarrow>
             concat (map (dispatch_frame loads) frames) @ handle_client loads mx rest chunks))"

lemma handle_client_run:
  assumes "run_chunks (feed_step mx) buf cs = Some (fs, rest)" "[] \<notin> set cs"
  shows "handle_client loads mx buf cs = concat (map (dispatch_frame loads) fs)"
  using assms
proof (induction cs arbitrary: buf fs)
  case Nil
  then show ?case by simp
next
  case (Cons c cs)
  then show ?case
    by (auto simp: feed_step_def split: option.splits prod.splits sum.splits)
qed

text \<open>A frame that has not arrived completely is kept in the buffer.\<close>

lemma extract_cut:
  assumes "frame_fits mx p" "egress_encode_frame p = Inr (w @ r)" "r \<noteq> []"
  shows "extract_frames mx w = ([], w, False)"
proof (cases "length w < 4")
  case True
  then show ?thesis by (subst extract_frames.simps) simp
next
  case False
  have w: "w @ r = pack_u32 (int (length p)) @ p"
    using assms(2) by (simp add: egress_encode_frame_def Let_def split: if_splits)
  have "unpack_u32 (pack_u32 (int (length p)) @ p) = int (length p)"
    using assms(1) by (intro unpack_pack) (auto simp: frame_fits_def)
  then have u: "unpack_u32 w = int (length p)" using False by (simp add: unpack_append flip: w)
  have "length w < 4 + length p" using arg_cong [OF w, of length] assms(3) by (cases r) auto
  with False u assms(1) show ?thesis by (subst extract_frames.simps) (simp add: frame_fits_def)
qed

lemma frames_empty:
  assumes "egress_codec.frames ps = []" "\<forall>p\<in>set ps. frame_fits mx p"
  shows "ps = []"
  using assms by (cases ps) (auto simp: egress_codec.frames_def egress_encode_frame_def frame_fits_def
      MAX_PAYLOAD_SIZE_def Let_def pack_u32_def)

lemma handle_client_whole:
  assumes "\<forall>p\<in>set ps. frame_fits mx p" "concat cs = egress_codec.frames ps" "[] \<notin> set cs"
  shows "handle_client loads mx [] cs = concat (map (dispatch_frame loads) ps)"
proof (cases "cs = []")
  case False
  with assms show ?thesis
    using egress_codec.any_chunking [OF assms(1) False assms(2)] by (intro handle_client_run) auto
next
  case True
  with assms(2) frames_empty [OF _ assms(1)] show ?thesis by simp
qed

lemma handle_client_cut:
  assumes "\<forall>p\<in>set ps. frame_fits mx p" "frame_fits mx p" "egress_encode_frame p = Inr (w @ r)" "r \<noteq> []"
    and "concat cs = egress_codec.frames ps @ w" "[] \<notin> set cs"
  shows "handle_client loads mx [] cs = concat (map (dispatch_frame loads) ps)"
proof (cases "cs = []")
  case False
  have "feed_step mx [] w = Some ([], w)"
    using extract_cut [OF assms(2-4)] by (simp add: feed_step_def feed_def)
  then have "feed_step mx [] (egress_codec.frames ps @ w) = Some (ps, w)"
    using decoder.step_append [of mx "[]" "egress_codec.frames ps" w] egress_codec.decode_frames [OF assms(1)] by simp
  then show ?thesis
    using decoder.run_concat [OF False, of mx "[]"] assms(5,6) by (intro handle_client_run) auto
next
  case True
  with assms(5) frames_empty [OF _ assms(1)] show ?thesis by simp
qed

lemma handle_client_delivers:
  assumes "\<forall>p\<in>set ps. frame_fits mx p" "concat cs = server_codec.frames ps" "[] \<notin> set cs" "cs \<noteq> []"
  shows "handle_client loads mx [] cs = concat (map (dispatch_frame loads) ps)"
  using handle_client_run [OF server_codec.any_chunking [OF assms(1,4,2)] assms(3)] .

end
