(* ===== verification/UdsClient.thy ===== *)
theory UdsClient
  imports RingBuffer Framing "HOL-Library.Sublist"
begin

text \<open>
  \<open>src/interceptor/egress/uds_client.py\<close>: the egress thread that pops payloads from the ring
  buffer, frames them and writes them to the socket. The operating system is the input: for
  each iteration of \<open>_egress_loop\<close> it decides whether the peer is still there, whether a
  connection attempt succeeds, and what each \<open>send\<close> does. The producers push between the
  iterations and, within one, between the \<open>pop\<close> of a payload and the end of its transmission.
  Waiting, socket options and a \<open>stop\<close> whose \<open>join\<close> times out are not modelled.
\<close>

subsection \<open>Sending a frame\<close>

text \<open>
  One \<open>send\<close> call: \<open>Sent n\<close> bytes accepted (0 means a broken connection), \<open>WouldBlock stop\<close>
  with the stop flag seen after the \<open>select\<close> that found the socket not writable, or an
  \<open>OSError\<close>. \<open>Stopping\<close> is the stop flag seen at the head of the loop.
\<close>

datatype send_event = Sent nat | WouldBlock bool | SendError | Stopping

datatype send_outcome = Complete | Interrupted | Broken

text \<open>
  The bytes written and the outcome. A script that ends before the frame is written stands for
  a stop request.
\<close>

fun send_frame :: "bytes \<Rightarrow> send_event list \<Rightarrow> bytes \<times> send_outcome" where
  "send_frame frame [] = ([], if frame = [] then Complete else Interrupted)"
| "send_frame frame (ev # evs) =
     (if frame = [] then ([], Complete)
      else
        (case ev of
           Stopping \<Rightarrow> ([], Interrupted)
         | SendError \<Rightarrow> ([], Broken)
         | WouldBlock stop \<Rightarrow> if stop then ([], Interrupted) else send_frame frame evs
         | Sent n \<Rightarrow>
             if n = 0 then ([], Broken)
             else
               (let (written, outcome) = send_frame (drop n frame) evs
                in (take n frame @ written, outcome))))"

subsection \<open>The loop\<close>

text \<open>
  \<open>eg_wire\<close> is what the peer of the current connection has received; \<open>eg_closed\<close> what the peers
  of earlier connections had received. \<open>eg_done\<close> and \<open>eg_lost\<close> record the payloads written
  completely and those given up (a stop in the middle of a frame; a payload too long to frame,
  whose \<open>ValueError\<close> ends the thread).
\<close>

record egress =
  eg_buffer :: "bytes ring"
  eg_running :: bool
  eg_connected :: bool
  eg_wire :: bytes
  eg_closed :: "bytes list"
  eg_done :: "bytes list"
  eg_lost :: "bytes list"

definition new_egress :: "bytes ring \<Rightarrow> egress" where
  "new_egress r = \<lparr>eg_buffer = r, eg_running = False, eg_connected = False, eg_wire = [],
     eg_closed = [], eg_done = [], eg_lost = []\<rparr>"

definition start :: "egress \<Rightarrow> egress" where
  "start e = e\<lparr>eg_running := True\<rparr>"

definition disconnect :: "egress \<Rightarrow> egress" where
  "disconnect e =
     (if eg_connected e
      then e\<lparr>eg_connected := False, eg_closed := eg_closed e @ [eg_wire e], eg_wire := []\<rparr>
      else e)"

text \<open>\<open>stop\<close> joins the thread and then disconnects.\<close>

definition stop :: "egress \<Rightarrow> egress" where
  "stop e = disconnect (e\<lparr>eg_running := False\<rparr>)"

definition connect :: "bool \<Rightarrow> egress \<Rightarrow> bool \<times> egress" where
  "connect accepted e =
     (if eg_connected e then (True, e)
      else if accepted then (True, e\<lparr>eg_connected := True\<rparr>) else (False, e))"

text \<open>
  What an iteration does once the connection is up. An interrupted send is the effect of a
  \<open>stop\<close> in progress, which disconnects as soon as the thread has ended.
\<close>

definition push_all :: "bytes list \<Rightarrow> egress \<Rightarrow> egress" where
  "push_all ps e = foldl (\<lambda>e p. e\<lparr>eg_buffer := snd (push p (eg_buffer e))\<rparr>) e ps"

definition ship :: "send_event list \<Rightarrow> bytes list \<Rightarrow> egress \<Rightarrow> egress" where
  "ship script mid e =
     (case pop (eg_buffer e) of
        (None, _) \<Rightarrow> push_all mid e
      | (Some payload, r) \<Rightarrow>
          (let e1 = push_all mid (e\<lparr>eg_buffer := r\<rparr>)
           in case egress_encode_frame payload of
                Inl _ \<Rightarrow> e1\<lparr>eg_running := False, eg_lost := eg_lost e @ [payload]\<rparr>
              | Inr frame \<Rightarrow>
                  (let (written, outcome) = send_frame frame script;
                       e2 = e1\<lparr>eg_wire := eg_wire e @ written\<rparr>
                   in case outcome of
                        Complete \<Rightarrow> e2\<lparr>eg_done := eg_done e @ [payload]\<rparr>
                      | Interrupted \<Rightarrow> stop (e2\<lparr>eg_lost := eg_lost e @ [payload]\<rparr>)
                      | Broken \<Rightarrow>
                          (let e3 = disconnect e2
                           in e3\<lparr>eg_buffer := unpop payload (eg_buffer e3)\<rparr>))))"

definition egress_iteration :: "bool \<Rightarrow> bool \<Rightarrow> send_event list \<Rightarrow> bytes list \<Rightarrow> egress \<Rightarrow> egress" where
  "egress_iteration alive accepted script mid e =
     (if \<not> eg_running e then push_all mid e
      else if \<not> eg_connected e \<or> \<not> alive then
        (let (up, e') = connect accepted (disconnect e)
         in if up then ship script mid e' else push_all mid e')
      else ship script mid e)"

text \<open>Interleaving with the producers and the owner of the client.\<close>

datatype egress_event = Push bytes | Iterate bool bool "send_event list" "bytes list"
  | Start | Stop

fun on_event :: "egress_event \<Rightarrow> egress \<Rightarrow> egress" where
  "on_event (Push p) e = e\<lparr>eg_buffer := snd (push p (eg_buffer e))\<rparr>"
| "on_event (Iterate alive accepted script mid) e = egress_iteration alive accepted script mid e"
| "on_event Start e = start e"
| "on_event Stop e = stop e"

definition egress_run :: "egress_event list \<Rightarrow> egress \<Rightarrow> egress" where
  "egress_run evs e = foldl (\<lambda>e ev. on_event ev e) e evs"

fun pushed_by :: "egress_event \<Rightarrow> bytes list" where
  "pushed_by (Push p) = [p]"
| "pushed_by (Iterate alive accepted script mid) = mid"
| "pushed_by _ = []"

definition pushes :: "egress_event list \<Rightarrow> bytes list" where
  "pushes evs = concat (map pushed_by evs)"

lemma pushes_snoc [simp]: "pushes (evs @ [ev]) = pushes evs @ pushed_by ev"
  by (simp add: pushes_def)

lemma pushes_Nil [simp]: "pushes [] = []"
  by (simp add: pushes_def)

lemma push_all_simps [simp]:
  "push_all [] e = e" "push_all (p # ps) e = push_all ps (e\<lparr>eg_buffer := snd (push p (eg_buffer e))\<rparr>)"
  by (simp_all add: push_all_def)

text \<open>Pushing only touches the buffer.\<close>

lemma push_all_ring: "push_all ps e = e\<lparr>eg_buffer := foldl (\<lambda>r p. snd (push p r)) (eg_buffer e) ps\<rparr>"
  by (induction ps arbitrary: e) simp_all

lemma push_all_buffer: "\<exists>r. push_all ps e = e\<lparr>eg_buffer := r\<rparr>"
proof (induction ps arbitrary: e)
  case Nil
  have "e = e\<lparr>eg_buffer := eg_buffer e\<rparr>" by simp
  then show ?case by (auto intro: exI [of _ "eg_buffer e"])
next
  case (Cons p ps)
  from Cons [of "e\<lparr>eg_buffer := snd (push p (eg_buffer e))\<rparr>"] show ?case by auto
qed

subsection \<open>What the peer sees\<close>

lemma send_frame_prefix:
  "send_frame f evs = (w, out) \<Longrightarrow> \<exists>r. f = w @ r \<and> (out = Complete \<longleftrightarrow> r = [])"
proof (induction f evs arbitrary: w rule: send_frame.induct)
  case (1 f)
  then show ?case by (auto split: if_splits)
next
  case (2 f ev evs)
  show ?case
  proof (cases "\<exists>n. ev = Sent n \<and> n \<noteq> 0 \<and> f \<noteq> []")
    case True
    then obtain n where n: "ev = Sent n" "n \<noteq> 0" "f \<noteq> []" by blast
    obtain w' out' where s: "send_frame (drop n f) evs = (w', out')" by fastforce
    with 2(3) n have w: "w = take n f @ w'" "out' = out" by auto
    from "2.IH"(1) [OF n(3) n(1) n(2)] s w(2) obtain r where
      "drop n f = w' @ r" "out = Complete \<longleftrightarrow> r = []" by auto
    then have "f = w @ r" using append_take_drop_id [of n f] by (simp add: w(1))
    with \<open>out = Complete \<longleftrightarrow> r = []\<close> show ?thesis by blast
  next
    case False
    with 2 show ?thesis by (auto split: if_splits send_event.splits)
  qed
qed

text \<open>A script that keeps accepting bytes, enough of them, gets the whole frame out.\<close>

fun accepts :: "send_event \<Rightarrow> nat" where
  "accepts (Sent n) = n"
| "accepts _ = 0"

fun goes_on :: "send_event \<Rightarrow> bool" where
  "goes_on (Sent n) = (0 < n)"
| "goes_on (WouldBlock halt) = (\<not> halt)"
| "goes_on _ = False"

lemma send_frame_complete:
  "list_all goes_on evs \<Longrightarrow> length f \<le> sum_list (map accepts evs) \<Longrightarrow> send_frame f evs = (f, Complete)"
proof (induction evs arbitrary: f)
  case (Cons ev evs)
  show ?case
  proof (cases "f = []")
    case False
    show ?thesis
    proof (cases ev)
      case (Sent n)
      with Cons.prems have "send_frame (drop n f) evs = (drop n f, Complete)" by (intro Cons.IH) simp_all
      with False Sent Cons.prems show ?thesis by simp
    qed (use False Cons in simp_all)
  qed simp
qed simp

text \<open>A proper part of the frame of an admissible payload, or nothing.\<close>

definition cut_frame :: "(bytes \<Rightarrow> bool) \<Rightarrow> bytes \<Rightarrow> bool" where
  "cut_frame fits w \<longleftrightarrow> w = [] \<or> (\<exists>p r. fits p \<and> egress_encode_frame p = Inr (w @ r) \<and> r \<noteq> [])"

definition partial_frame :: "bytes \<Rightarrow> bool" where
  "partial_frame w \<longleftrightarrow> w = [] \<or> (\<exists>p r. egress_encode_frame p = Inr (w @ r))"

lemma cut_partial: "cut_frame fits w \<Longrightarrow> partial_frame w"
  by (auto simp: cut_frame_def partial_frame_def)

lemma frames_snoc: "egress_encode_frame p = Inr f \<Longrightarrow>
    egress_codec.frames (ps @ [p]) = egress_codec.frames ps @ f"
  by (simp add: egress_codec.frames_def)

lemma frames_Nil [simp]: "egress_codec.frames [] = []"
  by (simp add: egress_codec.frames_def)

text \<open>
  The payloads written completely are, in order, those of the closed connections and those of the
  current one. The current connection has carried whole frames only; a closed one whole frames and
  at most a part of one more. Nothing but admissible payloads is in flight.
\<close>

definition carried :: "(bytes \<Rightarrow> bool) \<Rightarrow> bytes \<Rightarrow> bytes list \<Rightarrow> bool" where
  "carried fits w ps \<longleftrightarrow> (\<exists>part. w = egress_codec.frames ps @ part \<and> cut_frame fits part)"

definition wire_ok :: "(bytes \<Rightarrow> bool) \<Rightarrow> egress \<Rightarrow> bool" where
  "wire_ok fits e \<longleftrightarrow>
     (\<exists>pss now. eg_done e = concat pss @ now \<and> list_all2 (carried fits) (eg_closed e) pss
        \<and> eg_wire e = egress_codec.frames now \<and> (eg_connected e \<or> now = []))
     \<and> list_all fits (eg_done e) \<and> list_all fits (rb_queue (eg_buffer e))"

lemma wire_okI:
  "eg_done e = concat pss @ now \<Longrightarrow> list_all2 (carried fits) (eg_closed e) pss \<Longrightarrow>
     eg_wire e = egress_codec.frames now \<Longrightarrow> eg_connected e \<or> now = [] \<Longrightarrow>
     list_all fits (eg_done e) \<Longrightarrow> list_all fits (rb_queue (eg_buffer e)) \<Longrightarrow> wire_ok fits e"
  unfolding wire_ok_def by blast

lemma wire_okE:
  assumes "wire_ok fits e"
  obtains pss now where "eg_done e = concat pss @ now" "list_all2 (carried fits) (eg_closed e) pss"
    "eg_wire e = egress_codec.frames now" "eg_connected e \<or> now = []"
    "list_all fits (eg_done e)" "list_all fits (rb_queue (eg_buffer e))"
  using assms unfolding wire_ok_def by blast

text \<open>A connection that ends in the middle of a frame.\<close>

lemma cut_connection:
  assumes "wire_ok fits e" "eg_connected e" "cut_frame fits w" "list_all fits (rb_queue r)"
  shows "wire_ok fits (disconnect (e\<lparr>eg_buffer := r, eg_wire := eg_wire e @ w, eg_lost := l, eg_running := b\<rparr>))"
proof -
  from assms(1) obtain pss now where o: "eg_done e = concat pss @ now"
    "list_all2 (carried fits) (eg_closed e) pss" "eg_wire e = egress_codec.frames now" "list_all fits (eg_done e)"
    by (rule wire_okE)
  then have "carried fits (eg_wire e @ w) now" using assms(3) by (auto simp: carried_def)
  with o(2) have "list_all2 (carried fits) (eg_closed e @ [eg_wire e @ w]) (pss @ [now])"
    by (simp add: list_all2_appendI)
  with assms o show ?thesis
    by (intro wire_okI [of _ "pss @ [now]" "[]"]) (simp_all add: disconnect_def)
qed

lemma disconnect_ok:
  assumes "wire_ok fits e"
  shows "wire_ok fits (disconnect e)"
proof (cases "eg_connected e")
  case True
  have "cut_frame fits []" "list_all fits (rb_queue (eg_buffer e))"
    using assms by (simp_all add: cut_frame_def wire_ok_def)
  from cut_connection [OF assms True this, where l = "eg_lost e" and b = "eg_running e"] show ?thesis by simp
qed (simp add: assms disconnect_def)

lemma connect_ok:
  assumes "wire_ok fits e"
  shows "wire_ok fits (snd (connect a e))"
proof (cases "eg_connected e")
  case False
  from assms obtain pss now where "eg_done e = concat pss @ now" "list_all2 (carried fits) (eg_closed e) pss"
    "eg_wire e = egress_codec.frames now" "list_all fits (eg_done e)" "list_all fits (rb_queue (eg_buffer e))"
    by (rule wire_okE)
  then have "wire_ok fits (e\<lparr>eg_connected := True\<rparr>)" by (intro wire_okI [of _ pss now]) simp_all
  with assms False show ?thesis by (simp add: connect_def)
qed (simp add: connect_def assms)

lemma wire_ok_flags [simp]:
  "wire_ok fits (e\<lparr>eg_running := b\<rparr>) \<longleftrightarrow> wire_ok fits e"
  "wire_ok fits (e\<lparr>eg_lost := l\<rparr>) \<longleftrightarrow> wire_ok fits e"
  by (simp_all add: wire_ok_def)

lemma wire_ok_buffer:
  "wire_ok fits e \<Longrightarrow> list_all fits (rb_queue r) \<Longrightarrow> wire_ok fits (e\<lparr>eg_buffer := r\<rparr>)"
  by (simp add: wire_ok_def)

lemma ring_admits:
  "fits p \<Longrightarrow> list_all fits (rb_queue r) \<Longrightarrow> list_all fits (rb_queue (snd (push p r)))"
  "fits p \<Longrightarrow> list_all fits (rb_queue r) \<Longrightarrow> list_all fits (rb_queue (unpop p r))"
  by (auto simp: push_def deque_append_def unpop_def list_all_iff simp del: drop_append dest!: in_set_dropD split: if_splits)

lemma push_ok: "wire_ok fits e \<Longrightarrow> fits p \<Longrightarrow> wire_ok fits (e\<lparr>eg_buffer := snd (push p (eg_buffer e))\<rparr>)"
  by (rule wire_ok_buffer) (auto simp: wire_ok_def intro: ring_admits)

lemma push_all_ok: "wire_ok fits e \<Longrightarrow> list_all fits ps \<Longrightarrow> wire_ok fits (push_all ps e)"
  by (induction ps arbitrary: e) (simp_all add: push_ok)

lemma ship_ok:
  assumes ok: "wire_ok fits e" and up: "eg_connected e" and mid: "list_all fits mid"
  shows "wire_ok fits (ship script mid e)"
proof (cases "pop (eg_buffer e)")
  case (Pair popped r0)
  show ?thesis
  proof (cases popped)
    case None
    with Pair push_all_ok [OF ok mid] show ?thesis by (simp add: ship_def)
  next
    case (Some p)
    have "fits p" and r0: "list_all fits (rb_queue r0)"
      using ok Pair Some by (auto simp: wire_ok_def pop_def split: list.splits)
    obtain r where r: "push_all mid (e\<lparr>eg_buffer := r0\<rparr>) = e\<lparr>eg_buffer := r\<rparr>"
      using push_all_buffer [of mid "e\<lparr>eg_buffer := r0\<rparr>"] by auto
    have ok': "wire_ok fits (e\<lparr>eg_buffer := r\<rparr>)"
      using push_all_ok [OF wire_ok_buffer [OF ok r0] mid] by (simp add: r)
    then have q: "list_all fits (rb_queue r)" by (simp add: wire_ok_def)
    show ?thesis
    proof (cases "egress_encode_frame p")
      case (Inl err)
      with Pair Some r ok' show ?thesis by (simp add: ship_def)
    next
      case (Inr f)
      obtain w out where s: "send_frame f script = (w, out)" by fastforce
      then obtain rest where rest: "f = w @ rest" "out = Complete \<longleftrightarrow> rest = []"
        using send_frame_prefix by blast
      have cut: "cut_frame fits w" if "out \<noteq> Complete"
        using that rest Inr \<open>fits p\<close> by (auto simp: cut_frame_def)
      show ?thesis
      proof (cases out)
        case Complete
        with rest have "w = f" by simp
        from ok obtain pss now where "eg_done e = concat pss @ now" "list_all2 (carried fits) (eg_closed e) pss"
          "eg_wire e = egress_codec.frames now" "list_all fits (eg_done e)"
          by (rule wire_okE)
        with Complete \<open>w = f\<close> \<open>fits p\<close> q up Pair Some r Inr s show ?thesis
          by (intro wire_okI [of _ pss "now @ [p]"]) (simp_all add: ship_def frames_snoc [OF Inr])
      next
        case Interrupted
        with cut_connection [OF ok up cut q] Pair Some r Inr s show ?thesis
          by (simp add: ship_def stop_def)
      next
        case Broken
        with cut_connection [OF ok up cut q, where l = "eg_lost e" and b = "eg_running e"]
        have "wire_ok fits (disconnect (e\<lparr>eg_buffer := r, eg_wire := eg_wire e @ w\<rparr>))" by simp
        from wire_ok_buffer [OF this ring_admits(2) [OF \<open>fits p\<close> q]] Broken up Pair Some r Inr s
        show ?thesis by (simp add: ship_def Let_def disconnect_def)
      qed
    qed
  qed
qed

lemma iteration_ok:
  "wire_ok fits e \<Longrightarrow> list_all fits mid \<Longrightarrow> wire_ok fits (egress_iteration alive accepted script mid e)"
  using disconnect_ok [of fits e] connect_ok [of fits "disconnect e" accepted]
  by (auto simp: egress_iteration_def connect_def split: if_splits intro!: ship_ok push_all_ok)

interpretation wire_machine: invariant_machine "\<lambda>e ev. on_event ev e" "wire_ok fits" "\<lambda>ev. list_all fits (pushed_by ev)"
  for fits
proof
  fix e ev assume "wire_ok fits e" "list_all fits (pushed_by ev)"
  then show "wire_ok fits (on_event ev e)"
    by (cases ev) (simp_all add: iteration_ok start_def stop_def disconnect_ok push_ok)
qed

lemma run_wire_ok:
  assumes "list_all fits (pushes evs)" "list_all fits (rb_queue r)"
  shows "wire_ok fits (egress_run evs (new_egress r))"
proof -
  have "list_all (\<lambda>ev. list_all fits (pushed_by ev)) evs"
    using assms(1) by (simp add: pushes_def list_all_iff)
  moreover have "wire_ok fits (new_egress r)"
    using assms(2) by (intro wire_okI [of _ "[]" "[]"]) (simp_all add: new_egress_def)
  ultimately show ?thesis unfolding egress_run_def by (intro wire_machine.run_ok)
qed

text \<open>
  The server reads each connection in whatever chunks: what it dispatches on all of them together is
  what the payloads written completely say, in their order and each once; a cut frame gives nothing.
\<close>

lemma carried_dispatch:
  assumes "carried (frame_fits mx) w ps" "list_all (frame_fits mx) ps" "concat cs = w" "[] \<notin> set cs"
  shows "handle_client loads mx [] cs = concat (map (dispatch_frame loads) ps)"
proof -
  from assms(1) obtain part where w: "w = egress_codec.frames ps @ part" and cut: "cut_frame (frame_fits mx) part"
    by (auto simp: carried_def)
  have fits: "\<forall>p\<in>set ps. frame_fits mx p" using assms(2) by (simp add: list_all_iff)
  show ?thesis
  proof (cases "part = []")
    case False
    with cut obtain p r where "frame_fits mx p" "egress_encode_frame p = Inr (part @ r)" "r \<noteq> []"
      by (auto simp: cut_frame_def)
    then show ?thesis using handle_client_cut [OF fits] assms(3,4) w by blast
  next
    case True
    show ?thesis
      using assms w True fits by (intro handle_client_whole) simp_all
  qed
qed

lemma connections_dispatch:
  assumes "list_all2 (carried (frame_fits mx)) ws pss" "list_all (frame_fits mx) (concat pss)"
    and "list_all2 (\<lambda>cs w. concat cs = w \<and> [] \<notin> set cs) css ws"
  shows "concat (map (handle_client loads mx []) css) = concat (map (dispatch_frame loads) (concat pss))"
  using assms
proof (induction ws pss arbitrary: css rule: list_all2_induct)
  case (Cons w ws ps pss)
  then show ?case by (auto simp: list_all2_Cons2 carried_dispatch)
qed simp

lemma run_dispatch:
  assumes "list_all (frame_fits mx) (pushes evs)" "rb_queue r = []" "e = egress_run evs (new_egress r)"
    and "list_all2 (\<lambda>cs w. concat cs = w \<and> [] \<notin> set cs) css (eg_closed e @ [eg_wire e])"
  shows "concat (map (handle_client loads mx []) css) = concat (map (dispatch_frame loads) (eg_done e))"
proof -
  have "wire_ok (frame_fits mx) e" using run_wire_ok [OF assms(1)] assms(2,3) by simp
  then obtain pss now where o: "eg_done e = concat pss @ now" "list_all2 (carried (frame_fits mx)) (eg_closed e) pss"
    "eg_wire e = egress_codec.frames now" "list_all (frame_fits mx) (eg_done e)"
    by (rule wire_okE)
  have "carried (frame_fits mx) (eg_wire e) now" by (simp add: o(3) carried_def cut_frame_def)
  with o(2) have "list_all2 (carried (frame_fits mx)) (eg_closed e @ [eg_wire e]) (pss @ [now])"
    by (simp add: list_all2_appendI)
  from connections_dispatch [OF this _ assms(4), of loads] o(1,4) show ?thesis by simp
qed

subsection \<open>Order and accounting\<close>

text \<open>
  What has been delivered, followed by the payloads in flight and by what is still queued, is a
  subsequence of what was pushed; the rest has been dropped by the buffer or given up, and is
  counted.
\<close>

definition flow_in :: "bytes list \<Rightarrow> bytes list \<Rightarrow> egress \<Rightarrow> bool" where
  "flow_in pushed flight e \<longleftrightarrow>
     ring_wf (eg_buffer e)
     \<and> subseq (eg_done e @ flight @ rb_queue (eg_buffer e)) pushed
     \<and> int (length pushed) = int (length (eg_done e)) + int (length flight) + int (length (eg_lost e))
         + int (length (rb_queue (eg_buffer e))) + rb_dropped (eg_buffer e)"

definition flow_ok :: "bytes list \<Rightarrow> egress \<Rightarrow> bool" where
  "flow_ok pushed e \<longleftrightarrow> flow_in pushed [] e"

lemma disconnect_flow [simp]:
  "eg_buffer (disconnect e) = eg_buffer e" "eg_done (disconnect e) = eg_done e"
  "eg_lost (disconnect e) = eg_lost e"
  by (simp_all add: disconnect_def)

lemma flow_disconnect [simp]: "flow_in ps inflight (disconnect e) \<longleftrightarrow> flow_in ps inflight e"
  by (simp add: flow_in_def)

lemma flow_connect [simp]: "flow_in ps inflight (snd (connect a e)) \<longleftrightarrow> flow_in ps inflight e"
  by (simp add: flow_in_def connect_def)

lemma flow_frame [simp]:
  "flow_in ps inflight (e\<lparr>eg_running := b\<rparr>) \<longleftrightarrow> flow_in ps inflight e"
  "flow_in ps inflight (e\<lparr>eg_wire := w\<rparr>) \<longleftrightarrow> flow_in ps inflight e"
  by (simp_all add: flow_in_def)

lemma flow_push:
  assumes "flow_in ps inflight e"
  shows "flow_in (ps @ [p]) inflight (e\<lparr>eg_buffer := snd (push p (eg_buffer e))\<rparr>)"
proof -
  let ?b = "eg_buffer e" and ?b' = "snd (push p (eg_buffer e))" and ?h = "eg_done e @ inflight"
  have wf: "ring_wf ?b" and sub: "subseq (?h @ rb_queue ?b) ps"
    using assms by (simp_all add: flow_in_def)
  have "subseq (?h @ tl (rb_queue ?b)) (?h @ rb_queue ?b)"
    by (cases "rb_queue ?b") (auto intro: list_emb_append_mono)
  with sub have "subseq (?h @ tl (rb_queue ?b)) ps" by (rule subseq_order.trans [rotated])
  then have "subseq ((?h @ tl (rb_queue ?b)) @ [p]) (ps @ [p])"
    "subseq ((?h @ rb_queue ?b) @ [p]) (ps @ [p])"
    using sub by (auto simp only: intro: list_emb_append_mono subseq_order.refl)
  then have "subseq (?h @ rb_queue ?b') (ps @ [p])"
    using ring.enq_suffix [OF wf, of p] by auto
  moreover have "int (length (rb_queue ?b')) + rb_dropped ?b' = int (length (rb_queue ?b)) + rb_dropped ?b + 1"
    by (rule ring.enq_accounts [OF wf])
  ultimately show ?thesis using assms push_wf [OF wf] by (simp add: flow_in_def)
qed

lemma flow_push_all: "flow_in ps inflight e \<Longrightarrow> flow_in (ps @ qs) inflight (push_all qs e)"
proof (induction qs arbitrary: ps e)
  case (Cons q qs)
  from Cons.IH [OF flow_push [OF Cons.prems, of q]] show ?case by simp
qed simp

lemma flow_pop:
  assumes "flow_in ps [] e" "pop (eg_buffer e) = (Some p, r)"
  shows "flow_in ps [p] (e\<lparr>eg_buffer := r\<rparr>)"
  using assms pop_wf [of "eg_buffer e"] by (auto simp: flow_in_def pop_def split: list.splits)

text \<open>The three ends of a payload in flight: delivered, given up, put back.\<close>

lemma flow_delivered: "flow_in ps [p] e \<Longrightarrow> flow_in ps [] (e\<lparr>eg_done := eg_done e @ [p]\<rparr>)"
  by (simp add: flow_in_def)

lemma subseq_drop_one: "subseq (xs @ p # q) ps \<Longrightarrow> subseq (xs @ q) ps"
  using subseq_order.trans [of "xs @ q" "xs @ p # q" ps] by (auto intro: list_emb_append_mono)

lemma flow_given_up: "flow_in ps [p] e \<Longrightarrow> flow_in ps [] (e\<lparr>eg_lost := eg_lost e @ [p]\<rparr>)"
  using subseq_drop_one [of "eg_done e" p "rb_queue (eg_buffer e)" ps] by (simp add: flow_in_def)

lemma flow_put_back:
  assumes flow: "flow_in ps [p] e"
  shows "flow_in ps [] (e\<lparr>eg_buffer := unpop p (eg_buffer e)\<rparr>)"
proof -
  let ?r = "eg_buffer e"
  have wf: "ring_wf ?r" and sub: "subseq (eg_done e @ p # rb_queue ?r) ps"
    using flow by (simp_all add: flow_in_def)
  have "rb_queue (unpop p ?r) = p # rb_queue ?r \<or> rb_queue (unpop p ?r) = rb_queue ?r"
    using ring.putback_suffix [OF wf, of p] by auto
  then have "subseq (eg_done e @ rb_queue (unpop p ?r)) ps"
    using sub subseq_drop_one [OF sub] by auto
  moreover have "int (length (rb_queue (unpop p ?r))) + rb_dropped (unpop p ?r)
      = int (length (rb_queue ?r)) + rb_dropped ?r + 1"
    by (rule ring.putback_accounts [OF wf])
  ultimately show ?thesis using flow unpop_wf [OF wf, of p] by (simp add: flow_in_def)
qed

lemma flow_ship:
  assumes flow: "flow_in ps [] e"
  shows "flow_in (ps @ mid) [] (ship script mid e)"
proof (cases "pop (eg_buffer e)")
  case (Pair popped r0)
  show ?thesis
  proof (cases popped)
    case None
    with Pair flow_push_all [OF flow] show ?thesis by (simp add: ship_def)
  next
    case (Some p)
    obtain r where r: "push_all mid (e\<lparr>eg_buffer := r0\<rparr>) = e\<lparr>eg_buffer := r\<rparr>"
      using push_all_buffer [of mid "e\<lparr>eg_buffer := r0\<rparr>"] by auto
    let ?e = "e\<lparr>eg_buffer := r\<rparr>"
    have mid: "flow_in (ps @ mid) [p] ?e"
      using flow_push_all [OF flow_pop [OF flow Pair [unfolded Some]], of mid] by (simp only: r)
    show ?thesis
    proof (cases "egress_encode_frame p")
      case (Inl err)
      then show ?thesis using flow_given_up [OF mid] Pair Some r by (simp add: ship_def flow_in_def)
    next
      case (Inr f)
      obtain w out where s: "send_frame f script = (w, out)" by fastforce
      have m: "flow_in (ps @ mid) [p] (?e\<lparr>eg_wire := eg_wire e @ w\<rparr>)" using mid by simp
      show ?thesis
        using flow_delivered [OF m] flow_given_up [OF m] flow_put_back [OF m] Pair Some r Inr s
        by (cases out) (simp_all add: ship_def stop_def Let_def flow_in_def)
    qed
  qed
qed

lemma flow_iteration:
  "flow_in ps [] e \<Longrightarrow> flow_in (ps @ mid) [] (egress_iteration alive accepted script mid e)"
  using flow_connect [of ps "[]" accepted "disconnect e"]
  by (simp add: egress_iteration_def flow_ship flow_push_all split_beta)

lemma run_flow_ok:
  assumes "new_ring c = Inr r"
  shows "flow_ok (pushes evs) (egress_run evs (new_egress r))"
  unfolding flow_ok_def
proof (induction evs rule: rev_induct)
  case Nil
  then show ?case
    using new_ring_wf [OF assms] by (simp add: egress_run_def flow_in_def new_egress_def)
next
  case (snoc ev evs)
  let ?e = "egress_run evs (new_egress r)"
  have run: "egress_run (evs @ [ev]) (new_egress r) = on_event ev ?e" by (simp add: egress_run_def)
  show ?case
    unfolding run using snoc
    by (cases ev) (simp_all add: start_def stop_def flow_push flow_iteration)
qed

end
