(* ===== verification/Sse.thy ===== *)
theory Sse
  imports Utf8 PyValue
begin

text \<open>
  \<open>src/interceptor/stream/sse_parser.py\<close>: the incremental parser of server-sent events. Its state
  is the bytes the UTF-8 decoder holds back, the text without a line end yet, and the fields of
  the event being assembled. What \<open>str.isdigit\<close> and \<open>int\<close> make of a code point above Latin-1 is
  the parameter \<open>ucd\<close> (the Unicode character database).
\<close>

subsection \<open>Text\<close>

definition ascii :: "string \<Rightarrow> ustring" where
  "ascii s = map of_char s"

datatype digit_class = NoDigit | DigitOnly | Decimal nat

type_synonym ucd = "code_point \<Rightarrow> digit_class"

text \<open>Superscripts are digits for \<open>isdigit\<close>, but \<open>int\<close> does not accept them.\<close>

definition digit_class :: "ucd \<Rightarrow> code_point \<Rightarrow> digit_class" where
  "digit_class ucd c =
     (if 48 \<le> c \<and> c < 58 then Decimal (c - 48)
      else if c = 178 \<or> c = 179 \<or> c = 185 then DigitOnly
      else if c < 256 then NoDigit
      else ucd c)"

definition ustr_isdigit :: "ucd \<Rightarrow> ustring \<Rightarrow> bool" where
  "ustr_isdigit ucd s = (s \<noteq> [] \<and> list_all (\<lambda>c. digit_class ucd c \<noteq> NoDigit) s)"

text \<open>\<open>int(s)\<close> for a text of digits: at most 4300 of them, all decimal.\<close>

definition MAX_INT_DIGITS :: nat where
  "MAX_INT_DIGITS = 4300"

fun decimal_value :: "ucd \<Rightarrow> int \<Rightarrow> ustring \<Rightarrow> int option" where
  "decimal_value ucd acc [] = Some acc"
| "decimal_value ucd acc (c # s) =
     (case digit_class ucd c of Decimal d \<Rightarrow> decimal_value ucd (acc * 10 + int d) s | _ \<Rightarrow> None)"

definition ustr_int :: "ucd \<Rightarrow> ustring \<Rightarrow> int res" where
  "ustr_int ucd s =
     (if MAX_INT_DIGITS < length s then Inl ValueError
      else case decimal_value ucd 0 s of None \<Rightarrow> Inl ValueError | Some n \<Rightarrow> Inr n)"

text \<open>\<open>s.partition(":")\<close>: the field, whether there is a colon, and the rest.\<close>

definition partition_colon :: "ustring \<Rightarrow> ustring \<times> bool \<times> ustring" where
  "partition_colon s =
     (case dropWhile (\<lambda>c. c \<noteq> 58) s of
        [] \<Rightarrow> (s, False, [])
      | _ # rest \<Rightarrow> (takeWhile (\<lambda>c. c \<noteq> 58) s, True, rest))"

text \<open>\<open>s.strip()\<close>.\<close>

definition is_white :: "code_point \<Rightarrow> bool" where
  "is_white c \<longleftrightarrow> 9 \<le> c \<and> c \<le> 13 \<or> 28 \<le> c \<and> c \<le> 32 \<or> 8192 \<le> c \<and> c \<le> 8202
     \<or> c \<in> {133, 160, 5760, 8232, 8233, 8239, 8287, 12288}"

definition ustr_strip :: "ustring \<Rightarrow> ustring" where
  "ustr_strip s = rev (dropWhile is_white (rev (dropWhile is_white s)))"

definition is_line_break :: "code_point \<Rightarrow> bool" where
  "is_line_break c \<longleftrightarrow> c \<in> {10, 11, 12, 13, 28, 29, 30, 133, 8232, 8233}"

function splitlines :: "ustring \<Rightarrow> ustring list" where
  "splitlines s =
     (if s = [] then []
      else
        (let line = takeWhile (\<lambda>c. \<not> is_line_break c) s
         in case dropWhile (\<lambda>c. \<not> is_line_break c) s of
              [] \<Rightarrow> [line]
            | b # rest \<Rightarrow>
                line # splitlines (if b = 13 \<and> rest \<noteq> [] \<and> hd rest = 10 then tl rest else rest)))"
  by pat_completeness auto
termination
proof (relation "measure length", simp)
  fix s line b rest
  assume "dropWhile (\<lambda>c. \<not> is_line_break c) s = b # rest"
  moreover have "length (dropWhile (\<lambda>c. \<not> is_line_break c) s) \<le> length s" by (rule length_dropWhile_le)
  ultimately show "((if b = 13 \<and> rest \<noteq> [] \<and> hd rest = 10 then tl rest else rest), s) \<in> measure length"
    by auto
qed

declare splitlines.simps [simp del]

definition join_lines :: "ustring list \<Rightarrow> ustring" where
  "join_lines ls = (case ls of [] \<Rightarrow> [] | l # rest \<Rightarrow> l @ concat (map (\<lambda>l. 10 # l) rest))"

subsection \<open>The parser\<close>

record sse_event =
  ev_event :: ustring
  ev_data :: ustring
  ev_id :: "ustring option"
  ev_retry :: "int option"

record sse_fields =
  sf_event :: "ustring option"
  sf_data :: "ustring list"
  sf_id :: "ustring option"
  sf_retry :: "int option"

record sse =
  sse_pending :: bytes
  sse_buffer :: ustring
  sse_current :: sse_fields

definition no_fields :: sse_fields where
  "no_fields = \<lparr>sf_event = None, sf_data = [], sf_id = None, sf_retry = None\<rparr>"

definition new_sse :: sse where
  "new_sse = \<lparr>sse_pending = [], sse_buffer = [], sse_current = no_fields\<rparr>"

definition or_message :: "ustring option \<Rightarrow> ustring" where
  "or_message e = (case e of Some (c # s) \<Rightarrow> c # s | _ \<Rightarrow> ascii ''message'')"

definition sse_dispatch :: "sse_fields \<Rightarrow> sse_event option \<times> sse_fields" where
  "sse_dispatch f =
     (if sf_data f = [] \<and> sf_event f = None then (None, f)
      else (Some \<lparr>ev_event = or_message (sf_event f), ev_data = join_lines (sf_data f),
                  ev_id = sf_id f, ev_retry = sf_retry f\<rparr>, no_fields))"

definition sse_field :: "ucd \<Rightarrow> ustring \<Rightarrow> ustring \<Rightarrow> sse_fields \<Rightarrow> sse_fields res" where
  "sse_field ucd field val f =
     (if field = ascii ''event'' then Inr (f\<lparr>sf_event := Some val\<rparr>)
      else if field = ascii ''data'' then Inr (f\<lparr>sf_data := sf_data f @ [val]\<rparr>)
      else if field = ascii ''id'' then Inr (if 0 \<in> set val then f else f\<lparr>sf_id := Some val\<rparr>)
      else if field = ascii ''retry'' \<and> ustr_isdigit ucd val then
        rbind (ustr_int ucd val) (\<lambda>n. Inr (f\<lparr>sf_retry := Some n\<rparr>))
      else Inr f)"

definition process_line :: "ucd \<Rightarrow> ustring \<Rightarrow> sse_fields \<Rightarrow> (sse_event option \<times> sse_fields) res" where
  "process_line ucd line f =
     (if line = [] then Inr (sse_dispatch f)
      else if hd line = 58 then Inr (None, f)
      else
        (let (field, has_colon, val) = partition_colon line;
             val' = (if has_colon \<and> val \<noteq> [] \<and> hd val = 32 then tl val else val)
         in rbind (sse_field ucd field val' f) (\<lambda>f'. Inr (None, f'))))"

text \<open>
  The first line of the buffer and the length of it with its terminator; a carriage return at
  the very end has to wait for the next chunk.
\<close>

definition next_line :: "ustring \<Rightarrow> (ustring \<times> nat) option" where
  "next_line buf =
     (let line = takeWhile (\<lambda>c. c \<noteq> 13 \<and> c \<noteq> 10) buf
      in case dropWhile (\<lambda>c. c \<noteq> 13 \<and> c \<noteq> 10) buf of
           [] \<Rightarrow> None
         | c # rest \<Rightarrow>
             if c = 10 then Some (line, length line + 1)
             else (case rest of
                     [] \<Rightarrow> None
                   | d # _ \<Rightarrow> Some (line, length line + (if d = 10 then 2 else 1))))"

lemma next_line_size: "next_line buf = Some (line, n) \<Longrightarrow> 0 < n \<and> n \<le> length buf"
proof -
  assume "next_line buf = Some (line, n)"
  moreover have "length (takeWhile (\<lambda>c. c \<noteq> 13 \<and> c \<noteq> 10) buf)
      + length (dropWhile (\<lambda>c. c \<noteq> 13 \<and> c \<noteq> 10) buf) = length buf"
    by (simp flip: length_append)
  ultimately show ?thesis by (auto simp: next_line_def Let_def split: list.splits if_splits)
qed

text \<open>
  The loop of \<open>feed\<close>: the events, the fields, the rest of the buffer, and whether
  \<open>_process_line\<close> raised (the line is gone from the buffer then, the later lines are not).
\<close>

function sse_lines :: "ucd \<Rightarrow> sse_fields \<Rightarrow> ustring \<Rightarrow> sse_event list \<times> sse_fields \<times> ustring \<times> bool" where
  "sse_lines ucd f buf =
     (case next_line buf of
        None \<Rightarrow> ([], f, buf, False)
      | Some (line, n) \<Rightarrow>
          (case process_line ucd line f of
             Inl _ \<Rightarrow> ([], f, drop n buf, True)
           | Inr (ev, f') \<Rightarrow>
               (let (evs, g, rest, err) = sse_lines ucd f' (drop n buf)
                in ((case ev of None \<Rightarrow> [] | Some e \<Rightarrow> [e]) @ evs, g, rest, err))))"
  by pat_completeness auto
termination
  by (relation "measure (\<lambda>(ucd, f, buf). length buf)") (auto dest!: next_line_size)

declare sse_lines.simps [simp del]

definition sse_feed_text :: "ucd \<Rightarrow> ustring \<Rightarrow> sse \<Rightarrow> sse_event list res \<times> sse" where
  "sse_feed_text ucd txt p =
     (let (evs, f, rest, err) = sse_lines ucd (sse_current p) (sse_buffer p @ txt);
          p' = p\<lparr>sse_buffer := rest, sse_current := f\<rparr>
      in (if err then Inl ValueError else Inr evs, p'))"

fun process_lines :: "ucd \<Rightarrow> ustring list \<Rightarrow> sse_fields \<Rightarrow> sse_event list res \<times> sse_fields" where
  "process_lines ucd [] f = (Inr [], f)"
| "process_lines ucd (line # lines) f =
     (case process_line ucd line f of
        Inl e \<Rightarrow> (Inl e, f)
      | Inr (ev, f') \<Rightarrow>
          (let (r, g) = process_lines ucd lines f'
           in (rbind r (\<lambda>evs. Inr ((case ev of None \<Rightarrow> [] | Some e \<Rightarrow> [e]) @ evs)), g)))"

definition sse_close :: "ucd \<Rightarrow> sse \<Rightarrow> sse_event list res \<times> sse" where
  "sse_close ucd p =
     (let buf = sse_buffer p @ utf8_flush (sse_pending p);
          (r, f) = process_lines ucd (splitlines buf) (sse_current p)
      in case r of
           Inl e \<Rightarrow> (Inl e, \<lparr>sse_pending = [], sse_buffer = [], sse_current = f\<rparr>)
         | Inr evs \<Rightarrow>
             (let (ev, f') = sse_dispatch f
              in (Inr (evs @ (case ev of None \<Rightarrow> [] | Some e \<Rightarrow> [e])),
                  \<lparr>sse_pending = [], sse_buffer = [], sse_current = f'\<rparr>)))"

definition sse_feed :: "ucd \<Rightarrow> bytes \<Rightarrow> sse \<Rightarrow> sse_event list res \<times> sse" where
  "sse_feed ucd chunk p =
     (if chunk = [] then sse_close ucd p
      else
        (let (txt, pending) = utf8_decode (sse_pending p) chunk
         in sse_feed_text ucd txt (p\<lparr>sse_pending := pending\<rparr>)))"

subsection \<open>Chunk boundaries\<close>

definition line_head :: "ucd \<Rightarrow> sse_fields \<Rightarrow> ustring \<Rightarrow> (sse_event, sse_fields) scanned" where
  "line_head ucd f buf =
     (case next_line buf of
        None \<Rightarrow> More
      | Some (line, n) \<Rightarrow>
          (case process_line ucd line f of
             Inl _ \<Rightarrow> Fail f n
           | Inr (ev, f') \<Rightarrow> Item (case ev of None \<Rightarrow> [] | Some e \<Rightarrow> [e]) f' n))"

lemma span_append:
  assumes "dropWhile P x = b # rest"
  shows "takeWhile P (x @ y) = takeWhile P x" "dropWhile P (x @ y) = b # rest @ y"
proof -
  have "b \<in> set x" using assms set_dropWhileD [of b P x] by simp
  moreover have "\<not> P b" using assms hd_dropWhile [of P x] by simp
  ultimately show "takeWhile P (x @ y) = takeWhile P x" "dropWhile P (x @ y) = b # rest @ y"
    using assms by (metis takeWhile_append1) (metis \<open>b \<in> set x\<close> \<open>\<not> P b\<close> append_Cons assms dropWhile_append1)
qed

lemma next_line_stable: "next_line x = Some r \<Longrightarrow> next_line (x @ y) = Some r"
proof -
  assume some: "next_line x = Some r"
  then obtain b rest where "dropWhile (\<lambda>c. c \<noteq> 13 \<and> c \<noteq> 10) x = b # rest"
    by (auto simp: next_line_def Let_def split: list.splits)
  with some span_append [OF this, of y] show ?thesis
    by (cases rest) (auto simp: next_line_def Let_def split: if_splits)
qed

interpretation sse_scan: scanner "line_head ucd" "sse_lines ucd" for ucd
proof
  fix f :: sse_fields and x y :: ustring
  show "line_head ucd f x \<noteq> More \<Longrightarrow> line_head ucd f (x @ y) = line_head ucd f x"
    by (cases "next_line x") (auto simp: line_head_def next_line_stable)
  show "line_head ucd f x = Item os f' n \<Longrightarrow> 0 < n \<and> n \<le> length x"
    "line_head ucd f x = Fail f' n \<Longrightarrow> n \<le> length x" for os f' n
    by (auto simp: line_head_def dest: next_line_size split: option.splits sum.splits)
  show "sse_lines ucd f x =
      (case line_head ucd f x of
         More \<Rightarrow> ([], f, x, False)
       | Fail f' n \<Rightarrow> ([], f', drop n x, True)
       | Item os f' n \<Rightarrow> (case sse_lines ucd f' (drop n x) of (es, t, r, e) \<Rightarrow> (os @ es, t, r, e)))"
    by (subst sse_lines.simps) (simp add: line_head_def Let_def split: option.splits sum.splits prod.splits)
qed

interpretation sse_pipe: chunk_pipeline utf8.scan_step "sse_scan.scan_step ucd" for ucd
  by unfold_locales

text \<open>One call of \<open>feed\<close> with a chunk; an empty chunk changes nothing here.\<close>

definition sse_push :: "ucd \<Rightarrow> sse \<Rightarrow> bytes \<Rightarrow> (sse_event list \<times> sse) option" where
  "sse_push ucd p chunk =
     (let (txt, pending) = utf8_decode (sse_pending p) chunk
      in case sse_feed_text ucd txt (p\<lparr>sse_pending := pending\<rparr>) of
           (Inl _, _) \<Rightarrow> None
         | (Inr evs, p') \<Rightarrow> Some (evs, p'))"

definition pack_sse :: "sse \<Rightarrow> (unit \<times> bytes) \<times> (sse_fields \<times> ustring)" where
  "pack_sse p = (((), sse_pending p), (sse_current p, sse_buffer p))"

definition unpack_sse :: "(unit \<times> bytes) \<times> (sse_fields \<times> ustring) \<Rightarrow> sse" where
  "unpack_sse st = \<lparr>sse_pending = snd (fst st), sse_buffer = snd (snd st), sse_current = fst (snd st)\<rparr>"

lemma pack_unpack [simp]: "pack_sse (unpack_sse st) = st" "unpack_sse (pack_sse p) = p"
  by (simp_all add: pack_sse_def unpack_sse_def prod_eq_iff)

lemma sse_push_pipe:
  "sse_push ucd p chunk =
     map_option (\<lambda>(evs, st). (evs, unpack_sse st))
       (pipe_step utf8.scan_step (sse_scan.scan_step ucd) (pack_sse p) chunk)"
  by (simp add: sse_push_def sse_feed_text_def utf8_decode_def pipe_step_def pack_sse_def unpack_sse_def
      utf8.scan_step_def sse_scan.scan_step_def split: prod.splits)

interpretation sse_machine: chunk_machine "sse_push ucd" for ucd
proof
  fix p :: sse and a b :: bytes
  show "sse_push ucd p (a @ b) =
      (case sse_push ucd p a of
         None \<Rightarrow> None
       | Some (out, p') \<Rightarrow>
           (case sse_push ucd p' b of
              None \<Rightarrow> None
            | Some (out', p'') \<Rightarrow> Some (out @ out', p'')))"
    by (simp add: sse_push_pipe sse_pipe.pipe.step_append split: option.splits)
qed

text \<open>A stream fed chunk by chunk until \<open>feed\<close> raises.\<close>

fun sse_run :: "ucd \<Rightarrow> bytes list \<Rightarrow> sse \<Rightarrow> (sse_event list \<times> sse) option" where
  "sse_run ucd [] p = Some ([], p)"
| "sse_run ucd (c # cs) p =
     (case sse_feed ucd c p of
        (Inl _, _) \<Rightarrow> None
      | (Inr evs, p') \<Rightarrow>
          (case sse_run ucd cs p' of None \<Rightarrow> None | Some (evs', p'') \<Rightarrow> Some (evs @ evs', p'')))"

lemma sse_run_chunks: "[] \<notin> set cs \<Longrightarrow> sse_run ucd cs p = run_chunks (sse_push ucd) p cs"
proof (induction cs arbitrary: p)
  case (Cons c cs)
  then have "c \<noteq> []" by auto
  with Cons show ?case
    by (auto simp: sse_feed_def sse_push_def Let_def split: prod.splits sum.splits option.splits)
qed simp

lemma sse_any_chunking:
  assumes "[] \<notin> set cs" "[] \<notin> set ds" "cs \<noteq> []" "ds \<noteq> []" "concat cs = concat ds"
  shows "sse_run ucd cs p = sse_run ucd ds p"
  using sse_machine.chunking_irrelevant [OF assms(3-5)] assms(1,2) by (simp add: sse_run_chunks)

subsection \<open>Events on the wire\<close>

text \<open>How a server writes an event: one line per field, LF line ends, an empty line.\<close>

definition field_line :: "string \<Rightarrow> ustring \<Rightarrow> ustring" where
  "field_line name val = ascii name @ [58, 32] @ val @ [10]"

definition render_event :: "ustring option \<Rightarrow> ustring list \<Rightarrow> ustring" where
  "render_event ev data =
     (case ev of None \<Rightarrow> [] | Some e \<Rightarrow> field_line ''event'' e)
     @ concat (map (field_line ''data'') data) @ [10]"

definition one_line :: "ustring \<Rightarrow> bool" where
  "one_line s \<longleftrightarrow> 10 \<notin> set s \<and> 13 \<notin> set s"

lemma next_line_LF: "one_line s \<Longrightarrow> next_line (s @ 10 # r) = Some (s, length s + 1)"
proof -
  assume "one_line s"
  then have "c \<noteq> 13 \<and> c \<noteq> 10" if "c \<in> set s" for c using that by (auto simp: one_line_def)
  then have "takeWhile (\<lambda>c. c \<noteq> 13 \<and> c \<noteq> 10) (s @ 10 # r) = s"
    "dropWhile (\<lambda>c. c \<noteq> 13 \<and> c \<noteq> 10) (s @ 10 # r) = 10 # r"
    by (simp_all add: takeWhile_append2 dropWhile_append2)
  then show ?thesis by (simp add: next_line_def)
qed

lemma ascii_simps [simp]: "ascii [] = []" "ascii (c # s) = of_char c # ascii s"
  by (simp_all add: ascii_def)

lemma lines_LF:
  assumes "one_line s" "process_line ucd s f = Inr (ev, f')"
  shows "sse_lines ucd f (s @ 10 # r) =
    (case sse_lines ucd f' r of (evs, g, rest, err) \<Rightarrow> ((case ev of None \<Rightarrow> [] | Some e \<Rightarrow> [e]) @ evs, g, rest, err))"
  using next_line_LF [OF assms(1), of r] by (subst sse_lines.simps) (simp add: assms(2) split: prod.splits)

lemma process_field:
  "process_line ucd (ascii ''event'' @ [58, 32] @ val) f = Inr (None, f\<lparr>sf_event := Some val\<rparr>)"
  "process_line ucd (ascii ''data'' @ [58, 32] @ val) f = Inr (None, f\<lparr>sf_data := sf_data f @ [val]\<rparr>)"
  by (simp_all add: process_line_def partition_colon_def sse_field_def)

lemma one_line_field: "one_line val \<Longrightarrow> one_line (ascii ''event'' @ [58, 32] @ val)"
  "one_line val \<Longrightarrow> one_line (ascii ''data'' @ [58, 32] @ val)"
  by (simp_all add: one_line_def)

lemma data_lines:
  assumes "list_all one_line data"
  shows "sse_lines ucd f (concat (map (field_line ''data'') data) @ r)
    = sse_lines ucd (f\<lparr>sf_data := sf_data f @ data\<rparr>) r"
  using assms
proof (induction data arbitrary: f)
  case (Cons d data)
  have "sse_lines ucd f (field_line ''data'' d @ s) = sse_lines ucd (f\<lparr>sf_data := sf_data f @ [d]\<rparr>) s" for s
    using lines_LF [OF one_line_field(2) process_field(2), of d ucd f s] Cons.prems
    by (simp add: field_line_def split: prod.splits)
  with Cons show ?case by simp
qed simp

lemma event_lines:
  assumes "list_all one_line data" "pred_option one_line ev" "data \<noteq> [] \<or> ev \<noteq> None"
  shows "sse_lines ucd no_fields (render_event ev data) =
    ([\<lparr>ev_event = or_message ev, ev_data = join_lines data, ev_id = None, ev_retry = None\<rparr>],
     no_fields, [], False)"
proof -
  let ?f = "\<lparr>sf_event = ev, sf_data = data, sf_id = None, sf_retry = None\<rparr>"
  have tail: "sse_lines ucd (\<lparr>sf_event = ev, sf_data = [], sf_id = None, sf_retry = None\<rparr>)
      (concat (map (field_line ''data'') data) @ [10]) = sse_lines ucd ?f [10]"
    using data_lines [OF assms(1)] by simp
  have nil: "sse_lines ucd g [] = ([], g, [], False)" for g
    by (subst sse_lines.simps) (simp add: next_line_def)
  have "process_line ucd [] ?f = Inr (Some \<lparr>ev_event = or_message ev, ev_data = join_lines data,
      ev_id = None, ev_retry = None\<rparr>, no_fields)"
    using assms(3) by (auto simp: process_line_def sse_dispatch_def)
  from lines_LF [OF _ this, of "[]"]
  have fin: "sse_lines ucd ?f [10] = ([\<lparr>ev_event = or_message ev, ev_data = join_lines data,
      ev_id = None, ev_retry = None\<rparr>], no_fields, [], False)"
    by (simp add: one_line_def nil)
  show ?thesis
  proof (cases ev)
    case None
    with tail fin show ?thesis by (simp add: render_event_def no_fields_def)
  next
    case (Some e)
    with assms(2) have "one_line e" by simp
    from lines_LF [OF one_line_field(1) [OF this] process_field(1), of ucd no_fields]
    show ?thesis using tail fin Some by (simp add: render_event_def field_line_def no_fields_def)
  qed
qed

text \<open>A rendered event, encoded, cut anywhere and fed to a new parser, comes back.\<close>

lemma event_roundtrip:
  assumes "list_all one_line data" "pred_option one_line ev" "data \<noteq> [] \<or> ev \<noteq> None"
    and enc: "utf8_encode (render_event ev data) = Some bs"
    and cs: "[] \<notin> set cs" "concat cs = bs"
  shows "sse_run ucd cs new_sse =
    Some ([\<lparr>ev_event = or_message ev, ev_data = join_lines data, ev_id = None, ev_retry = None\<rparr>], new_sse)"
proof -
  have "utf8_scan bs = (render_event ev data, [])" by (rule utf8_roundtrip [OF enc])
  then have push: "sse_push ucd new_sse bs =
      Some ([\<lparr>ev_event = or_message ev, ev_data = join_lines data, ev_id = None, ev_retry = None\<rparr>], new_sse)"
    using event_lines [OF assms(1-3), of ucd]
    by (simp add: sse_push_def utf8_decode_def sse_feed_text_def new_sse_def)
  have "bs \<noteq> []"
  proof
    assume "bs = []"
    moreover have "render_event ev data \<noteq> []" by (simp add: render_event_def)
    ultimately show False
      using \<open>utf8_scan bs = (render_event ev data, [])\<close>
      by (simp add: utf8_scan.simps [of "[]"] utf8_head_def)
  qed
  then have "cs \<noteq> []" using cs by auto
  with cs push show ?thesis
    by (simp add: sse_run_chunks sse_machine.run_concat)
qed

end
