(* ===== verification/AccBase.thy ===== *)
theory AccBase
  imports Effects Sse
begin

text \<open>
  What the three accumulators of \<open>src/interceptor/stream/accumulators/\<close> share: the content block
  they build (the fields of \<open>ContentBlock\<close>, any of which may hold whatever JSON value the provider
  sent), the usage counters, and turning a chunk into events. \<open>json.loads\<close> is the parameter
  \<open>loads\<close>, \<^const>\<open>None\<close> being a \<open>JSONDecodeError\<close>.
\<close>

record acc_block =
  ab_index :: int
  ab_type :: json
  ab_text :: json
  ab_tool_id :: json
  ab_tool_name :: json
  ab_partial_json :: json
  ab_parsed_input :: json

definition new_block :: "int \<Rightarrow> json \<Rightarrow> acc_block" where
  "new_block i t = \<lparr>ab_index = i, ab_type = t, ab_text = JNull, ab_tool_id = JNull,
     ab_tool_name = JNull, ab_partial_json = JNull, ab_parsed_input = JNull\<rparr>"

definition acc_block_to_dict :: "acc_block \<Rightarrow> jdict" where
  "acc_block_to_dict b =
     [(''index'', JInt (ab_index b)), (''block_type'', ab_type b), (''text'', ab_text b),
      (''tool_id'', ab_tool_id b), (''tool_name'', ab_tool_name b),
      (''partial_json'', ab_partial_json b), (''parsed_input'', ab_parsed_input b)]"

record accumulator =
  ac_parser :: sse
  ac_usage :: jdict
  ac_stop :: json
  ac_done :: bool

definition zero_usage :: jdict where
  "zero_usage = [(''input_tokens'', JInt 0), (''output_tokens'', JInt 0),
     (''cache_creation_input_tokens'', JInt 0), (''cache_read_input_tokens'', JInt 0),
     (''reasoning_tokens'', JInt 0)]"

definition TEXT :: json where "TEXT = JStr ''text''"
definition TOOL_USE :: json where "TOOL_USE = JStr ''tool_use''"
definition THINKING :: json where "THINKING = JStr ''thinking''"

text \<open>\<open>if k in u: self._usage.f = u[k]\<close>.\<close>

definition set_usage :: "string \<Rightarrow> json \<Rightarrow> ('a accumulator_scheme, unit) op" where
  "set_usage f v = op_modify (\<lambda>a. a\<lparr>ac_usage := AList.update f v (ac_usage a)\<rparr>)"

definition copy_usage :: "json \<Rightarrow> string \<Rightarrow> string \<Rightarrow> ('a accumulator_scheme, unit) op" where
  "copy_usage u k f =
     op_bind (op_lift (py_in k u)) (\<lambda>present.
       if present then op_bind (op_lift (py_item u k)) (set_usage f) else op_return ())"

definition feed_parser :: "ucd \<Rightarrow> bytes \<Rightarrow> ('a accumulator_scheme, sse_event list) op" where
  "feed_parser ucd chunk a =
     (let (r, p) = sse_feed ucd chunk (ac_parser a) in (r, a\<lparr>ac_parser := p\<rparr>))"

definition close_parser :: "ucd \<Rightarrow> ('a accumulator_scheme, sse_event list) op" where
  "close_parser ucd a =
     (let (r, p) = sse_close ucd (ac_parser a) in (r, a\<lparr>ac_parser := p\<rparr>))"

definition mark_done :: "('a accumulator_scheme, unit) op" where
  "mark_done = op_modify (\<lambda>a. a\<lparr>ac_done := True\<rparr>)"

text \<open>The input of a tool call from its stitched fragments.\<close>

definition tool_input :: "(ustring \<Rightarrow> json option) \<Rightarrow> string \<Rightarrow> json" where
  "tool_input loads s =
     (if s = [] then JObj []
      else case loads (ascii s) of Some j \<Rightarrow> j | None \<Rightarrow> JObj [(''_raw'', JStr s)])"

definition parse_tool_json :: "(ustring \<Rightarrow> json option) \<Rightarrow> acc_block \<Rightarrow> acc_block res" where
  "parse_tool_json loads b =
     (case ab_partial_json b of
        JStr s \<Rightarrow> Inr (b\<lparr>ab_parsed_input := tool_input loads s\<rparr>)
      | JNull \<Rightarrow> Inr b
      | _ \<Rightarrow> Inl TypeError)"

text \<open>\<open>block.text = (block.text or "") + s\<close>.\<close>

definition append_text :: "json \<Rightarrow> acc_block \<Rightarrow> acc_block res" where
  "append_text s b = rbind (py_add (py_or (ab_text b) (JStr [])) s) (\<lambda>t. Inr (b\<lparr>ab_text := t\<rparr>))"

definition append_json :: "json \<Rightarrow> acc_block \<Rightarrow> acc_block res" where
  "append_json s b =
     rbind (py_add (py_or (ab_partial_json b) (JStr [])) s) (\<lambda>t. Inr (b\<lparr>ab_partial_json := t\<rparr>))"

lemma append_text_str:
  "ab_text b = JStr t \<or> ab_text b = JNull \<and> t = [] \<Longrightarrow>
     append_text (JStr s) b = Inr (b\<lparr>ab_text := JStr (t @ s)\<rparr>)"
  by (auto simp: append_text_def py_or_def)

lemma append_json_str:
  "ab_partial_json b = JStr t \<or> ab_partial_json b = JNull \<and> t = [] \<Longrightarrow>
     append_json (JStr s) b = Inr (b\<lparr>ab_partial_json := JStr (t @ s)\<rparr>)"
  by (auto simp: append_json_def py_or_def)

subsection \<open>Accumulators as stream consumers\<close>

text \<open>
  An operation on an accumulator that neither reads nor writes its parser. The contract of a
  provider is that its event handler is one; its client is the proxy, which cuts the response
  body wherever the network does.
\<close>

definition parser_free :: "('a accumulator_scheme, 'b) op \<Rightarrow> bool" where
  "parser_free m \<longleftrightarrow> (\<forall>a p. m (a\<lparr>ac_parser := p\<rparr>) = (fst (m a), (snd (m a))\<lparr>ac_parser := p\<rparr>))"

named_theorems parser_free_intros \<open>closure rules for operations that leave the parser alone\<close>

lemma parser_freeD: "parser_free m \<Longrightarrow> m a = (r, a') \<Longrightarrow> m (a\<lparr>ac_parser := p\<rparr>) = (r, a'\<lparr>ac_parser := p\<rparr>)"
  by (simp add: parser_free_def)

lemma parser_free_basic [parser_free_intros]:
  "parser_free (op_return x)" "parser_free (op_lift r)" "parser_free mark_done" "parser_free (set_usage f v)"
  by (simp_all add: parser_free_def op_defs mark_done_def set_usage_def)

lemma parser_free_bind [parser_free_intros]:
  assumes "parser_free m" "\<And>x. parser_free (f x)"
  shows "parser_free (op_bind m f)"
  unfolding parser_free_def
proof (intro allI)
  fix a p
  obtain r a' where m: "m a = (r, a')" by fastforce
  with parser_freeD [OF assms(1) m, of p] assms(2)
  show "op_bind m f (a\<lparr>ac_parser := p\<rparr>) = (fst (op_bind m f a), (snd (op_bind m f a))\<lparr>ac_parser := p\<rparr>)"
    by (cases r) (auto simp: op_bind_def parser_free_def)
qed

lemma parser_free_seq [parser_free_intros]: "parser_free m \<Longrightarrow> parser_free n \<Longrightarrow> parser_free (op_seq m n)"
  by (simp add: op_seq_def parser_free_intros)

lemma parser_free_when [parser_free_intros]: "parser_free m \<Longrightarrow> parser_free (op_when b m)"
  by (simp add: op_when_def parser_free_intros)

lemma parser_free_each [parser_free_intros]: "(\<And>x. parser_free (f x)) \<Longrightarrow> parser_free (op_each f xs)"
  by (induction xs) (simp_all add: parser_free_intros)

lemma parser_free_if [parser_free_intros]:
  "(b \<Longrightarrow> parser_free m) \<Longrightarrow> (\<not> b \<Longrightarrow> parser_free n) \<Longrightarrow> parser_free (if b then m else n)"
  by simp

lemma parser_free_copy [parser_free_intros]: "parser_free (copy_usage u k f)"
  by (simp add: copy_usage_def parser_free_intros)

lemma parser_free_get [parser_free_intros]: "(\<And>a p. g (a\<lparr>ac_parser := p\<rparr>) = g a) \<Longrightarrow> parser_free (op_get g)"
  by (simp add: parser_free_def op_get_def)

definition acc_push :: "ucd \<Rightarrow> (sse_event \<Rightarrow> ('a accumulator_scheme, unit) op) \<Rightarrow> 'a accumulator_scheme
    \<Rightarrow> bytes \<Rightarrow> (unit list \<times> 'a accumulator_scheme) option" where
  "acc_push ucd handle a chunk =
     (case sse_push ucd (ac_parser a) chunk of
        None \<Rightarrow> None
      | Some (evs, p) \<Rightarrow> each_step handle (a\<lparr>ac_parser := p\<rparr>) evs)"

locale event_accumulator =
  fixes handle :: "sse_event \<Rightarrow> ('a accumulator_scheme, unit) op"
  assumes frame: "parser_free (handle ev)"
begin

lemma each_parser:
  "each_step handle (a\<lparr>ac_parser := p\<rparr>) evs =
     (case each_step handle a evs of None \<Rightarrow> None | Some (us, a') \<Rightarrow> Some (us, a'\<lparr>ac_parser := p\<rparr>))"
proof -
  have free: "parser_free (op_each handle evs)" by (intro parser_free_intros frame)
  obtain r a' where e: "op_each handle evs a = (r, a')" by fastforce
  from parser_freeD [OF free e, of p] e show ?thesis by (cases r) (simp_all add: each_step_def)
qed

lemma push_append:
  "acc_push ucd handle a (x @ y) =
     (case acc_push ucd handle a x of
        None \<Rightarrow> None
      | Some (us, a') \<Rightarrow>
          (case acc_push ucd handle a' y of None \<Rightarrow> None | Some (us', a'') \<Rightarrow> Some (us @ us', a'')))"
  by (auto simp: acc_push_def sse_machine.step_append each.step_append each_parser split: option.splits)

end

sublocale event_accumulator \<subseteq> chunk_machine "acc_push ucd handle" for ucd
  by unfold_locales (rule push_append)

text \<open>A response fed chunk by chunk, as long as nothing raises.\<close>

definition acc_feed :: "ucd \<Rightarrow> (sse_event \<Rightarrow> ('a accumulator_scheme, unit) op) \<Rightarrow> bytes
    \<Rightarrow> ('a accumulator_scheme, unit) op" where
  "acc_feed ucd handle chunk = op_bind (feed_parser ucd chunk) (op_each handle)"

lemma acc_feed_push:
  assumes "chunk \<noteq> []"
  shows "acc_push ucd handle a chunk =
    (case acc_feed ucd handle chunk a of (Inl _, _) \<Rightarrow> None | (Inr _, a') \<Rightarrow> Some ([], a'))"
  using assms
  by (auto simp: acc_push_def acc_feed_def feed_parser_def sse_feed_def sse_push_def each_step_def op_bind_def
      Let_def split: prod.splits sum.splits option.splits)

end
