(* ===== verification/AnthropicAcc.thy ===== *)
theory AnthropicAcc
  imports AccBase
begin

text \<open>
  \<open>src/interceptor/stream/accumulators/anthropic.py\<close>: content blocks by index, built from the
  start, delta and stop events of the Messages API. A block index that is not an integer is
  outside the model.
\<close>

record anthropic_acc = accumulator +
  aa_blocks :: "(int, acc_block) dict"

definition new_anthropic :: anthropic_acc where
  "new_anthropic = \<lparr>ac_parser = new_sse, ac_usage = zero_usage, ac_stop = JNull, ac_done = False,
     aa_blocks = []\<rparr>"

type_synonym aop = "(anthropic_acc, unit) op"

definition put_block :: "acc_block \<Rightarrow> aop" where
  "put_block b = op_modify (\<lambda>a. a\<lparr>aa_blocks := AList.update (ab_index b) b (aa_blocks a)\<rparr>)"

definition update_block :: "int \<Rightarrow> (acc_block \<Rightarrow> acc_block res) \<Rightarrow> aop" where
  "update_block i f a =
     (case map_of (aa_blocks a) i of
        None \<Rightarrow> (Inl (KeyError ''index''), a)
      | Some b \<Rightarrow>
          (case f b of
             Inl e \<Rightarrow> (Inl e, a)
           | Inr b' \<Rightarrow> (Inr (), a\<lparr>aa_blocks := AList.update i b' (aa_blocks a)\<rparr>)))"

definition handle_message_start :: "json \<Rightarrow> aop" where
  "handle_message_start data =
     op_bind (op_lift (py_get data ''message'' (JObj []))) (\<lambda>msg.
     op_bind (op_lift (py_get msg ''usage'' (JObj []))) (\<lambda>u.
       op_seq (copy_usage u ''input_tokens'' ''input_tokens'')
       (op_seq (copy_usage u ''cache_creation_input_tokens'' ''cache_creation_input_tokens'')
         (copy_usage u ''cache_read_input_tokens'' ''cache_read_input_tokens''))))"

definition started_block :: "int \<Rightarrow> json \<Rightarrow> json \<Rightarrow> acc_block res" where
  "started_block i info b_type =
     (if b_type = TEXT then
        rbind (py_get info ''text'' (JStr [])) (\<lambda>t.
          Inr ((new_block i TEXT)\<lparr>ab_text := py_or t (JStr [])\<rparr>))
      else if b_type = TOOL_USE then
        rbind (py_get info ''id'' JNull) (\<lambda>cid. rbind (py_get info ''name'' JNull) (\<lambda>n.
          Inr ((new_block i TOOL_USE)\<lparr>ab_tool_id := cid, ab_tool_name := n,
                                        ab_partial_json := JStr []\<rparr>)))
      else if b_type = THINKING then
        rbind (py_get info ''thinking'' (JStr [])) (\<lambda>t.
          Inr ((new_block i THINKING)\<lparr>ab_text := py_or t (JStr [])\<rparr>))
      else
        rbind (py_get info ''text'' JNull) (\<lambda>t. Inr ((new_block i b_type)\<lparr>ab_text := t\<rparr>)))"

definition handle_content_block_start :: "json \<Rightarrow> aop" where
  "handle_content_block_start data =
     op_bind (op_get (\<lambda>a. JInt (int (length (aa_blocks a))))) (\<lambda>n.
     op_bind (op_lift (rbind (py_get data ''index'' n) (as_int ''index''))) (\<lambda>i.
     op_bind (op_lift (py_get data ''content_block'' (JObj []))) (\<lambda>info.
     op_bind (op_lift (py_get info ''type'' TEXT)) (\<lambda>b_type.
     op_bind (op_lift (started_block i info b_type)) put_block))))"

text \<open>The block a delta goes to when its start was missed.\<close>

definition missing_block :: "int \<Rightarrow> json \<Rightarrow> acc_block" where
  "missing_block i d_type =
     (if d_type = JStr ''input_json_delta'' then (new_block i TOOL_USE)\<lparr>ab_partial_json := JStr []\<rparr>
      else if d_type = JStr ''thinking_delta'' then (new_block i THINKING)\<lparr>ab_text := JStr []\<rparr>
      else (new_block i TEXT)\<lparr>ab_text := JStr []\<rparr>)"

definition apply_delta :: "json \<Rightarrow> json \<Rightarrow> acc_block \<Rightarrow> acc_block res" where
  "apply_delta delta d_type b =
     (if d_type = JStr ''text_delta'' then
        rbind (py_get delta ''text'' (JStr [])) (\<lambda>s. append_text s b)
      else if d_type = JStr ''thinking_delta'' then
        rbind (py_get delta ''thinking'' (JStr [])) (\<lambda>s. append_text s b)
      else if d_type = JStr ''input_json_delta'' then
        rbind (py_get delta ''partial_json'' (JStr [])) (\<lambda>s. append_json s b)
      else Inr b)"

definition handle_content_block_delta :: "json \<Rightarrow> aop" where
  "handle_content_block_delta data =
     op_bind (op_lift (rbind (py_get data ''index'' (JInt 0)) (as_int ''index''))) (\<lambda>i.
     op_bind (op_lift (py_get data ''delta'' (JObj []))) (\<lambda>delta.
     op_bind (op_lift (py_get delta ''type'' JNull)) (\<lambda>d_type.
     op_bind (op_get (\<lambda>a. map_of (aa_blocks a) i)) (\<lambda>present.
       op_seq (op_when (present = None) (put_block (missing_block i d_type)))
         (update_block i (apply_delta delta d_type))))))"

definition handle_content_block_stop :: "(ustring \<Rightarrow> json option) \<Rightarrow> json \<Rightarrow> aop" where
  "handle_content_block_stop loads data =
     op_bind (op_lift (rbind (py_get data ''index'' (JInt 0)) (as_int ''index''))) (\<lambda>i.
     op_bind (op_get (\<lambda>a. map_of (aa_blocks a) i)) (\<lambda>present.
       case present of
         None \<Rightarrow> op_return ()
       | Some b \<Rightarrow>
           op_when (ab_type b = TOOL_USE \<and> ab_partial_json b \<noteq> JNull)
             (update_block i (parse_tool_json loads))))"

definition handle_message_delta :: "json \<Rightarrow> aop" where
  "handle_message_delta data =
     op_bind (op_lift (py_get data ''delta'' (JObj []))) (\<lambda>delta.
     op_bind (op_lift (py_in ''stop_reason'' delta)) (\<lambda>has.
     op_seq
       (if has then
          op_bind (op_lift (py_item delta ''stop_reason'')) (\<lambda>r.
            op_when (r \<noteq> JNull) (op_modify (\<lambda>a. a\<lparr>ac_stop := r\<rparr>)))
        else op_return ())
     (op_bind (op_lift (py_get data ''usage'' (JObj []))) (\<lambda>u.
        copy_usage u ''output_tokens'' ''output_tokens''))))"

definition unparsed :: "acc_block \<Rightarrow> bool" where
  "unparsed b \<longleftrightarrow> ab_type b = TOOL_USE \<and> ab_parsed_input b = JNull \<and> ab_partial_json b \<noteq> JNull"

definition anthropic_finalize :: "(ustring \<Rightarrow> json option) \<Rightarrow> aop" where
  "anthropic_finalize loads =
     op_bind (op_get (\<lambda>a. dict_keys (aa_blocks a)))
       (op_each (\<lambda>i. update_block i (\<lambda>b. if unparsed b then parse_tool_json loads b else Inr b)))"

definition handle_event :: "(ustring \<Rightarrow> json option) \<Rightarrow> ustring \<Rightarrow> json \<Rightarrow> aop" where
  "handle_event loads event_type data =
     (if event_type = ascii ''message_start'' then handle_message_start data
      else if event_type = ascii ''content_block_start'' then handle_content_block_start data
      else if event_type = ascii ''content_block_delta'' then handle_content_block_delta data
      else if event_type = ascii ''content_block_stop'' then handle_content_block_stop loads data
      else if event_type = ascii ''message_delta'' then handle_message_delta data
      else if event_type = ascii ''message_stop'' then op_seq (anthropic_finalize loads) mark_done
      else op_return ())"

text \<open>\<open>ev.event or data.get("type", "")\<close>.\<close>

definition event_type :: "sse_event \<Rightarrow> json \<Rightarrow> ustring res" where
  "event_type ev data =
     (if ev_event ev \<noteq> [] then Inr (ev_event ev)
      else rbind (py_get data ''type'' (JStr [])) (\<lambda>t. Inr (case t of JStr s \<Rightarrow> ascii s | _ \<Rightarrow> [])))"

definition anthropic_event :: "(ustring \<Rightarrow> json option) \<Rightarrow> sse_event \<Rightarrow> aop" where
  "anthropic_event loads ev =
     (if ev_data ev = [] \<or> ev_event ev = ascii ''ping'' then op_return ()
      else case loads (ev_data ev) of
             None \<Rightarrow> op_return ()
           | Some data \<Rightarrow> op_bind (op_lift (event_type ev data)) (\<lambda>t. handle_event loads t data))"

definition anthropic_feed :: "ucd \<Rightarrow> (ustring \<Rightarrow> json option) \<Rightarrow> bytes \<Rightarrow> aop" where
  "anthropic_feed ucd loads chunk =
     (if chunk = [] then
        op_bind (close_parser ucd) (\<lambda>evs.
          op_seq (op_each (anthropic_event loads) evs)
            (op_seq (anthropic_finalize loads) mark_done))
      else op_bind (feed_parser ucd chunk) (op_each (anthropic_event loads)))"

definition anthropic_content_blocks :: "anthropic_acc \<Rightarrow> acc_block list" where
  "anthropic_content_blocks a =
     List.map_filter (map_of (aa_blocks a)) (sort (dict_keys (aa_blocks a)))"

subsection \<open>Chunk boundaries\<close>

lemma parser_free_blocks [parser_free_intros]:
  "parser_free (put_block b)" "parser_free (update_block i f)"
  "parser_free (op_modify (\<lambda>a. a\<lparr>ac_stop := r\<rparr> :: anthropic_acc))"
  by (auto simp: parser_free_def put_block_def update_block_def op_modify_def split: option.splits sum.splits)

lemma parser_free_handlers [parser_free_intros]:
  "parser_free (handle_message_start d)" "parser_free (handle_content_block_start d)"
  "parser_free (handle_content_block_delta d)" "parser_free (handle_content_block_stop loads d)"
  "parser_free (handle_message_delta d)" "parser_free (anthropic_finalize loads)"
  by (auto simp: handle_message_start_def handle_content_block_start_def handle_content_block_delta_def
      handle_content_block_stop_def handle_message_delta_def anthropic_finalize_def
      intro!: parser_free_intros split: option.splits)

interpretation anthropic: event_accumulator "anthropic_event loads" for loads
proof
  show "parser_free (anthropic_event loads ev)" for ev
    by (auto simp: anthropic_event_def handle_event_def intro!: parser_free_intros split: option.splits)
qed

subsection \<open>Blocks\<close>

definition anthropic_wf :: "anthropic_acc \<Rightarrow> bool" where
  "anthropic_wf a \<longleftrightarrow> dict_wf (aa_blocks a) \<and> (\<forall>i b. map_of (aa_blocks a) i = Some b \<longrightarrow> ab_index b = i)"

lemma parse_tool_index: "parse_tool_json loads b = Inr b' \<Longrightarrow> ab_index b' = ab_index b"
  by (auto simp: parse_tool_json_def split: json.splits)

lemma append_index:
  "append_text s b = Inr b' \<Longrightarrow> ab_index b' = ab_index b"
  "append_json s b = Inr b' \<Longrightarrow> ab_index b' = ab_index b"
  by (auto simp: append_text_def append_json_def rbind_eq_Inr)

lemma delta_index: "apply_delta delta t b = Inr b' \<Longrightarrow> ab_index b' = ab_index b"
  by (auto simp: apply_delta_def rbind_eq_Inr append_index split: if_splits)

lemma keeps_put [keeps]: "op_keeps anthropic_wf (put_block b)"
  by (auto simp: put_block_def anthropic_wf_def intro!: keeps_modify)

lemma keeps_update [keeps]:
  "(\<And>b b'. f b = Inr b' \<Longrightarrow> ab_index b' = ab_index b) \<Longrightarrow> op_keeps anthropic_wf (update_block i f)"
  by (auto simp: update_block_def anthropic_wf_def intro!: op_keepsI split: option.splits sum.splits)

lemma anthropic_keeps_frame [keeps]:
  "op_keeps anthropic_wf (set_usage f v)" "op_keeps anthropic_wf mark_done"
  "op_keeps anthropic_wf (op_modify (\<lambda>a. a\<lparr>ac_stop := r\<rparr>))"
  "op_keeps anthropic_wf (feed_parser ucd chunk)" "op_keeps anthropic_wf (close_parser ucd)"
  by (auto simp: set_usage_def mark_done_def feed_parser_def close_parser_def anthropic_wf_def op_modify_def
      intro!: op_keepsI split: prod.splits)

lemma anthropic_keeps_copy [keeps]: "op_keeps anthropic_wf (copy_usage u k f)"
  by (auto simp: copy_usage_def intro!: keeps)

lemma keeps_handlers [keeps]:
  "op_keeps anthropic_wf (handle_message_start d)" "op_keeps anthropic_wf (handle_content_block_start d)"
  "op_keeps anthropic_wf (handle_content_block_delta d)" "op_keeps anthropic_wf (handle_content_block_stop loads d)"
  "op_keeps anthropic_wf (handle_message_delta d)" "op_keeps anthropic_wf (anthropic_finalize loads)"
  by (auto simp: handle_message_start_def handle_content_block_start_def handle_content_block_delta_def
      handle_content_block_stop_def handle_message_delta_def anthropic_finalize_def
      intro!: keeps dest: parse_tool_index delta_index split: option.splits if_splits)

lemma keeps_event [keeps]: "op_keeps anthropic_wf (anthropic_event loads ev)"
  by (auto simp: anthropic_event_def handle_event_def intro!: keeps split: option.splits)

lemma feed_wf: "op_keeps anthropic_wf (anthropic_feed ucd loads chunk)"
  by (auto simp: anthropic_feed_def intro!: keeps)

lemma new_anthropic_wf: "anthropic_wf new_anthropic"
  by (simp add: anthropic_wf_def new_anthropic_def)

lemma content_blocks_sorted:
  assumes "anthropic_wf a"
  shows "map ab_index (anthropic_content_blocks a) = sort (dict_keys (aa_blocks a))
    \<and> sorted_wrt (<) (map ab_index (anthropic_content_blocks a))"
proof -
  have "map ab_index (List.map_filter (map_of (aa_blocks a)) ks) = ks" if "set ks \<subseteq> set (dict_keys (aa_blocks a))" for ks
    using that
  proof (induction ks)
    case (Cons k ks)
    then have "k \<in> fst ` set (aa_blocks a)" by (auto simp: dict_keys_def)
    then obtain b where b: "map_of (aa_blocks a) k = Some b"
      by (metis domD dom_map_of_conv_image_fst)
    then have "ab_index b = k" using assms by (simp add: anthropic_wf_def)
    with Cons b show ?case by (simp add: map_filter_def)
  qed (simp add: map_filter_def)
  then have "map ab_index (anthropic_content_blocks a) = sort (dict_keys (aa_blocks a))"
    by (simp add: anthropic_content_blocks_def)
  moreover have "distinct (dict_keys (aa_blocks a))" using assms by (simp add: anthropic_wf_def dict_wf_def dict_keys_def)
  ultimately show ?thesis by (simp add: strict_sorted_iff)
qed

subsection \<open>Stitching a tool call\<close>

definition tool_start :: "int \<Rightarrow> json \<Rightarrow> json \<Rightarrow> json" where
  "tool_start i cid name = JObj [(''index'', JInt i), (''content_block'',
     JObj [(''type'', TOOL_USE), (''id'', cid), (''name'', name)])]"

definition json_delta :: "int \<Rightarrow> string \<Rightarrow> json" where
  "json_delta i s = JObj [(''index'', JInt i), (''delta'',
     JObj [(''type'', JStr ''input_json_delta''), (''partial_json'', JStr s)])]"

definition block_stop :: "int \<Rightarrow> json" where
  "block_stop i = JObj [(''index'', JInt i)]"

lemma start_tool:
  "handle_content_block_start (tool_start i cid name) a =
     (Inr (), a\<lparr>aa_blocks := AList.update i ((new_block i TOOL_USE)\<lparr>ab_tool_id := cid, ab_tool_name := name,
        ab_partial_json := JStr []\<rparr>) (aa_blocks a)\<rparr>)"
  by (simp add: handle_content_block_start_def tool_start_def op_defs dict_get_def started_block_def
      TOOL_USE_def TEXT_def put_block_def new_block_def)

lemma delta_tool:
  assumes "map_of (aa_blocks a) i = Some b" "ab_partial_json b = JStr s"
  shows "handle_content_block_delta (json_delta i f) a =
    (Inr (), a\<lparr>aa_blocks := AList.update i (b\<lparr>ab_partial_json := JStr (s @ f)\<rparr>) (aa_blocks a)\<rparr>)"
  using append_json_str [of b s f] assms
  by (simp add: handle_content_block_delta_def json_delta_def op_defs dict_get_def update_block_def
      apply_delta_def)

lemma deltas_tool:
  assumes "map_of (aa_blocks a) i = Some b" "ab_partial_json b = JStr s"
  shows "op_each (\<lambda>f. handle_content_block_delta (json_delta i f)) fs a =
    (Inr (), if fs = [] then a
             else a\<lparr>aa_blocks := AList.update i (b\<lparr>ab_partial_json := JStr (s @ concat fs)\<rparr>) (aa_blocks a)\<rparr>)"
  using assms
proof (induction fs arbitrary: a b s)
  case Nil
  then show ?case by (simp add: op_defs)
next
  case (Cons f fs)
  let ?b = "b\<lparr>ab_partial_json := JStr (s @ f)\<rparr>"
  let ?a = "a\<lparr>aa_blocks := AList.update i ?b (aa_blocks a)\<rparr>"
  have "map_of (aa_blocks ?a) i = Some ?b" "ab_partial_json ?b = JStr (s @ f)" by simp_all
  note IH = Cons.IH [OF this]
  show ?case using delta_tool [OF Cons.prems, of f] IH by (simp add: op_seq_def op_bind_def)
qed

lemma stop_tool:
  assumes "map_of (aa_blocks a) i = Some b" "ab_partial_json b = JStr s" "ab_type b = TOOL_USE"
  shows "handle_content_block_stop loads (block_stop i) a =
    (Inr (), a\<lparr>aa_blocks := AList.update i (b\<lparr>ab_parsed_input := tool_input loads s\<rparr>) (aa_blocks a)\<rparr>)"
  using assms
  by (simp add: handle_content_block_stop_def block_stop_def op_defs dict_get_def update_block_def
      parse_tool_json_def)

lemma stitched:
  "op_seq (handle_content_block_start (tool_start i cid name))
     (op_seq (op_each (\<lambda>f. handle_content_block_delta (json_delta i f)) fs)
       (handle_content_block_stop loads (block_stop i))) a =
   (Inr (), a\<lparr>aa_blocks := AList.update i
      \<lparr>ab_index = i, ab_type = TOOL_USE, ab_text = JNull, ab_tool_id = cid, ab_tool_name = name,
       ab_partial_json = JStr (concat fs), ab_parsed_input = tool_input loads (concat fs)\<rparr> (aa_blocks a)\<rparr>)"
proof -
  let ?b = "(new_block i TOOL_USE)\<lparr>ab_tool_id := cid, ab_tool_name := name, ab_partial_json := JStr []\<rparr>"
  let ?a = "a\<lparr>aa_blocks := AList.update i ?b (aa_blocks a)\<rparr>"
  let ?c = "?b\<lparr>ab_partial_json := JStr (concat fs)\<rparr>"
  have "op_each (\<lambda>f. handle_content_block_delta (json_delta i f)) fs ?a =
      (Inr (), a\<lparr>aa_blocks := AList.update i ?c (aa_blocks a)\<rparr>)"
    using deltas_tool [of ?a i ?b "[]" fs] by (auto simp: new_block_def)
  moreover have "handle_content_block_stop loads (block_stop i) (a\<lparr>aa_blocks := AList.update i ?c (aa_blocks a)\<rparr>)
      = (Inr (), a\<lparr>aa_blocks := AList.update i (?c\<lparr>ab_parsed_input := tool_input loads (concat fs)\<rparr>) (aa_blocks a)\<rparr>)"
    using stop_tool [of "a\<lparr>aa_blocks := AList.update i ?c (aa_blocks a)\<rparr>" i ?c "concat fs" loads]
    by (simp add: new_block_def)
  ultimately show ?thesis by (simp add: op_seq_def op_bind_def start_tool) (simp add: new_block_def)
qed

subsection \<open>Events without a name\<close>

text \<open>The parser never leaves the name of an event empty, so the type in the data is not looked at.\<close>

lemma unnamed_event:
  assumes "ev_event ev = ascii ''message''"
  shows "anthropic_event loads ev a = (Inr (), a)"
proof -
  have "event_type ev d = Inr (ascii ''message'')" for d by (simp add: event_type_def assms)
  then show ?thesis
    by (simp add: anthropic_event_def handle_event_def op_defs split: option.splits)
qed

lemma unnamed_stream:
  assumes "list_all one_line data" "data \<noteq> []" "utf8_encode (render_event None data) = Some bs"
    and "ac_parser a = new_sse"
  shows "anthropic_feed ucd loads bs a = (Inr (), a)"
proof -
  have "utf8_scan bs = (render_event None data, [])" by (rule utf8_roundtrip [OF assms(3)])
  moreover have "render_event None data \<noteq> []" by (simp add: render_event_def)
  ultimately have ne: "bs \<noteq> []" by (auto simp: utf8_scan.simps [of "[]"] utf8_head_def)
  then have "sse_run ucd [bs] new_sse = Some ([\<lparr>ev_event = or_message None, ev_data = join_lines data,
      ev_id = None, ev_retry = None\<rparr>], new_sse)"
    using event_roundtrip [OF assms(1) _ _ assms(3), of "[bs]"] assms(2) by simp
  then have "sse_feed ucd bs new_sse = (Inr [\<lparr>ev_event = or_message None, ev_data = join_lines data,
      ev_id = None, ev_retry = None\<rparr>], new_sse)"
    by (auto split: prod.splits sum.splits)
  moreover have "a\<lparr>ac_parser := new_sse\<rparr> = a" using assms(4) by (metis accumulator.surjective accumulator.update_convs(1))
  ultimately show ?thesis using ne assms(4)
    by (simp add: anthropic_feed_def feed_parser_def op_bind_def op_seq_def unnamed_event or_message_def op_return_def)
qed

end
