(* ===== verification/OpenAiAcc.thy ===== *)
theory OpenAiAcc
  imports AccBase
begin

text \<open>
  \<open>src/interceptor/stream/accumulators/openai.py\<close>. The thinking block, the text block and the
  tool blocks are objects of the list \<open>_ordered_blocks\<close> as well: the model refers to them by
  their position in it. A tool call index that is not an integer is outside the model.
\<close>

record openai_acc = accumulator +
  oa_blocks :: "acc_block list"
  oa_thinking :: "nat option"
  oa_text :: "nat option"
  oa_tools :: "(int, nat) dict"

definition new_openai :: openai_acc where
  "new_openai = \<lparr>ac_parser = new_sse, ac_usage = zero_usage, ac_stop = JNull, ac_done = False,
     oa_blocks = [], oa_thinking = None, oa_text = None, oa_tools = []\<rparr>"

type_synonym oop = "(openai_acc, unit) op"

definition openai_usage :: "json \<Rightarrow> oop" where
  "openai_usage u =
     op_seq (copy_usage u ''prompt_tokens'' ''input_tokens'')
     (op_seq (copy_usage u ''completion_tokens'' ''output_tokens'')
     (op_bind (op_lift (py_get u ''prompt_tokens_details'' JNull)) (\<lambda>p.
      op_seq (copy_usage (py_or p (JObj [])) ''cached_tokens'' ''cache_read_input_tokens'')
     (op_bind (op_lift (py_get u ''completion_tokens_details'' JNull)) (\<lambda>c.
        copy_usage (py_or c (JObj [])) ''reasoning_tokens'' ''reasoning_tokens'')))))"

text \<open>\<open>self._ordered_blocks.append(block)\<close>, and an in-place change of the block at a position.\<close>

definition change_block :: "nat \<Rightarrow> (acc_block \<Rightarrow> acc_block res) \<Rightarrow> oop" where
  "change_block i f a =
     (case f (oa_blocks a ! i) of
        Inl e \<Rightarrow> (Inl e, a)
      | Inr b \<Rightarrow> (Inr (), a\<lparr>oa_blocks := (oa_blocks a)[i := b]\<rparr>))"

definition append_thinking :: "json \<Rightarrow> oop" where
  "append_thinking s =
     op_seq
       (op_modify (\<lambda>a. if oa_thinking a = None
          then a\<lparr>oa_blocks := oa_blocks a
                   @ [(new_block (int (length (oa_blocks a))) THINKING)\<lparr>ab_text := JStr []\<rparr>],
                 oa_thinking := Some (length (oa_blocks a))\<rparr>
          else a))
     (op_bind (op_get oa_thinking) (\<lambda>i. change_block (the i) (append_text s)))"

definition append_content :: "json \<Rightarrow> oop" where
  "append_content s =
     op_seq
       (op_modify (\<lambda>a. if oa_text a = None
          then a\<lparr>oa_blocks := oa_blocks a
                   @ [(new_block (int (length (oa_blocks a))) TEXT)\<lparr>ab_text := JStr []\<rparr>],
                 oa_text := Some (length (oa_blocks a))\<rparr>
          else a))
     (op_bind (op_get oa_text) (\<lambda>i. change_block (the i) (append_text s)))"

definition add_tool :: "int \<Rightarrow> json \<Rightarrow> json \<Rightarrow> json \<Rightarrow> oop" where
  "add_tool tc_idx call_id name args =
     op_modify (\<lambda>a. a\<lparr>oa_blocks := oa_blocks a
         @ [(new_block (int (length (oa_blocks a))) TOOL_USE)\<lparr>ab_tool_id := call_id,
              ab_tool_name := name, ab_partial_json := py_or args (JStr [])\<rparr>],
       oa_tools := AList.update tc_idx (length (oa_blocks a)) (oa_tools a)\<rparr>)"

definition set_tool_id :: "json \<Rightarrow> acc_block \<Rightarrow> acc_block res" where
  "set_tool_id c b = Inr (b\<lparr>ab_tool_id := c\<rparr>)"

definition append_name :: "json \<Rightarrow> acc_block \<Rightarrow> acc_block res" where
  "append_name n b =
     rbind (py_add (py_or (ab_tool_name b) (JStr [])) n) (\<lambda>t. Inr (b\<lparr>ab_tool_name := t\<rparr>))"

definition continue_tool :: "nat \<Rightarrow> json \<Rightarrow> json \<Rightarrow> json \<Rightarrow> oop" where
  "continue_tool i call_id name args =
     op_seq (op_when (truthy call_id) (change_block i (set_tool_id call_id)))
     (op_seq (op_when (truthy name) (change_block i (append_name name)))
       (op_when (truthy args) (change_block i (append_json args))))"

definition openai_tool_call :: "json \<Rightarrow> oop" where
  "openai_tool_call tc =
     op_bind (op_lift (rbind (py_get tc ''index'' (JInt 0)) (as_int ''index''))) (\<lambda>tc_idx.
     op_bind (op_lift (py_get tc ''function'' (JObj []))) (\<lambda>fn.
     op_bind (op_lift (py_get tc ''id'' JNull)) (\<lambda>call_id.
     op_bind (op_lift (py_get fn ''name'' JNull)) (\<lambda>name.
     op_bind (op_lift (py_get fn ''arguments'' (JStr []))) (\<lambda>args.
     op_bind (op_get (\<lambda>a. map_of (oa_tools a) tc_idx)) (\<lambda>pos.
       case pos of
         None \<Rightarrow> add_tool tc_idx call_id name args
       | Some i \<Rightarrow> continue_tool i call_id name args))))))"

definition openai_choice :: "json \<Rightarrow> oop" where
  "openai_choice choice =
     op_bind (op_lift (py_get choice ''finish_reason'' JNull)) (\<lambda>fr.
     op_seq (op_when (fr \<noteq> JNull) (op_modify (\<lambda>a. a\<lparr>ac_stop := fr\<rparr>)))
     (op_bind (op_lift (py_get choice ''delta'' (JObj []))) (\<lambda>delta.
     op_bind (op_lift (py_get delta ''reasoning_content'' JNull)) (\<lambda>reasoning.
     op_seq (op_when (reasoning \<noteq> JNull) (append_thinking reasoning))
     (op_bind (op_lift (py_get delta ''content'' JNull)) (\<lambda>content.
     op_seq (op_when (content \<noteq> JNull) (append_content content))
     (op_bind (op_lift (rbind (py_get delta ''tool_calls'' (JArr [])) py_iter))
       (op_each openai_tool_call))))))))"

definition openai_chunk :: "json \<Rightarrow> oop" where
  "openai_chunk data =
     op_bind (op_lift (py_get data ''usage'' JNull)) (\<lambda>u.
     op_seq (op_when (truthy u) (openai_usage u))
     (op_bind (op_lift (rbind (py_get data ''choices'' (JArr [])) py_iter)) (op_each openai_choice)))"

definition finish_tool :: "(ustring \<Rightarrow> json option) \<Rightarrow> acc_block \<Rightarrow> acc_block res" where
  "finish_tool loads b = (if ab_parsed_input b = JNull then parse_tool_json loads b else Inr b)"

definition openai_finalize :: "(ustring \<Rightarrow> json option) \<Rightarrow> oop" where
  "openai_finalize loads =
     op_bind (op_get (\<lambda>a. dict_values (oa_tools a))) (op_each (\<lambda>i. change_block i (finish_tool loads)))"

definition openai_event :: "(ustring \<Rightarrow> json option) \<Rightarrow> sse_event \<Rightarrow> oop" where
  "openai_event loads ev =
     (let raw = ustr_strip (ev_data ev)
      in if raw = [] then op_return ()
         else if raw = ascii ''[DONE]'' then op_seq (openai_finalize loads) mark_done
         else case loads raw of None \<Rightarrow> op_return () | Some data \<Rightarrow> openai_chunk data)"

definition openai_feed :: "ucd \<Rightarrow> (ustring \<Rightarrow> json option) \<Rightarrow> bytes \<Rightarrow> oop" where
  "openai_feed ucd loads chunk =
     (if chunk = [] then
        op_bind (close_parser ucd) (\<lambda>evs.
          op_seq (op_each (openai_event loads) evs) (op_seq (openai_finalize loads) mark_done))
      else op_bind (feed_parser ucd chunk) (op_each (openai_event loads)))"

definition openai_content_blocks :: "openai_acc \<Rightarrow> acc_block list" where
  "openai_content_blocks a = sort_key ab_index (oa_blocks a)"

subsection \<open>Chunk boundaries\<close>

lemma parser_free_change [parser_free_intros]:
  "parser_free (change_block i f)" "parser_free (add_tool t c n s)"
  "parser_free (append_thinking s)" "parser_free (append_content s)"
  "parser_free (op_modify (\<lambda>a. a\<lparr>ac_stop := r\<rparr> :: openai_acc))"
  by (auto simp: parser_free_def change_block_def add_tool_def append_thinking_def append_content_def
      op_defs split: sum.splits)

lemma parser_free_chunk [parser_free_intros]: "parser_free (openai_chunk d)" "parser_free (openai_finalize loads)"
  by (auto simp: openai_chunk_def openai_usage_def openai_choice_def openai_tool_call_def continue_tool_def
      openai_finalize_def intro!: parser_free_intros split: option.splits)

interpretation openai: event_accumulator "openai_event loads" for loads
proof
  show "parser_free (openai_event loads ev)" for ev
    by (auto simp: openai_event_def Let_def intro!: parser_free_intros split: option.splits)
qed

subsection \<open>Blocks\<close>

text \<open>
  Every block is at the position of its index, and every reference points to a block of the
  right type, each to a different one.
\<close>

definition openai_refs :: "openai_acc \<Rightarrow> nat list" where
  "openai_refs a = (case oa_thinking a of None \<Rightarrow> [] | Some i \<Rightarrow> [i])
     @ (case oa_text a of None \<Rightarrow> [] | Some i \<Rightarrow> [i]) @ dict_values (oa_tools a)"

definition openai_wf :: "openai_acc \<Rightarrow> bool" where
  "openai_wf a \<longleftrightarrow>
     map ab_index (oa_blocks a) = map int [0..<length (oa_blocks a)]
     \<and> distinct (openai_refs a) \<and> set (openai_refs a) = {..<length (oa_blocks a)}
     \<and> (\<forall>i. oa_thinking a = Some i \<longrightarrow> ab_type (oa_blocks a ! i) = THINKING)
     \<and> (\<forall>i. oa_text a = Some i \<longrightarrow> ab_type (oa_blocks a ! i) = TEXT)
     \<and> (\<forall>i\<in>set (dict_values (oa_tools a)). ab_type (oa_blocks a ! i) = TOOL_USE)"

definition shape_kept :: "(acc_block \<Rightarrow> acc_block res) \<Rightarrow> bool" where
  "shape_kept f \<longleftrightarrow> (\<forall>b b'. f b = Inr b' \<longrightarrow> ab_index b' = ab_index b \<and> ab_type b' = ab_type b)"

lemma shape_kept_all:
  "shape_kept (append_text s)" "shape_kept (append_json s)" "shape_kept (append_name s)"
  "shape_kept (set_tool_id s)" "shape_kept (finish_tool loads)"
  by (auto simp: shape_kept_def append_text_def append_json_def append_name_def set_tool_id_def
      finish_tool_def parse_tool_json_def rbind_eq_Inr split: json.splits if_splits)

lemma change_wf:
  assumes "shape_kept f" "openai_wf a"
  shows "openai_wf (snd (change_block i f a))"
proof (cases "f (oa_blocks a ! i)")
  case (Inr b)
  then have b: "ab_index b = ab_index (oa_blocks a ! i)" "ab_type b = ab_type (oa_blocks a ! i)"
    using assms(1) by (auto simp: shape_kept_def)
  have "map ab_index ((oa_blocks a)[i := b]) = map ab_index (oa_blocks a)"
    by (cases "i < length (oa_blocks a)") (simp_all add: map_update b list_update_same_conv list_update_beyond)
  moreover have "ab_type ((oa_blocks a)[i := b] ! j) = ab_type (oa_blocks a ! j)" for j
    by (cases "i < length (oa_blocks a)") (simp_all add: nth_list_update b list_update_beyond)
  moreover have "openai_refs (a\<lparr>oa_blocks := (oa_blocks a)[i := b]\<rparr>) = openai_refs a"
    by (simp add: openai_refs_def)
  ultimately show ?thesis using assms(2) Inr by (simp add: change_block_def openai_wf_def)
qed (simp add: change_block_def assms(2))

lemma keeps_change [keeps]: "shape_kept f \<Longrightarrow> op_keeps openai_wf (change_block i f)"
  by (simp add: op_keepsI change_wf)

lemma index_snoc:
  "map ab_index bs = map int [0..<length bs] \<Longrightarrow> ab_index b = int (length bs) \<Longrightarrow>
     map ab_index (bs @ [b]) = map int [0..<length (bs @ [b])]"
  by simp

lemma values_update_new: "map_of d k = None \<Longrightarrow> dict_values (AList.update k v d) = dict_values d @ [v]"
  by (simp add: dict_values_def update_new)

lemma keeps_append [keeps]:
  "op_keeps openai_wf (append_thinking s)" "op_keeps openai_wf (append_content s)"
  unfolding append_thinking_def append_content_def
  by (intro keeps keeps_modify keeps_change shape_kept_all;
      auto simp: openai_wf_def openai_refs_def nth_append new_block_def split: option.splits)+

lemma add_tool_wf:
  assumes "openai_wf a" "map_of (oa_tools a) k = None"
  shows "openai_wf (snd (add_tool k c n s a))"
  using assms by (auto simp: add_tool_def op_modify_def openai_wf_def openai_refs_def values_update_new
      nth_append new_block_def split: option.splits)

lemma keeps_continue [keeps]: "op_keeps openai_wf (continue_tool i c n s)"
  unfolding continue_tool_def by (intro keeps keeps_change shape_kept_all)

lemma keeps_slot:
  "op_keeps openai_wf (op_bind (op_get (\<lambda>a. map_of (oa_tools a) k)) (\<lambda>pos.
     case pos of None \<Rightarrow> add_tool k c n s | Some i \<Rightarrow> continue_tool i c n s))"
proof (rule op_keepsI)
  fix a assume wf: "openai_wf a"
  show "openai_wf (snd (op_bind (op_get (\<lambda>a. map_of (oa_tools a) k)) (\<lambda>pos.
      case pos of None \<Rightarrow> add_tool k c n s | Some i \<Rightarrow> continue_tool i c n s) a))"
    using wf add_tool_wf [OF wf] keeps_continue
    by (cases "map_of (oa_tools a) k") (auto simp: op_bind_def op_get_def op_keeps_def)
qed

lemma openai_keeps_frame [keeps]:
  "op_keeps openai_wf (set_usage f v)" "op_keeps openai_wf mark_done"
  "op_keeps openai_wf (op_modify (\<lambda>a. a\<lparr>ac_stop := r\<rparr>))"
  "op_keeps openai_wf (feed_parser ucd chunk)" "op_keeps openai_wf (close_parser ucd)"
  by (auto simp: set_usage_def mark_done_def feed_parser_def close_parser_def openai_wf_def op_modify_def
      openai_refs_def intro!: op_keepsI split: prod.splits)

lemma openai_keeps_copy [keeps]: "op_keeps openai_wf (copy_usage u k f)"
  by (auto simp: copy_usage_def intro!: keeps)

lemma keeps_openai [keeps]:
  "op_keeps openai_wf (openai_tool_call tc)" "op_keeps openai_wf (openai_usage u)"
  "op_keeps openai_wf (openai_finalize loads)"
  unfolding openai_tool_call_def openai_usage_def openai_finalize_def
  by (intro keeps keeps_slot keeps_change shape_kept_all)+

lemma keeps_openai_chunk [keeps]: "op_keeps openai_wf (openai_chunk d)"
  unfolding openai_chunk_def openai_choice_def by (intro keeps)

lemma keeps_openai_event [keeps]: "op_keeps openai_wf (openai_event loads ev)"
  by (auto simp: openai_event_def Let_def intro!: keeps split: option.splits)

lemma openai_feed_wf: "op_keeps openai_wf (openai_feed ucd loads chunk)"
  by (auto simp: openai_feed_def intro!: keeps)

lemma new_openai_wf: "openai_wf new_openai"
  by (simp add: openai_wf_def new_openai_def openai_refs_def dict_values_def)

lemma openai_blocks_in_order:
  assumes "openai_wf a"
  shows "openai_content_blocks a = oa_blocks a"
proof -
  have "sorted (map ab_index (oa_blocks a))" using assms by (simp add: openai_wf_def sorted_map)
  then show ?thesis by (simp add: openai_content_blocks_def sorted_sort_id sort_key_id_if_sorted)
qed

subsection \<open>Interleaved tool calls\<close>

definition tool_args :: "openai_acc \<Rightarrow> int \<Rightarrow> string option" where
  "tool_args a k =
     (case map_of (oa_tools a) k of
        None \<Rightarrow> None
      | Some i \<Rightarrow> (case ab_partial_json (oa_blocks a ! i) of JStr s \<Rightarrow> Some s | _ \<Rightarrow> None))"

definition fragment :: "int \<Rightarrow> string \<Rightarrow> json" where
  "fragment k f = JObj [(''index'', JInt k), (''function'', JObj [(''arguments'', JStr f)])]"

lemma tool_ref:
  assumes "openai_wf a" "map_of (oa_tools a) k = Some i"
  shows "i < length (oa_blocks a)"
proof -
  have "i \<in> set (openai_refs a)" using map_of_SomeD [OF assms(2)] by (force simp: openai_refs_def dict_values_def)
  then show ?thesis using assms(1) by (simp add: openai_wf_def)
qed

lemma tool_refs_differ:
  assumes "openai_wf a" "map_of (oa_tools a) k = Some i" "map_of (oa_tools a) k' = Some i"
  shows "k = k'"
proof -
  have "distinct (map snd (oa_tools a))" using assms(1) by (simp add: openai_wf_def openai_refs_def dict_values_def)
  with map_of_SomeD [OF assms(2)] map_of_SomeD [OF assms(3)] show ?thesis
    by (metis distinct_map inj_onD prod.inject snd_conv)
qed

lemma fragment_step:
  assumes wf: "openai_wf a" and args: "tool_args a k = Some s"
  shows "\<exists>a'. openai_tool_call (fragment k f) a = (Inr (), a') \<and> openai_wf a'
    \<and> (\<forall>k'. tool_args a' k' = (if k' = k then Some (s @ f) else tool_args a k'))"
proof -
  obtain i where i: "map_of (oa_tools a) k = Some i" "ab_partial_json (oa_blocks a ! i) = JStr s"
    using args by (auto simp: tool_args_def split: option.splits json.splits)
  have len: "i < length (oa_blocks a)" by (rule tool_ref [OF wf i(1)])
  let ?b = "(oa_blocks a ! i)\<lparr>ab_partial_json := JStr (s @ f)\<rparr>"
  let ?a = "a\<lparr>oa_blocks := (oa_blocks a)[i := ?b]\<rparr>"
  have same: "a\<lparr>oa_blocks := (oa_blocks a)[i := (oa_blocks a ! i)\<lparr>ab_partial_json := JStr s\<rparr>]\<rparr> = a"
    by (simp flip: i(2))
  have run: "openai_tool_call (fragment k f) a = (Inr (), ?a)"
  proof -
    have "openai_tool_call (fragment k f) a = (Inr (), if f = [] then a else ?a)"
      using i append_json_str [of "oa_blocks a ! i" s f]
      by (simp add: openai_tool_call_def fragment_def op_defs dict_get_def continue_tool_def change_block_def)
    also have "(if f = [] then a else ?a) = ?a"
    proof (cases "f = []")
      case True
      then show ?thesis unfolding True append_Nil2 same by simp
    next
      case False
      then show ?thesis by (rule if_not_P)
    qed
    finally show ?thesis .
  qed
  have "openai_wf ?a" using op_keepsD [OF keeps_openai(1) run wf] .
  moreover have "tool_args ?a k' = (if k' = k then Some (s @ f) else tool_args a k')" for k'
  proof (cases "k' = k")
    case True
    then show ?thesis using i(1) len by (simp add: tool_args_def)
  next
    case False
    then have "map_of (oa_tools a) k' \<noteq> Some i" using tool_refs_differ [OF wf i(1), of k'] by blast
    then show ?thesis using False by (cases "map_of (oa_tools a) k'") (simp_all add: tool_args_def)
  qed
  ultimately show ?thesis using run by blast
qed

lemma fragments_by_index:
  assumes "openai_wf a" "\<forall>p\<in>set fs. tool_args a (fst p) \<noteq> None"
  shows "\<exists>a'. op_each (\<lambda>p. openai_tool_call (fragment (fst p) (snd p))) fs a = (Inr (), a') \<and> openai_wf a'
    \<and> (\<forall>k. tool_args a' k =
        map_option (\<lambda>s. s @ concat (map snd (filter (\<lambda>p. fst p = k) fs))) (tool_args a k))"
  using assms
proof (induction fs arbitrary: a)
  case Nil
  then show ?case by (simp add: op_defs option.map_id0 [unfolded id_def])
next
  case (Cons p fs)
  then obtain s where s: "tool_args a (fst p) = Some s" by auto
  obtain a1 where a1: "openai_tool_call (fragment (fst p) (snd p)) a = (Inr (), a1)" "openai_wf a1"
    and args: "\<And>k. tool_args a1 k = (if k = fst p then Some (s @ snd p) else tool_args a k)"
    using fragment_step [OF Cons.prems(1) s, of "snd p"] by auto
  have "\<forall>q\<in>set fs. tool_args a1 (fst q) \<noteq> None" using Cons.prems(2) by (simp add: args)
  from Cons.IH [OF a1(2) this] obtain a2 where
    a2: "op_each (\<lambda>p. openai_tool_call (fragment (fst p) (snd p))) fs a1 = (Inr (), a2)" "openai_wf a2"
    "\<forall>k. tool_args a2 k = map_option (\<lambda>s. s @ concat (map snd (filter (\<lambda>p. fst p = k) fs))) (tool_args a1 k)"
    by blast
  then have "tool_args a2 k = map_option (\<lambda>s. s @ concat (map snd (filter (\<lambda>q. fst q = k) (p # fs)))) (tool_args a k)" for k
    using s by (simp add: args)
  with a1(1) a2(1,2) show ?case by (simp add: op_seq_def op_bind_def)
qed

end
