(* ===== verification/GeminiAcc.thy ===== *)
theory GeminiAcc
  imports AccBase
begin

text \<open>
  \<open>src/interceptor/stream/accumulators/gemini.py\<close>: a stream that is either server-sent events or
  JSON values (an array being written, or one value per line), told apart by its first bytes.
  The JSON library is the parameter \<open>jc\<close>: \<open>json.loads\<close>, \<open>JSONDecoder.raw_decode\<close> (the value at
  the head of a text and the number of characters it takes) and \<open>json.dumps\<close>.
\<close>

record json_codec =
  jc_loads :: "ustring \<Rightarrow> json option"
  jc_raw_decode :: "ustring \<Rightarrow> (json \<times> nat) option"
  jc_dumps :: "json \<Rightarrow> string"

datatype stream_mode = SseMode | JsonMode

record gemini_acc = accumulator +
  ga_blocks :: "acc_block list"
  ga_mode :: "stream_mode option"
  ga_json :: ustring
  ga_pending :: bytes

definition new_gemini :: gemini_acc where
  "new_gemini = \<lparr>ac_parser = new_sse, ac_usage = zero_usage, ac_stop = JNull, ac_done = False,
     ga_blocks = [], ga_mode = None, ga_json = [], ga_pending = []\<rparr>"

type_synonym gop = "(gemini_acc, unit) op"

definition add_block :: "(int \<Rightarrow> acc_block) \<Rightarrow> gop" where
  "add_block mk = op_modify (\<lambda>a. a\<lparr>ga_blocks := ga_blocks a @ [mk (int (length (ga_blocks a)))]\<rparr>)"

text \<open>The fields \<open>partial_json\<close> and \<open>parsed_input\<close> of a call, from its arguments.\<close>

definition call_arguments :: "json_codec \<Rightarrow> json \<Rightarrow> string \<times> json" where
  "call_arguments jc args =
     (case args of
        JObj d \<Rightarrow> (jc_dumps jc args, args)
      | JStr s \<Rightarrow>
          (s, case jc_loads jc (ascii s) of Some j \<Rightarrow> j | None \<Rightarrow> JObj [(''_raw'', JStr s)])
      | _ \<Rightarrow> (''{}'', JObj []))"

definition gemini_function_call :: "json_codec \<Rightarrow> json \<Rightarrow> gop" where
  "gemini_function_call jc part =
     op_bind (op_lift (py_item part ''functionCall'')) (\<lambda>fc.
     op_bind (op_lift (py_get fc ''name'' JNull)) (\<lambda>name.
     op_bind (op_lift (py_get fc ''args'' JNull)) (\<lambda>args.
     op_bind (op_lift (py_get fc ''id'' JNull)) (\<lambda>call_id.
       let (partial, parsed) = call_arguments jc args
       in add_block (\<lambda>i. (new_block i TOOL_USE)\<lparr>ab_tool_id := call_id, ab_tool_name := name,
            ab_partial_json := JStr partial, ab_parsed_input := parsed\<rparr>)))))"

text \<open>A text goes to the last block if that is of the same type, and starts a block otherwise.\<close>

definition extend_last :: "json \<Rightarrow> json \<Rightarrow> gop" where
  "extend_last ty s a =
     (if ga_blocks a \<noteq> [] \<and> ab_type (last (ga_blocks a)) = ty then
        (case append_text s (last (ga_blocks a)) of
           Inl e \<Rightarrow> (Inl e, a)
         | Inr b \<Rightarrow> (Inr (), a\<lparr>ga_blocks := butlast (ga_blocks a) @ [b]\<rparr>))
      else add_block (\<lambda>i. (new_block i ty)\<lparr>ab_text := s\<rparr>) a)"

definition thought_text :: "json \<Rightarrow> (bool \<times> json) res" where
  "thought_text part =
     rbind (py_get part ''thought'' JNull) (\<lambda>t.
     rbind (py_get part ''text'' (JStr [])) (\<lambda>s.
       Inr (case t of JStr u \<Rightarrow> (True, JStr u) | _ \<Rightarrow> (t = JBool True, s))))"

definition gemini_part :: "json_codec \<Rightarrow> json \<Rightarrow> gop" where
  "gemini_part jc part =
     op_bind (op_lift (py_in ''functionCall'' part)) (\<lambda>call.
       if call then gemini_function_call jc part
       else
         op_bind (op_lift (thought_text part)) (\<lambda>(is_thought, s).
           if is_thought then extend_last THINKING s
           else op_bind (op_lift (py_in ''text'' part)) (\<lambda>has. op_when has (extend_last TEXT s))))"

definition gemini_detail :: "json \<Rightarrow> gop" where
  "gemini_detail detail =
     op_bind (op_lift (py_get detail ''modality'' JNull)) (\<lambda>m.
       op_when (m = JStr ''THINKING'' \<or> m = JStr ''REASONING'')
         (op_bind (op_lift (py_get detail ''tokenCount'' (JInt 0))) (set_usage ''reasoning_tokens'')))"

definition gemini_usage :: "json \<Rightarrow> gop" where
  "gemini_usage u =
     op_seq (copy_usage u ''promptTokenCount'' ''input_tokens'')
     (op_seq (copy_usage u ''candidatesTokenCount'' ''output_tokens'')
     (op_seq (copy_usage u ''cachedContentTokenCount'' ''cache_read_input_tokens'')
     (op_seq (copy_usage u ''thoughtsTokenCount'' ''reasoning_tokens'')
     (op_bind (op_lift (rbind (py_get u ''candidatesTokensDetails'' (JArr [])) py_iter))
       (op_each gemini_detail)))))"

definition gemini_finish :: "json \<Rightarrow> gop" where
  "gemini_finish r = op_when (truthy r) (op_modify (\<lambda>a. a\<lparr>ac_stop := r, ac_done := True\<rparr>))"

definition gemini_candidate :: "json_codec \<Rightarrow> json \<Rightarrow> gop" where
  "gemini_candidate jc cand =
     op_bind (op_lift (py_get cand ''finishReason'' JNull)) (\<lambda>r.
     op_seq (gemini_finish r)
     (op_bind (op_lift (py_get cand ''content'' (JObj []))) (\<lambda>content.
      op_bind (op_lift (rbind (py_get content ''parts'' (JArr [])) py_iter)) (op_each (gemini_part jc)))))"

definition unwrap_response :: "jdict \<Rightarrow> jdict" where
  "unwrap_response d = (case jget d ''response'' of JObj r \<Rightarrow> r | _ \<Rightarrow> d)"

definition gemini_chunk :: "json_codec \<Rightarrow> jdict \<Rightarrow> gop" where
  "gemini_chunk jc d0 =
     (let d = unwrap_response d0; u = jget d ''usageMetadata''
      in op_seq (op_when (truthy u) (gemini_usage u))
         (op_seq (gemini_finish (jget d ''finishReason''))
         (op_bind (op_lift (py_iter (jget_or d ''candidates'' (JArr [])))) (op_each (gemini_candidate jc)))))"

text \<open>A JSON value of the stream: an object, or the objects of an array.\<close>

definition gemini_item :: "json_codec \<Rightarrow> json \<Rightarrow> gop" where
  "gemini_item jc j = (case j of JObj d \<Rightarrow> gemini_chunk jc d | _ \<Rightarrow> op_return ())"

definition gemini_value :: "json_codec \<Rightarrow> json \<Rightarrow> gop" where
  "gemini_value jc j =
     (case j of JArr xs \<Rightarrow> op_each (gemini_item jc) xs | _ \<Rightarrow> gemini_item jc j)"

definition gemini_event :: "json_codec \<Rightarrow> sse_event \<Rightarrow> gop" where
  "gemini_event jc ev =
     (let raw = ustr_strip (ev_data ev)
      in if raw = [] then op_return ()
         else case jc_loads jc raw of None \<Rightarrow> op_return () | Some j \<Rightarrow> gemini_value jc j)"

subsection \<open>JSON streams\<close>

definition json_separator :: "code_point \<Rightarrow> bool" where
  "json_separator c \<longleftrightarrow> c \<in> {32, 9, 13, 10, 44, 91}"

lemma drop_dropWhile_less:
  assumes "0 < n" "x \<in> set xs" "\<not> P x"
  shows "length (dropWhile P xs) - n < length xs"
proof -
  have "dropWhile P xs \<noteq> []" using assms(2,3) by (auto simp: dropWhile_eq_Nil_conv)
  then show ?thesis using length_dropWhile_le [of P xs] assms(1) by (cases "dropWhile P xs") auto
qed

text \<open>
  The loop over the buffer, which gives what is left of it: separators are skipped, a closing
  bracket or a value that cannot be decoded yet ends it. A decoded value takes at least one
  character.
\<close>

function json_loop :: "json_codec \<Rightarrow> ustring \<Rightarrow> (gemini_acc, ustring) op" where
  "json_loop jc buf a =
     (let rest = dropWhile json_separator buf
      in if rest = [] \<or> hd rest = 93 then (Inr rest, a)
         else
           (case jc_raw_decode jc rest of
              None \<Rightarrow> (Inr rest, a)
            | Some (j, n) \<Rightarrow>
                if n = 0 then (Inr rest, a)
                else
                  (case gemini_value jc j a of
                     (Inl e, a') \<Rightarrow> (Inl e, a')
                   | (Inr _, a') \<Rightarrow> json_loop jc (drop n rest) a')))"
  by pat_completeness auto
termination
  by (relation "measure (\<lambda>(jc, buf, a). length buf)") (auto dest: drop_dropWhile_less)

declare json_loop.simps [simp del]

definition gemini_json :: "json_codec \<Rightarrow> bytes \<Rightarrow> gop" where
  "gemini_json jc chunk a =
     (let (txt, pending) = utf8_decode (ga_pending a) chunk;
          a1 = a\<lparr>ga_pending := pending, ga_json := ga_json a @ txt\<rparr>
      in case json_loop jc (ga_json a1) a1 of
           (Inl e, a2) \<Rightarrow> (Inl e, a2)
         | (Inr rest, a2) \<Rightarrow> (Inr (), a2\<lparr>ga_json := rest\<rparr>))"

definition ascii_bytes :: "string \<Rightarrow> bytes" where
  "ascii_bytes s = map of_char s"

definition white_byte :: "byte \<Rightarrow> bool" where
  "white_byte b \<longleftrightarrow> 9 \<le> b \<and> b \<le> 13 \<or> b = 32"

definition detect_mode :: "bytes \<Rightarrow> stream_mode option" where
  "detect_mode chunk =
     (let trimmed = dropWhile white_byte chunk
      in if starts_with (ascii_bytes ''data:'') trimmed \<or> starts_with (ascii_bytes ''event:'') trimmed
            \<or> starts_with (ascii_bytes '':'') trimmed then Some SseMode
         else if starts_with (ascii_bytes ''['') trimmed \<or> starts_with (ascii_bytes ''{'') trimmed
           then Some JsonMode
         else None)"

text \<open>What is left of the buffer at the end of the stream is one more value, if it is one.\<close>

definition gemini_flush :: "json_codec \<Rightarrow> gop" where
  "gemini_flush jc a =
     (let rem = ustr_strip (ga_json a)
      in if rem = [] then (Inr (), a)
         else case jc_loads jc rem of None \<Rightarrow> (Inr (), a) | Some j \<Rightarrow> op_swallow (gemini_value jc j) a)"

definition gemini_feed :: "ucd \<Rightarrow> json_codec \<Rightarrow> bytes \<Rightarrow> gop" where
  "gemini_feed ucd jc chunk =
     (if chunk = [] then
        op_bind (op_get ga_mode) (\<lambda>mode.
          op_seq
            (if mode = Some SseMode then op_bind (close_parser ucd) (op_each (gemini_event jc))
             else gemini_flush jc)
            mark_done)
      else
        op_seq (op_modify (\<lambda>a. if ga_mode a = None then a\<lparr>ga_mode := detect_mode chunk\<rparr> else a))
        (op_bind (op_get ga_mode) (\<lambda>mode.
           if mode = Some SseMode then op_bind (feed_parser ucd chunk) (op_each (gemini_event jc))
           else gemini_json jc chunk)))"

definition gemini_content_blocks :: "gemini_acc \<Rightarrow> acc_block list" where
  "gemini_content_blocks a = sort_key ab_index (ga_blocks a)"

subsection \<open>Chunk boundaries\<close>

lemma parser_free_gemini [parser_free_intros]:
  "parser_free (add_block mk)" "parser_free (extend_last ty s)" "parser_free (gemini_finish r)"
  by (auto simp: parser_free_def add_block_def extend_last_def gemini_finish_def op_defs split: sum.splits)

lemma parser_free_gemini_chunk [parser_free_intros]: "parser_free (gemini_chunk jc d)"
  by (auto simp: gemini_chunk_def gemini_usage_def gemini_detail_def gemini_candidate_def gemini_part_def
      gemini_function_call_def Let_def intro!: parser_free_intros split: prod.splits)

lemma parser_free_value [parser_free_intros]: "parser_free (gemini_value jc j)"
  by (auto simp: gemini_value_def gemini_item_def intro!: parser_free_intros split: json.splits)

interpretation gemini: event_accumulator "gemini_event jc" for jc
proof
  show "parser_free (gemini_event jc ev)" for ev
    by (auto simp: gemini_event_def Let_def intro!: parser_free_intros split: option.splits)
qed

subsection \<open>Blocks\<close>

text \<open>Blocks are numbered in order of arrival, and no two neighbours are texts of the same type.\<close>

fun no_split :: "acc_block list \<Rightarrow> bool" where
  "no_split (b # c # bs) \<longleftrightarrow> (ab_type b = TEXT \<or> ab_type b = THINKING \<longrightarrow> ab_type b \<noteq> ab_type c) \<and> no_split (c # bs)"
| "no_split _ \<longleftrightarrow> True"

definition gemini_wf :: "gemini_acc \<Rightarrow> bool" where
  "gemini_wf a \<longleftrightarrow> map ab_index (ga_blocks a) = map int [0..<length (ga_blocks a)] \<and> no_split (ga_blocks a)"

lemma no_split_snoc:
  "no_split (bs @ [b]) \<longleftrightarrow> no_split bs
     \<and> (bs \<noteq> [] \<and> (ab_type b = TEXT \<or> ab_type b = THINKING) \<longrightarrow> ab_type (last bs) \<noteq> ab_type b)"
  by (induction bs rule: no_split.induct) auto

lemma append_text_shape: "append_text s b = Inr b' \<Longrightarrow> ab_index b' = ab_index b \<and> ab_type b' = ab_type b"
  by (auto simp: append_text_def rbind_eq_Inr)

lemma add_block_wf:
  assumes "gemini_wf a" "ab_index (mk (int (length (ga_blocks a)))) = int (length (ga_blocks a))"
    and "ga_blocks a \<noteq> [] \<Longrightarrow> ab_type (mk (int (length (ga_blocks a)))) \<in> {TEXT, THINKING}
      \<Longrightarrow> ab_type (last (ga_blocks a)) \<noteq> ab_type (mk (int (length (ga_blocks a))))"
  shows "gemini_wf (snd (add_block mk a))"
  using assms by (auto simp: add_block_def op_modify_def gemini_wf_def no_split_snoc)

lemma keeps_extend [keeps]: "op_keeps gemini_wf (extend_last ty s)"
proof (rule op_keepsI)
  fix a assume wf: "gemini_wf a"
  show "gemini_wf (snd (extend_last ty s a))"
  proof (cases "ga_blocks a \<noteq> [] \<and> ab_type (last (ga_blocks a)) = ty")
    case True
    then have last: "ga_blocks a = butlast (ga_blocks a) @ [last (ga_blocks a)]" by simp
    show ?thesis
    proof (cases "append_text s (last (ga_blocks a))")
      case (Inr b)
      note b = append_text_shape [OF Inr]
      have "map ab_index (butlast (ga_blocks a) @ [b]) = map ab_index (ga_blocks a)"
        by (subst last) (simp add: b)
      moreover have "no_split (butlast (ga_blocks a) @ [b])"
        using wf last b by (metis gemini_wf_def no_split_snoc)
      moreover have "length (butlast (ga_blocks a) @ [b]) = length (ga_blocks a)" using True by simp
      ultimately show ?thesis using wf Inr True by (simp add: extend_last_def gemini_wf_def)
    qed (use True wf in \<open>simp add: extend_last_def\<close>)
  next
    case False
    then show ?thesis using wf
      by (auto simp: extend_last_def new_block_def intro!: add_block_wf)
  qed
qed

lemma keeps_call [keeps]: "op_keeps gemini_wf (gemini_function_call jc part)"
proof -
  have "op_keeps gemini_wf (add_block (\<lambda>i. (new_block i TOOL_USE)\<lparr>ab_tool_id := c, ab_tool_name := n,
      ab_partial_json := p, ab_parsed_input := q\<rparr>))" for c n p q
    by (rule op_keepsI, rule add_block_wf) (simp_all add: new_block_def TOOL_USE_def TEXT_def THINKING_def)
  then show ?thesis
    unfolding gemini_function_call_def Let_def by (intro keeps) (simp add: split_beta)
qed

lemma gemini_keeps_frame [keeps]:
  "op_keeps gemini_wf (set_usage f v)" "op_keeps gemini_wf mark_done" "op_keeps gemini_wf (gemini_finish r)"
  "op_keeps gemini_wf (feed_parser ucd chunk)" "op_keeps gemini_wf (close_parser ucd)"
  by (auto simp: set_usage_def mark_done_def feed_parser_def close_parser_def gemini_wf_def gemini_finish_def
      op_defs intro!: op_keepsI split: prod.splits)

lemma gemini_keeps_copy [keeps]: "op_keeps gemini_wf (copy_usage u k f)"
  by (auto simp: copy_usage_def intro!: keeps)

lemma keeps_gemini_chunk [keeps]: "op_keeps gemini_wf (gemini_chunk jc d)"
  by (auto simp: gemini_chunk_def gemini_usage_def gemini_detail_def gemini_candidate_def gemini_part_def
      Let_def intro!: keeps split: prod.splits)

lemma keeps_value [keeps]: "op_keeps gemini_wf (gemini_value jc j)"
  by (auto simp: gemini_value_def gemini_item_def intro!: keeps split: json.splits)

lemma keeps_gemini_event [keeps]: "op_keeps gemini_wf (gemini_event jc ev)"
  by (auto simp: gemini_event_def Let_def intro!: keeps split: option.splits)

lemma keeps_loop: "gemini_wf a \<Longrightarrow> gemini_wf (snd (json_loop jc buf a))"
proof (induction jc buf a rule: json_loop.induct)
  case (1 jc buf a)
  have "gemini_wf a'" if "gemini_value jc j a = (r, a')" for j r a'
    using op_keepsD [OF keeps_value that] 1(2) .
  with 1 show ?case
    by (subst json_loop.simps) (auto simp: Let_def split: option.splits prod.splits sum.splits)
qed

lemma gemini_wf_frame [simp]:
  "gemini_wf (a\<lparr>ga_json := x\<rparr>) = gemini_wf a" "gemini_wf (a\<lparr>ga_pending := p\<rparr>) = gemini_wf a"
  "gemini_wf (a\<lparr>ga_mode := m\<rparr>) = gemini_wf a"
  by (simp_all add: gemini_wf_def)

lemma keeps_json [keeps]: "op_keeps gemini_wf (gemini_json jc chunk)"
proof (rule op_keepsI)
  fix a assume wf: "gemini_wf a"
  obtain cs p where d: "utf8_decode (ga_pending a) chunk = (cs, p)" by fastforce
  let ?a = "a\<lparr>ga_pending := p, ga_json := ga_json a @ cs\<rparr>"
  have "gemini_wf ?a" using wf by (simp add: gemini_wf_def)
  from keeps_loop [OF this, of jc "ga_json ?a"]
  show "gemini_wf (snd (gemini_json jc chunk a))"
    by (cases "json_loop jc (ga_json ?a) ?a")
      (auto simp: gemini_json_def d Let_def split: sum.splits)
qed

lemma keeps_flush [keeps]: "op_keeps gemini_wf (gemini_flush jc)"
  using keeps_swallow [OF keeps_value, of jc]
  by (auto simp: gemini_flush_def Let_def op_keeps_def split: option.splits)

lemma gemini_feed_wf: "op_keeps gemini_wf (gemini_feed ucd jc chunk)"
  by (auto simp: gemini_feed_def intro!: keeps keeps_modify)

lemma new_gemini_wf: "gemini_wf new_gemini"
  by (simp add: gemini_wf_def new_gemini_def)

lemma gemini_blocks_in_order: "gemini_wf a \<Longrightarrow> gemini_content_blocks a = ga_blocks a"
  by (simp add: gemini_content_blocks_def gemini_wf_def sorted_map sort_key_id_if_sorted)

end
