(* ===== verification/Accumulators.thy ===== *)
theory Accumulators
  imports AnthropicAcc OpenAiAcc GeminiAcc
begin

text \<open>
  The interface \<open>BaseAccumulator\<close> of \<open>src/interceptor/stream/accumulators/base.py\<close> as a sum of its
  three implementations, dispatching each abstract method.
\<close>

datatype any_acc =
    Anthropic anthropic_acc
  | OpenAi openai_acc
  | Gemini gemini_acc

definition feed_chunk :: "ucd \<Rightarrow> json_codec \<Rightarrow> bytes \<Rightarrow> (any_acc, unit) op" where
  "feed_chunk ucd jc chunk acc =
     (case acc of
        Anthropic a \<Rightarrow> map_prod id Anthropic (anthropic_feed ucd (jc_loads jc) chunk a)
      | OpenAi a \<Rightarrow> map_prod id OpenAi (openai_feed ucd (jc_loads jc) chunk a)
      | Gemini a \<Rightarrow> map_prod id Gemini (gemini_feed ucd jc chunk a))"

fun acc_is_done :: "any_acc \<Rightarrow> bool" where
  "acc_is_done (Anthropic a) = ac_done a"
| "acc_is_done (OpenAi a) = ac_done a"
| "acc_is_done (Gemini a) = ac_done a"

fun acc_content_blocks :: "any_acc \<Rightarrow> acc_block list" where
  "acc_content_blocks (Anthropic a) = anthropic_content_blocks a"
| "acc_content_blocks (OpenAi a) = openai_content_blocks a"
| "acc_content_blocks (Gemini a) = gemini_content_blocks a"

fun acc_usage :: "any_acc \<Rightarrow> jdict" where
  "acc_usage (Anthropic a) = ac_usage a"
| "acc_usage (OpenAi a) = ac_usage a"
| "acc_usage (Gemini a) = ac_usage a"

fun acc_stop_reason :: "any_acc \<Rightarrow> json" where
  "acc_stop_reason (Anthropic a) = ac_stop a"
| "acc_stop_reason (OpenAi a) = ac_stop a"
| "acc_stop_reason (Gemini a) = ac_stop a"

text \<open>Whatever is fed, and whatever raises, the blocks come out strictly ordered by index.\<close>

fun acc_wf :: "any_acc \<Rightarrow> bool" where
  "acc_wf (Anthropic a) = anthropic_wf a"
| "acc_wf (OpenAi a) = openai_wf a"
| "acc_wf (Gemini a) = gemini_wf a"

lemma feed_chunk_wf: "op_keeps acc_wf (feed_chunk ucd jc chunk)"
proof (rule op_keepsI)
  fix acc assume "acc_wf acc"
  then show "acc_wf (snd (feed_chunk ucd jc chunk acc))"
    using feed_wf [of ucd "jc_loads jc" chunk] openai_feed_wf [of ucd "jc_loads jc" chunk]
      gemini_feed_wf [of ucd jc chunk]
    by (cases acc) (simp_all add: feed_chunk_def op_keeps_def)
qed

lemma ints_increasing: "sorted_wrt (<) (map int [0..<n])"
  by (simp add: sorted_wrt_map)

lemma content_blocks_ordered:
  assumes "acc_wf acc"
  shows "sorted_wrt (<) (map ab_index (acc_content_blocks acc))"
proof (cases acc)
  case (Anthropic a)
  then show ?thesis using assms content_blocks_sorted [of a, THEN conjunct2] by simp
next
  case (OpenAi a)
  then have "map ab_index (oa_blocks a) = map int [0..<length (oa_blocks a)]"
    using assms by (simp add: openai_wf_def)
  with OpenAi assms show ?thesis
    using ints_increasing [of "length (oa_blocks a)"] openai_blocks_in_order [of a] by simp
next
  case (Gemini a)
  then have "map ab_index (ga_blocks a) = map int [0..<length (ga_blocks a)]"
    using assms by (simp add: gemini_wf_def)
  with Gemini assms show ?thesis
    using ints_increasing [of "length (ga_blocks a)"] gemini_blocks_in_order [of a] by simp
qed

end
