(* ===== verification/Tracker.thy ===== *)
theory Tracker
  imports Accumulators Schema
begin

text \<open>
  \<open>src/interceptor/correlation/tracker.py\<close>: the registry of turns in flight. Every method holds
  the lock and is one operation here; \<open>wall\<close> and \<open>mtime\<close> are what \<open>time.time()\<close> and
  \<open>time.monotonic()\<close> return during the call. The error callback is recorded by what it is called
  with.
\<close>

record active_turn =
  at_correlation_id :: string
  at_session_id :: string
  at_provider :: provider
  at_model :: string
  at_timing :: "timing_metrics option"
  at_endpoint :: string
  at_client_metadata :: jdict
  at_sanitized_headers :: "(string, string) dict"
  at_request_payload :: jdict
  at_accumulator :: "any_acc option"
  at_created_at_wall :: rat
  at_response_headers :: "(string, string) dict"
  at_response_status_code :: "int option"
  at_response_payload :: "jdict option"

record tracker =
  tk_default_ttl :: rat
  tk_callback :: bool
  tk_turns :: "(string, active_turn) dict"
  tk_last_active :: "(string, rat) dict"
  tk_running :: bool
  tk_reported :: "wire_envelope list"

definition new_tracker :: "rat \<Rightarrow> bool \<Rightarrow> bool \<Rightarrow> tracker" where
  "new_tracker ttl callback auto_start =
     \<lparr>tk_default_ttl = ttl, tk_callback = callback, tk_turns = [], tk_last_active = [],
      tk_running = auto_start, tk_reported = []\<rparr>"

definition headers_json :: "(string, string) dict \<Rightarrow> json" where
  "headers_json hs = JObj (map (\<lambda>(k, v). (k, JStr v)) hs)"

definition error_message :: "string \<Rightarrow> string option \<Rightarrow> string" where
  "error_message status msg =
     (case msg of
        Some (c # cs) \<Rightarrow> c # cs
      | _ \<Rightarrow> (if status = ''CLIENT_ABORTED'' then ''Turn aborted: '' else ''Turn error: '') @ status)"

definition create_turn_error_envelope :: "rat \<Rightarrow> active_turn \<Rightarrow> string \<Rightarrow> string option \<Rightarrow> int option
    \<Rightarrow> wire_envelope" where
  "create_turn_error_envelope wall t status msg http_status =
     (let payload =
        [(''provider'', JStr (provider_value (at_provider t))), (''model'', JStr (at_model t)),
         (''endpoint'', JStr (at_endpoint t)), (''status'', JStr status),
         (''error_message'', JStr (error_message status msg)),
         (''sanitized_headers'', headers_json (at_sanitized_headers t)),
         (''request_payload'', JObj (at_request_payload t)),
         (''timing'', jopt (\<lambda>tm. JObj (timing_to_dict tm)) (at_timing t)),
         (''client_metadata'', JObj (at_client_metadata t))];
          status_field =
        (case http_status of
           Some n \<Rightarrow> [(''http_status'', JInt n)]
         | None \<Rightarrow> (case at_response_status_code t of Some n \<Rightarrow> [(''http_status'', JInt n)] | None \<Rightarrow> []))
      in \<lparr>we_event_type = TURN_ERROR, we_correlation_id = at_correlation_id t,
          we_session_id = at_session_id t, we_timestamp = wall, we_payload = payload @ status_field\<rparr>)"

subsection \<open>The registry\<close>

definition set_turn :: "rat \<Rightarrow> string \<Rightarrow> active_turn \<Rightarrow> tracker \<Rightarrow> tracker" where
  "set_turn wall cid t k =
     k\<lparr>tk_turns := AList.update cid t (tk_turns k),
       tk_last_active := AList.update cid wall (tk_last_active k)\<rparr>"

definition register_turn :: "rat \<Rightarrow> active_turn \<Rightarrow> tracker \<Rightarrow> tracker" where
  "register_turn wall t k = set_turn wall (at_correlation_id t) t k"

definition tracker_get :: "tracker \<Rightarrow> string \<Rightarrow> active_turn option" where
  "tracker_get k cid = map_of (tk_turns k) cid"

definition tracker_item :: "tracker \<Rightarrow> string \<Rightarrow> active_turn res" where
  "tracker_item k cid = (case map_of (tk_turns k) cid of None \<Rightarrow> Inl (KeyError cid) | Some t \<Rightarrow> Inr t)"

definition drop_turn :: "string \<Rightarrow> tracker \<Rightarrow> tracker" where
  "drop_turn cid k =
     k\<lparr>tk_turns := AList.delete cid (tk_turns k), tk_last_active := AList.delete cid (tk_last_active k)\<rparr>"

definition remove_turn :: "string \<Rightarrow> tracker \<Rightarrow> active_turn option \<times> tracker" where
  "remove_turn cid k = (map_of (tk_turns k) cid, drop_turn cid k)"

text \<open>\<open>__delitem__\<close> forgets the activity before it raises.\<close>

definition del_item :: "string \<Rightarrow> tracker \<Rightarrow> unit res \<times> tracker" where
  "del_item cid k =
     (if map_of (tk_turns k) cid = None
      then (Inl (KeyError cid), k\<lparr>tk_last_active := AList.delete cid (tk_last_active k)\<rparr>)
      else (Inr (), drop_turn cid k))"

definition tracker_contains :: "tracker \<Rightarrow> string \<Rightarrow> bool" where
  "tracker_contains k cid \<longleftrightarrow> map_of (tk_turns k) cid \<noteq> None"

definition tracker_len :: "tracker \<Rightarrow> nat" where
  "tracker_len k = length (tk_turns k)"

definition tracker_keys :: "tracker \<Rightarrow> string list" where
  "tracker_keys k = dict_keys (tk_turns k)"

definition tracker_values :: "tracker \<Rightarrow> active_turn list" where
  "tracker_values k = dict_values (tk_turns k)"

definition tracker_items :: "tracker \<Rightarrow> (string \<times> active_turn) list" where
  "tracker_items k = tk_turns k"

definition tracker_clear :: "tracker \<Rightarrow> tracker" where
  "tracker_clear k = k\<lparr>tk_turns := [], tk_last_active := []\<rparr>"

text \<open>The updates change a turn, when there is one, and note the time.\<close>

definition touch_turn :: "rat \<Rightarrow> string \<Rightarrow> (active_turn \<Rightarrow> active_turn) \<Rightarrow> tracker \<Rightarrow> tracker" where
  "touch_turn wall cid f k =
     (case map_of (tk_turns k) cid of None \<Rightarrow> k | Some t \<Rightarrow> set_turn wall cid (f t) k)"

definition dict_update :: "(string, 'v) dict \<Rightarrow> (string, 'v) dict \<Rightarrow> (string, 'v) dict" where
  "dict_update d other = foldl (\<lambda>d (k, v). AList.update k v d) d other"

definition update_request_headers :: "rat \<Rightarrow> string \<Rightarrow> (string, string) dict \<Rightarrow> tracker \<Rightarrow> tracker" where
  "update_request_headers wall cid hs =
     touch_turn wall cid (\<lambda>t. t\<lparr>at_sanitized_headers := dict_update (at_sanitized_headers t) hs\<rparr>)"

definition update_request_payload :: "rat \<Rightarrow> string \<Rightarrow> jdict \<Rightarrow> tracker \<Rightarrow> tracker" where
  "update_request_payload wall cid p = touch_turn wall cid (\<lambda>t. t\<lparr>at_request_payload := p\<rparr>)"

definition update_response_headers :: "rat \<Rightarrow> string \<Rightarrow> (string, string) dict \<Rightarrow> tracker \<Rightarrow> tracker" where
  "update_response_headers wall cid hs =
     touch_turn wall cid (\<lambda>t. t\<lparr>at_response_headers := dict_update (at_response_headers t) hs\<rparr>)"

definition update_response_payload :: "rat \<Rightarrow> string \<Rightarrow> jdict \<Rightarrow> tracker \<Rightarrow> tracker" where
  "update_response_payload wall cid p = touch_turn wall cid (\<lambda>t. t\<lparr>at_response_payload := Some p\<rparr>)"

definition update_status_code :: "rat \<Rightarrow> string \<Rightarrow> int \<Rightarrow> tracker \<Rightarrow> tracker" where
  "update_status_code wall cid n = touch_turn wall cid (\<lambda>t. t\<lparr>at_response_status_code := Some n\<rparr>)"

subsection \<open>Chunks\<close>

definition has_content :: "bytes \<Rightarrow> bool" where
  "has_content chunk = list_ex (\<lambda>b. \<not> white_byte b) chunk"

definition chunk_timing :: "rat \<Rightarrow> bytes \<Rightarrow> timing_metrics \<Rightarrow> timing_metrics" where
  "chunk_timing mtime chunk tm =
     (let tm1 = (if tm_first_byte_received_at tm = None \<and> has_content chunk
                 then tm\<lparr>tm_first_byte_received_at := Some mtime\<rparr> else tm)
      in if chunk = [] then tm1\<lparr>tm_stream_closed_at := Some mtime\<rparr> else tm1)"

text \<open>An exception of the accumulator is logged, what it did before stays.\<close>

definition chunk_turn :: "ucd \<Rightarrow> json_codec \<Rightarrow> rat \<Rightarrow> bytes \<Rightarrow> active_turn \<Rightarrow> active_turn" where
  "chunk_turn ucd jc mtime chunk t =
     t\<lparr>at_timing := map_option (chunk_timing mtime chunk) (at_timing t),
       at_accumulator := map_option (\<lambda>acc. snd (feed_chunk ucd jc chunk acc)) (at_accumulator t)\<rparr>"

definition record_chunk :: "ucd \<Rightarrow> json_codec \<Rightarrow> rat \<Rightarrow> rat \<Rightarrow> string \<Rightarrow> bytes \<Rightarrow> rat option \<Rightarrow> tracker
    \<Rightarrow> bool \<times> tracker" where
  "record_chunk ucd jc wall mtime cid chunk timestamp k =
     (case map_of (tk_turns k) cid of
        None \<Rightarrow> (False, k)
      | Some t \<Rightarrow>
          (let now = (case timestamp of Some x \<Rightarrow> x | None \<Rightarrow> mtime)
           in (True, set_turn wall cid (chunk_turn ucd jc now chunk t) k)))"

subsection \<open>Errors and expiry\<close>

definition report_error :: "wire_envelope \<Rightarrow> tracker \<Rightarrow> tracker" where
  "report_error e k = (if tk_callback k then k\<lparr>tk_reported := tk_reported k @ [e]\<rparr> else k)"

definition abort_turn :: "rat \<Rightarrow> string \<Rightarrow> string \<Rightarrow> string option \<Rightarrow> int option \<Rightarrow> tracker
    \<Rightarrow> wire_envelope option \<times> tracker" where
  "abort_turn wall cid reason msg http_status k =
     (case remove_turn cid k of
        (None, k') \<Rightarrow> (None, k')
      | (Some t, k') \<Rightarrow>
          (let e = create_turn_error_envelope wall t reason msg http_status
           in (Some e, report_error e k')))"

text \<open>\<open>created_at_wall or last_active\<close>: a turn created at time 0 counts from its last activity.\<close>

definition created_at :: "rat \<Rightarrow> tracker \<Rightarrow> string \<Rightarrow> active_turn \<Rightarrow> rat" where
  "created_at now k cid t =
     (if at_created_at_wall t \<noteq> 0 then at_created_at_wall t else dict_get (tk_last_active k) cid now)"

definition is_expired :: "rat \<Rightarrow> rat \<Rightarrow> tracker \<Rightarrow> string \<times> active_turn \<Rightarrow> bool" where
  "is_expired ttl now k = (\<lambda>(cid, t). ttl < fsub now (created_at now k cid t))"

definition ttl_message :: "rat \<Rightarrow> string" where
  "ttl_message ttl = ''Turn expired after '' @ show_fixed 1 ttl @ ''s TTL''"

definition reap_expired :: "rat \<Rightarrow> rat option \<Rightarrow> rat option \<Rightarrow> tracker \<Rightarrow> wire_envelope list \<times> tracker" where
  "reap_expired wall ttl current_time k =
     (let ttl' = (case ttl of Some x \<Rightarrow> x | None \<Rightarrow> tk_default_ttl k);
          now = (case current_time of Some x \<Rightarrow> x | None \<Rightarrow> wall);
          expired = filter (is_expired ttl' now k) (tk_turns k);
          k' = foldl (\<lambda>k (cid, _). drop_turn cid k) k expired;
          envelopes = map (\<lambda>(_, t).
            create_turn_error_envelope wall t ''TIMEOUT'' (Some (ttl_message ttl')) None) expired
      in (envelopes, foldl (\<lambda>k e. report_error e k) k' envelopes))"

definition start_reaper :: "tracker \<Rightarrow> tracker" where
  "start_reaper k = (if tk_running k then k else k\<lparr>tk_running := True\<rparr>)"

definition stop_reaper :: "tracker \<Rightarrow> tracker" where
  "stop_reaper k = k\<lparr>tk_running := False\<rparr>"

definition reaper_tick :: "rat \<Rightarrow> tracker \<Rightarrow> tracker" where
  "reaper_tick wall k = (if tk_running k then snd (reap_expired wall None None k) else k)"

subsection \<open>Reaping\<close>

definition tracker_wf :: "tracker \<Rightarrow> bool" where
  "tracker_wf k \<longleftrightarrow> dict_wf (tk_turns k)
     \<and> list_all (\<lambda>(cid, t). at_correlation_id t = cid) (tk_turns k)"

lemma tracker_wfD: "tracker_wf k \<Longrightarrow> map_of (tk_turns k) cid = Some t \<Longrightarrow> at_correlation_id t = cid"
  by (auto simp: tracker_wf_def list_all_iff dest: map_of_SomeD)

lemma update_all:
  assumes "list_all P d" "P (c, v)"
  shows "list_all P (AList.update c v d)"
  using assms by (induction d) auto

lemma set_turn_wf: "tracker_wf k \<Longrightarrow> at_correlation_id t = cid \<Longrightarrow> tracker_wf (set_turn wall cid t k)"
  by (simp add: tracker_wf_def set_turn_def update_all)

lemma drop_turn_wf: "tracker_wf k \<Longrightarrow> tracker_wf (drop_turn cid k)"
  by (simp add: tracker_wf_def drop_turn_def) (auto simp: AList.delete_eq list_all_iff)

lemma report_frame [simp]:
  "tk_turns (report_error e k) = tk_turns k" "tk_last_active (report_error e k) = tk_last_active k"
  "tk_turns (foldl (\<lambda>k e. report_error e k) k es) = tk_turns k"
  "tk_last_active (foldl (\<lambda>k e. report_error e k) k es) = tk_last_active k"
  by (simp_all add: report_error_def) (induction es arbitrary: k; simp add: report_error_def)+

lemma tracker_wf_report [simp]:
  "tracker_wf (report_error e k) = tracker_wf k"
  "tracker_wf (foldl (\<lambda>k e. report_error e k) k es) = tracker_wf k"
  by (simp_all add: tracker_wf_def)

lemma foldl_drop:
  "tk_turns (foldl (\<lambda>k (cid, _). drop_turn cid k) k xs)
     = filter (\<lambda>(cid, _). cid \<notin> fst ` set xs) (tk_turns k)"
proof (induction xs arbitrary: k)
  case Nil
  then show ?case by (simp add: split_beta)
next
  case (Cons x xs)
  obtain c t where "x = (c, t)" by (cases x)
  with Cons show ?case
    by (auto simp: drop_turn_def AList.delete_eq intro!: filter_cong)
qed

lemma filter_keys:
  assumes "dict_wf d"
  shows "filter (\<lambda>(c, _). c \<notin> fst ` set (filter P d)) d = filter (\<lambda>x. \<not> P x) d"
proof (rule filter_cong [OF refl])
  fix x assume x: "x \<in> set d"
  have "y = x" if "y \<in> set d" "fst y = fst x" for y
    using assms that x by (auto simp: dict_wf_def distinct_map dest: inj_onD)
  then show "(case x of (c, _) \<Rightarrow> c \<notin> fst ` set (filter P d)) \<longleftrightarrow> \<not> P x"
    using x by (auto simp: image_iff split: prod.splits)
qed

text \<open>Exactly the expired turns go, each with one timeout envelope, in order of registration.\<close>

lemma reap_exact:
  assumes "tracker_wf k" "reap_expired wall ttl ct k = (es, k')"
  defines "e \<equiv> is_expired (case ttl of Some x \<Rightarrow> x | None \<Rightarrow> tk_default_ttl k)
      (case ct of Some x \<Rightarrow> x | None \<Rightarrow> wall) k"
  shows "tk_turns k' = filter (\<lambda>x. \<not> e x) (tk_turns k)
    \<and> map we_correlation_id es = map fst (filter e (tk_turns k))
    \<and> list_all (\<lambda>v. we_event_type v = TURN_ERROR \<and> jget (we_payload v) ''status'' = JStr ''TIMEOUT'') es"
proof -
  have wf: "dict_wf (tk_turns k)" using assms(1) by (simp add: tracker_wf_def)
  have "at_correlation_id (snd x) = fst x" if "x \<in> set (tk_turns k)" for x
    using assms(1) that by (auto simp: tracker_wf_def list_all_iff)
  then have ids: "map (\<lambda>(_, t). at_correlation_id t) (filter e (tk_turns k)) = map fst (filter e (tk_turns k))"
    by (intro map_cong) (auto simp: split_beta)
  have es: "es = map (\<lambda>(_, t). create_turn_error_envelope wall t ''TIMEOUT''
      (Some (ttl_message (case ttl of Some x \<Rightarrow> x | None \<Rightarrow> tk_default_ttl k))) None) (filter e (tk_turns k))"
    and turns: "tk_turns k' = filter (\<lambda>x. \<not> e x) (tk_turns k)"
    using assms(2) filter_keys [OF wf, of e] by (auto simp: reap_expired_def Let_def foldl_drop e_def)
  have "map we_correlation_id es = map (\<lambda>(_, t). at_correlation_id t) (filter e (tk_turns k))"
    by (simp add: es create_turn_error_envelope_def Let_def split_beta)
  moreover have "list_all (\<lambda>v. we_event_type v = TURN_ERROR \<and> jget (we_payload v) ''status'' = JStr ''TIMEOUT'') es"
    by (auto simp: es list_all_iff create_turn_error_envelope_def Let_def jget_def dict_get_def)
  ultimately show ?thesis using turns ids by simp
qed

text \<open>Activity does not count: a turn with a creation time expires whatever was received since.\<close>

lemma activity_ignored:
  assumes "map_of (tk_turns k) cid = Some t" "at_created_at_wall t \<noteq> 0"
    and "record_chunk ucd jc w m cid chunk ts k = (b, k')"
  shows "\<exists>t'. map_of (tk_turns k') cid = Some t' \<and>
    is_expired ttl now k' (cid, t') = is_expired ttl now k (cid, t)"
proof -
  have "map_of (tk_turns k') cid = Some (chunk_turn ucd jc (case ts of Some x \<Rightarrow> x | None \<Rightarrow> m) chunk t)"
    using assms(1,3) by (auto simp: record_chunk_def set_turn_def Let_def)
  then show ?thesis using assms(2) by (simp add: is_expired_def created_at_def chunk_turn_def)
qed

subsection \<open>Timing\<close>

text \<open>The first byte is noted once, at the first chunk with content; the close at each empty one.\<close>

lemma first_byte_kept:
  "tm_first_byte_received_at tm \<noteq> None \<Longrightarrow>
     tm_first_byte_received_at (foldl (\<lambda>tm (m, c). chunk_timing m c tm) tm cs) = tm_first_byte_received_at tm"
proof (induction cs arbitrary: tm)
  case (Cons x cs)
  obtain m c where x: "x = (m, c)" by (cases x)
  have "tm_first_byte_received_at (chunk_timing m c tm) = tm_first_byte_received_at tm"
    using Cons.prems by (auto simp: chunk_timing_def Let_def)
  with Cons x show ?case by simp
qed simp

lemma first_byte:
  "tm_first_byte_received_at tm = None \<Longrightarrow>
     tm_first_byte_received_at (foldl (\<lambda>tm (m, c). chunk_timing m c tm) tm cs)
       = map_option fst (find (\<lambda>(_, c). has_content c) cs)"
proof (induction cs arbitrary: tm)
  case (Cons x cs)
  obtain m c where x: "x = (m, c)" by (cases x)
  show ?case
  proof (cases "has_content c")
    case True
    then have "tm_first_byte_received_at (chunk_timing m c tm) = Some m"
      using Cons.prems by (simp add: chunk_timing_def Let_def)
    with first_byte_kept [of "chunk_timing m c tm" cs] True x show ?thesis by simp
  next
    case False
    then have "tm_first_byte_received_at (chunk_timing m c tm) = None"
      using Cons.prems by (simp add: chunk_timing_def Let_def)
    with Cons.IH [OF this] False x show ?thesis by simp
  qed
qed simp

subsection \<open>One error per registration\<close>

datatype tracker_op =
    Register rat active_turn
  | Remove string
  | Touch rat string "active_turn \<Rightarrow> active_turn"
  | Chunk ucd json_codec rat rat string bytes "rat option"
  | Abort rat string string "string option" "int option"
  | Reap rat "rat option" "rat option"
  | ClearTurns

text \<open>The updates of the code leave the identifier of the turn alone.\<close>

fun op_ok :: "tracker_op \<Rightarrow> bool" where
  "op_ok (Touch wall cid f) \<longleftrightarrow> (\<forall>t. at_correlation_id (f t) = at_correlation_id t)"
| "op_ok _ \<longleftrightarrow> True"

fun tracker_step :: "tracker_op \<Rightarrow> tracker \<Rightarrow> wire_envelope list \<times> tracker" where
  "tracker_step (Register wall t) k = ([], register_turn wall t k)"
| "tracker_step (Remove cid) k = ([], snd (remove_turn cid k))"
| "tracker_step (Touch wall cid f) k = ([], touch_turn wall cid f k)"
| "tracker_step (Chunk ucd jc wall mtime cid chunk ts) k =
     ([], snd (record_chunk ucd jc wall mtime cid chunk ts k))"
| "tracker_step (Abort wall cid reason msg status) k =
     (case abort_turn wall cid reason msg status k of
        (None, k') \<Rightarrow> ([], k') | (Some e, k') \<Rightarrow> ([e], k'))"
| "tracker_step (Reap wall ttl ct) k = reap_expired wall ttl ct k"
| "tracker_step ClearTurns k = ([], tracker_clear k)"

fun tracker_run :: "tracker_op list \<Rightarrow> tracker \<Rightarrow> wire_envelope list \<times> tracker" where
  "tracker_run [] k = ([], k)"
| "tracker_run (x # xs) k =
     (let (es, k1) = tracker_step x k; (fs, k2) = tracker_run xs k1 in (es @ fs, k2))"

definition errors_for :: "string \<Rightarrow> wire_envelope list \<Rightarrow> nat" where
  "errors_for cid es = length (filter (\<lambda>e. we_correlation_id e = cid) es)"

definition registrations :: "string \<Rightarrow> tracker_op list \<Rightarrow> nat" where
  "registrations cid ops =
     length (filter (\<lambda>x. case x of Register _ t \<Rightarrow> at_correlation_id t = cid | _ \<Rightarrow> False) ops)"

definition in_flight :: "string \<Rightarrow> tracker \<Rightarrow> nat" where
  "in_flight cid k = (if map_of (tk_turns k) cid = None then 0 else 1)"

lemma touch_wf:
  "tracker_wf k \<Longrightarrow> (\<And>t. at_correlation_id (f t) = at_correlation_id t) \<Longrightarrow> tracker_wf (touch_turn wall cid f k)"
  by (auto simp: touch_turn_def set_turn_wf tracker_wfD split: option.splits)

lemma record_chunk_touch:
  "snd (record_chunk ucd jc wall mtime cid chunk ts k) =
     touch_turn wall cid (chunk_turn ucd jc (case ts of Some x \<Rightarrow> x | None \<Rightarrow> mtime) chunk) k"
  by (simp add: record_chunk_def touch_turn_def Let_def split: option.splits)

lemma touch_flight [simp]: "in_flight cid (touch_turn wall c f k) = in_flight cid k"
  by (auto simp: in_flight_def touch_turn_def set_turn_def split: option.splits)

lemma drop_flight [simp]: "in_flight cid (drop_turn c k) = (if cid = c then 0 else in_flight cid k)"
  by (simp add: in_flight_def drop_turn_def)

lemma report_flight [simp]: "in_flight cid (report_error e k) = in_flight cid k"
  by (simp add: in_flight_def)

lemma length_filter_key:
  assumes "dict_wf d"
  shows "length (filter (\<lambda>c. c = cid) (map fst (filter P d)))
    = (case map_of d cid of None \<Rightarrow> 0 | Some t \<Rightarrow> if P (cid, t) then 1 else 0)"
  using assms
proof (induction d)
  case (Cons x d)
  obtain c t where x: "x = (c, t)" by (cases x)
  have none: "map_of d c = None" using Cons.prems x by (auto simp: dict_wf_def map_of_eq_None_iff)
  with Cons x show ?case by (auto simp: dict_wf_def split: option.splits)
qed simp

lemma map_of_filter:
  assumes "dict_wf d"
  shows "map_of (filter P d) cid = (case map_of d cid of None \<Rightarrow> None | Some t \<Rightarrow> if P (cid, t) then Some t else None)"
  using assms
proof (induction d)
  case (Cons x d)
  obtain c t where x: "x = (c, t)" by (cases x)
  have none: "map_of d c = None" using Cons.prems x by (auto simp: dict_wf_def map_of_eq_None_iff)
  with Cons x show ?case by (auto simp: dict_wf_def split: option.splits)
qed simp

lemma reap_balance:
  assumes "tracker_wf k" "reap_expired wall ttl ct k = (es, k')"
  shows "tracker_wf k' \<and> errors_for cid es + in_flight cid k' = in_flight cid k"
proof -
  let ?e = "is_expired (case ttl of Some x \<Rightarrow> x | None \<Rightarrow> tk_default_ttl k)
      (case ct of Some x \<Rightarrow> x | None \<Rightarrow> wall) k"
  have wf: "dict_wf (tk_turns k)" using assms(1) by (simp add: tracker_wf_def)
  have turns: "tk_turns k' = filter (\<lambda>x. \<not> ?e x) (tk_turns k)"
    and ids: "map we_correlation_id es = map fst (filter ?e (tk_turns k))"
    using reap_exact [OF assms] by blast+
  have "errors_for cid es = length (filter (\<lambda>c. c = cid) (map we_correlation_id es))"
    by (simp add: errors_for_def filter_map comp_def)
  then have "errors_for cid es = (case map_of (tk_turns k) cid of None \<Rightarrow> 0 | Some t \<Rightarrow> if ?e (cid, t) then 1 else 0)"
    by (simp only: ids length_filter_key [OF wf])
  moreover have "tracker_wf k'"
    using assms(1) by (auto simp: tracker_wf_def turns list_all_iff dict_wf_def distinct_map inj_on_def)
  ultimately show ?thesis
    by (auto simp: in_flight_def turns map_of_filter [OF wf] split: option.splits)
qed

lemma step_balance:
  assumes "tracker_wf k" "op_ok x" "tracker_step x k = (es, k')"
  shows "tracker_wf k' \<and> errors_for cid es + in_flight cid k' \<le> in_flight cid k + registrations cid [x]"
proof (cases x)
  case (Register wall t)
  have "tracker_wf (register_turn wall t k)" by (simp add: register_turn_def set_turn_wf assms(1))
  moreover have "in_flight cid (register_turn wall t k) \<le> in_flight cid k + registrations cid [x]"
    by (simp add: Register register_turn_def set_turn_def in_flight_def registrations_def)
  ultimately show ?thesis using assms(3) Register by (auto simp: errors_for_def)
next
  case (Remove c)
  then show ?thesis using assms by (auto simp: remove_turn_def drop_turn_wf errors_for_def)
next
  case (Touch wall c f)
  then show ?thesis using assms by (auto simp: touch_wf errors_for_def)
next
  case (Chunk ucd jc wall mtime c chunk ts)
  then show ?thesis using assms
    by (auto simp: record_chunk_touch touch_wf errors_for_def chunk_turn_def)
next
  case (Abort wall c reason msg status)
  show ?thesis
  proof (cases "map_of (tk_turns k) c")
    case None
    then show ?thesis using Abort assms
      by (auto simp: abort_turn_def remove_turn_def drop_turn_wf errors_for_def)
  next
    case (Some t)
    have "at_correlation_id t = c" by (rule tracker_wfD [OF assms(1) Some])
    then have "we_correlation_id (create_turn_error_envelope wall t reason msg status) = c"
      by (simp add: create_turn_error_envelope_def Let_def)
    moreover have "in_flight c k = 1" using Some by (simp add: in_flight_def)
    ultimately show ?thesis using Abort Some assms
      by (auto simp: abort_turn_def remove_turn_def drop_turn_wf errors_for_def Let_def)
  qed
next
  case (Reap wall ttl ct)
  then show ?thesis using assms reap_balance [OF assms(1), of wall ttl ct es k' cid] by simp
next
  case ClearTurns
  then show ?thesis using assms by (auto simp: tracker_clear_def errors_for_def in_flight_def tracker_wf_def)
qed

lemma run_balance:
  assumes "tracker_wf k" "list_all op_ok ops" "tracker_run ops k = (es, k')"
  shows "errors_for cid es + in_flight cid k' \<le> in_flight cid k + registrations cid ops"
  using assms
proof (induction ops arbitrary: k es)
  case Nil
  then show ?case by (simp add: errors_for_def registrations_def)
next
  case (Cons x ops)
  obtain es1 k1 where s: "tracker_step x k = (es1, k1)" by fastforce
  obtain es2 where r: "tracker_run ops k1 = (es2, k')" "es = es1 @ es2"
    using Cons.prems(3) s by (auto simp: Let_def split: prod.splits)
  have "tracker_wf k1" "errors_for cid es1 + in_flight cid k1 \<le> in_flight cid k + registrations cid [x]"
    using step_balance [OF Cons.prems(1) _ s] Cons.prems(2) by auto
  moreover from Cons.IH [OF this(1) _ r(1)] Cons.prems(2)
  have "errors_for cid es2 + in_flight cid k' \<le> in_flight cid k1 + registrations cid ops" by simp
  moreover have "registrations cid (x # ops) = registrations cid [x] + registrations cid ops"
    by (simp add: registrations_def)
  moreover have "errors_for cid es = errors_for cid es1 + errors_for cid es2" by (simp add: r(2) errors_for_def)
  ultimately show ?case by linarith
qed

text \<open>A turn for the examples.\<close>

definition flight0 :: active_turn where
  "flight0 = \<lparr>at_correlation_id = ''c'', at_session_id = ''s'', at_provider = ANTHROPIC, at_model = [],
     at_timing = None, at_endpoint = [], at_client_metadata = [], at_sanitized_headers = [],
     at_request_payload = [], at_accumulator = None, at_created_at_wall = 60, at_response_headers = [],
     at_response_status_code = None, at_response_payload = None\<rparr>"

end
