(* ===== verification/Tap.thy ===== *)
theory Tap
  imports Tracker "HOL-Library.Sublist"
begin

text \<open>
  \<open>src/interceptor/stream/passthrough.py\<close>: the hook in the response stream that hands every chunk
  on to the client and a copy to the telemetry queue. The queue is the list of its entries; a
  full one refuses entries and the tap goes on. The n-th reading of the monotonic clock is
  \<open>clock n\<close>.
\<close>

record tap =
  tp_cid :: string
  tp_first_chunk :: bool
  tp_closed :: bool
  tp_timing :: "timing_metrics option"
  tp_queue :: "(string \<times> bytes \<times> rat) list"
  tp_maxsize :: nat
  tp_calls :: nat

definition new_tap :: "string \<Rightarrow> timing_metrics option \<Rightarrow> nat \<Rightarrow> tap" where
  "new_tap cid timing maxsize =
     \<lparr>tp_cid = cid, tp_first_chunk = True, tp_closed = False, tp_timing = timing, tp_queue = [],
      tp_maxsize = maxsize, tp_calls = 0\<rparr>"

text \<open>\<open>put_nowait\<close>; size 0 means no bound.\<close>

definition queue_put :: "bytes \<Rightarrow> rat \<Rightarrow> tap \<Rightarrow> tap" where
  "queue_put chunk now t =
     (if 0 < tp_maxsize t \<and> tp_maxsize t \<le> length (tp_queue t) then t
      else t\<lparr>tp_queue := tp_queue t @ [(tp_cid t, chunk, now)]\<rparr>)"

definition tap_close :: "(nat \<Rightarrow> rat) \<Rightarrow> tap \<Rightarrow> tap" where
  "tap_close clock t =
     (if tp_closed t then t
      else
        (let now = clock (tp_calls t)
         in queue_put [] now
              (t\<lparr>tp_closed := True, tp_calls := tp_calls t + 1,
                 tp_timing := map_option (\<lambda>tm. tm\<lparr>tm_stream_closed_at := Some now\<rparr>) (tp_timing t)\<rparr>)))"

definition note_first :: "rat \<Rightarrow> bytes \<Rightarrow> tap \<Rightarrow> tap" where
  "note_first now chunk t =
     (if tp_first_chunk t \<and> has_content chunk
      then t\<lparr>tp_timing := map_option (\<lambda>tm. tm\<lparr>tm_first_byte_received_at := Some now\<rparr>) (tp_timing t),
             tp_first_chunk := False\<rparr>
      else t)"

definition process_chunk :: "(nat \<Rightarrow> rat) \<Rightarrow> bytes \<Rightarrow> tap \<Rightarrow> bytes \<times> tap" where
  "process_chunk clock chunk t =
     (if chunk = [] then ([], tap_close clock t)
      else
        (let now = clock (tp_calls t)
         in (chunk, queue_put chunk now (note_first now chunk (t\<lparr>tp_calls := tp_calls t + 1\<rparr>)))))"

fun process_chunks :: "(nat \<Rightarrow> rat) \<Rightarrow> bytes list \<Rightarrow> tap \<Rightarrow> bytes list \<times> tap" where
  "process_chunks clock [] t = ([], t)"
| "process_chunks clock (c # cs) t =
     (let (d, t1) = process_chunk clock c t; (ds, t2) = process_chunks clock cs t1 in (d # ds, t2))"

text \<open>What the stream function that was installed before returns; \<open>Inl\<close> is an exception.\<close>

datatype transformed = TBytes bytes | TChunks "bytes list" | TOther

datatype delivered = OneChunk bytes | ManyChunks "bytes list"

definition tap_call :: "(nat \<Rightarrow> rat) \<Rightarrow> (bytes \<Rightarrow> transformed res) option \<Rightarrow> bytes \<Rightarrow> tap \<Rightarrow> delivered \<times> tap" where
  "tap_call clock orig raw t =
     (case orig of
        None \<Rightarrow> map_prod OneChunk id (process_chunk clock raw t)
      | Some f \<Rightarrow>
          (case f raw of
             Inl _ \<Rightarrow> (OneChunk raw, t)
           | Inr (TBytes c) \<Rightarrow> map_prod OneChunk id (process_chunk clock c t)
           | Inr (TChunks cs) \<Rightarrow> map_prod ManyChunks id (process_chunks clock cs t)
           | Inr TOther \<Rightarrow> map_prod OneChunk id (process_chunk clock raw t)))"

text \<open>
  The generator over an upstream iterable: what has been consumed when it is exhausted or closed.
  An exception of the earlier stream function reaches the consumer after the \<open>finally\<close>.
\<close>

fun tee_items :: "(nat \<Rightarrow> rat) \<Rightarrow> (bytes \<Rightarrow> transformed res) option \<Rightarrow> bytes list \<Rightarrow> tap
    \<Rightarrow> bytes list \<times> tap \<times> bool" where
  "tee_items clock orig [] t = ([], t, False)"
| "tee_items clock orig (raw # rest) t =
     (case (case orig of None \<Rightarrow> Inr TOther | Some f \<Rightarrow> f raw) of
        Inl _ \<Rightarrow> ([], t, True)
      | Inr tr \<Rightarrow>
          (let cs = (case tr of TBytes c \<Rightarrow> [c] | TChunks cs \<Rightarrow> cs | TOther \<Rightarrow> [raw]);
               (ds, t1) = process_chunks clock cs t;
               (es, t2, err) = tee_items clock orig rest t1
           in (ds @ es, t2, err)))"

definition tee_iterable :: "(nat \<Rightarrow> rat) \<Rightarrow> (bytes \<Rightarrow> transformed res) option \<Rightarrow> bytes list \<Rightarrow> tap
    \<Rightarrow> bytes list \<times> tap \<times> bool" where
  "tee_iterable clock orig upstream t =
     (let (out, t1, err) = tee_items clock orig upstream t in (out, tap_close clock t1, err))"

text \<open>The asynchronous variant queues empty chunks too and closes unconditionally.\<close>

fun tee_async_items :: "(nat \<Rightarrow> rat) \<Rightarrow> bytes list \<Rightarrow> tap \<Rightarrow> bytes list \<times> tap" where
  "tee_async_items clock [] t = ([], t)"
| "tee_async_items clock (c # cs) t =
     (let now = clock (tp_calls t);
          t1 = queue_put c now (note_first now c (t\<lparr>tp_calls := tp_calls t + 1\<rparr>));
          (ds, t2) = tee_async_items clock cs t1
      in (c # ds, t2))"

definition tee_async :: "(nat \<Rightarrow> rat) \<Rightarrow> bytes list \<Rightarrow> tap \<Rightarrow> bytes list \<times> tap" where
  "tee_async clock upstream t =
     (let (out, t1) = tee_async_items clock upstream t; now = clock (tp_calls t1)
      in (out, queue_put [] now
           (t1\<lparr>tp_calls := tp_calls t1 + 1,
               tp_timing := map_option (\<lambda>tm. tm\<lparr>tm_stream_closed_at := Some now\<rparr>) (tp_timing t1)\<rparr>)))"

text \<open>
  \<open>hook_stream\<close> looks at the stream attribute of the response: an iterable is replaced by the
  generator over it, anything else by the tap itself, which goes on to call a callable one.
\<close>

datatype stream_attr = SIterable "bytes list" | SCallable "bytes \<Rightarrow> transformed res" | SOther

datatype hooked = Untouched | TapGenerator "bytes list" | TapFunction "(bytes \<Rightarrow> transformed res) option"

definition hook_stream :: "stream_attr option \<Rightarrow> hooked" where
  "hook_stream response =
     (case response of
        None \<Rightarrow> Untouched
      | Some (SIterable chunks) \<Rightarrow> TapGenerator chunks
      | Some (SCallable f) \<Rightarrow> TapFunction (Some f)
      | Some SOther \<Rightarrow> TapFunction None)"

text \<open>What the client is sent for the chunks the proxy reads.\<close>

fun hooked_output :: "(nat \<Rightarrow> rat) \<Rightarrow> hooked \<Rightarrow> bytes list \<Rightarrow> tap \<Rightarrow> delivered list" where
  "hooked_output clock Untouched raws t = map OneChunk raws"
| "hooked_output clock (TapGenerator chunks) raws t = map OneChunk (fst (tee_iterable clock None chunks t))"
| "hooked_output clock (TapFunction orig) [] t = []"
| "hooked_output clock (TapFunction orig) (raw # raws) t =
     (let (d, t1) = tap_call clock orig raw t in d # hooked_output clock (TapFunction orig) raws t1)"

subsection \<open>The client sees the stream unchanged\<close>

lemma process_chunk_out [simp]: "fst (process_chunk clock c t) = c"
  by (simp add: process_chunk_def Let_def)

lemma process_chunks_out [simp]: "fst (process_chunks clock cs t) = cs"
  by (induction cs arbitrary: t) (simp_all add: Let_def split_beta)

lemma tee_items_out: "tee_items clock None cs t = (cs, snd (process_chunks clock cs t), False)"
  by (induction cs arbitrary: t) (simp_all add: Let_def split_beta)

lemma tee_out: "fst (tee_iterable clock None cs t) = cs"
  by (simp add: tee_iterable_def tee_items_out Let_def)

lemma hook_transparent: "hooked_output clock (hook_stream (Some SOther)) raws t = map OneChunk raws"
proof (induction raws arbitrary: t)
  case (Cons raw raws)
  have "hooked_output clock (TapFunction None) raws t' = map OneChunk raws" for t'
    using Cons.IH by (simp add: hook_stream_def)
  then show ?case by (simp add: hook_stream_def tap_call_def split_beta)
qed (simp add: hook_stream_def)

lemma tee_async_out [simp]: "fst (tee_async_items clock cs t) = cs"
  by (induction cs arbitrary: t) (simp_all add: Let_def split_beta)

subsection \<open>What the queue receives\<close>

definition queued :: "tap \<Rightarrow> bytes list" where
  "queued t = map (\<lambda>(_, c, _). c) (tp_queue t)"

text \<open>At most one end marker, none before the tap is closed, and no other empty entry.\<close>

definition tap_ok :: "tap \<Rightarrow> bool" where
  "tap_ok t \<longleftrightarrow> count_list (queued t) [] \<le> (if tp_closed t then 1 else 0)
     \<and> (0 < tp_maxsize t \<longrightarrow> length (tp_queue t) \<le> tp_maxsize t)"

lemma queue_put_fields [simp]:
  "tp_closed (queue_put c n t) = tp_closed t" "tp_maxsize (queue_put c n t) = tp_maxsize t"
  "tp_calls (queue_put c n t) = tp_calls t" "tp_cid (queue_put c n t) = tp_cid t"
  by (simp_all add: queue_put_def)

lemma note_first_fields [simp]:
  "tp_closed (note_first n c t) = tp_closed t" "tp_maxsize (note_first n c t) = tp_maxsize t"
  "tp_queue (note_first n c t) = tp_queue t" "queued (note_first n c t) = queued t"
  by (simp_all add: note_first_def queued_def)

lemma queued_put:
  "queued (queue_put c n t) =
     (if 0 < tp_maxsize t \<and> tp_maxsize t \<le> length (tp_queue t) then queued t else queued t @ [c])"
  by (simp add: queue_put_def queued_def)

lemma put_count: "count_list (queued (queue_put c n t)) [] \<le> count_list (queued t) [] + (if c = [] then 1 else 0)"
  by (simp add: queued_put)

lemma put_size:
  "0 < tp_maxsize t \<longrightarrow> length (tp_queue t) \<le> tp_maxsize t \<Longrightarrow>
     0 < tp_maxsize t \<longrightarrow> length (tp_queue (queue_put c n t)) \<le> tp_maxsize t"
  by (simp add: queue_put_def)

lemma tap_close_ok:
  assumes "tap_ok t"
  shows "tap_ok (tap_close clock t)"
proof (cases "tp_closed t")
  case False
  let ?t = "t\<lparr>tp_closed := True, tp_calls := tp_calls t + 1,
      tp_timing := map_option (\<lambda>tm. tm\<lparr>tm_stream_closed_at := Some (clock (tp_calls t))\<rparr>) (tp_timing t)\<rparr>"
  have "count_list (queued ?t) [] = 0" using assms False by (simp add: tap_ok_def queued_def)
  then have "count_list (queued (queue_put [] (clock (tp_calls t)) ?t)) [] \<le> 1"
    using put_count [of "[]" "clock (tp_calls t)" ?t] by simp
  then show ?thesis
    using assms False put_size [of ?t "[]" "clock (tp_calls t)"] by (simp add: tap_close_def tap_ok_def Let_def)
qed (simp add: tap_close_def assms)

lemma process_chunk_ok:
  assumes "tap_ok t"
  shows "tap_ok (snd (process_chunk clock c t))"
proof (cases "c = []")
  case True
  then show ?thesis using tap_close_ok [OF assms] by (simp add: process_chunk_def)
next
  case False
  let ?n = "clock (tp_calls t)" and ?t = "note_first (clock (tp_calls t)) c (t\<lparr>tp_calls := tp_calls t + 1\<rparr>)"
  have "queued ?t = queued t" by (simp add: queued_def)
  then show ?thesis
    using assms False put_count [of c ?n ?t] put_size [of ?t c ?n]
    by (auto simp: process_chunk_def tap_ok_def Let_def)
qed

lemma process_chunks_ok: "tap_ok t \<Longrightarrow> tap_ok (snd (process_chunks clock cs t))"
proof (induction cs arbitrary: t)
  case (Cons c cs)
  have "tap_ok (snd (process_chunk clock c t))" by (rule process_chunk_ok [OF Cons.prems])
  from Cons.IH [OF this] show ?case by (simp add: Let_def split_beta)
qed simp

text \<open>An unbounded queue receives the whole stream and one end marker.\<close>

lemma process_chunks_queue:
  assumes "tp_maxsize t = 0" "[] \<notin> set cs"
  shows "queued (snd (process_chunks clock cs t)) = queued t @ cs
    \<and> tp_maxsize (snd (process_chunks clock cs t)) = 0
    \<and> tp_closed (snd (process_chunks clock cs t)) = tp_closed t"
  using assms
proof (induction cs arbitrary: t)
  case (Cons c cs)
  let ?t = "snd (process_chunk clock c t)"
  have "tp_maxsize ?t = 0" "queued ?t = queued t @ [c]" "tp_closed ?t = tp_closed t"
    using Cons.prems by (auto simp: process_chunk_def Let_def queued_put) (simp add: queued_def)
  with Cons.IH [of ?t] Cons.prems show ?case by (simp add: Let_def split_beta)
qed simp

lemma tee_queue:
  assumes "[] \<notin> set cs"
  shows "queued (fst (snd (tee_iterable clock None cs (new_tap cid tm 0)))) = cs @ [[]]"
proof -
  let ?t = "snd (process_chunks clock cs (new_tap cid tm 0))"
  have "queued ?t = cs" "tp_maxsize ?t = 0" "\<not> tp_closed ?t"
    using process_chunks_queue [of "new_tap cid tm 0" cs clock] assms by (simp_all add: new_tap_def queued_def)
  then show ?thesis by (simp add: tee_iterable_def tee_items_out tap_close_def Let_def queued_put) (simp add: queued_def)
qed

text \<open>A bounded one, with nobody reading, receives an initial part of it.\<close>

lemma queue_prefix:
  assumes "0 < tp_maxsize t" "[] \<notin> set cs"
  shows "queued (snd (process_chunks clock cs t)) = queued t @ take (tp_maxsize t - length (tp_queue t)) cs"
  using assms
proof (induction cs arbitrary: t)
  case (Cons c cs)
  let ?t = "snd (process_chunk clock c t)"
  have m: "tp_maxsize ?t = tp_maxsize t" using Cons.prems by (auto simp: process_chunk_def Let_def)
  have IH: "queued (snd (process_chunks clock cs ?t)) = queued ?t @ take (tp_maxsize t - length (tp_queue ?t)) cs"
    using Cons.IH [of ?t] Cons.prems m by simp
  show ?case
  proof (cases "tp_maxsize t \<le> length (tp_queue t)")
    case True
    then have "queued ?t = queued t" "length (tp_queue ?t) = length (tp_queue t)"
      using Cons.prems by (auto simp: process_chunk_def Let_def queue_put_def queued_def note_first_def)
    with IH True show ?thesis by (simp add: Let_def split_beta)
  next
    case False
    then have "queued ?t = queued t @ [c]" "length (tp_queue ?t) = Suc (length (tp_queue t))"
      using Cons.prems by (auto simp: process_chunk_def Let_def queue_put_def queued_def note_first_def)
    moreover have "tp_maxsize t - length (tp_queue t) = Suc (tp_maxsize t - Suc (length (tp_queue t)))"
      using False by simp
    ultimately show ?thesis using IH by (simp add: Let_def split_beta)
  qed
qed simp

end
