(* ===== verification/Router.thy ===== *)
theory Router
  imports Schema
begin

text \<open>
  \<open>src/interceptor/filter/\<close>: which requests the proxy looks at (\<open>provider_router.py\<close>) and what it
  removes from them before they leave the process (\<open>sanitizer.py\<close>). The regular expressions are
  transcribed into a small datatype; matching computes the remainders a pattern can leave.
\<close>

subsection \<open>Regular expressions\<close>

text \<open>
  The part of \<open>re\<close> the routes use, with \<open>re.IGNORECASE\<close>: literals, repeated character classes,
  \<open>.*\<close>, \<open>$\<close> (the end, or a final newline) and a lookahead.
\<close>

datatype re =
    Lit string
  | Class "char \<Rightarrow> bool"
  | Many "char \<Rightarrow> bool"
  | Seq re re
  | Alt re re
  | Opt re
  | End
  | Look re

fun suffixes_while :: "(char \<Rightarrow> bool) \<Rightarrow> string \<Rightarrow> string list" where
  "suffixes_while P [] = [[]]"
| "suffixes_while P (c # s) = (if P c then suffixes_while P s @ [c # s] else [c # s])"

text \<open>The suffixes of a text after a match at its beginning.\<close>

fun remainders :: "re \<Rightarrow> string \<Rightarrow> string list" where
  "remainders (Lit l) s = (if starts_with (str_lower l) (str_lower s) then [drop (length l) s] else [])"
| "remainders (Class P) s = (case s of [] \<Rightarrow> [] | c # t \<Rightarrow> if P c then [t] else [])"
| "remainders (Many P) s = suffixes_while P s"
| "remainders (Seq a b) s = concat (map (remainders b) (remainders a s))"
| "remainders (Alt a b) s = remainders a s @ remainders b s"
| "remainders (Opt a) s = remainders a s @ [s]"
| "remainders End s = (if s = [] \<or> s = [CHR 0x0A] then [s] else [])"
| "remainders (Look a) s = (if remainders a s \<noteq> [] then [s] else [])"

definition re_match :: "re \<Rightarrow> string \<Rightarrow> bool" where
  "re_match r s = (remainders r s \<noteq> [])"

fun re_seq :: "re list \<Rightarrow> re" where
  "re_seq [] = Lit []"
| "re_seq [r] = r"
| "re_seq (r # rs) = Seq r (re_seq rs)"

fun re_alt :: "string list \<Rightarrow> re" where
  "re_alt [] = Class (\<lambda>_. False)"
| "re_alt [l] = Lit l"
| "re_alt (l # ls) = Alt (Lit l) (re_alt ls)"

definition ascii_alnum :: "char \<Rightarrow> bool" where
  "ascii_alnum c =
     (let n = (of_char c :: nat) in 48 \<le> n \<and> n \<le> 57 \<or> 65 \<le> n \<and> n \<le> 90 \<or> 97 \<le> n \<and> n \<le> 122)"

definition host_char :: "char \<Rightarrow> bool" where
  "host_char c \<longleftrightarrow> ascii_alnum c \<or> c = CHR ''_'' \<or> c = CHR ''.'' \<or> c = CHR ''-''"

definition ascii_digit :: "char \<Rightarrow> bool" where
  "ascii_digit c = (let n = (of_char c :: nat) in 48 \<le> n \<and> n \<le> 57)"

definition no_newline :: "char \<Rightarrow> bool" where
  "no_newline c \<longleftrightarrow> c \<noteq> CHR 0x0A"

definition any_text :: re where
  "any_text = Many no_newline"

subsection \<open>Routes\<close>

text \<open>\<open>([a-zA-Z0-9_.-]+\.)?\<close>, \<open>(:443)?$\<close> and \<open>(?=[/?#]|$)\<close>.\<close>

definition subdomain :: re where
  "subdomain = Opt (re_seq [Class host_char, Many host_char, Lit ''.''])"

definition port_443 :: re where
  "port_443 = Seq (Opt (Lit '':443'')) End"

definition path_end :: re where
  "path_end = Look (Alt (Class (\<lambda>c. c = CHR ''/'' \<or> c = CHR ''?'' \<or> c = CHR ''#'')) End)"

definition domain :: "string list \<Rightarrow> re" where
  "domain names = re_seq [subdomain, re_alt names, port_443]"

definition local_host :: "re \<Rightarrow> re" where
  "local_host port = re_seq [re_alt [''localhost'', ''127.0.0.1''], Opt port, End]"

definition any_port :: re where
  "any_port = re_seq [Lit '':'', Class ascii_digit, Many ascii_digit]"

definition fixed_path :: "string list \<Rightarrow> re" where
  "fixed_path ps = Seq (re_alt ps) path_end"

definition method_path :: "string list \<Rightarrow> re" where
  "method_path ms =
     re_seq [Lit ''/'', any_text, Class (\<lambda>c. c = CHR '':'' \<or> c = CHR ''/''), re_alt ms, path_end]"

definition openai_paths :: "string list" where
  "openai_paths = [''/v1/chat/completions'', ''/v1/responses'', ''/v1/completions'']"

definition gemini_methods :: "string list" where
  "gemini_methods = [''generateContent'', ''streamGenerateContent'', ''bidiGenerateContent'',
     ''generateChat'', ''streamGenerateChat'', ''internalAtomicAgenticChat'', ''tabChat'',
     ''generateCode'', ''completeCode'', ''predict'', ''serverStreamingPredict'', ''streamRawPredict'',
     ''rawPredict'']"

definition ROUTES :: "(re \<times> re \<times> provider) list" where
  "ROUTES =
     [(domain [''anthropic.com''], fixed_path [''/v1/messages''], ANTHROPIC),
      (domain [''openai.com''], fixed_path openai_paths, OPENAI),
      (domain [''googleapis.com'', ''google.com''], method_path gemini_methods, GEMINI),
      (domain [''googleapis.com''],
       re_seq [Lit ''/'', any_text, Lit ''v1'', any_text, Lit ''/chat/completions'', path_end], GEMINI),
      (re_seq [any_text, Lit ''.openai.azure.com'', port_443],
       re_seq [Lit ''/openai/deployments/'', any_text, Lit ''/chat/completions'', path_end], AZURE_OPENAI),
      (Seq (Lit ''openrouter.ai'') port_443, fixed_path [''/api/v1/chat/completions''], OPENROUTER),
      (local_host (Lit '':11434''),
       fixed_path [''/api/chat'', ''/api/generate'', ''/v1/chat/completions''], OLLAMA),
      (local_host any_port, fixed_path [''/v1/messages''], ANTHROPIC),
      (local_host any_port, fixed_path openai_paths, OPENAI),
      (local_host any_port,
       method_path [''generateContent'', ''streamGenerateContent'', ''bidiGenerateContent'', ''predict''],
       GEMINI),
      (local_host any_port, fixed_path [''/api/chat'', ''/api/generate''], OLLAMA)]"

definition route_matches :: "string \<Rightarrow> string \<Rightarrow> re \<times> re \<times> provider \<Rightarrow> bool" where
  "route_matches host path = (\<lambda>(h, p, _). re_match h host \<and> re_match p path)"

definition first_route :: "string \<Rightarrow> string \<Rightarrow> provider option" where
  "first_route host path =
     map_option (\<lambda>(_, _, prov). prov) (find (route_matches host path) ROUTES)"

text \<open>
  \<open>urlsplit(s).netloc\<close>: control characters and spaces in front are dropped, tabs and line ends
  everywhere, a scheme up to the first colon is split off; the rest must start with two slashes.
  A network location with brackets is checked further and is outside the model.
\<close>

definition scheme_char :: "char \<Rightarrow> bool" where
  "scheme_char c \<longleftrightarrow> ascii_alnum c \<or> c = CHR ''+'' \<or> c = CHR ''-'' \<or> c = CHR ''.''"

definition without_scheme :: "string \<Rightarrow> string" where
  "without_scheme s =
     (let pre = takeWhile (\<lambda>c. c \<noteq> CHR '':'') s
      in if pre \<noteq> [] \<and> length pre < length s \<and> ascii_alnum (hd pre) \<and> \<not> ascii_digit (hd pre)
            \<and> list_all scheme_char pre
         then drop (Suc (length pre)) s else s)"

definition urlsplit_netloc :: "string \<Rightarrow> string res" where
  "urlsplit_netloc url =
     (let s = filter (\<lambda>c. c \<noteq> CHR 0x09 \<and> c \<noteq> CHR 0x0A \<and> c \<noteq> CHR 0x0D)
                (dropWhile (\<lambda>c. (of_char c :: nat) \<le> 32) url);
          rest = without_scheme s
      in if starts_with ''//'' rest then
           (let netloc = takeWhile (\<lambda>c. c \<noteq> CHR ''/'' \<and> c \<noteq> CHR ''?'' \<and> c \<noteq> CHR ''#'') (drop 2 rest)
            in if CHR ''['' \<in> set netloc \<or> CHR '']'' \<in> set netloc then Inl (NotModelled ''netloc'')
               else Inr netloc)
         else Inr [])"

definition normalize_host :: "string \<Rightarrow> int option \<Rightarrow> string res" where
  "normalize_host host port =
     rbind (if str_in ''://'' (str_strip host) then urlsplit_netloc (str_strip host)
            else Inr (str_strip host))
       (\<lambda>h. Inr (case port of
                   Some n \<Rightarrow> if CHR '':'' \<in> set h then h else h @ '':'' @ show_int n
                 | None \<Rightarrow> h))"

definition ends_with :: "string \<Rightarrow> string \<Rightarrow> bool" where
  "ends_with suf s = starts_with (rev suf) (rev s)"

definition route_host :: "string \<Rightarrow> string \<Rightarrow> provider option" where
  "route_host host path =
     (case first_route host path of
        Some prov \<Rightarrow> Some prov
      | None \<Rightarrow>
          if CHR '':'' \<in> set host \<and> \<not> ends_with '':11434'' host
          then first_route (takeWhile (\<lambda>c. c \<noteq> CHR '':'') host) path else None)"

definition match_provider :: "string \<Rightarrow> string \<Rightarrow> int option \<Rightarrow> (bool \<times> provider) res" where
  "match_provider host path port =
     rbind (normalize_host host port) (\<lambda>h.
       Inr (case route_host h (str_strip path) of Some prov \<Rightarrow> (True, prov) | None \<Rightarrow> (False, UNKNOWN)))"

definition is_llm_request :: "string \<Rightarrow> string \<Rightarrow> int option \<Rightarrow> bool res" where
  "is_llm_request host path port = rbind (match_provider host path port) (\<lambda>r. Inr (fst r))"

subsection \<open>What a route promises\<close>

lemma suffixes_while_iff: "t \<in> set (suffixes_while P s) \<longleftrightarrow> (\<exists>u. s = u @ t \<and> list_all P u)"
proof (induction s arbitrary: t)
  case Nil
  then show ?case by auto
next
  case (Cons c s)
  show ?case
  proof
    assume "t \<in> set (suffixes_while P (c # s))"
    then show "\<exists>u. c # s = u @ t \<and> list_all P u"
      using Cons.IH by (fastforce split: if_splits intro: exI [of _ "[]"] exI [of _ "c # u" for u])
  next
    assume "\<exists>u. c # s = u @ t \<and> list_all P u"
    then obtain u where u: "c # s = u @ t" "list_all P u" by blast
    show "t \<in> set (suffixes_while P (c # s))"
    proof (cases u)
      case Nil
      with u show ?thesis by auto
    next
      case (Cons d v)
      with u Cons.IH show ?thesis by auto
    qed
  qed
qed

lemma remainders_suffix: "t \<in> set (remainders r s) \<Longrightarrow> \<exists>u. s = u @ t"
proof (induction r arbitrary: s t)
  case (Lit l)
  then show ?case by (auto split: if_splits intro: exI [of _ "take (length l) s"])
next
  case (Class P)
  then show ?case by (auto split: list.splits if_splits)
next
  case (Many P)
  then show ?case by (auto simp: suffixes_while_iff)
next
  case (Seq a b)
  then obtain m where m: "m \<in> set (remainders a s)" "t \<in> set (remainders b m)" by auto
  from Seq.IH(1) [OF m(1)] Seq.IH(2) [OF m(2)] show ?case by fastforce
next
  case (Alt a b)
  then show ?case by auto
next
  case (Opt a)
  then show ?case by auto
qed (auto split: if_splits)

lemma str_lower_append [simp]: "str_lower (s @ t) = str_lower s @ str_lower t"
  by (simp add: str_lower_def)

lemma lit_remainder: "t \<in> set (remainders (Lit l) s) \<Longrightarrow> str_lower s = str_lower l @ str_lower t"
proof -
  assume "t \<in> set (remainders (Lit l) s)"
  then have t: "t = drop (length l) s" and m: "take (length l) (str_lower s) = str_lower l"
    by (auto simp: starts_with_def str_lower_def split: if_splits)
  have "str_lower s = take (length l) (str_lower s) @ drop (length l) (str_lower s)" by simp
  then show ?thesis by (simp only: m t) (simp add: str_lower_def drop_map)
qed

lemma alt_remainder:
  "t \<in> set (remainders (re_alt ls) s) \<Longrightarrow> \<exists>l\<in>set ls. str_lower s = str_lower l @ str_lower t"
proof (induction ls rule: re_alt.induct)
  case (2 l)
  then show ?case using lit_remainder [of t l s] by (auto simp del: remainders.simps(1))
next
  case (3 l l' ls)
  then show ?case using lit_remainder [of t l s] by (auto simp del: remainders.simps(1))
qed (simp split: list.splits)

lemma lower_char_eq:
  assumes "lower_char c = d" "of_char d < (97 :: nat)"
  shows "c = d"
proof -
  have "lower_char c = c \<or> (97 :: nat) \<le> of_char (lower_char c)"
    by (auto simp: lower_char_def Let_def)
  with assms show ?thesis by auto
qed

lemma lower_dot: "lower_char CHR ''.'' = CHR ''.''"
  by (simp add: lower_char_def)

lemma subdomain_remainder:
  "t \<in> set (remainders subdomain s) \<Longrightarrow> \<exists>u. s = u @ t \<and> (u = [] \<or> last u = CHR ''.'')"
proof -
  assume t: "t \<in> set (remainders subdomain s)"
  show ?thesis
  proof (cases "t = s")
    case False
    with t obtain m where "t \<in> set (remainders (Lit ''.'') m)" "\<exists>v. s = v @ m"
      by (auto simp: subdomain_def suffixes_while_iff simp del: remainders.simps(1) split: list.splits if_splits)
    then obtain v where m: "m = CHR ''.'' # t" "s = v @ m"
      by (cases m) (auto simp: starts_with_def str_lower_def lower_char_eq lower_dot split: if_splits)
    then show ?thesis by (intro exI [of _ "v @ ''.''"]) simp
  qed auto
qed

definition port_suffixes :: "string set" where
  "port_suffixes = {[], '':443'', [CHR 0x0A], '':443'' @ [CHR 0x0A]}"

lemma lower_LF: "str_lower [CHR 0x0A] = [CHR 0x0A]"
  by (simp add: str_lower_def lower_char_def)

lemma str_lower_Nil [simp]: "str_lower [] = []"
  by (simp add: str_lower_def)

lemma port_443_remainder: "remainders port_443 s \<noteq> [] \<Longrightarrow> str_lower s \<in> port_suffixes"
proof -
  assume "remainders port_443 s \<noteq> []"
  then obtain m where m: "m \<in> set (remainders (Opt (Lit '':443'')) s)" "m = [] \<or> m = [CHR 0x0A]"
    by (auto simp: port_443_def simp del: remainders.simps(1,6) split: if_splits)
  have "str_lower '':443'' = '':443''" by (simp add: str_lower_def lower_char_def)
  with m lit_remainder [of m "'':443''" s] show ?thesis
    by (auto simp: port_suffixes_def lower_LF simp del: remainders.simps(1))
qed

text \<open>A host of a domain: the domain itself or a name under it, with an optional port 443.\<close>

definition in_domain :: "string \<Rightarrow> string \<Rightarrow> bool" where
  "in_domain d h \<longleftrightarrow> (\<exists>sub port. str_lower h = sub @ d @ port \<and> (sub = [] \<or> last sub = CHR ''.'')
     \<and> port \<in> port_suffixes)"

lemma last_lower_dot: "u \<noteq> [] \<Longrightarrow> last u = CHR ''.'' \<Longrightarrow> last (str_lower u) = CHR ''.''"
  by (simp add: str_lower_def last_map lower_char_def)

lemma domain_match:
  assumes "re_match (domain ds) h" "\<And>d. d \<in> set ds \<Longrightarrow> str_lower d = d"
  shows "\<exists>d\<in>set ds. in_domain d h"
proof -
  from assms(1) obtain m t where t: "m \<in> set (remainders subdomain h)" "t \<in> set (remainders (re_alt ds) m)"
    "remainders port_443 t \<noteq> []"
    by (auto simp: re_match_def domain_def)
  obtain u where u: "h = u @ m" "u = [] \<or> last u = CHR ''.''" using subdomain_remainder [OF t(1)] by blast
  obtain d where d: "d \<in> set ds" "str_lower m = str_lower d @ str_lower t" using alt_remainder [OF t(2)] by blast
  have "str_lower h = str_lower u @ d @ str_lower t" using u(1) d assms(2) by simp
  moreover have "str_lower u = [] \<or> last (str_lower u) = CHR ''.''"
    using u(2) last_lower_dot by (cases "u = []") auto
  ultimately show ?thesis using d(1) port_443_remainder [OF t(3)] unfolding in_domain_def by blast
qed

definition provider_domains :: "string list" where
  "provider_domains = [''anthropic.com'', ''openai.com'', ''googleapis.com'', ''google.com'',
     ''openai.azure.com'', ''openrouter.ai'']"

definition is_local :: "string \<Rightarrow> bool" where
  "is_local h \<longleftrightarrow> (\<exists>l\<in>{''localhost'', ''127.0.0.1''}. \<exists>rest. str_lower h = l @ rest
     \<and> (rest = [] \<or> hd rest = CHR '':'' \<or> rest = [CHR 0x0A]))"

lemma lower_colon: "str_lower (CHR '':'' # r) = CHR '':'' # str_lower r"
  by (simp add: str_lower_def lower_char_def)

lemma local_match:
  assumes "re_match (local_host port) h"
    and colon: "\<And>s t. t \<in> set (remainders port s) \<Longrightarrow> \<exists>r. s = CHR '':'' # r"
  shows "is_local h"
proof -
  obtain m t where m: "m \<in> set (remainders (re_alt [''localhost'', ''127.0.0.1'']) h)"
    and t: "t \<in> set (remainders (Opt port) m)" "t = [] \<or> t = [CHR 0x0A]"
    using assms(1) by (auto simp: re_match_def local_host_def simp del: remainders.simps(6) re_alt.simps split: if_splits)
  have low: "str_lower ''localhost'' = ''localhost''" "str_lower ''127.0.0.1'' = ''127.0.0.1''"
    by (simp_all add: str_lower_def lower_char_def)
  obtain l where l0: "l \<in> set [''localhost'', ''127.0.0.1'']" "str_lower h = str_lower l @ str_lower m"
    using alt_remainder [OF m] by (rule bexE)
  have l1: "l \<in> {''localhost'', ''127.0.0.1''}" using l0(1) by (simp only: set_simps)
  then have "str_lower l = l" by (elim insertE emptyE) (simp_all only: low)
  then have l: "l \<in> {''localhost'', ''127.0.0.1''}" "str_lower h = l @ str_lower m"
    using l0(2) l1 by simp_all
  have "m = [] \<or> m = [CHR 0x0A] \<or> (\<exists>r. m = CHR '':'' # r)" using t colon by auto
  then have "str_lower m = [] \<or> hd (str_lower m) = CHR '':'' \<or> str_lower m = [CHR 0x0A]"
    by (auto simp: lower_colon lower_LF)
  with l(2) show ?thesis unfolding is_local_def by (intro bexI [OF _ l(1)] exI) (rule conjI)
qed

lemma port_colon:
  "t \<in> set (remainders any_port s) \<Longrightarrow> \<exists>r. s = CHR '':'' # r"
  "t \<in> set (remainders (Lit '':11434'') s) \<Longrightarrow> \<exists>r. s = CHR '':'' # r"
proof -
  have c: "\<exists>r. s = CHR '':'' # r" if "str_lower s = CHR '':'' # r'" for r' s
  proof -
    from that obtain c r where s: "s = c # r" "lower_char c = CHR '':''" by (cases s) (auto simp: str_lower_def)
    have "c = CHR '':''" by (rule lower_char_eq [OF s(2)]) simp
    with s show ?thesis by simp
  qed
  have low: "str_lower '':'' = '':''" "str_lower '':11434'' = '':11434''"
    by (simp_all add: str_lower_def lower_char_def)
  show "t \<in> set (remainders (Lit '':11434'') s) \<Longrightarrow> \<exists>r. s = CHR '':'' # r"
    using lit_remainder [of t "'':11434''" s] c [of s] low(2) by (simp del: remainders.simps(1))
  show "t \<in> set (remainders any_port s) \<Longrightarrow> \<exists>r. s = CHR '':'' # r"
  proof -
    assume "t \<in> set (remainders any_port s)"
    then obtain m where "m \<in> set (remainders (Lit '':'') s)"
      by (auto simp: any_port_def simp del: remainders.simps(1))
    from lit_remainder [OF this] c [of s] low(1) show ?thesis by simp
  qed
qed

lemma azure_match:
  assumes "re_match (re_seq [any_text, Lit ''.openai.azure.com'', port_443]) h"
  shows "in_domain ''openai.azure.com'' h"
proof -
  obtain u m t where h: "h = u @ m" and t: "t \<in> set (remainders (Lit ''.openai.azure.com'') m)"
    "remainders port_443 t \<noteq> []"
    using assms by (auto simp: re_match_def any_text_def suffixes_while_iff simp del: remainders.simps(1))
  have "str_lower ''.openai.azure.com'' = ''.'' @ ''openai.azure.com''" by (simp add: str_lower_def lower_char_def)
  then have "str_lower h = (str_lower u @ ''.'') @ ''openai.azure.com'' @ str_lower t"
    using lit_remainder [OF t(1)] h by simp
  moreover have "last (str_lower u @ ''.'') = CHR ''.''" by simp
  ultimately show ?thesis using port_443_remainder [OF t(2)] unfolding in_domain_def by blast
qed

lemma openrouter_match:
  assumes "re_match (Seq (Lit ''openrouter.ai'') port_443) h"
  shows "in_domain ''openrouter.ai'' h"
proof -
  obtain t where t: "t \<in> set (remainders (Lit ''openrouter.ai'') h)" "remainders port_443 t \<noteq> []"
    using assms by (auto simp: re_match_def simp del: remainders.simps(1))
  have "str_lower ''openrouter.ai'' = ''openrouter.ai''" by (simp add: str_lower_def lower_char_def)
  then have "str_lower h = [] @ ''openrouter.ai'' @ str_lower t" using lit_remainder [OF t(1)] by simp
  then show ?thesis using port_443_remainder [OF t(2)] unfolding in_domain_def by blast
qed

lemma lower_domains: "d \<in> {''anthropic.com'', ''openai.com'', ''googleapis.com'', ''google.com''} \<Longrightarrow> str_lower d = d"
  by (auto simp: str_lower_def lower_char_def)

text \<open>A route is only taken for a host of one of the providers' domains or for this machine.\<close>

definition recognised :: "string \<Rightarrow> bool" where
  "recognised h \<longleftrightarrow> (\<exists>d\<in>set provider_domains. in_domain d h) \<or> is_local h"

lemma route_host_ok: "(hr, pr, prov) \<in> set ROUTES \<Longrightarrow> re_match hr h \<Longrightarrow> recognised h"
proof -
  assume r: "(hr, pr, prov) \<in> set ROUTES" and m: "re_match hr h"
  let ?D = "{[''anthropic.com''], [''openai.com''], [''googleapis.com'', ''google.com''], [''googleapis.com'']}"
  from r have "hr \<in> domain ` ?D \<or> hr = re_seq [any_text, Lit ''.openai.azure.com'', port_443]
      \<or> hr = Seq (Lit ''openrouter.ai'') port_443 \<or> hr = local_host (Lit '':11434'') \<or> hr = local_host any_port"
    unfolding ROUTES_def by (simp only: set_simps image_insert image_empty) blast
  then consider "hr \<in> domain ` ?D"
    | "hr = re_seq [any_text, Lit ''.openai.azure.com'', port_443]" | "hr = Seq (Lit ''openrouter.ai'') port_443"
    | "hr = local_host (Lit '':11434'')" | "hr = local_host any_port"
    by blast
  then show ?thesis
  proof cases
    case 1
    then obtain ds where ds: "hr = domain ds" "ds \<in> ?D" by blast
    then have "set ds \<subseteq> {''anthropic.com'', ''openai.com'', ''googleapis.com'', ''google.com''}" by auto
    note ds = ds(1) this
    then have "\<exists>d\<in>set ds. in_domain d h" using m lower_domains by (intro domain_match) auto
    moreover have "set ds \<subseteq> set provider_domains" using ds(2) by (auto simp: provider_domains_def)
    ultimately show ?thesis unfolding recognised_def by blast
  next
    case 2
    then have "in_domain ''openai.azure.com'' h" using m azure_match by simp
    then show ?thesis by (simp add: recognised_def provider_domains_def)
  next
    case 3
    then have "in_domain ''openrouter.ai'' h" using m openrouter_match by simp
    then show ?thesis by (simp add: recognised_def provider_domains_def)
  next
    case 4
    then show ?thesis using m local_match port_colon(2) unfolding recognised_def by blast
  next
    case 5
    then show ?thesis using m local_match port_colon(1) unfolding recognised_def by blast
  qed
qed

lemma first_route_ok:
  assumes "first_route h p = Some prov"
  shows "recognised h"
proof -
  obtain r where r: "r \<in> set ROUTES" "route_matches h p r"
    using assms find_eq_SomeD by (fastforce simp: first_route_def)
  obtain hr pr pv where "r = (hr, pr, pv)" by (cases r)
  with r route_host_ok show ?thesis by (auto simp: route_matches_def)
qed

lemma matched_host:
  assumes "match_provider host path port = Inr (True, prov)"
  shows "\<exists>h. normalize_host host port = Inr h \<and> (recognised h \<or> recognised (takeWhile (\<lambda>c. c \<noteq> CHR '':'') h))"
  using assms first_route_ok
  by (auto simp: match_provider_def rbind_eq_Inr route_host_def split: option.splits if_splits)

text \<open>A port is dropped whatever it is, not only the standard ones.\<close>

lemma any_port_routed:
  assumes "CHR '':'' \<notin> set h" "first_route h path = Some prov" "\<not> ends_with '':11434'' (h @ CHR '':'' # port)"
  shows "route_host (h @ CHR '':'' # port) path \<noteq> None"
proof -
  have "list_all (\<lambda>c. c \<noteq> CHR '':'') h" using assms(1) by (auto simp: list_all_iff)
  then have "takeWhile (\<lambda>c. c \<noteq> CHR '':'') (h @ CHR '':'' # port) = h" by (simp add: list_all_iff)
  with assms(2,3) show ?thesis by (simp add: route_host_def split: option.split)
qed

end
