(* ===== verification/Sanitizer.thy ===== *)
theory Sanitizer
  imports PyValue
begin

text \<open>
  \<open>src/interceptor/filter/sanitizer.py\<close>: redaction of credentials in headers and payloads. The
  lemmas show that no value under a sensitive key survives at any depth, that nothing else
  changes, and that sanitising twice is sanitising once.
\<close>

definition REDACTED :: string where
  "REDACTED = ''[REDACTED]''"

definition SENSITIVE_HEADERS :: "string list" where
  "SENSITIVE_HEADERS = [''authorization'', ''x-api-key'', ''api-key'', ''proxy-authorization'',
     ''cookie'', ''set-cookie'']"

definition EXCLUDED_PAYLOAD_KEYS :: "string list" where
  "EXCLUDED_PAYLOAD_KEYS = [''max_tokens'', ''input_tokens'', ''output_tokens'', ''prompt_tokens'',
     ''completion_tokens'', ''total_tokens'', ''reasoning_tokens'', ''cache_creation_input_tokens'',
     ''cache_read_input_tokens'', ''tokens'', ''token_count'', ''token_usage'']"

text \<open>\<open>re.search(r"(api[_-]?key|token)", key, re.IGNORECASE)\<close>.\<close>

definition SENSITIVE_KEY_PATTERN :: "string \<Rightarrow> bool" where
  "SENSITIVE_KEY_PATTERN key =
     (let k = str_lower key
      in str_in ''token'' k \<or> str_in ''apikey'' k \<or> str_in ''api_key'' k \<or> str_in ''api-key'' k)"

record sanitizer =
  sz_sensitive_headers :: "string list"
  sz_excluded_keys :: "string list"
  sz_redaction :: string

definition default_sanitizer :: sanitizer where
  "default_sanitizer = \<lparr>sz_sensitive_headers = SENSITIVE_HEADERS,
     sz_excluded_keys = EXCLUDED_PAYLOAD_KEYS, sz_redaction = REDACTED\<rparr>"

definition new_header_sanitizer :: "string list option \<Rightarrow> string \<Rightarrow> sanitizer" where
  "new_header_sanitizer sensitive redaction =
     \<lparr>sz_sensitive_headers =
        (case sensitive of None \<Rightarrow> SENSITIVE_HEADERS | Some hs \<Rightarrow> map str_lower hs),
      sz_excluded_keys = EXCLUDED_PAYLOAD_KEYS, sz_redaction = redaction\<rparr>"

definition sanitize_headers :: "sanitizer \<Rightarrow> jdict \<Rightarrow> (string, string) dict" where
  "sanitize_headers z headers =
     map (\<lambda>(key, v). (key,
        if str_lower key \<in> set (sz_sensitive_headers z) then sz_redaction z
        else if v = JNull then [] else py_str v)) headers"

definition is_sensitive_key :: "sanitizer \<Rightarrow> string \<Rightarrow> bool" where
  "is_sensitive_key z key =
     (if str_lower key \<in> set (sz_excluded_keys z) then False else SENSITIVE_KEY_PATTERN key)"

fun sanitize :: "sanitizer \<Rightarrow> json \<Rightarrow> json" where
  "sanitize z (JObj d) =
     JObj (map (\<lambda>(k, v). (k, if is_sensitive_key z k then JStr (sz_redaction z) else sanitize z v)) d)"
| "sanitize z (JArr xs) = JArr (map (sanitize z) xs)"
| "sanitize z v = v"

subsection \<open>Nothing sensitive is left, nothing else is touched\<close>

text \<open>No value under a sensitive key other than the redaction string, at any depth.\<close>

fun redacted :: "sanitizer \<Rightarrow> json \<Rightarrow> bool" where
  "redacted z (JObj d) \<longleftrightarrow>
     (\<forall>(k, v)\<in>set d. if is_sensitive_key z k then v = JStr (sz_redaction z) else redacted z v)"
| "redacted z (JArr xs) \<longleftrightarrow> (\<forall>x\<in>set xs. redacted z x)"
| "redacted z v \<longleftrightarrow> True"

lemma sanitize_redacted: "redacted z (sanitize z v)"
  by (induction z v rule: sanitize.induct) fastforce+

lemma redacted_unchanged: "redacted z v \<Longrightarrow> sanitize z v = v"
proof (induction z v rule: sanitize.induct)
  case (1 z d)
  then show ?case by (auto intro!: map_idI split: if_splits)
next
  case (2 z xs)
  then show ?case by (auto intro: map_idI)
qed simp_all

text \<open>The value at a path of keys (list items by position).\<close>

datatype step = Key string | Item nat

fun json_at :: "json \<Rightarrow> step list \<Rightarrow> json option" where
  "json_at v [] = Some v"
| "json_at (JObj d) (Key k # p) = (case map_of d k of None \<Rightarrow> None | Some v \<Rightarrow> json_at v p)"
| "json_at (JArr xs) (Item i # p) = (if i < length xs then json_at (xs ! i) p else None)"
| "json_at _ _ = None"

definition clean_path :: "sanitizer \<Rightarrow> step list \<Rightarrow> bool" where
  "clean_path z p \<longleftrightarrow> list_all (\<lambda>s. case s of Key k \<Rightarrow> \<not> is_sensitive_key z k | Item _ \<Rightarrow> True) p"

lemma map_of_sanitized:
  "map_of (map (\<lambda>(k, v). (k, if P k then c else f v)) d) k =
     map_option (\<lambda>v. if P k then c else f v) (map_of d k)"
  by (induction d) auto

lemma sanitize_at: "clean_path z p \<Longrightarrow> json_at (sanitize z v) p = map_option (sanitize z) (json_at v p)"
proof (induction v p rule: json_at.induct)
  case (2 d k p)
  then show ?case by (auto simp: clean_path_def map_of_sanitized split: option.splits)
qed (auto simp: clean_path_def)

lemma header_values:
  "map fst (sanitize_headers z hs) = map fst hs"
  "(k, v) \<in> set (sanitize_headers z hs) \<Longrightarrow> str_lower k \<in> set (sz_sensitive_headers z) \<Longrightarrow> v = sz_redaction z"
  by (auto simp: sanitize_headers_def)

text \<open>Counters and limits whose names are not in the list of exclusions are taken for credentials.\<close>

lemma counters_redacted:
  "sanitize default_sanitizer (JObj [(''max_completion_tokens'', JInt 100), (''promptTokenCount'', JInt 7),
      (''prompt_tokens_details'', JObj [(''cached_tokens'', JInt 5)])])
   = JObj [(''max_completion_tokens'', JStr REDACTED), (''promptTokenCount'', JStr REDACTED),
      (''prompt_tokens_details'', JStr REDACTED)]"
  by code_simp

end
