(* ===== verification/Payloads.thy ===== *)
theory Payloads
  imports Accumulators Schema Detect JsonText
begin

text \<open>
  The functions of \<open>src/interceptor/addon.py\<close> that only read headers and payloads: identifiers,
  model names, token counts and stop reasons, the choice of an accumulator and the response built
  from what it collected.
\<close>

subsection \<open>Identifiers\<close>

definition SESSION_HEADERS :: "string list" where
  "SESSION_HEADERS =
     [''x-session-id'', ''x-ctxins-session-id'', ''ctxins-session-id'', ''session-id'', ''session_id'',
      ''x-conversation-id'', ''conversation-id'', ''conversation_id'', ''x-chat-id'', ''chat-id'',
      ''x-opencode-session'', ''x-opencode-session-id'', ''opencode-session-id'',
      ''x-claude-session-id'', ''claude-session-id'', ''x-agy-session'', ''x-agy-session-id'',
      ''x-trajectory-id'', ''trajectory-id'', ''trajectory_id'', ''x-cascade-id'', ''cascade-id'',
      ''cascade_id'']"

definition SESSION_KEYS :: "string list" where
  "SESSION_KEYS =
     [''sessionid'', ''session_id'', ''conversationid'', ''conversation_id'', ''trajectoryid'',
      ''trajectory_id'', ''cascadeid'', ''cascade_id'', ''chatid'', ''chat_id'']"

text \<open>The first candidate that gives a value.\<close>

fun first_some :: "('a \<Rightarrow> 'b option) \<Rightarrow> 'a list \<Rightarrow> 'b option" where
  "first_some f [] = None"
| "first_some f (x # xs) = (case f x of Some y \<Rightarrow> Some y | None \<Rightarrow> first_some f xs)"

definition stripped :: "string \<Rightarrow> string option" where
  "stripped s = nonempty (Some (str_strip s))"

definition session_of_headers :: "(string, string) dict \<Rightarrow> string option" where
  "session_of_headers lower =
     first_some (\<lambda>k. Option.bind (map_of lower k) stripped) SESSION_HEADERS"

text \<open>\<open>if val and isinstance(val, (str, int)) and str(val).strip()\<close>; a \<open>bool\<close> is an \<open>int\<close>.\<close>

definition session_value :: "json \<Rightarrow> string option" where
  "session_value v =
     (case v of
        JStr s \<Rightarrow> stripped s
      | JInt n \<Rightarrow> if n \<noteq> 0 then Some (show_int n) else None
      | JBool b \<Rightarrow> if b then Some ''True'' else None
      | _ \<Rightarrow> None)"

definition session_of_container :: "jdict \<Rightarrow> string option" where
  "session_of_container d =
     (let lower = lower_keys d
      in first_some (\<lambda>k. Option.bind (map_of lower k) session_value) SESSION_KEYS)"

definition as_dict :: "json \<Rightarrow> jdict" where
  "as_dict v = (case v of JObj d \<Rightarrow> d | _ \<Rightarrow> [])"

definition session_of_body :: "jdict \<Rightarrow> string option" where
  "session_of_body body =
     (let wrapper = as_dict (jget body ''request'')
      in first_some session_of_container
           [body, wrapper, as_dict (jget body ''metadata''), as_dict (jget wrapper ''metadata'')])"

definition harness_of :: "agent_identity option \<Rightarrow> string option" where
  "harness_of agent = (case agent of Some a \<Rightarrow> if ai_is_known a then Some (ai_name a) else None | None \<Rightarrow> None)"

definition extract_session_id :: "string \<Rightarrow> (string, string) dict \<Rightarrow> jdict option \<Rightarrow> agent_identity option
    \<Rightarrow> string" where
  "extract_session_id dflt headers body agent =
     (case (case session_of_headers (lower_keys headers) of
              Some s \<Rightarrow> Some s | None \<Rightarrow> Option.bind body session_of_body) of
        Some s \<Rightarrow> normalize_session_id (JStr s) (harness_of agent)
      | None \<Rightarrow> dflt)"

definition extract_correlation_id :: "string option \<Rightarrow> (string, string) dict \<Rightarrow> string \<Rightarrow> string \<Rightarrow> string" where
  "extract_correlation_id noted headers flow_id uuid =
     (let lower = lower_keys headers
      in case first_some nonempty
           [noted, map_of lower ''x-correlation-id'', map_of lower ''x-ctxins-correlation-id'',
            map_of lower ''x-request-id'', Some flow_id] of
           Some s \<Rightarrow> s
         | None \<Rightarrow> ''corr-'' @ take 12 uuid)"

subsection \<open>Models\<close>

text \<open>\<open>re.search(pre + "([^stop]+)", s)\<close>.\<close>

fun segment_after :: "string \<Rightarrow> string \<Rightarrow> string \<Rightarrow> string option" where
  "segment_after pre stop [] = None"
| "segment_after pre stop (c # s) =
     (let seg = takeWhile (\<lambda>c. c \<notin> set stop) (drop (length pre) (c # s))
      in if starts_with pre (c # s) \<and> seg \<noteq> [] then Some seg else segment_after pre stop s)"

definition model_keys :: "string list" where
  "model_keys = [''model'', ''modelId'', ''model_id'']"

definition extract_model :: "provider \<Rightarrow> string \<Rightarrow> jdict \<Rightarrow> string" where
  "extract_model prov path body =
     (let own = first_some (\<lambda>k. case map_of body k of Some (JStr s) \<Rightarrow> nonempty (Some s) | _ \<Rightarrow> None) model_keys;
          inner = first_some (\<lambda>k. case map_of (as_dict (jget body ''request'')) k of
              Some v \<Rightarrow> if truthy v then Some (py_str v) else None | None \<Rightarrow> None) model_keys;
          found =
            (case own of
               Some s \<Rightarrow> Some s
             | None \<Rightarrow>
                 if prov = GEMINI then
                   (case inner of Some s \<Rightarrow> Some s | None \<Rightarrow> segment_after ''/models/'' '':/'' path)
                 else if prov = AZURE_OPENAI then segment_after ''/deployments/'' ''/'' path
                 else None)
      in case found of Some s \<Rightarrow> s | None \<Rightarrow> if prov = GEMINI then ''gemini'' else ''unknown'')"

subsection \<open>Streaming\<close>

definition openai_like :: "provider \<Rightarrow> bool" where
  "openai_like prov \<longleftrightarrow> prov \<in> {OPENAI, AZURE_OPENAI, OPENROUTER, OLLAMA}"

definition create_accumulator :: "provider \<Rightarrow> any_acc option" where
  "create_accumulator prov =
     (if prov = ANTHROPIC then Some (Anthropic new_anthropic)
      else if openai_like prov then Some (OpenAi new_openai)
      else if prov = GEMINI then Some (Gemini new_gemini) else None)"

definition STREAM_PATHS :: "string list" where
  "STREAM_PATHS = [''streamGenerateContent'', ''streamGenerateChat'', ''bidiGenerateContent'',
     ''serverStreamingPredict'', ''streamRawPredict'']"

definition is_streaming :: "string option \<Rightarrow> string \<Rightarrow> jdict option \<Rightarrow> bool" where
  "is_streaming content_type path request_payload \<longleftrightarrow>
     (case content_type of Some ct \<Rightarrow> str_in ''text/event-stream'' (str_lower ct) | None \<Rightarrow> False)
     \<or> list_ex (\<lambda>s. str_in s path) STREAM_PATHS
     \<or> (case request_payload of Some d \<Rightarrow> jget d ''stream'' = JBool True | None \<Rightarrow> False)"

subsection \<open>The response of a stream\<close>

definition joined_text :: "acc_block list \<Rightarrow> string res" where
  "joined_text blocks =
     rbind (rmap_list (\<lambda>b. case ab_text b of JStr s \<Rightarrow> Inr s | _ \<Rightarrow> Inl TypeError)
              (filter (\<lambda>b. ab_type b = TEXT \<and> truthy (ab_text b)) blocks)) (\<lambda>ts. Inr (concat ts))"

definition tool_calls_json :: "acc_block list \<Rightarrow> json list" where
  "tool_calls_json blocks =
     map (\<lambda>(i, b). JObj
         [(''id'', py_or (ab_tool_id b) (JStr (''call_'' @ show_nat i))), (''type'', JStr ''function''),
          (''function'', JObj
             [(''name'', py_or (ab_tool_name b) (JStr [])),
              (''arguments'', py_or (ab_partial_json b)
                 (JStr (json_dumps (py_or (ab_parsed_input b) (JObj [])))))])])
       (filter (\<lambda>(i, b). ab_type b = TOOL_USE) (enumerate 0 blocks))"

definition gemini_parts_json :: "acc_block list \<Rightarrow> json list" where
  "gemini_parts_json blocks =
     List.map_filter (\<lambda>b.
       if ab_type b = TEXT \<and> truthy (ab_text b) then Some (JObj [(''text'', ab_text b)])
       else if ab_type b = TOOL_USE then
         Some (JObj [(''functionCall'', JObj [(''name'', py_or (ab_tool_name b) (JStr [])),
                                             (''args'', py_or (ab_parsed_input b) (JObj []))])])
       else None) blocks"

definition acc_blocks_json :: "acc_block list \<Rightarrow> json" where
  "acc_blocks_json blocks = JArr (map (\<lambda>b. JObj (acc_block_to_dict b)) blocks)"

definition build_synthetic_response :: "provider \<Rightarrow> string \<Rightarrow> string \<Rightarrow> acc_block list \<Rightarrow> jdict \<Rightarrow> json
    \<Rightarrow> json res" where
  "build_synthetic_response prov cid model blocks usage stop =
     (if prov = ANTHROPIC then
        Inr (JObj [(''id'', JStr (''msg_'' @ cid)), (''type'', JStr ''message''),
          (''role'', JStr ''assistant''), (''model'', JStr model), (''content'', acc_blocks_json blocks),
          (''stop_reason'', py_or stop (JStr ''end_turn'')), (''usage'', JObj usage)])
      else if openai_like prov then
        rbind (joined_text blocks) (\<lambda>content.
          let calls = tool_calls_json blocks;
              msg = [(''role'', JStr ''assistant'')]
                @ (if content \<noteq> [] then [(''content'', JStr content)] else [])
                @ (if calls \<noteq> [] then [(''tool_calls'', JArr calls)] else [])
          in Inr (JObj [(''id'', JStr (''chatcmpl_'' @ cid)), (''object'', JStr ''chat.completion''),
               (''model'', JStr model),
               (''choices'', JArr [JObj [(''index'', JInt 0), (''message'', JObj msg),
                                        (''finish_reason'', py_or stop (JStr ''stop''))]]),
               (''usage'', JObj usage)]))
      else if prov = GEMINI then
        Inr (JObj [(''candidates'', JArr [JObj
            [(''content'', JObj [(''parts'', JArr (gemini_parts_json blocks)), (''role'', JStr ''model'')]),
             (''finishReason'', py_or stop (JStr ''STOP'')), (''index'', JInt 0)]]),
          (''usageMetadata'', JObj usage)])
      else
        Inr (JObj [(''content'', acc_blocks_json blocks), (''usage'', JObj usage), (''stop_reason'', stop)]))"

subsection \<open>Usage and stop reason of a whole response\<close>

definition inner_response :: "jdict \<Rightarrow> jdict" where
  "inner_response payload = (case jget payload ''response'' of JObj d \<Rightarrow> d | _ \<Rightarrow> payload)"

definition update_usage :: "(string \<times> json) list \<Rightarrow> jdict" where
  "update_usage fs = foldl (\<lambda>u (k, v). AList.update k v u) zero_usage fs"

definition if_present :: "jdict \<Rightarrow> string \<Rightarrow> string \<Rightarrow> (string \<times> json) list" where
  "if_present raw k f = (case map_of raw k of Some v \<Rightarrow> [(f, v)] | None \<Rightarrow> [])"

definition extract_usage :: "provider \<Rightarrow> jdict \<Rightarrow> jdict" where
  "extract_usage prov payload =
     (let inner = inner_response payload
      in case or_chain [jget inner ''usage'', jget inner ''usageMetadata'', jget payload ''usage'',
                        jget payload ''usageMetadata'', JObj []] of
           JObj raw \<Rightarrow>
             (let num = (\<lambda>k. jget_or raw k (JInt 0))
              in if prov = ANTHROPIC then
                   update_usage [(''input_tokens'', num ''input_tokens''), (''output_tokens'', num ''output_tokens''),
                     (''cache_creation_input_tokens'', num ''cache_creation_input_tokens''),
                     (''cache_read_input_tokens'', num ''cache_read_input_tokens'')]
                 else if openai_like prov then
                   update_usage ([(''input_tokens'', num ''prompt_tokens''),
                     (''output_tokens'', num ''completion_tokens'')]
                     @ (case jget_or raw ''completion_tokens_details'' (JObj []) of
                          JObj details \<Rightarrow> [(''reasoning_tokens'', jget_or details ''reasoning_tokens'' (JInt 0))]
                        | _ \<Rightarrow> []))
                 else if prov = GEMINI then
                   update_usage ([(''input_tokens'', num ''promptTokenCount''),
                     (''output_tokens'', num ''candidatesTokenCount'')]
                     @ if_present raw ''cachedContentTokenCount'' ''cache_read_input_tokens''
                     @ if_present raw ''thoughtsTokenCount'' ''reasoning_tokens'')
                 else zero_usage)
         | _ \<Rightarrow> zero_usage)"

text \<open>\<open>if v and isinstance(v[0], dict): return v[0].get(k)\<close>.\<close>

definition first_item_field :: "json \<Rightarrow> string \<Rightarrow> json res" where
  "first_item_field v k =
     (if \<not> truthy v then Inr JNull
      else
        (case v of
           JArr (JObj d # _) \<Rightarrow> Inr (jget d k)
         | JArr _ \<Rightarrow> Inr JNull
         | JStr _ \<Rightarrow> Inr JNull
         | JObj _ \<Rightarrow> Inl (KeyError ''0'')
         | _ \<Rightarrow> Inl TypeError))"

definition extract_stop_reason :: "provider \<Rightarrow> jdict \<Rightarrow> json res" where
  "extract_stop_reason prov payload =
     (let inner = inner_response payload
      in if prov = ANTHROPIC then Inr (jget inner ''stop_reason'')
         else if openai_like prov then first_item_field (jget_or inner ''choices'' (JArr [])) ''finish_reason''
         else if prov = GEMINI then first_item_field (jget_or inner ''candidates'' (JArr [])) ''finishReason''
         else Inr JNull)"

text \<open>A response that is a list of stream items: the candidates, the last usage, the last reason.\<close>

type_synonym list_body = "json list \<times> jdict option \<times> json"

fun merge_list_item :: "provider \<Rightarrow> list_body \<Rightarrow> json \<Rightarrow> list_body res" where
  "merge_list_item prov (cands, usage, stop) (JObj item) =
     (let inner = inner_response item;
          u = extract_usage prov inner
      in rbind (extract_stop_reason prov inner) (\<lambda>s.
           Inr (case jget inner ''candidates'' of JArr cs \<Rightarrow> cands @ cs | _ \<Rightarrow> cands,
                if truthy (jget u ''input_tokens'') \<or> truthy (jget u ''output_tokens'') then Some u else usage,
                if truthy s then s else stop)))"
| "merge_list_item prov acc _ = Inr acc"

fun merge_list_body :: "provider \<Rightarrow> list_body \<Rightarrow> json list \<Rightarrow> list_body res" where
  "merge_list_body prov acc [] = Inr acc"
| "merge_list_body prov acc (x # xs) = rbind (merge_list_item prov acc x) (\<lambda>acc'. merge_list_body prov acc' xs)"

text \<open>
  The body of a response that was not streamed: payload, usage and stop reason. An exception
  keeps the usage that was read before it.
\<close>

definition read_response_body :: "(json \<Rightarrow> json) \<Rightarrow> provider \<Rightarrow> json option \<Rightarrow> string \<Rightarrow> json \<times> jdict \<times> json" where
  "read_response_body sanitized prov body raw_text =
     (let raw = JObj [(''_raw'', JStr raw_text)]
      in case body of
           None \<Rightarrow> (raw, zero_usage, JNull)
         | Some (JObj d) \<Rightarrow>
             (let payload = as_dict (sanitized (JObj d)); usage = extract_usage prov payload
              in case extract_stop_reason prov payload of
                   Inr s \<Rightarrow> (JObj payload, usage, s)
                 | Inl _ \<Rightarrow> (raw, usage, JNull))
         | Some (JArr xs) \<Rightarrow>
             (case merge_list_body prov ([], None, JNull) xs of
                Inr (cands, usage, stop) \<Rightarrow>
                  (case usage of
                     Some u \<Rightarrow> (JObj [(''candidates'', JArr cands), (''usageMetadata'', JObj u)], u, stop)
                   | None \<Rightarrow> (JObj [(''candidates'', JArr cands)], zero_usage, stop))
              | Inl _ \<Rightarrow> (raw, zero_usage, JNull))
         | Some v \<Rightarrow> (JObj [(''_data'', v)], zero_usage, JNull))"

text \<open>\<open>usage.input_tokens + usage.output_tokens\<close>: does it raise?\<close>

definition can_add :: "json \<Rightarrow> json \<Rightarrow> bool" where
  "can_add a b \<longleftrightarrow>
     (case (a, b) of
        (JStr _, JStr _) \<Rightarrow> True
      | (JArr _, JArr _) \<Rightarrow> True
      | _ \<Rightarrow> num_value a \<noteq> None \<and> num_value b \<noteq> None)"

text \<open>\<open>err_payload.get("error", {}).get("message")\<close>, or the status.\<close>

definition http_error_message :: "jdict \<Rightarrow> int \<Rightarrow> string option res" where
  "http_error_message err_payload status =
     (case jget err_payload ''error'' of
        JObj e \<Rightarrow>
          (case jget e ''message'' of
             JStr s \<Rightarrow> Inr (Some s)
           | v \<Rightarrow> if truthy v then Inl (NotModelled ''error_message'') else Inr None)
      | _ \<Rightarrow> Inr (Some (''HTTP error '' @ show_int status)))"

end
