(* ===== verification/Conversation.thy ===== *)
theory Conversation
  imports Hashing JsonText
begin

text \<open>
  The session switches of \<open>src/interceptor/addon.py\<close> (\<open>CtxinsAddon.request\<close>): an agent may reuse
  one session identifier, or one process, for several conversations. The addon tells them apart by
  the messages of the request: a different first message, or a history that is back to at most
  one message, is a new conversation and gets a numbered identifier of its own. The same tables
  exist twice, keyed by the explicit identifier and by the process id; here they are one record
  with the key as a type parameter.
\<close>

subsection \<open>The messages of a request\<close>

definition objects_under :: "jdict \<Rightarrow> string \<Rightarrow> jdict list option" where
  "objects_under d k =
     (case map_of d k of
        Some (JArr xs) \<Rightarrow> Some (List.map_filter (\<lambda>v. case v of JObj m \<Rightarrow> Some m | _ \<Rightarrow> None) xs)
      | _ \<Rightarrow> None)"

definition either_messages :: "jdict \<Rightarrow> jdict list option" where
  "either_messages d =
     (case objects_under d ''messages'' of Some ms \<Rightarrow> Some ms | None \<Rightarrow> objects_under d ''contents'')"

definition conv_messages :: "jdict \<Rightarrow> jdict list" where
  "conv_messages d =
     (case either_messages d of
        Some ms \<Rightarrow> ms
      | None \<Rightarrow>
          (case map_of d ''request'' of
             Some (JObj r) \<Rightarrow> (case either_messages r of Some ms \<Rightarrow> ms | None \<Rightarrow> [])
           | _ \<Rightarrow> []))"

definition content_part_text :: "json \<Rightarrow> string" where
  "content_part_text p =
     (case p of
        JObj d \<Rightarrow> py_str (or_chain [jget d ''text'', jget d ''content'', p])
      | _ \<Rightarrow> py_str p)"

definition first_content :: "jdict list \<Rightarrow> string" where
  "first_content ms =
     (case ms of
        [] \<Rightarrow> []
      | m # _ \<Rightarrow>
          (case or_chain [jget m ''content'', jget m ''parts'', JStr []] of
             JArr ps \<Rightarrow> take 500 (concat (map content_part_text ps))
           | v \<Rightarrow> take 500 (py_str v)))"

definition first_hash :: "jdict list \<Rightarrow> string" where
  "first_hash ms =
     (if first_content ms \<noteq> [] then take 8 (compute_block_hash (first_content ms)) else [])"

subsection \<open>The tables\<close>

record 'k conversations =
  cv_active :: "('k, string) dict"
  cv_counter :: "('k, nat) dict"
  cv_last_len :: "('k, nat) dict"
  cv_last_hash :: "('k, string) dict"

definition no_conversations :: "'k conversations" where
  "no_conversations = \<lparr>cv_active = [], cv_counter = [], cv_last_len = [], cv_last_hash = []\<rparr>"

definition switches :: "string option \<Rightarrow> nat \<Rightarrow> string \<Rightarrow> nat \<Rightarrow> bool" where
  "switches prev_hash prev_len hash len \<longleftrightarrow>
     (prev_hash \<noteq> None \<and> prev_hash \<noteq> Some [] \<and> hash \<noteq> [] \<and> prev_hash \<noteq> Some hash)
     \<or> (len \<le> 1 \<and> 2 \<le> prev_len)"

definition numbered :: "string \<Rightarrow> nat \<Rightarrow> string" where
  "numbered base n = base @ (if 1 < n then CHR ''_'' # show_nat n else [])"

definition conv_step :: "'k \<Rightarrow> string \<Rightarrow> jdict list \<Rightarrow> 'k conversations \<Rightarrow> string \<times> 'k conversations" where
  "conv_step k base messages cv =
     (let hash = first_hash messages; len = length messages;
          current = map_of (cv_active cv) k;
          is_new = (current \<noteq> None
            \<and> switches (map_of (cv_last_hash cv) k) (dict_get (cv_last_len cv) k 0) hash len);
          (sid, cv1) =
            (case current of
               Some s \<Rightarrow>
                 if \<not> is_new then (s, cv)
                 else
                   (let n = Suc (dict_get (cv_counter cv) k 0); s' = numbered base n
                    in (s', cv\<lparr>cv_counter := AList.update k n (cv_counter cv),
                               cv_active := AList.update k s' (cv_active cv)\<rparr>))
             | None \<Rightarrow>
                 (let n = Suc (dict_get (cv_counter cv) k 0); s' = numbered base n
                  in (s', cv\<lparr>cv_counter := AList.update k n (cv_counter cv),
                             cv_active := AList.update k s' (cv_active cv)\<rparr>)))
      in (sid, cv1\<lparr>cv_last_len := AList.update k len (cv_last_len cv1),
                   cv_last_hash := (if hash \<noteq> [] then AList.update k hash (cv_last_hash cv1)
                                    else cv_last_hash cv1)\<rparr>))"

fun conv_run :: "'k \<Rightarrow> string \<Rightarrow> jdict list list \<Rightarrow> 'k conversations \<Rightarrow> string list" where
  "conv_run k base [] cv = []"
| "conv_run k base (ms # mss) cv =
     (let (sid, cv') = conv_step k base ms cv in sid # conv_run k base mss cv')"

subsection \<open>What the requests alone say\<close>

text \<open>
  The specification looks at the requests only. A request starts a conversation when it is the
  first one, when its first message has another fingerprint than that of the last earlier request
  that had one, or when its history is back to at most one message after one of two or more.
\<close>

definition last_hash :: "jdict list list \<Rightarrow> string option" where
  "last_hash past = find (\<lambda>h. h \<noteq> []) (rev (map first_hash past))"

definition starts_conversation :: "jdict list list \<Rightarrow> jdict list \<Rightarrow> bool" where
  "starts_conversation past ms \<longleftrightarrow>
     past = []
     \<or> first_hash ms \<noteq> [] \<and> last_hash past \<notin> {None, Some (first_hash ms)}
     \<or> length ms \<le> 1 \<and> 2 \<le> length (last past)"

lemma starts_iff:
  "starts_conversation past ms \<longleftrightarrow>
     past = [] \<or> switches (last_hash past) (length (last past)) (first_hash ms) (length ms)"
proof -
  have "last_hash past \<noteq> Some []" by (auto simp: last_hash_def find_Some_iff)
  then show ?thesis by (auto simp: starts_conversation_def switches_def)
qed

fun conversation_number :: "jdict list list \<Rightarrow> jdict list list \<Rightarrow> nat" where
  "conversation_number past [] = 0"
| "conversation_number past (ms # mss) =
     (if starts_conversation past ms then 1 else 0) + conversation_number (past @ [ms]) mss"

text \<open>The tables after some requests under a key.\<close>

definition conv_inv :: "'k \<Rightarrow> string \<Rightarrow> jdict list list \<Rightarrow> nat \<Rightarrow> 'k conversations \<Rightarrow> bool" where
  "conv_inv k base past n cv \<longleftrightarrow>
     dict_get (cv_counter cv) k 0 = n
     \<and> map_of (cv_active cv) k = (if past = [] then None else Some (numbered base n))
     \<and> map_of (cv_last_hash cv) k = last_hash past
     \<and> dict_get (cv_last_len cv) k 0 = (if past = [] then 0 else length (last past))"

lemma conv_inv_start: "conv_inv k base [] 0 no_conversations"
  by (simp add: conv_inv_def no_conversations_def last_hash_def dict_get_def)

lemma last_hash_snoc:
  "last_hash (past @ [ms]) = (if first_hash ms \<noteq> [] then Some (first_hash ms) else last_hash past)"
  by (simp add: last_hash_def)

lemma conv_step_spec:
  assumes "conv_inv k base past n cv" "conv_step k base ms cv = (sid, cv')"
  defines "n' \<equiv> (if starts_conversation past ms then Suc n else n)"
  shows "sid = numbered base n'" "conv_inv k base (past @ [ms]) n' cv'"
proof -
  note inv = assms(1) [unfolded conv_inv_def]
  have "sid = numbered base n' \<and> conv_inv k base (past @ [ms]) n' cv'"
  proof (cases "starts_conversation past ms")
    case True
    with inv assms(2) show ?thesis
      by (cases "past = []")
        (auto simp: conv_step_def starts_iff conv_inv_def last_hash_snoc last_hash_snoc [of "[]", simplified] n'_def Let_def)
  next
    case False
    with inv assms(2) show ?thesis
      by (auto simp: conv_step_def starts_iff conv_inv_def last_hash_snoc n'_def Let_def)
  qed
  then show "sid = numbered base n'" "conv_inv k base (past @ [ms]) n' cv'" by simp_all
qed

lemma conv_run_spec:
  assumes "conv_inv k base past n cv"
  shows "conv_run k base mss cv
    = map (\<lambda>i. numbered base (n + conversation_number past (take (Suc i) mss))) [0..<length mss]"
  using assms
proof (induction mss arbitrary: past n cv)
  case (Cons ms mss)
  obtain sid cv' where step: "conv_step k base ms cv = (sid, cv')" by fastforce
  note spec = conv_step_spec [OF Cons.prems step]
  have "conv_run k base (ms # mss) cv = sid # conv_run k base mss cv'" by (simp add: step)
  also have "\<dots> = map (\<lambda>i. numbered base (n + conversation_number past (take (Suc i) (ms # mss))))
      (0 # map Suc [0..<length mss])"
    using spec(1) Cons.IH [OF spec(2)] by simp
  finally show ?case by (simp add: upt_conv_Cons map_Suc_upt del: upt_Suc)
qed simp

text \<open>Requests under other keys do not matter.\<close>

lemma conv_step_frame:
  assumes "k' \<noteq> k"
  shows "map_of (cv_active (snd (conv_step k' b ms cv))) k = map_of (cv_active cv) k"
    "map_of (cv_counter (snd (conv_step k' b ms cv))) k = map_of (cv_counter cv) k"
    "map_of (cv_last_len (snd (conv_step k' b ms cv))) k = map_of (cv_last_len cv) k"
    "map_of (cv_last_hash (snd (conv_step k' b ms cv))) k = map_of (cv_last_hash cv) k"
  using assms by (simp_all add: conv_step_def Let_def update_conv split: option.split)

lemma conv_step_other:
  "conv_inv k base past n cv \<Longrightarrow> k' \<noteq> k \<Longrightarrow> conv_inv k base past n (snd (conv_step k' base' ms cv))"
  by (simp add: conv_inv_def dict_get_def conv_step_frame)

lemma numbered_inj: "0 < m \<Longrightarrow> 0 < n \<Longrightarrow> numbered base m = numbered base n \<longleftrightarrow> m = n"
  by (auto simp: numbered_def)

lemma conversation_number_append:
  "conversation_number past (xs @ ys) = conversation_number past xs + conversation_number (past @ xs) ys"
  by (induction xs arbitrary: past) simp_all

lemma conversation_number_pos: "mss \<noteq> [] \<Longrightarrow> 0 < conversation_number [] mss"
  by (cases mss) (simp_all add: starts_conversation_def)

lemma conversation_number_0:
  "conversation_number past xs = 0 \<longleftrightarrow>
     (\<forall>m<length xs. \<not> starts_conversation (past @ take m xs) (xs ! m))"
proof (induction xs arbitrary: past)
  case (Cons x xs)
  show ?case by (simp add: Cons.IH All_less_Suc2)
qed simp

text \<open>Two requests have the same identifier exactly when no conversation starts after the first.\<close>

lemma same_id_iff:
  fixes k :: 'k and base :: string
  assumes "i \<le> j" "j < length mss"
  defines "ids \<equiv> conv_run k base mss no_conversations"
  shows "ids ! i = ids ! j \<longleftrightarrow> (\<forall>m. i < m \<and> m \<le> j \<longrightarrow> \<not> starts_conversation (take m mss) (mss ! m))"
proof -
  let ?n = "\<lambda>i. conversation_number [] (take (Suc i) mss)"
  have id: "ids ! l = numbered base (?n l)" if "l < length mss" for l
    unfolding ids_def conv_run_spec [OF conv_inv_start] using that by simp
  have pos: "0 < ?n l" if "l < length mss" for l
    using that by (intro conversation_number_pos) auto
  let ?mid = "take (j - i) (drop (Suc i) mss)"
  have "take (Suc j) mss = take (Suc i) mss @ ?mid"
    using assms(1) by (metis Suc_le_mono add_diff_inverse_nat diff_Suc_Suc not_less take_add)
  then have split: "?n j = ?n i + conversation_number (take (Suc i) mss) ?mid"
    by (simp add: conversation_number_append)
  have len: "length ?mid = j - i" using assms(2) by simp
  have z: "ids ! i = ids ! j \<longleftrightarrow> conversation_number (take (Suc i) mss) ?mid = 0"
    using assms(1,2) id [of i] id [of j] pos [of i] pos [of j] split by (simp add: numbered_inj)
  have tk: "take (Suc i) mss @ take m (drop (Suc i) mss) = take (Suc (i + m)) mss" for m
    using take_add [of "Suc i" m mss] by simp
  have "ids ! i = ids ! j \<longleftrightarrow> conversation_number (take (Suc i) mss) ?mid = 0" by (rule z)
  also have "\<dots> \<longleftrightarrow> (\<forall>m<j - i. \<not> starts_conversation (take (Suc i + m) mss) (mss ! (Suc i + m)))"
    unfolding conversation_number_0 len using assms(1,2)
    by (intro all_cong) (auto simp: tk min_def)
  also have "\<dots> \<longleftrightarrow> (\<forall>m. i < m \<and> m \<le> j \<longrightarrow> \<not> starts_conversation (take m mss) (mss ! m))"
  proof -
    have "(\<forall>m<j - i. P (Suc i + m)) \<longleftrightarrow> (\<forall>m. i < m \<and> m \<le> j \<longrightarrow> P m)" for P
    proof (intro iffI allI impI)
      fix m assume all: "\<forall>m<j - i. P (Suc i + m)" and m: "i < m \<and> m \<le> j"
      then have "m - Suc i < j - i" "Suc i + (m - Suc i) = m" by auto
      with all show "P m" by metis
    qed auto
    from this [of "\<lambda>m. \<not> starts_conversation (take m mss) (mss ! m)"] show ?thesis by simp
  qed
  finally show ?thesis .
qed

end
