(* ===== verification/Addon.thy ===== *)
theory Addon
  imports Tap Router Sanitizer Payloads Conversation Framing RingBuffer
begin

text \<open>
  \<open>src/interceptor/addon.py\<close>: the hooks through which the proxy sees every flow, composed from the
  router, the sanitizer, the process detector, the tracker, the stream tap, the accumulators and
  the egress buffer. A hook is an operation on the addon and the flow: an exception ends it, what
  it did before stays, and the outermost handler logs it. \<open>env\<close> is what the hook reads from outside:
  the clocks, a fresh uuid, environment variables, the operating system, the header container of
  the proxy and the JSON codec.
\<close>

subsection \<open>Flows\<close>

record proxy_env =
  en_wall :: rat
  en_mono :: rat
  en_uuid :: string
  en_proxy_port :: "string option"
  en_target :: "string option"
  en_os :: os_view
  en_header :: "(string, string) dict \<Rightarrow> string \<Rightarrow> string option"
  en_set_header :: "string \<Rightarrow> string \<Rightarrow> (string, string) dict \<Rightarrow> (string, string) dict"
  en_loads :: "bytes \<Rightarrow> json option"
  en_dumps :: "json \<Rightarrow> bytes"
  en_ucd :: ucd
  en_codec :: json_codec

record http_response =
  hr_status :: int
  hr_headers :: "(string, string) dict"
  hr_content :: bytes
  hr_text :: string

datatype body_stream = Unset | PassThrough | Tapped tap

type_synonym peer = "string \<times> int"

text \<open>\<open>fl_intercepted\<close>, \<open>fl_cid\<close> and \<open>fl_agent\<close> are the entries of \<open>flow.metadata\<close>.\<close>

record flow =
  fl_id :: string
  fl_host :: string
  fl_path :: string
  fl_port :: "int option"
  fl_method :: string
  fl_scheme :: string
  fl_headers :: "(string, string) dict"
  fl_content :: bytes
  fl_text :: string
  fl_peer :: "peer option"
  fl_address :: "peer option"
  fl_intercepted :: bool
  fl_cid :: "string option"
  fl_agent :: "agent_identity option"
  fl_response :: "http_response option"
  fl_stream :: body_stream
  fl_error :: "string option"

record addon =
  ad_buffer :: "bytes ring"
  ad_client :: "bool option" \<comment> \<open>the egress client, when there is one: is it running\<close>
  ad_sanitizer :: sanitizer
  ad_detector :: detector
  ad_client_session :: "(peer, string) dict"
  ad_session_clients :: "(string, peer list) dict"
  ad_session_agents :: "(string, agent_identity) dict"
  ad_pids :: "int conversations"
  ad_sids :: "string conversations"
  ad_chunk_queue :: "(string \<times> bytes \<times> rat) list"
  ad_queue_size :: nat
  ad_tracker :: tracker
  ad_default_session_id :: string
  ad_running :: bool

type_synonym hook = "(addon \<times> flow, unit) op"

definition on_addon :: "(addon \<Rightarrow> addon) \<Rightarrow> hook" where
  "on_addon f = op_modify (\<lambda>(a, flw). (f a, flw))"

definition on_flow :: "(flow \<Rightarrow> flow) \<Rightarrow> hook" where
  "on_flow f = op_modify (\<lambda>(a, flw). (a, f flw))"

subsection \<open>Construction, start and stop\<close>

definition new_addon :: "bytes ring \<Rightarrow> bool option \<Rightarrow> string option \<Rightarrow> addon" where
  "new_addon buffer client session_id =
     \<lparr>ad_buffer = buffer, ad_client = client, ad_sanitizer = default_sanitizer,
      ad_detector = new_detector 5, ad_client_session = [], ad_session_clients = [],
      ad_session_agents = [], ad_pids = no_conversations, ad_sids = no_conversations,
      ad_chunk_queue = [], ad_queue_size = 10000, ad_tracker = new_tracker 300 True False,
      ad_default_session_id = (case nonempty session_id of Some s \<Rightarrow> s | None \<Rightarrow> ''sess_default''),
      ad_running = False\<rparr>"

definition addon_start :: "addon \<Rightarrow> addon" where
  "addon_start a =
     (if ad_running a then a
      else a\<lparr>ad_running := True, ad_client := map_option (\<lambda>_. True) (ad_client a),
             ad_tracker := start_reaper (ad_tracker a)\<rparr>)"

definition addon_stop :: "addon \<Rightarrow> addon" where
  "addon_stop a =
     a\<lparr>ad_running := False, ad_tracker := stop_reaper (ad_tracker a),
       ad_client := map_option (\<lambda>_. False) (ad_client a)\<rparr>"

definition emit_envelope :: "proxy_env \<Rightarrow> wire_envelope \<Rightarrow> addon \<Rightarrow> addon" where
  "emit_envelope env e a =
     a\<lparr>ad_buffer := snd (push (envelope_to_bytes (en_dumps env) e) (ad_buffer a))\<rparr>"

text \<open>The error callback of the tracker is \<open>emit_envelope\<close>: what it reports is emitted.\<close>

definition with_tracker :: "proxy_env \<Rightarrow> (tracker \<Rightarrow> tracker) \<Rightarrow> addon \<Rightarrow> addon" where
  "with_tracker env f a =
     (let k = f (ad_tracker a); new = drop (length (tk_reported (ad_tracker a))) (tk_reported k)
      in foldl (\<lambda>a e. emit_envelope env e a) (a\<lparr>ad_tracker := k\<rparr>) new)"

definition reaper_step :: "proxy_env \<Rightarrow> addon \<Rightarrow> addon" where
  "reaper_step env = with_tracker env (reaper_tick (en_wall env))"

subsection \<open>The chunk queue\<close>

definition record_item :: "proxy_env \<Rightarrow> string \<times> bytes \<times> rat \<Rightarrow> addon \<Rightarrow> addon" where
  "record_item env = (\<lambda>(cid, chunk, ts) a.
     a\<lparr>ad_tracker := snd (record_chunk (en_ucd env) (en_codec env) (en_wall env) (en_mono env)
         cid chunk (Some ts) (ad_tracker a))\<rparr>)"

definition drain_chunk_queue :: "proxy_env \<Rightarrow> addon \<Rightarrow> addon" where
  "drain_chunk_queue env a =
     foldl (\<lambda>a item. record_item env item a) (a\<lparr>ad_chunk_queue := []\<rparr>) (ad_chunk_queue a)"

definition chunk_worker_step :: "proxy_env \<Rightarrow> addon \<Rightarrow> addon" where
  "chunk_worker_step env a =
     (case ad_chunk_queue a of
        [] \<Rightarrow> a
      | item # rest \<Rightarrow> if ad_running a then record_item env item (a\<lparr>ad_chunk_queue := rest\<rparr>) else a)"

text \<open>The turn object lives in the tracker; the tap writes to its timing and to the queue.\<close>

definition modify_turn :: "string \<Rightarrow> (active_turn \<Rightarrow> active_turn) \<Rightarrow> addon \<Rightarrow> addon" where
  "modify_turn cid f a =
     a\<lparr>ad_tracker := (ad_tracker a)\<lparr>tk_turns :=
        (case map_of (tk_turns (ad_tracker a)) cid of
           None \<Rightarrow> tk_turns (ad_tracker a)
         | Some t \<Rightarrow> AList.update cid (f t) (tk_turns (ad_tracker a)))\<rparr>\<rparr>"

definition run_tap :: "(tap \<Rightarrow> tap) \<Rightarrow> addon \<times> flow \<Rightarrow> addon \<times> flow" where
  "run_tap step = (\<lambda>(a, flw).
     case fl_stream flw of
       Tapped t \<Rightarrow>
         (let timing = (case map_of (tk_turns (ad_tracker a)) (tp_cid t) of
                Some turn \<Rightarrow> at_timing turn | None \<Rightarrow> tp_timing t);
              t' = step (t\<lparr>tp_queue := ad_chunk_queue a, tp_timing := timing\<rparr>)
          in (modify_turn (tp_cid t) (\<lambda>turn. turn\<lparr>at_timing := tp_timing t'\<rparr>)
                (a\<lparr>ad_chunk_queue := tp_queue t'\<rparr>),
              flw\<lparr>fl_stream := Tapped t'\<rparr>))
     | _ \<Rightarrow> (a, flw))"

definition stream_chunk :: "(nat \<Rightarrow> rat) \<Rightarrow> bytes \<Rightarrow> addon \<times> flow \<Rightarrow> addon \<times> flow" where
  "stream_chunk clock chunk = run_tap (\<lambda>t. snd (process_chunk clock chunk t))"

subsection \<open>Destinations\<close>

text \<open>\<open>urlsplit(url).scheme\<close>, and \<open>.hostname\<close> and \<open>.port\<close> of a network location.\<close>

definition url_scheme :: "string \<Rightarrow> string" where
  "url_scheme url =
     (let s = filter (\<lambda>c. c \<noteq> CHR 0x09 \<and> c \<noteq> CHR 0x0A \<and> c \<noteq> CHR 0x0D)
                (dropWhile (\<lambda>c. (of_char c :: nat) \<le> 32) url)
      in if without_scheme s \<noteq> s then str_lower (takeWhile (\<lambda>c. c \<noteq> CHR '':'') s) else [])"

definition host_info :: "string \<Rightarrow> string" where
  "host_info netloc = rev (takeWhile (\<lambda>c. c \<noteq> CHR ''@'') (rev netloc))"

definition url_hostname :: "string \<Rightarrow> string option" where
  "url_hostname netloc =
     (let h = takeWhile (\<lambda>c. c \<noteq> CHR '':'') (host_info netloc);
          plain = takeWhile (\<lambda>c. c \<noteq> CHR ''%'') h
      in if h = [] then None else Some (str_lower plain @ drop (length plain) h))"

definition url_port :: "string \<Rightarrow> int option res" where
  "url_port netloc =
     (let p = drop 1 (dropWhile (\<lambda>c. c \<noteq> CHR '':'') (host_info netloc))
      in if p = [] then Inr None
         else if \<not> list_all ascii_digit p then Inl ValueError
         else rbind (int_of_str p) (\<lambda>n. if n \<le> 65535 then Inr (Some n) else Inl ValueError))"

definition with_default_scheme :: "string \<Rightarrow> string" where
  "with_default_scheme target = (if str_in ''://'' target then target else ''http://'' @ target)"

definition set_destination :: "proxy_env \<Rightarrow> string \<Rightarrow> string \<Rightarrow> int \<Rightarrow> string \<Rightarrow> flow \<Rightarrow> flow" where
  "set_destination env scheme host port host_header flw =
     flw\<lparr>fl_scheme := scheme, fl_host := host, fl_port := Some port,
        fl_headers := en_set_header env ''host'' host_header (fl_headers flw)\<rparr>"

definition provider_destination :: "proxy_env \<Rightarrow> provider \<Rightarrow> flow \<Rightarrow> flow" where
  "provider_destination env prov flw =
     (if prov = ANTHROPIC then set_destination env ''https'' ''api.anthropic.com'' 443 ''api.anthropic.com'' flw
      else if prov \<in> {OPENAI, AZURE_OPENAI, OPENROUTER} then
        set_destination env ''https'' ''api.openai.com'' 443 ''api.openai.com'' flw
      else if prov = OLLAMA then set_destination env ''http'' ''127.0.0.1'' 11434 ''127.0.0.1:11434'' flw
      else flw)"

definition rewrite_gateway_request :: "proxy_env \<Rightarrow> provider \<Rightarrow> hook" where
  "rewrite_gateway_request env prov =
     op_bind (op_get snd) (\<lambda>flw.
       case first_some nonempty [en_header env (fl_headers flw) ''x-ctxins-target'', en_target env] of
         None \<Rightarrow> on_flow (provider_destination env prov)
       | Some target \<Rightarrow>
           (let url = with_default_scheme target;
                scheme = (case nonempty (Some (url_scheme url)) of Some s \<Rightarrow> s | None \<Rightarrow> ''http'')
            in op_bind (op_lift (urlsplit_netloc url)) (\<lambda>netloc.
                 let host = (case url_hostname netloc of Some h \<Rightarrow> h | None \<Rightarrow> ''127.0.0.1'')
                 in op_seq (on_flow (\<lambda>flw. flw\<lparr>fl_scheme := scheme, fl_host := host\<rparr>))
                      (op_bind (op_lift (url_port netloc)) (\<lambda>port.
                         on_flow (case port of
                           Some n \<Rightarrow>
                             if n \<noteq> 0 then set_destination env scheme host n (host @ '':'' @ show_int n)
                             else set_destination env scheme host (if scheme = ''https'' then 443 else 80) host
                         | None \<Rightarrow> set_destination env scheme host (if scheme = ''https'' then 443 else 80) host))))))"

subsection \<open>Sessions and connections\<close>

definition agent_session :: "string \<Rightarrow> agent_identity \<Rightarrow> string" where
  "agent_session uuid agent =
     ''sess_'' @ ai_name agent @ ''_'' @
       (case ai_pid agent of
          Some n \<Rightarrow> if n \<noteq> 0 then show_int n else take 6 uuid
        | None \<Rightarrow> take 6 uuid)"

definition add_peer :: "peer \<Rightarrow> peer list \<Rightarrow> peer list" where
  "add_peer p ps = (if p \<in> set ps then ps else ps @ [p])"

definition associate :: "peer \<Rightarrow> string \<Rightarrow> addon \<Rightarrow> addon" where
  "associate p sid a =
     a\<lparr>ad_client_session := AList.update p sid (ad_client_session a),
       ad_session_clients :=
         AList.update sid (add_peer p (dict_get (ad_session_clients a) sid [])) (ad_session_clients a)\<rparr>"

definition note_agent :: "string \<Rightarrow> agent_identity \<Rightarrow> addon \<Rightarrow> addon" where
  "note_agent sid agent a = a\<lparr>ad_session_agents := AList.update sid agent (ad_session_agents a)\<rparr>"

definition extract_client_metadata :: "proxy_env \<Rightarrow> flow \<Rightarrow> jdict" where
  "extract_client_metadata env flw =
     (let (ip, port) = (case fl_peer flw of
            Some p \<Rightarrow> p
          | None \<Rightarrow> (case fl_address flw of Some p \<Rightarrow> p | None \<Rightarrow> (''127.0.0.1'', 0)))
      in [(''userAgent'', JStr (case en_header env (fl_headers flw) ''user-agent'' of Some s \<Rightarrow> s | None \<Rightarrow> [])),
          (''method'', JStr (fl_method flw)), (''clientIp'', JStr ip), (''clientPort'', JInt port)])"

definition header_values :: "(string, string) dict \<Rightarrow> jdict" where
  "header_values hs = map (\<lambda>(k, v). (k, JStr v)) hs"

definition flow_session_id :: "addon \<Rightarrow> flow \<Rightarrow> jdict option \<Rightarrow> string" where
  "flow_session_id a flw body = extract_session_id (ad_default_session_id a) (fl_headers flw) body (fl_agent flw)"

definition flow_correlation_id :: "proxy_env \<Rightarrow> flow \<Rightarrow> string" where
  "flow_correlation_id env flw = extract_correlation_id (fl_cid flw) (fl_headers flw) (fl_id flw) (en_uuid env)"

definition identify :: "proxy_env \<Rightarrow> peer \<Rightarrow> (string, string) dict option \<Rightarrow> addon \<Rightarrow> agent_identity \<times> addon" where
  "identify env p headers a =
     (let (agent, d) = identify_client (en_os env) (en_mono env) (Some (fst p)) (Some (snd p)) headers (ad_detector a)
      in (agent, a\<lparr>ad_detector := d\<rparr>))"

definition new_turn :: "proxy_env \<Rightarrow> addon \<Rightarrow> flow \<Rightarrow> string \<Rightarrow> string \<Rightarrow> provider \<Rightarrow> string
    \<Rightarrow> agent_identity \<Rightarrow> active_turn" where
  "new_turn env a flw cid sid prov path agent =
     \<lparr>at_correlation_id = cid, at_session_id = sid, at_provider = prov, at_model = ''unknown'',
      at_timing = Some \<lparr>tm_request_dispatched_at = en_mono env, tm_first_byte_received_at = None,
                       tm_stream_closed_at = None\<rparr>,
      at_endpoint = path,
      at_client_metadata = extract_client_metadata env flw
        @ [(''agent'', JObj (agent_identity_to_dict agent)), (''harness'', JStr (ai_name agent))]
        @ (case ai_process_info agent of
             Some p \<Rightarrow> [(''process'', JObj (process_info_to_dict p))] | None \<Rightarrow> []),
      at_sanitized_headers = sanitize_headers (ad_sanitizer a) (header_values (fl_headers flw)),
      at_request_payload = [], at_accumulator = None, at_created_at_wall = en_wall env,
      at_response_headers = [], at_response_status_code = None, at_response_payload = None\<rparr>"

subsection \<open>\<open>requestheaders\<close>\<close>

definition is_gateway :: "flow \<Rightarrow> int \<Rightarrow> bool" where
  "is_gateway flw proxy_port \<longleftrightarrow>
     str_lower (fl_host flw) \<in> {''localhost'', ''127.0.0.1''} \<and> fl_port flw = Some proxy_port"

definition route_flow :: "proxy_env \<Rightarrow> flow \<Rightarrow> bool \<Rightarrow> (bool \<times> provider) res" where
  "route_flow env flw gateway =
     rbind (match_provider (fl_host flw) (fl_path flw) (fl_port flw)) (\<lambda>(is_match, prov).
       case nonempty (en_target env) of
         Some target \<Rightarrow>
           if \<not> is_match \<and> gateway then
             rbind (urlsplit_netloc (with_default_scheme target)) (\<lambda>netloc.
               match_provider netloc (fl_path flw) None)
           else Inr (is_match, prov)
       | None \<Rightarrow> Inr (is_match, prov))"

definition intercept :: "proxy_env \<Rightarrow> string \<Rightarrow> provider \<Rightarrow> addon \<times> flow \<Rightarrow> addon \<times> flow" where
  "intercept env path prov = (\<lambda>(a, flw).
     let p = (case fl_peer flw of Some p \<Rightarrow> p | None \<Rightarrow> (''127.0.0.1'', 0));
         (agent, a1) = identify env p (Some (fl_headers flw)) a;
         sid0 = flow_session_id a1 flw None; cid = flow_correlation_id env flw;
         sid = (if sid0 = ad_default_session_id a1 \<and> ai_is_known agent then agent_session (en_uuid env) agent
                else sid0);
         a2 = (if 0 < snd p then note_agent sid agent (associate p sid a1) else a1);
         turn = new_turn env a2 flw cid sid prov path agent
     in (a2\<lparr>ad_tracker := register_turn (en_wall env) turn (ad_tracker a2)\<rparr>,
         flw\<lparr>fl_intercepted := True, fl_cid := Some cid, fl_agent := Some agent\<rparr>))"

definition requestheaders :: "proxy_env \<Rightarrow> hook" where
  "requestheaders env = op_swallow
     (op_bind (op_get snd) (\<lambda>flw.
      op_bind (op_lift (int_of_str (case en_proxy_port env of Some s \<Rightarrow> s | None \<Rightarrow> ''8080''))) (\<lambda>proxy_port.
        let gateway = is_gateway flw proxy_port
        in op_bind (op_lift (route_flow env flw gateway)) (\<lambda>(is_match, prov).
             op_when is_match
               (op_seq (op_when (gateway \<or> nonempty (en_target env) \<noteq> None) (rewrite_gateway_request env prov))
                  (op_modify (intercept env (fl_path flw) prov)))))))"

subsection \<open>\<open>request\<close>\<close>

text \<open>\<open>flow.request.content\<close> as a payload: objects are sanitised, anything else is kept as it is.\<close>

definition read_request_body :: "proxy_env \<Rightarrow> sanitizer \<Rightarrow> flow \<Rightarrow> jdict" where
  "read_request_body env z flw =
     (if fl_content flw = [] then []
      else
        (case en_loads env (fl_content flw) of
           Some (JObj d) \<Rightarrow> as_dict (sanitize z (JObj d))
         | Some v \<Rightarrow> [(''_data'', v)]
         | None \<Rightarrow> [(''_raw'', JStr (fl_text flw))]))"

definition known_pid :: "agent_identity option \<Rightarrow> int option" where
  "known_pid agent =
     (case agent of
        Some a \<Rightarrow> (case ai_pid a of Some n \<Rightarrow> if n \<noteq> 0 then Some n else None | None \<Rightarrow> None)
      | None \<Rightarrow> None)"

definition harness_name :: "agent_identity option \<Rightarrow> string" where
  "harness_name agent = (case harness_of agent of Some h \<Rightarrow> h | None \<Rightarrow> ''agent'')"

text \<open>The session of the request: \<open>computed_sid\<close>.\<close>

definition resolve_session :: "proxy_env \<Rightarrow> flow \<Rightarrow> jdict \<Rightarrow> active_turn \<Rightarrow> addon \<Rightarrow> string \<times> addon" where
  "resolve_session env flw payload turn a =
     (let extracted = flow_session_id a flw (Some payload); pid = known_pid (fl_agent flw);
          messages = conv_messages payload
      in if extracted \<noteq> [] \<and> extracted \<noteq> ad_default_session_id a then
           (let (sid, sids) = conv_step extracted extracted messages (ad_sids a);
                a1 = a\<lparr>ad_sids := sids\<rparr>
            in (sid, case pid of
                  Some n \<Rightarrow> a1\<lparr>ad_pids := (ad_pids a1)\<lparr>cv_active := AList.update n sid (cv_active (ad_pids a1))\<rparr>\<rparr>
                | None \<Rightarrow> a1))
         else
           (case pid of
              Some n \<Rightarrow>
                (let (sid, pids) = conv_step n
                       (''sess_'' @ harness_name (fl_agent flw) @ ''_'' @ show_int n) messages (ad_pids a)
                 in (sid, a\<lparr>ad_pids := pids\<rparr>))
            | None \<Rightarrow>
                (case fl_agent flw of
                   Some agent \<Rightarrow>
                     if ai_is_known agent then (agent_session (en_uuid env) agent, a)
                     else (if at_session_id turn \<noteq> [] then at_session_id turn else ad_default_session_id a, a)
                 | None \<Rightarrow> (if at_session_id turn \<noteq> [] then at_session_id turn else ad_default_session_id a, a))))"

definition agent_fields :: "agent_identity option \<Rightarrow> active_turn \<Rightarrow> jdict" where
  "agent_fields agent turn =
     (case agent of
        Some a \<Rightarrow> [(''harness'', JStr (ai_name a)), (''agent'', JObj (agent_identity_to_dict a))]
      | None \<Rightarrow> [(''harness'', jget_or (at_client_metadata turn) ''harness'' (JStr ''unknown'')),
                 (''agent'', jget (at_client_metadata turn) ''agent'')])"

definition timing_json :: "active_turn \<Rightarrow> json" where
  "timing_json turn = jopt (\<lambda>tm. JObj (timing_to_dict tm)) (at_timing turn)"

definition initiated_envelope :: "proxy_env \<Rightarrow> agent_identity option \<Rightarrow> active_turn \<Rightarrow> wire_envelope" where
  "initiated_envelope env agent turn =
     \<lparr>we_event_type = REQUEST_INITIATED, we_correlation_id = at_correlation_id turn,
      we_session_id = at_session_id turn, we_timestamp = en_wall env,
      we_payload =
        [(''provider'', JStr (provider_value (at_provider turn))), (''model'', JStr (at_model turn)),
         (''endpoint'', JStr (at_endpoint turn)), (''sanitized_headers'', headers_json (at_sanitized_headers turn)),
         (''request_payload'', JObj (at_request_payload turn)), (''timing'', timing_json turn),
         (''client_metadata'', JObj (at_client_metadata turn))]
        @ agent_fields agent turn\<rparr>"

definition handle_request :: "proxy_env \<Rightarrow> flow \<Rightarrow> string \<Rightarrow> active_turn \<Rightarrow> addon \<Rightarrow> addon" where
  "handle_request env flw cid turn a =
     (let payload = read_request_body env (ad_sanitizer a) flw;
          (sid, a1) = resolve_session env flw payload turn a;
          turn' = turn\<lparr>at_model := extract_model (at_provider turn) (fl_path flw) payload,
            at_request_payload := payload,
            at_session_id := normalize_session_id (JStr sid) (Some (harness_name (fl_agent flw))),
            at_sanitized_headers := sanitize_headers (ad_sanitizer a) (header_values (fl_headers flw))\<rparr>;
          a2 = modify_turn cid (\<lambda>_. turn') a1;
          a3 = (case fl_peer flw of Some p \<Rightarrow> associate p sid a2 | None \<Rightarrow> a2);
          a4 = (case fl_agent flw of Some agent \<Rightarrow> note_agent sid agent a3 | None \<Rightarrow> a3)
      in emit_envelope env (initiated_envelope env (fl_agent flw) turn') a4)"

text \<open>What the later hooks start with: an intercepted flow whose turn is still registered.\<close>

definition intercepted_turn :: "addon \<times> flow \<Rightarrow> (string \<times> active_turn) option" where
  "intercepted_turn = (\<lambda>(a, flw).
     if fl_intercepted flw then
       (case fl_cid flw of
          Some cid \<Rightarrow> map_option (Pair cid) (tracker_get (ad_tracker a) cid)
        | None \<Rightarrow> None)
     else None)"

definition request :: "proxy_env \<Rightarrow> hook" where
  "request env = op_modify (\<lambda>(a, flw).
     case intercepted_turn (a, flw) of
       None \<Rightarrow> (a, flw)
     | Some (cid, turn) \<Rightarrow> (handle_request env flw cid turn a, flw))"

subsection \<open>\<open>responseheaders\<close>\<close>

definition responseheaders :: "proxy_env \<Rightarrow> hook" where
  "responseheaders env = op_modify (\<lambda>(a, flw).
     if \<not> fl_intercepted flw then
       (a, if fl_response flw \<noteq> None then flw\<lparr>fl_stream := PassThrough\<rparr> else flw)
     else
       (case intercepted_turn (a, flw) of
          None \<Rightarrow> (a, flw)
        | Some (cid, turn) \<Rightarrow>
            (let a1 = (case fl_response flw of
                   Some r \<Rightarrow> modify_turn cid (\<lambda>t. t\<lparr>at_response_headers :=
                       sanitize_headers (ad_sanitizer a) (header_values (hr_headers r)),
                       at_response_status_code := Some (hr_status r)\<rparr>) a
                 | None \<Rightarrow> a);
                 content_type = Option.bind (fl_response flw) (\<lambda>r. en_header env (hr_headers r) ''content-type'')
             in if is_streaming content_type (fl_path flw) (Some (at_request_payload turn)) then
                  (modify_turn cid (\<lambda>t. t\<lparr>at_accumulator := create_accumulator (at_provider t)\<rparr>) a1,
                   if fl_response flw \<noteq> None then
                     flw\<lparr>fl_stream := Tapped (new_tap cid (at_timing turn) (ad_queue_size a1))\<rparr>
                   else flw)
                else (a1, flw))))"

subsection \<open>\<open>response\<close>\<close>

definition completed_envelope :: "proxy_env \<Rightarrow> agent_identity option \<Rightarrow> active_turn \<Rightarrow> int \<Rightarrow> json
    \<Rightarrow> acc_block list \<Rightarrow> jdict \<Rightarrow> json \<Rightarrow> wire_envelope" where
  "completed_envelope env agent turn status response blocks usage stop =
     \<lparr>we_event_type = TURN_COMPLETED, we_correlation_id = at_correlation_id turn,
      we_session_id = at_session_id turn, we_timestamp = en_wall env,
      we_payload =
        [(''http_status'', JInt status), (''provider'', JStr (provider_value (at_provider turn))),
         (''model'', JStr (at_model turn)), (''endpoint'', JStr (at_endpoint turn)),
         (''sanitized_headers'', headers_json (at_sanitized_headers turn)),
         (''request_payload'', JObj (at_request_payload turn)),
         (''response_headers'', headers_json (at_response_headers turn)), (''response_payload'', response),
         (''content_blocks'', acc_blocks_json blocks), (''usage'', JObj usage), (''timing'', timing_json turn),
         (''stop_reason'', stop), (''client_metadata'', JObj (at_client_metadata turn))]
        @ agent_fields agent turn\<rparr>"

text \<open>\<open>turn.accumulator.feed_chunk(b"")\<close>: the accumulator is flushed in place.\<close>

definition flush_accumulator :: "proxy_env \<Rightarrow> string \<Rightarrow> any_acc \<Rightarrow> (addon \<times> flow, any_acc) op" where
  "flush_accumulator env cid acc = (\<lambda>(a, flw).
     let (r, acc') = feed_chunk (en_ucd env) (en_codec env) [] acc
     in (case r of Inl e \<Rightarrow> Inl e | Inr _ \<Rightarrow> Inr acc',
         modify_turn cid (\<lambda>t. t\<lparr>at_accumulator := Some acc'\<rparr>) a, flw))"

definition note_body_times :: "rat \<Rightarrow> active_turn \<Rightarrow> active_turn" where
  "note_body_times now t =
     t\<lparr>at_timing := map_option (\<lambda>tm. tm\<lparr>
         tm_first_byte_received_at := (case tm_first_byte_received_at tm of None \<Rightarrow> Some now | x \<Rightarrow> x),
         tm_stream_closed_at := (case tm_stream_closed_at tm of None \<Rightarrow> Some now | x \<Rightarrow> x)\<rparr>) (at_timing t)\<rparr>"

definition parse_error_body :: "proxy_env \<Rightarrow> flow \<Rightarrow> jdict" where
  "parse_error_body env flw =
     (case fl_response flw of
        Some r \<Rightarrow> if hr_content r = [] then []
                  else (case en_loads env (hr_content r) of Some (JObj d) \<Rightarrow> d | _ \<Rightarrow> [])
      | None \<Rightarrow> [])"

text \<open>
  A response with an error status. The error body is put into the envelope that \<open>abort_turn\<close>
  returns, after the callback has already serialised it, so that it changes nothing.
\<close>

definition abort_response :: "proxy_env \<Rightarrow> string \<Rightarrow> int \<Rightarrow> hook" where
  "abort_response env cid status =
     op_bind (op_get snd) (\<lambda>flw.
     op_bind (op_lift (http_error_message (parse_error_body env flw) status)) (\<lambda>msg.
       on_addon (with_tracker env (\<lambda>k. snd (abort_turn (en_wall env) cid ''HTTP_ERROR'' msg (Some status) k)))))"

definition finish_turn :: "proxy_env \<Rightarrow> string \<Rightarrow> int \<Rightarrow> json \<Rightarrow> acc_block list \<Rightarrow> jdict \<Rightarrow> json \<Rightarrow> hook" where
  "finish_turn env cid status response blocks usage stop =
     op_bind (op_get id) (\<lambda>(a, flw).
       case tracker_get (ad_tracker a) cid of
         None \<Rightarrow> op_return ()
       | Some turn \<Rightarrow>
           op_seq (on_addon (emit_envelope env
               (completed_envelope env (fl_agent flw) turn status response blocks usage stop)))
             (if can_add (jget usage ''input_tokens'') (jget usage ''output_tokens'')
              then on_addon (\<lambda>a. a\<lparr>ad_tracker := snd (remove_turn cid (ad_tracker a))\<rparr>)
              else op_lift (Inl TypeError)))"

text \<open>What the response of a turn that is not streamed says.\<close>

definition body_read :: "proxy_env \<Rightarrow> addon \<Rightarrow> flow \<Rightarrow> active_turn \<Rightarrow> json \<times> jdict \<times> json" where
  "body_read env a flw turn =
     (case fl_response flw of
        Some r \<Rightarrow>
          if hr_content r = [] then (JNull, zero_usage, JNull)
          else read_response_body (sanitize (ad_sanitizer a)) (at_provider turn)
                 (en_loads env (hr_content r)) (hr_text r)
      | None \<Rightarrow> (JNull, zero_usage, JNull))"

definition complete_response :: "proxy_env \<Rightarrow> string \<Rightarrow> int \<Rightarrow> active_turn \<Rightarrow> hook" where
  "complete_response env cid status turn =
     (case at_accumulator turn of
        Some acc \<Rightarrow>
          op_bind (flush_accumulator env cid acc) (\<lambda>acc'.
          op_bind (op_lift (build_synthetic_response (at_provider turn) (at_correlation_id turn) (at_model turn)
              (acc_content_blocks acc') (acc_usage acc') (acc_stop_reason acc'))) (\<lambda>response.
            finish_turn env cid status response (acc_content_blocks acc') (acc_usage acc') (acc_stop_reason acc')))
      | None \<Rightarrow>
          op_seq (on_addon (modify_turn cid (note_body_times (en_mono env))))
            (op_bind (op_get (\<lambda>(a, flw). body_read env a flw turn)) (\<lambda>(response, usage, stop).
               finish_turn env cid status response [] usage stop)))"

definition close_stream :: "proxy_env \<Rightarrow> addon \<times> flow \<Rightarrow> addon \<times> flow" where
  "close_stream env = run_tap (tap_close (\<lambda>_. en_mono env))"

definition response :: "proxy_env \<Rightarrow> hook" where
  "response env = op_swallow
     (op_bind (op_get intercepted_turn) (\<lambda>found.
        case found of
          None \<Rightarrow> op_return ()
        | Some (cid, _) \<Rightarrow>
            op_seq (op_modify (close_stream env))
            (op_seq (on_addon (drain_chunk_queue env))
            (op_bind (op_get (\<lambda>(a, flw). case fl_response flw of Some r \<Rightarrow> hr_status r | None \<Rightarrow> 200)) (\<lambda>status.
             op_seq (on_addon (modify_turn cid (\<lambda>t. t\<lparr>at_response_status_code := Some status\<rparr>)))
             (op_bind (op_get intercepted_turn) (\<lambda>now.
                case now of
                  None \<Rightarrow> op_return ()
                | Some (_, turn) \<Rightarrow>
                    if 400 \<le> status then abort_response env cid status
                    else complete_response env cid status turn)))))))"

subsection \<open>\<open>error\<close> and the end of connections\<close>

definition error_status :: "string \<Rightarrow> string" where
  "error_status msg =
     (if list_ex (\<lambda>k. str_in k (str_lower msg)) [''client'', ''disconnect'', ''abort'', ''cancel'', ''reset'']
      then ''CLIENT_ABORTED'' else ''ERROR'')"

definition error_hook :: "proxy_env \<Rightarrow> hook" where
  "error_hook env = op_modify (\<lambda>(a, flw).
     if fl_intercepted flw then
       (case fl_cid flw of
          None \<Rightarrow> (a, flw)
        | Some cid \<Rightarrow>
            (let msg = (case fl_error flw of Some m \<Rightarrow> m | None \<Rightarrow> ''Unknown flow error'')
             in (with_tracker env (\<lambda>k. snd (abort_turn (en_wall env) cid (error_status msg) (Some msg) None k)) a,
                 flw)))
     else (a, flw))"

definition client_connected :: "proxy_env \<Rightarrow> peer option \<Rightarrow> addon \<Rightarrow> addon" where
  "client_connected env p a = (case p of None \<Rightarrow> a | Some p \<Rightarrow> snd (identify env p None a))"

definition disconnected_envelope :: "proxy_env \<Rightarrow> peer \<Rightarrow> string \<Rightarrow> agent_identity option \<Rightarrow> wire_envelope" where
  "disconnected_envelope env p sid agent =
     \<lparr>we_event_type = SESSION_DISCONNECTED, we_correlation_id = ''disc-'' @ sid, we_session_id = sid,
      we_timestamp = en_wall env,
      we_payload = [(''sessionId'', JStr sid), (''peer'', JArr [JStr (fst p), JInt (snd p)]),
        (''agent'', jopt (\<lambda>a. JObj (agent_identity_to_dict a)) agent),
        (''reason'', JStr ''client_disconnected'')]\<rparr>"

definition client_disconnected :: "proxy_env \<Rightarrow> peer option \<Rightarrow> addon \<Rightarrow> addon" where
  "client_disconnected env p a =
     (case p of
        None \<Rightarrow> a
      | Some p \<Rightarrow>
          (case map_of (ad_client_session a) p of
             None \<Rightarrow> a
           | Some sid \<Rightarrow>
               (let a1 = a\<lparr>ad_client_session := AList.delete p (ad_client_session a)\<rparr>;
                    clients = dict_get (ad_session_clients a1) sid [];
                    rest = removeAll p clients
                in if sid = [] \<or> clients = [] then a1
                   else if rest \<noteq> [] then
                     a1\<lparr>ad_session_clients := AList.update sid rest (ad_session_clients a1)\<rparr>
                   else
                     emit_envelope env
                       (disconnected_envelope env p sid (map_of (ad_session_agents a1) sid))
                       (a1\<lparr>ad_session_clients := AList.delete sid (ad_session_clients a1)\<rparr>))))"

end
