(* ===== verification/AddonProps.thy ===== *)
theory AddonProps
  imports Addon
begin

text \<open>
  What the hooks of the addon guarantee over any sequence of events: the two tables of connections
  agree, so that the end of a session is announced only when no connection is left in it; flows of
  no provider are untouched; what the proxy announces is redacted.
\<close>

subsection \<open>Events\<close>

datatype addon_event =
    OnRequestHeaders proxy_env flow
  | OnRequest proxy_env flow
  | OnResponseHeaders proxy_env flow
  | OnChunk "nat \<Rightarrow> rat" bytes flow
  | OnResponse proxy_env flow
  | OnError proxy_env flow
  | OnConnect proxy_env "peer option"
  | OnDisconnect proxy_env "peer option"
  | OnWorker proxy_env
  | OnReaper proxy_env
  | OnStart
  | OnStop

definition after_hook :: "hook \<Rightarrow> addon \<Rightarrow> flow \<Rightarrow> addon" where
  "after_hook h a flw = fst (snd (h (a, flw)))"

fun addon_step :: "addon_event \<Rightarrow> addon \<Rightarrow> addon" where
  "addon_step (OnRequestHeaders env flw) a = after_hook (requestheaders env) a flw"
| "addon_step (OnRequest env flw) a = after_hook (request env) a flw"
| "addon_step (OnResponseHeaders env flw) a = after_hook (responseheaders env) a flw"
| "addon_step (OnChunk clock chunk flw) a = fst (stream_chunk clock chunk (a, flw))"
| "addon_step (OnResponse env flw) a = after_hook (response env) a flw"
| "addon_step (OnError env flw) a = after_hook (error_hook env) a flw"
| "addon_step (OnConnect env p) a = client_connected env p a"
| "addon_step (OnDisconnect env p) a = client_disconnected env p a"
| "addon_step (OnWorker env) a = chunk_worker_step env a"
| "addon_step (OnReaper env) a = reaper_step env a"
| "addon_step OnStart a = addon_start a"
| "addon_step OnStop a = addon_stop a"

definition addon_run :: "addon_event list \<Rightarrow> addon \<Rightarrow> addon" where
  "addon_run evs a = foldl (\<lambda>a e. addon_step e a) a evs"

subsection \<open>Connections and sessions\<close>

definition clients_ok :: "addon \<Rightarrow> bool" where
  "clients_ok a \<longleftrightarrow>
     (\<forall>p s. map_of (ad_client_session a) p = Some s \<longrightarrow> p \<in> set (dict_get (ad_session_clients a) s []))"

text \<open>Most steps leave both tables alone.\<close>

definition same_tables :: "addon \<Rightarrow> addon \<Rightarrow> bool" where
  "same_tables a b \<longleftrightarrow>
     ad_client_session b = ad_client_session a \<and> ad_session_clients b = ad_session_clients a"

lemma same_tables_ok: "same_tables a b \<Longrightarrow> clients_ok b = clients_ok a"
  by (simp add: same_tables_def clients_ok_def)

lemma same_tables_refl [simp]: "same_tables a a"
  by (simp add: same_tables_def)

lemma emit_frame [simp]:
  "ad_client_session (emit_envelope env e a) = ad_client_session a"
  "ad_session_clients (emit_envelope env e a) = ad_session_clients a"
  "ad_tracker (emit_envelope env e a) = ad_tracker a"
  "ad_sanitizer (emit_envelope env e a) = ad_sanitizer a"
  by (simp_all add: emit_envelope_def)

lemma emits_frame [simp]:
  "ad_client_session (foldl (\<lambda>a e. emit_envelope env e a) a es) = ad_client_session a"
  "ad_session_clients (foldl (\<lambda>a e. emit_envelope env e a) a es) = ad_session_clients a"
  "ad_tracker (foldl (\<lambda>a e. emit_envelope env e a) a es) = ad_tracker a"
  by (induction es arbitrary: a) simp_all

lemma with_tracker_frame [simp]:
  "ad_client_session (with_tracker env f a) = ad_client_session a"
  "ad_session_clients (with_tracker env f a) = ad_session_clients a"
  "ad_tracker (with_tracker env f a) = f (ad_tracker a)"
  by (simp_all add: with_tracker_def Let_def)

lemma modify_turn_frame [simp]:
  "ad_client_session (modify_turn cid f a) = ad_client_session a"
  "ad_session_clients (modify_turn cid f a) = ad_session_clients a"
  "ad_sanitizer (modify_turn cid f a) = ad_sanitizer a"
  by (simp_all add: modify_turn_def)

lemma modify_turn_buffer [simp]: "ad_buffer (modify_turn cid f a) = ad_buffer a"
  by (simp add: modify_turn_def)

lemma record_item_frame [simp]:
  "ad_client_session (record_item env x a) = ad_client_session a"
  "ad_session_clients (record_item env x a) = ad_session_clients a"
  by (simp_all add: record_item_def split_beta)

lemma record_items_frame [simp]:
  "ad_client_session (foldl (\<lambda>a x. record_item env x a) a xs) = ad_client_session a"
  "ad_session_clients (foldl (\<lambda>a x. record_item env x a) a xs) = ad_session_clients a"
  by (induction xs arbitrary: a) simp_all

lemma drain_frame [simp]:
  "ad_client_session (drain_chunk_queue env a) = ad_client_session a"
  "ad_session_clients (drain_chunk_queue env a) = ad_session_clients a"
  by (simp_all add: drain_chunk_queue_def)

lemma note_agent_frame [simp]:
  "ad_client_session (note_agent s g a) = ad_client_session a"
  "ad_session_clients (note_agent s g a) = ad_session_clients a"
  by (simp_all add: note_agent_def)

lemma run_tap_frame [simp]:
  "ad_client_session (fst (run_tap step x)) = ad_client_session (fst x)"
  "ad_session_clients (fst (run_tap step x)) = ad_session_clients (fst x)"
  by (cases x; simp add: run_tap_def Let_def split: body_stream.splits)+

lemma identify_frame:
  "identify env p hs a = (agent, b) \<Longrightarrow> same_tables a b \<and> ad_default_session_id b = ad_default_session_id a"
  by (auto simp: identify_def same_tables_def split: prod.splits)

lemma resolve_session_frame: "resolve_session env flw payload turn a = (sid, b) \<Longrightarrow> same_tables a b"
  by (auto simp: resolve_session_def same_tables_def Let_def split: prod.splits option.splits if_splits)

lemma add_peer_set [simp]: "set (add_peer p ps) = insert p (set ps)"
  by (auto simp: add_peer_def)

lemma associate_ok: "clients_ok a \<Longrightarrow> clients_ok (associate p sid a)"
  by (auto simp: clients_ok_def associate_def)

lemma clients_ok_tables: "same_tables a b \<Longrightarrow> clients_ok a \<Longrightarrow> clients_ok b"
  by (simp add: same_tables_ok)

text \<open>An operation that keeps the tables, whether it raises or not.\<close>

lemma keeps_clients:
  assumes "\<And>x. same_tables (fst x) (fst (snd (m x)))"
  shows "op_keeps (\<lambda>x. clients_ok (fst x)) m"
  unfolding op_keeps_def using assms clients_ok_tables by blast

lemma on_addon_keeps:
  "(\<And>a. clients_ok a \<Longrightarrow> clients_ok (f a)) \<Longrightarrow> op_keeps (\<lambda>x. clients_ok (fst x)) (on_addon f)"
  by (auto simp: on_addon_def intro!: keeps_modify)

lemma on_flow_keeps: "op_keeps (\<lambda>x. clients_ok (fst x)) (on_flow f)"
  by (auto simp: on_flow_def intro!: keeps_modify)

lemma intercept_ok: "clients_ok a \<Longrightarrow> clients_ok (fst (intercept env path prov (a, flw)))"
proof -
  assume ok: "clients_ok a"
  define p where "p = (case fl_peer flw of Some p \<Rightarrow> p | None \<Rightarrow> (''127.0.0.1'', 0))"
  obtain agent a1 where i: "identify env p (Some (fl_headers flw)) a = (agent, a1)" by fastforce
  then have ok1: "clients_ok a1" using ok identify_frame clients_ok_tables by blast
  have "\<exists>b. (b = a1 \<or> (\<exists>s. b = note_agent s agent (associate p s a1)))
      \<and> same_tables b (fst (intercept env path prov (a, flw)))"
    using i by (auto simp: intercept_def p_def [symmetric] Let_def same_tables_def split: prod.splits)
  then obtain b where b: "b = a1 \<or> (\<exists>s. b = note_agent s agent (associate p s a1))"
      "same_tables b (fst (intercept env path prov (a, flw)))" by blast
  have "same_tables (associate p s a1) (note_agent s agent (associate p s a1))" for s
    by (simp add: same_tables_def)
  then have "clients_ok b" using b(1) ok1 associate_ok clients_ok_tables by blast
  then show ?thesis using b(2) clients_ok_tables by blast
qed

lemma handle_request_ok: "clients_ok a \<Longrightarrow> clients_ok (handle_request env flw cid turn a)"
proof -
  assume ok: "clients_ok a"
  obtain sid a1 where r: "resolve_session env flw (read_request_body env (ad_sanitizer a) flw) turn a = (sid, a1)"
    by fastforce
  then have ok1: "clients_ok a1" using ok resolve_session_frame clients_ok_tables by blast
  have ok2: "clients_ok (modify_turn cid f a1)" for f
    using ok1 by (rule clients_ok_tables [rotated]) (simp add: same_tables_def)
  then have ok3: "clients_ok (case fl_peer flw of Some p \<Rightarrow> associate p sid (modify_turn cid f a1)
      | None \<Rightarrow> modify_turn cid f a1)" for f
    by (auto split: option.split intro: associate_ok)
  have "clients_ok (note_agent s g b)" "clients_ok (emit_envelope env e b)" if "clients_ok b" for s g e b
    using that by (auto intro: clients_ok_tables simp: same_tables_def)
  with ok3 show ?thesis
    unfolding handle_request_def Let_def r by (auto split: option.split)
qed

lemma removeAll_Nil: "removeAll p xs = [] \<longleftrightarrow> (\<forall>x\<in>set xs. x = p)"
  by (induction xs) auto

lemma clients_okD: "clients_ok a \<Longrightarrow> map_of (ad_client_session a) p = Some s \<Longrightarrow>
    p \<in> set (dict_get (ad_session_clients a) s [])"
  by (simp only: clients_ok_def)

lemma client_disconnected_ok:
  assumes "clients_ok a"
  shows "clients_ok (client_disconnected env p a)"
proof (cases "\<exists>c sid. p = Some c \<and> map_of (ad_client_session a) c = Some sid")
  case False
  then have "client_disconnected env p a = a"
    by (auto simp: client_disconnected_def split: option.split)
  with assms show ?thesis by simp
next
  case True
  then obtain c sid where c: "p = Some c" "map_of (ad_client_session a) c = Some sid" by blast
  let ?b = "client_disconnected env p a" and ?clients = "dict_get (ad_session_clients a) sid []"
  have sessions: "map_of (ad_client_session ?b) = (map_of (ad_client_session a))(c := None)"
    using c by (simp add: client_disconnected_def Let_def)
  have sets: "ad_session_clients ?b =
      (if sid = [] \<or> ?clients = [] then ad_session_clients a
       else if removeAll c ?clients \<noteq> [] then AList.update sid (removeAll c ?clients) (ad_session_clients a)
       else AList.delete sid (ad_session_clients a))"
    using c by (simp add: client_disconnected_def Let_def)
  have "q \<in> set (dict_get (ad_session_clients ?b) s [])"
    if "map_of (ad_client_session ?b) q = Some s" for q s
  proof -
    have q: "q \<noteq> c" "map_of (ad_client_session a) q = Some s"
      using that by (auto simp only: sessions fun_upd_apply split: if_splits)
    have mem: "q \<in> set (dict_get (ad_session_clients a) s [])" by (rule clients_okD [OF assms q(2)])
    show ?thesis
    proof (cases "s = sid")
      case True
      with mem q(1) have "removeAll c ?clients \<noteq> []" by (auto simp only: removeAll_Nil)
      with True mem q(1) show ?thesis unfolding sets by simp
    next
      case False
      with mem show ?thesis unfolding sets by (simp add: dict_get_def)
    qed
  qed
  then show ?thesis by (simp only: clients_ok_def) blast
qed

lemma rewrite_keeps: "op_keeps (\<lambda>x. clients_ok (fst x)) (rewrite_gateway_request env prov)"
  unfolding rewrite_gateway_request_def
  by (auto intro!: keeps on_flow_keeps simp: Let_def split: option.split)

lemma requestheaders_keeps: "op_keeps (\<lambda>x. clients_ok (fst x)) (requestheaders env)"
  unfolding requestheaders_def Let_def
  by (intro keeps) (auto intro!: keeps rewrite_keeps keeps_modify simp: intercept_ok split: prod.split)

lemma finish_keeps: "op_keeps (\<lambda>x. clients_ok (fst x)) (finish_turn env cid status r bs u s)"
  unfolding finish_turn_def
  by (auto intro!: keeps on_addon_keeps split: option.split)
    (auto simp: clients_ok_def)

lemma flush_keeps: "op_keeps (\<lambda>x. clients_ok (fst x)) (flush_accumulator env cid acc)"
  by (rule keeps_clients) (auto simp: flush_accumulator_def same_tables_def Let_def split: prod.split)

lemma complete_keeps: "op_keeps (\<lambda>x. clients_ok (fst x)) (complete_response env cid status turn)"
  unfolding complete_response_def Let_def
  by (auto intro!: keeps finish_keeps flush_keeps on_addon_keeps split: option.split prod.split)
    (auto simp: clients_ok_def)

lemma abort_keeps: "op_keeps (\<lambda>x. clients_ok (fst x)) (abort_response env cid status)"
  unfolding abort_response_def
  by (auto intro!: keeps on_addon_keeps) (auto simp: clients_ok_def)

lemma response_keeps: "op_keeps (\<lambda>x. clients_ok (fst x)) (response env)"
proof -
  have tap: "op_keeps (\<lambda>x. clients_ok (fst x)) (op_modify (close_stream env))"
    by (rule keeps_clients) (simp add: op_modify_def close_stream_def same_tables_def)
  have drain: "op_keeps (\<lambda>x. clients_ok (fst x)) (on_addon (drain_chunk_queue env))"
    by (rule on_addon_keeps) (simp add: clients_ok_def)
  have status: "op_keeps (\<lambda>x. clients_ok (fst x)) (on_addon (modify_turn cid f))" for cid f
    by (rule on_addon_keeps) (simp add: clients_ok_def)
  show ?thesis
    unfolding response_def
    by (auto intro!: keeps tap drain status complete_keeps abort_keeps split: option.split prod.split)
qed

lemma responseheaders_tables: "same_tables a (after_hook (responseheaders env) a flw)"
  by (auto simp: after_hook_def responseheaders_def op_modify_def same_tables_def Let_def
      split: option.split prod.split)

lemma clients_ok_step: "clients_ok a \<Longrightarrow> clients_ok (addon_step e a)"
proof (cases e)
  case (OnRequestHeaders env flw)
  assume "clients_ok a"
  then show ?thesis
    using requestheaders_keeps [of env] OnRequestHeaders by (simp add: op_keeps_def after_hook_def)
next
  case (OnRequest env flw)
  assume "clients_ok a"
  then show ?thesis using OnRequest
    by (auto simp: after_hook_def request_def op_modify_def handle_request_ok split: option.split)
next
  case (OnResponseHeaders env flw)
  assume "clients_ok a"
  then show ?thesis using responseheaders_tables clients_ok_tables OnResponseHeaders
    by (metis addon_step.simps(3))
next
  case (OnResponse env flw)
  assume "clients_ok a"
  then show ?thesis using response_keeps [of env] OnResponse by (simp add: op_keeps_def after_hook_def)
next
  case (OnError env flw)
  assume "clients_ok a"
  then show ?thesis using OnError
    by (auto simp: after_hook_def error_hook_def op_modify_def clients_ok_def Let_def split: option.split)
next
  case (OnConnect env p)
  assume ok: "clients_ok a"
  have "clients_ok (snd (identify env q None a))" for q
    using identify_frame [of env q None a "fst (identify env q None a)" "snd (identify env q None a)"] ok
    by (auto intro: clients_ok_tables)
  then show ?thesis using OnConnect ok by (simp add: client_connected_def split: option.split)
next
  case (OnChunk clock chunk flw)
  assume "clients_ok a"
  then show ?thesis using OnChunk by (simp add: stream_chunk_def clients_ok_def)
next
  case (OnDisconnect env p)
  assume "clients_ok a"
  then show ?thesis using OnDisconnect by (simp add: client_disconnected_ok)
qed (auto simp: clients_ok_def chunk_worker_step_def reaper_step_def addon_start_def
    addon_stop_def split: list.split)

interpretation addon_machine: invariant_machine "\<lambda>a e. addon_step e a" clients_ok "\<lambda>_. True"
  by unfold_locales (rule clients_ok_step)

lemma clients_ok_run: "clients_ok a \<Longrightarrow> clients_ok (addon_run evs a)"
  unfolding addon_run_def by (rule addon_machine.run_ok) (simp_all add: list_all_iff)

lemma clients_ok_new: "clients_ok (new_addon buffer client sid)"
  by (simp add: clients_ok_def new_addon_def)

text \<open>The end of a session is announced only when none of its connections is left.\<close>

lemma disconnect_announced:
  assumes "clients_ok a" "ad_buffer (client_disconnected env p a) \<noteq> ad_buffer a"
  shows "\<exists>q sid agent b. client_disconnected env p a = emit_envelope env (disconnected_envelope env q sid agent) b
    \<and> p = Some q \<and> map_of (ad_client_session a) q = Some sid
    \<and> (\<forall>r. map_of (ad_client_session (client_disconnected env p a)) r \<noteq> Some sid)"
proof -
  obtain q sid where q: "p = Some q" "map_of (ad_client_session a) q = Some sid"
    using assms(2) by (auto simp: client_disconnected_def split: option.splits)
  let ?clients = "dict_get (ad_session_clients a) sid []"
  have none: "removeAll q ?clients = []" and ne: "\<not> (sid = [] \<or> ?clients = [])"
    using assms(2) q by (auto simp: client_disconnected_def Let_def split: if_splits)
  have "map_of (ad_client_session a) r \<noteq> Some sid" if "r \<noteq> q" for r
  proof
    assume "map_of (ad_client_session a) r = Some sid"
    then have "r \<in> set ?clients" using assms(1) by (simp only: clients_ok_def)
    then have "r \<in> set (removeAll q ?clients)" using that by simp
    with none show False by simp
  qed
  moreover have "client_disconnected env p a
      = emit_envelope env (disconnected_envelope env q sid (map_of (ad_session_agents a) sid))
          (a\<lparr>ad_client_session := AList.delete q (ad_client_session a),
             ad_session_clients := AList.delete sid (ad_session_clients a)\<rparr>)"
    using q none ne by (auto simp: client_disconnected_def Let_def)
  ultimately have "\<forall>r. map_of (ad_client_session (client_disconnected env p a)) r \<noteq> Some sid"
    by (simp del: split_paired_All)
  with q \<open>client_disconnected env p a = _\<close> show ?thesis by blast
qed

text \<open>
  A connection that was moved to another session stays in the client set of the old one for good:
  its end is not announced there.
\<close>

lemma moved_connection_stays:
  assumes "map_of (ad_client_session a) q = Some sid" "old \<noteq> sid"
    "q \<in> set (dict_get (ad_session_clients a) old [])"
  shows "q \<in> set (dict_get (ad_session_clients (client_disconnected env (Some q) a)) old [])"
  using assms by (auto simp: client_disconnected_def Let_def dict_get_def)

subsection \<open>Flows of no provider\<close>

definition proxy_port :: "proxy_env \<Rightarrow> int res" where
  "proxy_port env = int_of_str (case en_proxy_port env of Some s \<Rightarrow> s | None \<Rightarrow> ''8080'')"

definition routed :: "proxy_env \<Rightarrow> flow \<Rightarrow> bool" where
  "routed env flw \<longleftrightarrow>
     (\<exists>n prov. proxy_port env = Inr n \<and> route_flow env flw (is_gateway flw n) = Inr (True, prov))"

lemma swallow_state: "snd (op_swallow m s) = snd (m s)"
  by (simp add: op_swallow_def split: prod.split sum.split py_error.split)

lemma unrouted_untouched:
  assumes "\<not> routed env flw"
  shows "snd (requestheaders env (a, flw)) = (a, flw)"
  using assms
  by (auto simp: requestheaders_def swallow_state op_defs routed_def proxy_port_def Let_def
      split: sum.split prod.split)

lemma not_intercepted_untouched:
  assumes "\<not> fl_intercepted flw"
  shows "snd (request env (a, flw)) = (a, flw)" "snd (response env (a, flw)) = (a, flw)"
    "snd (error_hook env (a, flw)) = (a, flw)"
    "snd (responseheaders env (a, flw)) = (a, if fl_response flw \<noteq> None then flw\<lparr>fl_stream := PassThrough\<rparr> else flw)"
  using assms
  by (simp_all add: request_def response_def error_hook_def responseheaders_def swallow_state op_defs
      intercepted_turn_def)

subsection \<open>What is announced\<close>

definition hides :: "sanitizer \<Rightarrow> (string, string) dict \<Rightarrow> bool" where
  "hides z hs \<longleftrightarrow>
     (\<forall>(k, v)\<in>set hs. str_lower k \<in> set (sz_sensitive_headers z) \<longrightarrow> v = sz_redaction z)"

lemma sanitized_hides: "hides z (sanitize_headers z hs)"
  by (auto simp: hides_def sanitize_headers_def)

lemma read_body_object:
  assumes "fl_content flw \<noteq> []" "en_loads env (fl_content flw) = Some v"
  shows "read_request_body env z flw = (case v of JObj d \<Rightarrow> as_dict (sanitize z v) | _ \<Rightarrow> [(''_data'', v)])"
  using assms by (simp add: read_request_body_def split: json.split)

lemma body_redacted:
  assumes "fl_content flw \<noteq> []" "en_loads env (fl_content flw) = Some (JObj d)"
  shows "redacted z (JObj (read_request_body env z flw))"
proof -
  have "JObj (read_request_body env z flw) = sanitize z (JObj d)"
    using read_body_object [OF assms] by (simp add: as_dict_def)
  then show ?thesis by (simp only: sanitize_redacted)
qed

lemma resolve_keeps:
  "resolve_session env flw payload turn a = (sid, b) \<Longrightarrow>
     ad_sanitizer b = ad_sanitizer a \<and> ad_buffer b = ad_buffer a"
  by (auto simp: resolve_session_def Let_def split: prod.splits option.splits if_splits)

lemma handle_request_emits:
  "\<exists>turn' b. handle_request env flw cid turn a = emit_envelope env (initiated_envelope env (fl_agent flw) turn') b
     \<and> ad_buffer b = ad_buffer a
     \<and> at_correlation_id turn' = at_correlation_id turn
     \<and> at_request_payload turn' = read_request_body env (ad_sanitizer a) flw
     \<and> hides (ad_sanitizer a) (at_sanitized_headers turn')"
proof -
  obtain sid a1 where r: "resolve_session env flw (read_request_body env (ad_sanitizer a) flw) turn a = (sid, a1)"
    by fastforce
  show ?thesis
    unfolding handle_request_def Let_def r prod.case
    by (intro exI conjI, rule refl)
      (simp_all add: sanitized_hides note_agent_def associate_def resolve_keeps [OF r] split: option.split)
qed

subsection \<open>Completed turns\<close>

definition countable :: "jdict \<Rightarrow> bool" where
  "countable usage \<longleftrightarrow> can_add (jget usage ''input_tokens'') (jget usage ''output_tokens'')"

text \<open>The turn after the hook has noted the status and the times of the body.\<close>

definition answered :: "proxy_env \<Rightarrow> int \<Rightarrow> active_turn \<Rightarrow> active_turn" where
  "answered env status turn = note_body_times (en_mono env) (turn\<lparr>at_response_status_code := Some status\<rparr>)"

lemma get_modify_turn:
  "tracker_get (ad_tracker (modify_turn cid f a)) c
     = (if c = cid then map_option f (tracker_get (ad_tracker a) cid) else tracker_get (ad_tracker a) c)"
  by (auto simp: modify_turn_def tracker_get_def split: option.split)

lemma tracker_get_remove: "tracker_get (snd (remove_turn cid k)) cid = None"
  by (simp add: tracker_get_def remove_turn_def drop_turn_def)

lemma response_plain:
  fixes env a flw
  defines "status \<equiv> (case fl_response flw of Some r \<Rightarrow> hr_status r | None \<Rightarrow> 200)"
  assumes "intercepted_turn (a, flw) = Some (cid, turn)" "at_accumulator turn = None"
    "fl_stream flw = Unset" "ad_chunk_queue a = []" "status < 400"
    "body_read env a flw turn = (payload, usage, stop)"
  shows "let a' = after_hook (response env) a flw
    in ad_buffer a' = snd (push (envelope_to_bytes (en_dumps env)
         (completed_envelope env (fl_agent flw) (answered env status turn) status payload [] usage stop)) (ad_buffer a))
       \<and> tracker_get (ad_tracker a') cid = (if countable usage then None else Some (answered env status turn))"
proof -
  define a1 where "a1 = modify_turn cid (\<lambda>t. t\<lparr>at_response_status_code := Some status\<rparr>) a"
  define turn1 where "turn1 = turn\<lparr>at_response_status_code := Some status\<rparr>"
  define a2 where "a2 = modify_turn cid (note_body_times (en_mono env)) a1"
  have cid: "fl_intercepted flw" "fl_cid flw = Some cid" "tracker_get (ad_tracker a) cid = Some turn"
    using assms(2) by (auto simp: intercepted_turn_def split: if_splits option.splits)
  have get1: "tracker_get (ad_tracker a1) cid = Some turn1"
    by (simp add: a1_def turn1_def get_modify_turn cid)
  have get2: "tracker_get (ad_tracker a2) cid = Some (answered env status turn)"
    by (simp add: a2_def get_modify_turn get1 answered_def turn1_def)
  have tap: "close_stream env (a, flw) = (a, flw)"
    using assms(4) by (simp add: close_stream_def run_tap_def)
  have drain: "drain_chunk_queue env a = a"
    using assms(5) by (simp add: drain_chunk_queue_def)
  have found1: "intercepted_turn (a1, flw) = Some (cid, turn1)"
    using cid get1 by (simp add: intercepted_turn_def)
  have body: "body_read env a2 flw turn1 = (payload, usage, stop)"
    using assms(7) by (simp add: body_read_def a2_def a1_def turn1_def cong: option.case_cong if_cong)
  have "snd (response env (a, flw)) = snd (complete_response env cid status turn1 (a1, flw))"
    using assms(2,6) found1
    by (simp add: response_def swallow_state op_defs on_addon_def tap drain status_def [symmetric]
        a1_def [symmetric])
  moreover have "complete_response env cid status turn1 (a1, flw)
      = finish_turn env cid status payload [] usage stop (a2, flw)"
  proof -
    have "at_accumulator turn1 = None" using assms(3) by (simp add: turn1_def)
    then show ?thesis
      using body by (simp add: complete_response_def op_defs on_addon_def a2_def [symmetric])
  qed
  ultimately have "after_hook (response env) a flw
      = fst (snd (finish_turn env cid status payload [] usage stop (a2, flw)))"
    by (simp add: after_hook_def)
  then show ?thesis
    using get2 by (auto simp: finish_turn_def op_defs on_addon_def countable_def Let_def emit_envelope_def
        a2_def a1_def tracker_get_remove)
qed

text \<open>
  A whole Gemini response: the token counts are not among the excluded keys, so they are redacted
  before the addon reads them. The usage of a body is the object the addon looks up in it.
\<close>

definition usage_of :: "jdict \<Rightarrow> json" where
  "usage_of d =
     or_chain [jget (inner_response d) ''usage'', jget (inner_response d) ''usageMetadata'', jget d ''usage'',
       jget d ''usageMetadata'', JObj []]"

definition has_count :: "jdict \<Rightarrow> string \<Rightarrow> bool" where
  "has_count d k \<longleftrightarrow> (case usage_of d of JObj raw \<Rightarrow> k \<in> fst ` set raw | _ \<Rightarrow> False)"

definition clean :: "sanitizer \<Rightarrow> jdict \<Rightarrow> jdict" where
  "clean z d = as_dict (sanitize z (JObj d))"

lemma map_of_clean:
  "map_of (clean z d) k =
     map_option (\<lambda>v. if is_sensitive_key z k then JStr (sz_redaction z) else sanitize z v) (map_of d k)"
  by (simp add: clean_def as_dict_def map_of_sanitized)

lemma jget_clean: "\<not> is_sensitive_key z k \<Longrightarrow> jget (clean z d) k = sanitize z (jget d k)"
  by (simp add: jget_def dict_get_def map_of_clean split: option.split)

lemma sanitize_obj: "sanitize z v = JObj e \<longleftrightarrow> (\<exists>d. v = JObj d \<and> e = clean z d)"
  by (cases v) (auto simp: clean_def as_dict_def)

lemma clean_obj: "sanitize z (JObj d) = JObj (clean z d)"
  by (simp add: clean_def as_dict_def)

lemma truthy_sanitize: "truthy (sanitize z v) = truthy v"
  by (cases v) simp_all

lemma or_chain_sanitize: "xs \<noteq> [] \<Longrightarrow> or_chain (map (sanitize z) xs) = sanitize z (or_chain xs)"
proof (induction xs)
  case (Cons x xs)
  then show ?case by (cases xs) (simp_all add: py_or_def truthy_sanitize)
qed simp

lemma inner_clean:
  assumes "\<not> is_sensitive_key z ''response''"
  shows "inner_response (clean z d) = clean z (inner_response d)"
  unfolding inner_response_def jget_clean [OF assms]
  by (cases "jget d ''response''") (simp_all add: clean_obj del: sanitize.simps(1))

lemma usage_clean:
  assumes "\<not> is_sensitive_key z ''response''" "\<not> is_sensitive_key z ''usage''" "\<not> is_sensitive_key z ''usageMetadata''"
  shows "usage_of (clean z d) = sanitize z (usage_of d)"
  using or_chain_sanitize [of "[jget (inner_response d) ''usage'', jget (inner_response d) ''usageMetadata'',
      jget d ''usage'', jget d ''usageMetadata'', JObj []]" z]
  by (simp add: usage_of_def inner_clean [OF assms(1)] jget_clean [OF assms(2)] jget_clean [OF assms(3)] del: or_chain.simps)

lemma clean_count:
  assumes "is_sensitive_key z k"
  shows "jget_or (clean z raw) k w = (if k \<in> fst ` set raw then JStr (sz_redaction z) else w)"
  using assms map_of_eq_None_iff [of raw k]
  by (auto simp: jget_or_def dict_get_def map_of_clean split: option.split)

lemma update_counts:
  "jget (update_usage ([(''input_tokens'', a), (''output_tokens'', b)] @ if_present raw k ''cache_read_input_tokens''
      @ if_present raw k' ''reasoning_tokens'')) ''input_tokens'' = a"
  "jget (update_usage ([(''input_tokens'', a), (''output_tokens'', b)] @ if_present raw k ''cache_read_input_tokens''
      @ if_present raw k' ''reasoning_tokens'')) ''output_tokens'' = b"
  by (simp_all add: update_usage_def if_present_def jget_def dict_get_def update_conv split: option.split)

lemma gemini_countable:
  "countable (extract_usage GEMINI (clean default_sanitizer d)) \<longleftrightarrow>
     (has_count d ''promptTokenCount'' \<longleftrightarrow> has_count d ''candidatesTokenCount'')"
proof -
  have keys: "\<not> is_sensitive_key default_sanitizer ''response''" "\<not> is_sensitive_key default_sanitizer ''usage''"
    "\<not> is_sensitive_key default_sanitizer ''usageMetadata''" by code_simp+
  have counts: "is_sensitive_key default_sanitizer ''promptTokenCount''"
    "is_sensitive_key default_sanitizer ''candidatesTokenCount''" by code_simp+
  have e: "extract_usage GEMINI (clean default_sanitizer d) =
      (case usage_of (clean default_sanitizer d) of
         JObj raw \<Rightarrow> update_usage ([(''input_tokens'', jget_or raw ''promptTokenCount'' (JInt 0)),
             (''output_tokens'', jget_or raw ''candidatesTokenCount'' (JInt 0))]
           @ if_present raw ''cachedContentTokenCount'' ''cache_read_input_tokens''
           @ if_present raw ''thoughtsTokenCount'' ''reasoning_tokens'')
       | _ \<Rightarrow> zero_usage)"
    by (simp add: extract_usage_def usage_of_def Let_def openai_like_def del: or_chain.simps append.simps cong: json.case_cong)
  have zero: "countable zero_usage" by code_simp
  have num: "num_value (JStr x) = None" "num_value (JInt 0) \<noteq> None" for x by simp_all
  show ?thesis
  proof (cases "usage_of d")
    case (JObj raw)
    then have u: "usage_of (clean default_sanitizer d) = JObj (clean default_sanitizer raw)"
      by (simp only: usage_clean [OF keys] clean_obj)
    show ?thesis
      unfolding e u json.case countable_def update_counts clean_count [OF counts(1)] clean_count [OF counts(2)]
      by (simp add: has_count_def JObj can_add_def num)
  qed (simp_all add: e usage_clean [OF keys] zero has_count_def)
qed

lemma gemini_body_usage:
  "fst (snd (read_response_body (sanitize z) GEMINI (Some (JObj d)) txt)) = extract_usage GEMINI (clean z d)"
  by (simp add: read_response_body_def clean_def Let_def split: sum.split)

subsection \<open>Requests with an explicit session identifier\<close>

definition explicit_id :: "string \<Rightarrow> flow \<Rightarrow> jdict \<Rightarrow> string option" where
  "explicit_id default_id flw payload =
     (let s = extract_session_id default_id (fl_headers flw) (Some payload) (fl_agent flw)
      in if s \<noteq> [] \<and> s \<noteq> default_id then Some s else None)"

text \<open>The sessions of the requests of a run, and those of the requests with the explicit identifier \<open>k\<close>.\<close>

fun resolve_all :: "proxy_env \<Rightarrow> (flow \<times> jdict \<times> active_turn) list \<Rightarrow> addon \<Rightarrow> string list" where
  "resolve_all env [] a = []"
| "resolve_all env ((flw, payload, turn) # rs) a =
     (let (sid, a') = resolve_session env flw payload turn a in sid # resolve_all env rs a')"

definition under_id :: "string \<Rightarrow> string \<Rightarrow> flow \<times> jdict \<times> active_turn \<Rightarrow> bool" where
  "under_id default_id k = (\<lambda>(flw, payload, turn). explicit_id default_id flw payload = Some k)"

definition ids_under :: "string \<Rightarrow> string \<Rightarrow> (flow \<times> jdict \<times> active_turn) list \<Rightarrow> string list \<Rightarrow> string list" where
  "ids_under default_id k rs ids = map snd (filter (\<lambda>(r, _). under_id default_id k r) (zip rs ids))"

definition messages_under :: "string \<Rightarrow> string \<Rightarrow> (flow \<times> jdict \<times> active_turn) list \<Rightarrow> jdict list list" where
  "messages_under default_id k rs = map (\<lambda>(_, payload, _). conv_messages payload) (filter (under_id default_id k) rs)"

lemma resolve_step:
  assumes "resolve_session env flw payload turn a = (sid, b)"
  shows "ad_default_session_id b = ad_default_session_id a \<and>
    (case explicit_id (ad_default_session_id a) flw payload of
       Some k \<Rightarrow> conv_step k k (conv_messages payload) (ad_sids a) = (sid, ad_sids b)
     | None \<Rightarrow> ad_sids b = ad_sids a)"
  using assms
  by (auto simp: resolve_session_def explicit_id_def flow_session_id_def Let_def split: prod.splits option.splits if_splits)

lemma resolved_ids:
  assumes "conv_inv k k past n (ad_sids a)" "conv_inv k k past n cv" "dflt = ad_default_session_id a"
  shows "ids_under dflt k rs (resolve_all env rs a) = conv_run k k (messages_under dflt k rs) cv"
  using assms
proof (induction rs arbitrary: a past n cv)
  case (Cons r rs)
  obtain flw payload turn where r: "r = (flw, payload, turn)" by (cases r) auto
  obtain sid b where b: "resolve_session env flw payload turn a = (sid, b)" by fastforce
  note step = resolve_step [OF b, folded Cons.prems(3)]
  have d: "dflt = ad_default_session_id b" using step by simp
  show ?case
  proof (cases "explicit_id dflt flw payload = Some k")
    case True
    with step have c: "conv_step k k (conv_messages payload) (ad_sids a) = (sid, ad_sids b)" by simp
    obtain sid' cv' where c': "conv_step k k (conv_messages payload) cv = (sid', cv')" by fastforce
    note s = conv_step_spec [OF Cons.prems(1) c] and s' = conv_step_spec [OF Cons.prems(2) c']
    from Cons.IH [OF s(2) s'(2) d] True s(1) s'(1) b c' show ?thesis
      by (simp add: r ids_under_def messages_under_def under_id_def)
  next
    case False
    have "conv_inv k k past n (ad_sids b)"
    proof (cases "explicit_id dflt flw payload")
      case (Some k')
      with False step have "k' \<noteq> k" "ad_sids b = snd (conv_step k' k' (conv_messages payload) (ad_sids a))" by auto
      then show ?thesis using conv_step_other [OF Cons.prems(1)] by simp
    qed (use step Cons.prems(1) in simp)
    from Cons.IH [OF this Cons.prems(2) d] False b show ?thesis
      by (simp add: r ids_under_def messages_under_def under_id_def)
  qed
qed (simp add: ids_under_def messages_under_def)

subsection \<open>Intercepted flows\<close>

lemma identify_keeps:
  "identify env p hs a = (agent, b) \<Longrightarrow>
     ad_sanitizer b = ad_sanitizer a \<and> ad_buffer b = ad_buffer a \<and> ad_chunk_queue b = ad_chunk_queue a"
  by (auto simp: identify_def split: prod.splits)

lemma tracker_get_register: "tracker_get (register_turn w t k) (at_correlation_id t) = Some t"
  by (simp add: tracker_get_def register_turn_def set_turn_def)

lemma new_turn_fields [simp]:
  "at_correlation_id (new_turn env a flw cid sid prov path agent) = cid"
  "at_provider (new_turn env a flw cid sid prov path agent) = prov"
  "at_accumulator (new_turn env a flw cid sid prov path agent) = None"
  by (simp_all add: new_turn_def)

lemmas tracker_get_new = tracker_get_register [of _ "new_turn env a flw cid sid prov path agent", simplified]
  for env a flw cid sid prov path agent

text \<open>What \<open>intercept\<close> leaves for the later hooks: a registered turn and an otherwise unchanged flow.\<close>

lemma intercept_found:
  obtains turn where
    "intercepted_turn (intercept env path prov (a, flw)) = Some (flow_correlation_id env flw, turn)"
    "at_provider turn = prov" "at_accumulator turn = None"
proof -
  obtain agent a1 where i: "identify env (case fl_peer flw of Some p \<Rightarrow> p | None \<Rightarrow> (''127.0.0.1'', 0))
      (Some (fl_headers flw)) a = (agent, a1)" by fastforce
  show thesis
    by (rule that, simp add: intercept_def i intercepted_turn_def Let_def tracker_get_new, simp_all)
qed

lemma intercept_keeps:
  "ad_sanitizer (fst (intercept env path prov (a, flw))) = ad_sanitizer a"
  "ad_chunk_queue (fst (intercept env path prov (a, flw))) = ad_chunk_queue a"
  "fl_response (snd (intercept env path prov (a, flw))) = fl_response flw"
  "fl_stream (snd (intercept env path prov (a, flw))) = fl_stream flw"
  "fl_content (snd (intercept env path prov (a, flw))) = fl_content flw"
proof -
  obtain agent a1 where i: "identify env (case fl_peer flw of Some p \<Rightarrow> p | None \<Rightarrow> (''127.0.0.1'', 0))
      (Some (fl_headers flw)) a = (agent, a1)" by fastforce
  show "ad_sanitizer (fst (intercept env path prov (a, flw))) = ad_sanitizer a"
    "ad_chunk_queue (fst (intercept env path prov (a, flw))) = ad_chunk_queue a"
    "fl_response (snd (intercept env path prov (a, flw))) = fl_response flw"
    "fl_stream (snd (intercept env path prov (a, flw))) = fl_stream flw"
    "fl_content (snd (intercept env path prov (a, flw))) = fl_content flw"
    using identify_keeps [OF i] by (simp_all add: intercept_def i Let_def note_agent_def associate_def)
qed

subsection \<open>A sample proxy\<close>

definition env0 :: proxy_env where
  "env0 = \<lparr>en_wall = 1, en_mono = 1, en_uuid = ''0123456789abcdef'', en_proxy_port = None, en_target = None,
     en_os = \<lparr>os_mypid = 1, os_lsof_port = (\<lambda>_. None), os_cmdline_file = (\<lambda>_. None),
       os_ps_args = (\<lambda>_. None), os_cwd_link = (\<lambda>_. None), os_lsof_cwd = (\<lambda>_. None), os_tcp_lines = None,
       os_procs = [], os_ps_all = None\<rparr>,
     en_header = (\<lambda>hs k. map_of hs k), en_set_header = (\<lambda>k v hs. AList.update k v hs),
     en_loads = (\<lambda>_. Some (JObj [(''usageMetadata'', JObj [(''promptTokenCount'', JInt 7)])])),
     en_dumps = (\<lambda>_. []), en_ucd = (\<lambda>_. NoDigit),
     en_codec = \<lparr>jc_loads = (\<lambda>_. None), jc_raw_decode = (\<lambda>_. None), jc_dumps = (\<lambda>_. [])\<rparr>\<rparr>"

definition peer0 :: peer where
  "peer0 = (''127.0.0.1'', 50000)"

definition flow0 :: flow where
  "flow0 = \<lparr>fl_id = ''f'', fl_host = ''api.anthropic.com'', fl_path = ''/v1/messages'', fl_port = Some 443,
     fl_method = ''POST'', fl_scheme = ''https'', fl_headers = [(''Cookie'', ''x'')], fl_content = [0],
     fl_text = [], fl_peer = Some peer0, fl_address = None, fl_intercepted = False, fl_cid = None,
     fl_agent = None,
     fl_response = Some \<lparr>hr_status = 200, hr_headers = [], hr_content = [0], hr_text = []\<rparr>,
     fl_stream = Unset, fl_error = None\<rparr>"

definition addon0 :: addon where
  "addon0 = new_addon \<lparr>rb_capacity = 1, rb_queue = [], rb_dropped = 0\<rparr> None None"

lemma requestheaders0:
  "snd (requestheaders env0 (addon0, flow0)) = intercept env0 ''/v1/messages'' ANTHROPIC (addon0, flow0)"
proof -
  have "proxy_port env0 = Inr 8080" by code_simp
  moreover have "match_provider ''api.anthropic.com'' ''/v1/messages'' (Some 443) = Inr (True, ANTHROPIC)"
    by code_simp
  then have "route_flow env0 flow0 g = Inr (True, ANTHROPIC)" for g
    by (simp add: route_flow_def flow0_def env0_def nonempty_def)
  moreover have "\<not> is_gateway flow0 8080" by code_simp
  moreover have "nonempty (en_target env0) = None" "fl_path flow0 = ''/v1/messages''"
    by (simp_all add: nonempty_def env0_def flow0_def)
  ultimately show ?thesis by (simp add: requestheaders_def swallow_state op_defs proxy_port_def [symmetric] Let_def)
qed

lemma intercept0:
  fixes b
  defines "b \<equiv> fst (intercept env0 ''/v1/messages'' ANTHROPIC (addon0, flow0))"
  shows "ad_client_session b = [(peer0, ''sess_default'')]" "ad_session_clients b = [(''sess_default'', [peer0])]"
    "ad_buffer b = \<lparr>rb_capacity = 1, rb_queue = [], rb_dropped = 0\<rparr>"
proof -
  have i: "identify env0 peer0 (Some (fl_headers flow0)) addon0
      = (unknown_agent, addon0\<lparr>ad_detector := \<lparr>dt_cache_ttl = 5, dt_port_cache = [(peer0, (1, None))]\<rparr>\<rparr>)"
    by code_simp
  have s: "flow_session_id (addon0\<lparr>ad_detector := d\<rparr>) flow0 None = ''sess_default''" for d
    by code_simp
  have "fl_peer flow0 = Some peer0" "0 < snd peer0" "\<not> ai_is_known unknown_agent"
     "ad_client_session addon0 = []" "ad_session_clients addon0 = []"
     "ad_buffer addon0 = \<lparr>rb_capacity = 1, rb_queue = [], rb_dropped = 0\<rparr>"
    by (simp_all add: flow0_def peer0_def unknown_agent_def addon0_def new_addon_def)
  with i s show "ad_client_session b = [(peer0, ''sess_default'')]"
      "ad_session_clients b = [(''sess_default'', [peer0])]" "ad_buffer b = \<lparr>rb_capacity = 1, rb_queue = [], rb_dropped = 0\<rparr>"
    by (simp_all add: b_def intercept_def Let_def note_agent_def associate_def add_peer_def dict_get_def)
qed

lemma disconnect0:
  "ad_buffer (client_disconnected env0 (Some peer0) (addon_run [OnRequestHeaders env0 flow0] addon0))
     \<noteq> ad_buffer (addon_run [OnRequestHeaders env0 flow0] addon0)"
  using intercept0
  by (simp add: addon_run_def after_hook_def requestheaders0 client_disconnected_def dict_get_def
     emit_envelope_def push_def deque_append_def)

end
