(* ===== verification/Matrix.thy ===== *)
theory Matrix
  imports PyValue "HOL-Library.Multiset" "HOL-Library.List_Lexorder"
begin

text \<open>
  \<open>scripts/ci/resolve_matrix.py\<close>: the versions of the agent command line tools the test matrix
  covers. What the npm registry answers is an argument (the empty list when the query fails).
\<close>

record tool_config =
  tc_package :: string
  tc_installer_type :: string
  tc_registry :: string
  tc_binary :: string
  tc_command_template :: string
  tc_version_filter :: "string \<Rightarrow> bool"

text \<open>\<open>not re.search(r"[a-zA-Z-]", v)\<close>.\<close>

definition is_alpha_or_dash :: "char \<Rightarrow> bool" where
  "is_alpha_or_dash c =
     (let n = (of_char c :: nat) in 97 \<le> n \<and> n \<le> 122 \<or> 65 \<le> n \<and> n \<le> 90 \<or> n = 45)"

definition release_only :: "string \<Rightarrow> bool" where
  "release_only v = (\<not> list_ex is_alpha_or_dash v)"

definition TOOL_CONFIGS :: "(string, tool_config) dict" where
  "TOOL_CONFIGS =
     [(''claude'', \<lparr>tc_package = ''@anthropic-ai/claude-code'', tc_installer_type = ''claude_curl'',
         tc_registry = ''curl'', tc_binary = ''claude'', tc_command_template = ''claude -p '' @ [CHR 0x27] @ ''ping'' @ [CHR 0x27],
         tc_version_filter = release_only\<rparr>),
      (''opencode-v2'', \<lparr>tc_package = ''opencode-v2'', tc_installer_type = ''opencode_v2_curl'',
         tc_registry = ''curl'', tc_binary = ''opencode'', tc_command_template = ''opencode --version'',
         tc_version_filter = (\<lambda>_. True)\<rparr>),
      (''opencode-v1'', \<lparr>tc_package = ''@opencode/cli'', tc_installer_type = ''npm_opencode'',
         tc_registry = ''npm'', tc_binary = ''opencode'', tc_command_template = ''opencode --version'',
         tc_version_filter = release_only\<rparr>),
      (''pi'', \<lparr>tc_package = ''@earendil-works/pi-coding-agent'', tc_installer_type = ''npm_pi'',
         tc_registry = ''npm'', tc_binary = ''pi'', tc_command_template = ''pi --version'',
         tc_version_filter = release_only\<rparr>),
      (''agy'', \<lparr>tc_package = ''agy'', tc_installer_type = ''agy_binary'', tc_registry = ''system'',
         tc_binary = ''agy'', tc_command_template = ''agy --version'', tc_version_filter = (\<lambda>_. True)\<rparr>)]"

text \<open>\<open>re.findall(r"\d+", v)\<close>: the maximal runs of digits, as numbers.\<close>

definition is_ascii_digit :: "char \<Rightarrow> bool" where
  "is_ascii_digit c = (let n = (of_char c :: nat) in 48 \<le> n \<and> n \<le> 57)"

function digit_runs :: "string \<Rightarrow> string list" where
  "digit_runs s =
     (case dropWhile (\<lambda>c. \<not> is_ascii_digit c) s of
        [] \<Rightarrow> []
      | c # cs \<Rightarrow> takeWhile is_ascii_digit (c # cs) # digit_runs (dropWhile is_ascii_digit (c # cs)))"
  by auto

lemma length_dropWhile_Cons:
  assumes "dropWhile P s = c # cs"
  shows "length (dropWhile (\<lambda>x. \<not> P x) (c # cs)) < length s"
proof -
  have "\<not> P c" using assms hd_dropWhile [of P s] by simp
  then have "length (dropWhile (\<lambda>x. \<not> P x) (c # cs)) \<le> length cs" by (simp add: length_dropWhile_le)
  moreover have "length (c # cs) \<le> length s" using length_dropWhile_le [of P s] assms by simp
  ultimately show ?thesis by simp
qed

termination digit_runs
  using length_dropWhile_Cons [where P = "\<lambda>c. \<not> is_ascii_digit c"]
  by (relation "measure length") simp_all

declare digit_runs.simps [simp del]

definition digits_value :: "string \<Rightarrow> int" where
  "digits_value ds = foldl (\<lambda>n c. 10 * n + (of_char c - 48)) 0 ds"

definition parse_semver :: "string \<Rightarrow> int list" where
  "parse_semver v = map digits_value (digit_runs v)"

text \<open>\<open>sorted(valid, key=_parse_semver)[-depth:][::-1]\<close>.\<close>

definition selected_versions :: "tool_config \<Rightarrow> int \<Rightarrow> string list \<Rightarrow> string list" where
  "selected_versions cfg depth published =
     (if tc_installer_type cfg = ''opencode_v2_curl'' \<or> tc_package cfg = ''agy'' then [''latest'']
      else
        (let valid = sort_key parse_semver (filter (tc_version_filter cfg) published)
         in if valid = [] then [''latest''] else rev (slice_from (- depth) valid)))"

definition tier_label :: "nat \<Rightarrow> string" where
  "tier_label i = (if i = 0 then ''latest'' else ''N-'' @ show_nat i)"

definition install_cmd :: "tool_config \<Rightarrow> nat \<Rightarrow> string \<Rightarrow> string" where
  "install_cmd cfg i ver =
     (let kind = tc_installer_type cfg
      in if kind = ''claude_curl'' then
           (if ver = ''latest'' \<or> i = 0 then ''curl -fsSL https://claude.ai/install.sh | bash''
            else ''curl -fsSL https://claude.ai/install.sh | bash -s -- '' @ ver)
         else if kind = ''opencode_v2_curl'' then ''curl -fsSL https://opencode.ai/v2/install | bash''
         else if kind = ''npm_opencode'' then ''npm install -g '' @ tc_package cfg @ ''@'' @ ver
         else if kind = ''npm_pi'' then ''npm install -g --ignore-scripts '' @ tc_package cfg @ ''@'' @ ver
         else ''agy --version'')"

definition matrix_entry :: "string \<Rightarrow> tool_config \<Rightarrow> nat \<Rightarrow> string \<Rightarrow> jdict" where
  "matrix_entry tool cfg i ver =
     [(''tool'', JStr tool), (''package'', JStr (tc_package cfg)), (''installer_type'', JStr (tc_installer_type cfg)),
      (''registry'', JStr (tc_registry cfg)), (''version'', JStr ver), (''tier'', JStr (tier_label i)),
      (''install_cmd'', JStr (install_cmd cfg i ver)), (''binary'', JStr (tc_binary cfg)),
      (''command_template'', JStr (tc_command_template cfg))]"

definition resolve_tool_versions :: "(string \<Rightarrow> string list) \<Rightarrow> string \<Rightarrow> int \<Rightarrow> jdict list" where
  "resolve_tool_versions npm tool depth =
     (case map_of TOOL_CONFIGS tool of
        None \<Rightarrow> []
      | Some cfg \<Rightarrow>
          map (\<lambda>(i, ver). matrix_entry tool cfg i ver)
            (enumerate 0 (selected_versions cfg depth (npm (tc_package cfg)))))"

text \<open>The matrix for the tools of the command line, \<open>s.split(",")\<close> stripped and without empty names.\<close>

fun split_commas :: "string \<Rightarrow> string \<Rightarrow> string list" where
  "split_commas acc [] = [acc]"
| "split_commas acc (c # s) = (if c = CHR '','' then acc # split_commas [] s else split_commas (acc @ [c]) s)"

definition matrix :: "(string \<Rightarrow> string list) \<Rightarrow> string \<Rightarrow> bool \<Rightarrow> int \<Rightarrow> jdict" where
  "matrix npm tools nightly_only depth =
     [(''include'', JArr (map JObj (concat (map (\<lambda>t. resolve_tool_versions npm t (if nightly_only then 2 else depth))
        (filter (\<lambda>t. t \<noteq> []) (map str_strip (split_commas [] tools)))))))]"

subsection \<open>The newest versions, newest first\<close>

lemma selected_newest:
  assumes "filter (tc_version_filter cfg) published \<noteq> []" "tc_installer_type cfg \<noteq> ''opencode_v2_curl''"
    "tc_package cfg \<noteq> ''agy''" "0 < depth"
  defines "sel \<equiv> selected_versions cfg depth published"
  shows "set sel \<subseteq> set (filter (tc_version_filter cfg) published)"
    "length sel = min (nat depth) (length (filter (tc_version_filter cfg) published))"
    "sorted (map parse_semver (rev sel))"
    "\<And>v w. v \<in># mset (filter (tc_version_filter cfg) published) - mset sel \<Longrightarrow> w \<in> set sel \<Longrightarrow> parse_semver v \<le> parse_semver w"
proof -
  let ?valid = "sort_key parse_semver (filter (tc_version_filter cfg) published)"
  let ?k = "length ?valid - nat depth"
  have ne: "?valid \<noteq> []" using assms(1) by (metis length_0_conv length_sort)
  have sel: "sel = rev (drop ?k ?valid)"
    using assms(2-4) ne by (simp add: sel_def selected_versions_def Let_def slice_from_def nat_diff_distrib')
  show "set sel \<subseteq> set (filter (tc_version_filter cfg) published)"
    using set_drop_subset [of ?k ?valid] by (simp add: sel)
  show "length sel = min (nat depth) (length (filter (tc_version_filter cfg) published))"
    by (simp add: sel)
  have srt: "sorted (map parse_semver ?valid)" by simp
  then show "sorted (map parse_semver (rev sel))" unfolding sel by (simp add: drop_map [symmetric] sorted_wrt_drop)
  fix v w assume v: "v \<in># mset (filter (tc_version_filter cfg) published) - mset sel" and w: "w \<in> set sel"
  have "mset ?valid = mset (take ?k ?valid) + mset (drop ?k ?valid)" by (metis append_take_drop_id mset_append)
  then have "mset (filter (tc_version_filter cfg) published) - mset sel = mset (take ?k ?valid)" by (simp add: sel)
  then have "v \<in> set (take ?k ?valid)" using v by (metis set_mset_mset)
  moreover have "sorted (map parse_semver (take ?k ?valid @ drop ?k ?valid))" using srt by (simp only: append_take_drop_id)
  then have "\<forall>x\<in>parse_semver ` set (take ?k ?valid). \<forall>y\<in>parse_semver ` set (drop ?k ?valid). x \<le> y"
    unfolding map_append sorted_append set_map by blast
  ultimately show "parse_semver v \<le> parse_semver w" using w unfolding sel by simp
qed

lemma selected_split:
  assumes "filter (tc_version_filter cfg) published \<noteq> []" "tc_installer_type cfg \<noteq> ''opencode_v2_curl''"
    "tc_package cfg \<noteq> ''agy''" "0 < depth"
  shows "\<exists>older. mset older + mset (selected_versions cfg depth published) = mset (filter (tc_version_filter cfg) published)
    \<and> sorted (map parse_semver (older @ rev (selected_versions cfg depth published)))
    \<and> length (selected_versions cfg depth published) = min (nat depth) (length (filter (tc_version_filter cfg) published))"
proof -
  let ?valid = "sort_key parse_semver (filter (tc_version_filter cfg) published)"
  let ?k = "length ?valid - nat depth"
  have ne: "?valid \<noteq> []" using assms(1) by (metis length_0_conv length_sort)
  have sel: "selected_versions cfg depth published = rev (drop ?k ?valid)"
    using assms(2-4) ne by (simp add: selected_versions_def Let_def slice_from_def nat_diff_distrib')
  have "mset (take ?k ?valid) + mset (rev (drop ?k ?valid)) = mset (take ?k ?valid @ drop ?k ?valid)"
    by (simp only: mset_append mset_rev)
  also have "\<dots> = mset (filter (tc_version_filter cfg) published)" by (simp only: append_take_drop_id mset_sort)
  finally have m: "mset (take ?k ?valid) + mset (rev (drop ?k ?valid)) = mset (filter (tc_version_filter cfg) published)" .
  have s: "sorted (map parse_semver (take ?k ?valid @ rev (rev (drop ?k ?valid))))"
    by (simp only: rev_rev_ident append_take_drop_id sorted_sort_key)
  have l: "length (rev (drop ?k ?valid)) = min (nat depth) (length (filter (tc_version_filter cfg) published))" by simp
  show ?thesis unfolding sel using m s l by blast
qed

end
