(* ===== verification/Spec2Isabelle.thy ===== *)
theory Spec2Isabelle
  imports SampleRuns UdsClient SessionStore AddonProps Normalizers WebApi TuiWidgets Matrix LogConfig
begin

text \<open>
  Verification library for ctxins, the inspector of the context that coding agents send to language
  models.

  \<^bold>\<open>The program.\<close> An add-on of the mitmproxy proxy (\<open>src/interceptor\<close>) recognises the requests of
  agents to model providers, follows the streamed answers, redacts secrets and sends wire envelopes
  over a Unix socket, length-prefixed, through a bounded buffer. The engine (\<open>src/core\<close>,
  \<open>src/cli.py\<close>) reads the frames, normalises each turn to a provider-independent form, stores it
  in its session, compares it with the turn before, looks for pollution of the context with a suite of
  rules, and publishes events. The terminal interface and the web dashboard (\<open>src/presentation\<close>)
  subscribe to the events and read the store; exporters write reports.

  \<^bold>\<open>Theories and sources\<close>, bottom up.
  \<^item> \<open>Prelude\<close>, \<open>PyFloat\<close>, \<open>PyValue\<close>, \<open>Effects\<close>, \<open>Difflib\<close>, \<open>Utf8\<close>, \<open>JsonText\<close>: the parts of Python
    the sources use. Dictionaries are association lists in insertion order; floats are binary64, as
    rationals rounded by \<open>fl\<close> after each operation; \<open>Any\<close> is the datatype \<open>json\<close>; an exception is
    the left side of \<open>res\<close>; a method that may raise half-way is an \<open>op\<close>, which returns the state it
    leaves besides its result. \<open>NotModelled\<close> is not a Python exception: it marks a value of a
    dynamic type the model does not follow, and no handler of the program catches it; a frame whose
    envelope has such a field is still dispatched, as \<open>Unfollowed\<close>.
  \<^item> \<open>Streams\<close>: the interfaces of incremental consumers (\<open>chunk_machine\<close>, \<open>scanner\<close>,
    \<open>chunk_pipeline\<close>), where a chunk boundary is invisible. \<open>Framing\<close> (\<open>core/server/framer.py\<close>,
    \<open>uds_server.py\<close>, \<open>interceptor/egress/framing.py\<close>), \<open>Sse\<close>
    (\<open>interceptor/stream/sse_parser.py\<close>) and the accumulators interpret them.
  \<^item> \<open>Schema\<close>: \<open>schema/ast.py\<close> and \<open>schema/wire.py\<close>; records are the dataclasses, with their
    conversions to and from dictionaries.
  \<^item> \<open>Diff\<close>, \<open>TurnGraph\<close>: \<open>core/graph/diff.py\<close> and \<open>turn_tree.py\<close>. \<open>delta_engine\<close> is the contract of
    a comparison, which \<open>compute_delta\<close> fulfils; \<open>block_status\<close> is its specification.
  \<^item> \<open>Pricing\<close>, \<open>HeuristicBase\<close>, \<open>ContextRules\<close>, \<open>CacheRules\<close>, \<open>Analyzer\<close>: \<open>core/analyzer\<close>, the
    catalogue and the cost model, the seven rules, each an interpretation of \<open>heuristic\<close>, the score
    and the summary.
  \<^item> \<open>SessionStore\<close>: \<open>core/store/session_store.py\<close>; \<open>Jsonc\<close> and \<open>Markdown\<close>: the two exporters.
  \<^item> \<open>Hashing\<close>, \<open>SubBlocks\<close>, \<open>NormBase\<close>, \<open>NormAnthropic\<close>, \<open>NormOpenAi\<close>, \<open>NormGemini\<close>,
    \<open>Normalizers\<close>: \<open>core/graph/hasher.py\<close>, \<open>core/ast/sub_blocks.py\<close> and \<open>core/ast/normalizers\<close>.
  \<^item> \<open>AccBase\<close>, \<open>AnthropicAcc\<close>, \<open>OpenAiAcc\<close>, \<open>GeminiAcc\<close>, \<open>Accumulators\<close>, \<open>Tap\<close>:
    \<open>interceptor/stream\<close>; \<open>Router\<close> and \<open>Sanitizer\<close>: \<open>interceptor/filter\<close>; \<open>Tracker\<close>:
    \<open>interceptor/correlation\<close>; \<open>RingBuffer\<close> and \<open>UdsClient\<close>: \<open>interceptor/egress\<close>; \<open>Detect\<close>:
    \<open>interceptor/detection\<close>.
  \<^item> \<open>Payloads\<close>, \<open>Conversation\<close>, \<open>Addon\<close>, \<open>AddonProps\<close>: \<open>interceptor/addon.py\<close>. Every hook is one
    definition, composed from the components above.
  \<^item> \<open>Pipeline\<close>, \<open>PipelineProps\<close>: \<open>CorePipelineBridge\<close> of \<open>cli.py\<close>, from envelopes to store and
    events; \<open>Cli\<close>: what else \<open>cli.py\<close> computes; \<open>LogConfig\<close>: \<open>core/logging_config.py\<close>.
  \<^item> \<open>Broadcast\<close>: \<open>presentation/events.py\<close>, \<open>broadcaster.py\<close> and \<open>web/ws.py\<close>; \<open>TurnView\<close> and \<open>WebApi\<close>:
    \<open>web/turn_serializer.py\<close> and \<open>web/api.py\<close>.
  \<^item> \<open>TuiState\<close>, \<open>TuiViews\<close>, \<open>TuiProps\<close>: \<open>presentation/tui/state.py\<close>; \<open>TuiApp\<close>: \<open>tui/app.py\<close>;
    \<open>TuiWidgets\<close>: what the widgets compute.
  \<^item> \<open>Matrix\<close>: \<open>scripts/ci/resolve_matrix.py\<close>. \<open>Samples\<close> and \<open>SampleRuns\<close> hold the concrete inputs
    of the witnesses.

  Components that react to inputs one at a time (the proxy's connection tables, the egress wire, the
  hub of the dashboard, the pipeline, the terminal state) interpret \<open>invariant_machine\<close>: each step
  keeps the invariant, and any sequence does.

  \<^bold>\<open>What the lemmas show.\<close>
  \<^item> Transport: frames and events do not depend on how the bytes are cut; the bytes of all
    connections, those broken in the middle of a frame included, make the server dispatch what the
    client delivered, in order and once; every payload is delivered, queued, dropped or given up.
  \<^item> Capture: only provider traffic is captured, flows of others pass untouched, secrets are redacted,
    each registered turn is reported at most once as failed, the end of a session is announced
    with its last connection, and streamed answers are reassembled in order.
  \<^item> Normalisation: every block carries the hash and the estimate of its own content; the
    decomposition counts nothing twice.
  \<^item> Analysis: the delta partitions the blocks; lineage counts the unbroken streak; violations refer to
    blocks of their turn; the score lies between 0 and 100.
  \<^item> Store and pipeline: the store invariant holds in every reachable state, also when the pipeline
    drives it with any envelopes; the turns of a session are numbered by their position, unless its
    name is a placeholder that became an alias or no canonical one; a completed turn is stored once
    and published as stored, or leaves no trace.
  \<^item> Interfaces: the dashboard's views of a change agree; a browser is sent no foreign, repeated or
    reordered event; the terminal shows what the store holds, keeps its timeline sorted when the
    stores it loads are, and its own computation of the changes between turns agrees with the
    engine's.
  \<^item> Errors: some properties state what the code loses, for instance the blocks of a live turn in
    the terminal interface, or the turn of a whole Gemini response with one token count.

  \<^bold>\<open>Parameters.\<close> What is not in the sources is an argument: the JSON decoder and encoder
  (\<open>loads\<close>, \<open>dumps\<close>, \<open>json_codec\<close>), the digits of Unicode (\<open>ucd\<close>), the clocks, \<open>uuid\<close>, the view of
  the operating system (\<open>os_view\<close>), which processes and connections are alive (\<open>alive\<close>), the header
  container of the proxy, how many bytes a socket takes, the npm registry (\<open>npm\<close>), whether a port can be
  bound or a file opened (\<open>can_bind\<close>, \<open>can_open\<close>). Nothing is assumed of them unless a statement
  says so. A method that holds a lock, and a piece of a coroutine between two awaits, is one step;
  interleavings are sequences of such steps.

  \<^bold>\<open>Bounds.\<close> There is no fuel: every loop is structural or terminates by a measure that is proved, mostly
  the length of the text that is left. The comment scanner is the loop of the code with
  \<open>while_option\<close>, and it is proved to end. Python's integers are unbounded and are \<open>int\<close>; bytes, the
  header of a frame and the words of SHA-256 keep their width.

  \<^bold>\<open>Not modelled.\<close> Parsing arguments (\<open>argparse\<close>), start and stop of processes, servers and the event loop in \<open>cli.py\<close>,
  \<open>uds_server.py\<close> and \<open>web/server.py\<close>; composing, styling and refreshing widgets in
  \<open>presentation/tui\<close>; writing files and log lines; the \<open>__init__\<close> files, which re-export names. They are
  calls into libraries with no computation of their own. Text is Latin-1 where the sources only
  copy it, and code points where they look at it. Payloads whose dynamic types leave the annotated
  ones are followed to the exception they raise where the code reads them, and are
  \<open>NotModelled\<close> otherwise.
\<close>

section \<open>Properties\<close>


text \<open>
  C1. Pipeline: in step mode every readable turn is stored once and reported as it is stored; an unreadable one leaves no trace. A field of a type outside the model is a separate outcome.
\<close>

theorem completed_turn_is_published:
  assumes "we_event_type e = TURN_COMPLETED" "mode = str_lower (if g = [] then ''step'' else g)" "mode \<noteq> ''human''"
  shows "let b = pipe_run (new_bridge hs None bc g) evs
    in case completed_by now e (br_store b) of
        Inl err \<Rightarrow> snd (handle_wire_envelope now e b) = b
      | Inr t \<Rightarrow> (case handle_wire_envelope now e b of
          (Inl err, _) \<Rightarrow> \<exists>k. err = NotModelled k
        | (Inr _, b') \<Rightarrow> \<exists>t'. counts_as (mark_steps ''step'' (JInt 1) t) t'
            \<and> kept_turns b' (ct_session_id t) = kept_turns b (ct_session_id t) @ [t']
            \<and> br_broadcaster b' = publish_all (turn_events mode (we_session_id e) t' (ct_violations t')
                 (calculate_summary (stored_turns (br_store b') (we_session_id e)))) (br_broadcaster b))"
proof -
  have mode: "br_granularity (pipe_run (new_bridge hs None bc g) evs) = mode"
    using assms(2) by (simp add: pipe_run_mode new_bridge_def Let_def)
  have run: "handle_wire_envelope now e b = turn_completed now e b" for b
    using assms(1) by (simp add: handle_wire_envelope_def)
  have "store_ok (br_store (pipe_run (new_bridge hs None bc g) evs))"
    using pipe_run_ok [OF new_bridge_ok, of False] by (simp add: bridge_ok_def)
  then show ?thesis
    unfolding Let_def run mode [symmetric] by (rule turn_completed_outcome) (simp add: mode assms(3))
qed

lemma completed_turn_is_published_witness:
  "let b = pipe_run (new_bridge [] None None ''step'') [Arrive 1 sample_envelope]
    in case completed_by 2 sample_envelope (br_store b) of
        Inl err \<Rightarrow> snd (handle_wire_envelope 2 sample_envelope b) = b
      | Inr t \<Rightarrow> (case handle_wire_envelope 2 sample_envelope b of
          (Inl err, _) \<Rightarrow> \<exists>k. err = NotModelled k
        | (Inr _, b') \<Rightarrow> \<exists>t'. counts_as (mark_steps ''step'' (JInt 1) t) t'
            \<and> kept_turns b' (ct_session_id t) = kept_turns b (ct_session_id t) @ [t']
            \<and> br_broadcaster b' = publish_all (turn_events ''step'' ''s'' t' (ct_violations t')
                 (calculate_summary (stored_turns (br_store b') ''s''))) (br_broadcaster b))"
proof -
  have e: "we_session_id sample_envelope = ''s''" "we_event_type sample_envelope = TURN_COMPLETED"
    by (simp_all add: sample_envelope_def)
  have "''step'' = str_lower (if ''step'' = [] then ''step'' else ''step'')" by code_simp
  from completed_turn_is_published [OF e(2) this, of "[]" None "[Arrive 1 sample_envelope]" 2] show ?thesis
    unfolding e(1) by simp
qed

text \<open>
  C2. TUI ledger: two independent computations of the changes between turns agree, for the first turn with the index asked for.
\<close>

theorem tui_ledger_is_the_delta:
  assumes "ts = stored_turns store sid" "i \<in> ct_turn_index ` set ts" "p = first_with i ts"
    and "p = 0 \<Longrightarrow> 0 \<le> ct_input_tokens (ts ! 0)"
  shows "\<exists>s' trs. load_turns_from_store store sid s = (Inr (), s') \<and> get_turn_delta (Some i) s' =
    Inr (ledger_entry i (compute_delta (if p = 0 then None else Some (ts ! (p - 1))) (ts ! p)) trs)"
proof -
  obtain s' where s': "load_turns_from_store store sid s = (Inr (), s')" "shows_session ts s'"
    using load_shows assms(1) by blast
  then have "list_all2 shows_turn ts (tu_turns s')" by (simp add: shows_session_def)
  from ledger_is_delta [OF this assms(2-4)] s'(1) show ?thesis by blast
qed

lemma tui_ledger_is_the_delta_witness:
  "\<exists>s' trs. load_turns_from_store sample_store ''s'' new_tui = (Inr (), s') \<and> get_turn_delta (Some 1) s' =
    Inr (ledger_entry 1 (compute_delta (Some turn0) turn1) trs)"
proof -
  have p: "1 = first_with 1 [turn0, turn1]" "1 \<in> ct_turn_index ` set [turn0, turn1]"
    by (simp_all add: first_with_def turn0_def turn1_def mk_turn_def)
  show ?thesis
    using tui_ledger_is_the_delta [OF sample_turns [symmetric] p(2,1), of new_tui] by simp
qed

text \<open>
  C3. Server connections: reassembly of frames does not depend on how the transport cuts the stream.
\<close>

theorem frames_survive_chunking:
  assumes "\<forall>p\<in>set ps. frame_fits mx p" "concat cs = server_codec.frames ps" "[] \<notin> set cs" "cs \<noteq> []"
  shows "handle_client loads mx [] cs = concat (map (dispatch_frame loads) ps)"
  by (rule handle_client_delivers [OF assms])

lemma frames_survive_chunking_witness:
  "handle_client (\<lambda>p. Some (JInt (int (length p)))) 10 [] [[0, 0], [0, 2, 7], [8, 0, 0, 0], [0]]
     = concat (map (dispatch_frame (\<lambda>p. Some (JInt (int (length p))))) [[7, 8], []])"
  by (rule frames_survive_chunking)
    (simp_all add: frame_fits_def server_codec.frames_def encode_frame_def pack_u32_def Let_def)

text \<open>
  C4. End to end: client and server agree, over all connections, through framing, partial writes, broken connections and arbitrary reads.
\<close>

theorem egress_reaches_server:
  assumes "new_ring c = Inr r" "e = egress_run evs (new_egress r)" "list_all (frame_fits mx) (pushes evs)"
    and "list_all2 (\<lambda>cs w. concat cs = w \<and> [] \<notin> set cs) css (eg_closed e @ [eg_wire e])"
  shows "concat (map (handle_client loads mx []) css) = concat (map (dispatch_frame loads) (eg_done e))
    \<and> subseq (eg_done e @ rb_queue (eg_buffer e)) (pushes evs)"
  using run_dispatch [OF assms(3) _ assms(2,4)] new_ring_wf [OF assms(1)] run_flow_ok [OF assms(1), of evs] assms(2)
  by (simp add: flow_ok_def flow_in_def)

lemma egress_reaches_server_witness:
  "concat (map (handle_client (\<lambda>p. Some (JInt (int (length p)))) 5 []) [[[0], [0]], [[0, 0], [0, 1, 7]]])
     = [Raw (JInt 1)]"
proof -
  let ?loads = "\<lambda>p :: bytes. Some (JInt (int (length p)))"
  let ?evs = "[Push [7], Start, Iterate True True [Sent 2, SendError] [], Iterate True True [Sent 3, WouldBlock False, Sent 2] []]"
  let ?r = "\<lparr>rb_capacity = 2, rb_queue = [], rb_dropped = 0\<rparr> :: bytes ring"
  have r: "new_ring 2 = Inr ?r" by (simp add: new_ring_def)
  have e: "eg_done (egress_run ?evs (new_egress ?r)) = [[7]]" "eg_wire (egress_run ?evs (new_egress ?r)) = [0, 0, 0, 1, 7]"
    "eg_closed (egress_run ?evs (new_egress ?r)) = [[0, 0]]"
    by (simp_all add: egress_run_def new_egress_def start_def egress_iteration_def connect_def disconnect_def push_def
        deque_append_def ship_def pop_def unpop_def egress_encode_frame_def MAX_PAYLOAD_SIZE_def pack_u32_def Let_def)
  have fits: "list_all (frame_fits 5) (pushes ?evs)" by (simp add: pushes_def frame_fits_def)
  have "list_all2 (\<lambda>cs w. concat cs = w \<and> [] \<notin> set cs) [[[0], [0]], [[0, 0], [0, 1, 7]]]
      (eg_closed (egress_run ?evs (new_egress ?r)) @ [eg_wire (egress_run ?evs (new_egress ?r))])"
    by (simp add: e)
  from egress_reaches_server [OF r refl fits this, of ?loads] show ?thesis
    unfolding e by (simp add: dispatch_frame_def decode_payload_def)
qed

text \<open>
  C5. Pipeline: over any sequence of events the store invariant holds and only placeholder names are aliases; with canonical session names the turns of every session that is no alias are numbered by their position.
\<close>

theorem pipeline_numbers_turns:
  "let s = br_store (pipe_run (new_bridge hs None bc g) evs)
   in store_ok s \<and> list_all scan_named (dict_keys (ss_aliases s))
     \<and> (list_all canonical_name evs \<and> sid \<notin> set (dict_keys (ss_aliases s)) \<longrightarrow>
          map ct_turn_index (stored_turns s sid) = map int [0..<length (stored_turns s sid)])"
proof -
  let ?b = "pipe_run (new_bridge hs None bc g) evs"
  have "bridge_ok False ?b" by (intro pipe_run_ok new_bridge_ok) simp
  moreover have "numbered_own (br_store ?b)" if "list_all canonical_name evs"
    using pipe_run_ok [OF new_bridge_ok, of True evs] that by (simp add: bridge_ok_def)
  ultimately show ?thesis
    using stored_direct [OF resolve_direct] by (simp add: Let_def bridge_ok_def numbered_own_def numbered_at_def direct_def)
qed

lemma pipeline_numbers_turns_witness:
  "let s = br_store (pipe_run (new_bridge [] None None ''step'') [Arrive 1 sample_envelope])
    in ''s'' \<notin> set (dict_keys (ss_aliases s)) \<and> map ct_turn_index (stored_turns s ''s'') = map int [0..<length (stored_turns s ''s'')]"
proof -
  let ?s = "br_store (pipe_run (new_bridge [] None None ''step'') [Arrive 1 sample_envelope])"
  note p = pipeline_numbers_turns [of "[]" None "''step''" "[Arrive 1 sample_envelope]" "''s''", unfolded Let_def]
  have "\<not> scan_named ''s''" by (simp add: scan_named_def)
  with p have "''s'' \<notin> set (dict_keys (ss_aliases ?s))" by (auto simp: list_all_iff)
  with p sample_names show ?thesis by (simp add: Let_def del: canonical_name.simps)
qed

text \<open>
  C6. Redaction on the wire: what the proxy announces about a request has no sensitive header value and, for a JSON object, no value under a sensitive key at any depth; a body that is not an object is announced unsanitised.
\<close>

theorem announced_requests_are_redacted:
  assumes "intercepted_turn (a, flw) = Some (cid, turn)"
  shows "\<exists>turn'. ad_buffer (after_hook (request env) a flw)
       = snd (push (envelope_to_bytes (en_dumps env) (initiated_envelope env (fl_agent flw) turn')) (ad_buffer a))
    \<and> at_correlation_id turn' = at_correlation_id turn
    \<and> hides (ad_sanitizer a) (at_sanitized_headers turn')
    \<and> (if fl_content flw = [] then at_request_payload turn' = []
       else (case en_loads env (fl_content flw) of
               Some (JObj d) \<Rightarrow> JObj (at_request_payload turn') = sanitize (ad_sanitizer a) (JObj d)
                 \<and> redacted (ad_sanitizer a) (JObj (at_request_payload turn'))
             | Some v \<Rightarrow> at_request_payload turn' = [(''_data'', v)]
             | None \<Rightarrow> at_request_payload turn' = [(''_raw'', JStr (fl_text flw))]))"
proof -
  obtain turn' b where t: "handle_request env flw cid turn a
        = emit_envelope env (initiated_envelope env (fl_agent flw) turn') b" "ad_buffer b = ad_buffer a"
      "at_correlation_id turn' = at_correlation_id turn"
      "at_request_payload turn' = read_request_body env (ad_sanitizer a) flw"
      "hides (ad_sanitizer a) (at_sanitized_headers turn')"
    using handle_request_emits by metis
  have "after_hook (request env) a flw = handle_request env flw cid turn a"
    using assms by (simp add: after_hook_def request_def op_modify_def)
  moreover have "JObj (as_dict (sanitize z (JObj d))) = sanitize z (JObj d)" for z d by (simp add: as_dict_def)
  ultimately show ?thesis
    using t sanitize_redacted
    by (intro exI [of _ turn']) (simp add: emit_envelope_def read_request_body_def split: option.split json.split del: sanitize.simps)
qed

lemma announced_requests_are_redacted_witness:
  "let (a, flw) = intercept env0 ''/v1/messages'' GEMINI (addon0, flow0)
   in \<exists>turn' :: active_turn. redacted default_sanitizer (JObj (at_request_payload turn')) \<and> at_request_payload turn' \<noteq> []"
proof -
  obtain a flw where i: "intercept env0 ''/v1/messages'' GEMINI (addon0, flow0) = (a, flw)" by fastforce
  obtain cid turn where t: "intercepted_turn (a, flw) = Some (cid, turn)"
    using intercept_found [of env0 "''/v1/messages''" GEMINI addon0 flow0] i by metis
  have c: "fl_content flw \<noteq> []" "ad_sanitizer a = default_sanitizer"
    using intercept_keeps [of env0 "''/v1/messages''" GEMINI addon0 flow0] i
    by (simp_all add: flow0_def addon0_def new_addon_def)
  obtain kv where l: "en_loads env0 (fl_content flw) = Some (JObj [kv])"
    by (simp add: env0_def)
  from announced_requests_are_redacted [OF t, of env0] c l obtain turn' :: active_turn where
    "JObj (at_request_payload turn') = sanitize default_sanitizer (JObj [kv])"
    "redacted default_sanitizer (JObj (at_request_payload turn'))" by auto
  then show ?thesis
    unfolding i prod.case Let_def by (cases kv) (auto intro!: exI [of _ turn'])
qed

text \<open>
  C7. End of sessions: after any events on a new addon, a disconnect that reaches the egress buffer announces the end of the session of that connection, and no other connection of that session is left.
\<close>

theorem session_end_is_last_connection:
  assumes "a = addon_run evs (new_addon buffer client sid)"
    and "ad_buffer (client_disconnected env p a) \<noteq> ad_buffer a"
  shows "\<exists>q s agent b. p = Some q \<and> map_of (ad_client_session a) q = Some s
    \<and> client_disconnected env p a = emit_envelope env (disconnected_envelope env q s agent) b
    \<and> (\<forall>r. map_of (ad_client_session (client_disconnected env p a)) r \<noteq> Some s)"
  using disconnect_announced [OF clients_ok_run [OF clients_ok_new] assms(2) [unfolded assms(1)]] assms(1) by blast

lemma session_end_is_last_connection_witness:
  "\<exists>q s agent b. client_disconnected env0 (Some peer0) (addon_run [OnRequestHeaders env0 flow0] addon0)
    = emit_envelope env0 (disconnected_envelope env0 q s agent) b"
  using session_end_is_last_connection [OF refl disconnect0 [unfolded addon0_def]] by (metis addon0_def)

text \<open>
  C8. Lineage: a block added by \<open>add_turn\<close> survives as many turns as its key was present with the same hash without a gap, and remembers the first turn that had its key.
\<close>

theorem block_lineage_is_streak:
  assumes "increasing (ts @ [t])"
    and "b \<in> set (all_blocks (fst (snd (add_turn (add_turns (new_graph sid) ts) t None))))"
  shows "cb_turns_survived b = streak (block_match_key b) (rev (ts @ [t]))
    \<and> cb_first_seen_turn b = ct_turn_index (hd (filter (has_key (block_match_key b)) (ts @ [t])))"
proof -
  have "increasing ts" using assms(1) by (simp add: increasing_snoc)
  then have "lineage_ok ts (g_lineage (add_turns (new_graph sid) ts))" by (rule graph_lineage_ok)
  with assms show ?thesis by (intro stamp_meaning) (simp_all add: add_turn_fields)
qed

lemma block_lineage_is_streak_witness:
  "let b = hd (all_blocks (fst (snd (add_turn (add_turns (new_graph None) [turn0]) turn1 None))))
   in cb_turns_survived b = streak (block_match_key b) (rev ([turn0] @ [turn1]))
      \<and> cb_first_seen_turn b = ct_turn_index (hd (filter (has_key (block_match_key b)) ([turn0] @ [turn1])))"
proof -
  have inc: "increasing ([turn0] @ [turn1])" by (simp add: increasing_def sample_defs)
  have ne: "all_blocks (fst (snd (add_turn (add_turns (new_graph None) [turn0]) turn1 None))) \<noteq> []"
    by code_simp
  show ?thesis
    unfolding Let_def by (rule block_lineage_is_streak [OF inc hd_in_set [OF ne]])
qed

text \<open>
  C9. Store: the invariant of all reachable states, and no operation fails.
\<close>

theorem store_invariant:
  assumes "store_reachable n g s" "0 < n"
  shows "store_ok s \<and> (\<exists>s'. store_step op s = Inr s' \<and> store_ok s')"
  using reachable_ok [OF assms] store_step_ok by blast

lemma store_invariant_witness: "store_ok (clear_store (new_store 2 ''step''))"
proof -
  have "store_reachable 2 ''step'' (clear_store (new_store 2 ''step''))"
    by (rule store_reachable.step [where op = Clear]) (simp_all add: store_reachable.init)
  then show ?thesis by (simp add: store_invariant)
qed

text \<open>
  C10. TUI start: what is shown is what is stored, for the session already chosen or else the first proper one of the store.
\<close>

theorem app_shows_the_store:
  assumes "sid = shown_session (list_sessions store) (tu_session_id s)"
  shows "case new_tui_app s (Some store) port url g of (r, a) \<Rightarrow>
    r = Inr () \<and> tu_session_id (ap_state a) = sid
    \<and> (sid \<noteq> [] \<longrightarrow> shows_session (stored_turns store sid) (ap_state a) \<and> ap_selected a = tu_selected_turn_index (ap_state a))
    \<and> set (tu_available_sessions (ap_state a)) = set (list_sessions store) \<union> set (tu_available_sessions s)
    \<and> list_all (\<lambda>i. map_of (tu_sessions_metadata (ap_state a)) i = Some (store_metadata store i)) (list_sessions store)"
  using app_start [OF assms, of port url g] by (auto simp: list_all_iff)

lemma app_shows_the_store_witness:
  "case new_tui_app new_tui (Some sample_store) 8080 None ''step'' of (r, a) \<Rightarrow>
    r = Inr () \<and> tu_session_id (ap_state a) = ''s'' \<and> shows_session (stored_turns sample_store ''s'') (ap_state a)"
proof -
  have "''s'' = shown_session (list_sessions sample_store) (tu_session_id new_tui)"
    by (simp add: sample_store_def new_store_def list_sessions_def dict_keys_def new_tui_def unset_def shown_session_def)
  from app_shows_the_store [OF this, of 8080 None "''step''"] show ?thesis by (simp split: prod.splits)
qed

text \<open>
  C11. TUI state: the timeline of every session stays sorted and without duplicates, provided the stores it loads from are.
\<close>

theorem tui_turns_stay_ordered:
  assumes "list_all input_ok xs"
  shows "\<exists>is. map (\<lambda>t. jget t ''turnIndex'') (dict_get (tu_sessions_turns (tui_run xs)) sid []) = map JInt is
    \<and> sorted_wrt (<) is"
  using ok_get [OF tui_run_ok [OF assms]] by (auto simp: good_turns_def)

lemma tui_turns_stay_ordered_witness:
  "\<exists>is. map (\<lambda>t. jget t ''turnIndex'') (dict_get (tu_sessions_turns
      (tui_run [Show sample_event, Switch None (Some sample_store), Show sample_event])) ''s'' []) = map JInt is
    \<and> sorted_wrt (<) is"
  by (rule tui_turns_stay_ordered) (simp add: sample_ordered)

text \<open>
  C12. Live turns: the blocks and the breakdown of the event do not reach the interface.
\<close>

theorem live_turn_has_no_blocks:
  assumes "list_all input_ok xs" "sid \<noteq> []"
    and "\<not> list_ex (has_index (ct_turn_index t)) (session_turns sid (tui_run xs))"
  shows "bare_turn sid (ct_turn_index t) (snd (apply_event (hd (turn_events g sid t vs sm)) (tui_run xs)))"
  using reported_turn_is_bare [OF tui_run_ok [OF assms(1)] assms(2,3)] by blast

lemma live_turn_has_no_blocks_witness:
  "bare_turn ''s'' 0 (snd (apply_event (hd (turn_events ''step'' ''s'' turn0 [] [])) (tui_run [])))"
proof -
  have "\<not> list_ex (has_index (ct_turn_index turn0)) (session_turns ''s'' (tui_run []))"
    by (simp add: tui_run_def session_turns_def new_tui_def tu_turns_def deref_def dict_get_def)
  from live_turn_has_no_blocks [OF _ _ this, of "''step''" "[]" "[]"] show ?thesis
    by (simp add: turn0_def mk_turn_def)
qed

text \<open>
  C13. Delta partition: the added, persisted and mutated ids of a delta are pairwise disjoint, without repetition, and together are the block ids of the current turn.
\<close>

theorem delta_accounts_for_every_block:
  "distinct (td_added_block_ids (compute_delta p c) @ td_persisted_block_ids (compute_delta p c)
     @ td_mutated_block_ids (compute_delta p c))
   \<and> set (td_added_block_ids (compute_delta p c) @ td_persisted_block_ids (compute_delta p c)
     @ td_mutated_block_ids (compute_delta p c)) = cb_block_id ` set (all_blocks c)"
  by (rule delta_partition)

text \<open>
  C14. WebSocket hub: one client is never sent a foreign, duplicated or reordered event.
\<close>

theorem browser_receives_its_events:
  assumes "hub_run alive pre (new_hub (Some bc) g sg, store) = (h, store')"
    and "map_of (hb_client_sessions h) ws = Some sid" "alive ws" "list_all (\<lambda>op. op_client op \<noteq> Some ws) ops"
  shows "\<exists>taken. sent_to ws (fst (hub_run alive ops (client_subscribes ws h, store')))
      = sent_to ws h @ map ui_event_to_dict (filter (wants sid) taken)
    \<and> subseq taken (hub_published ops)"
proof -
  from hub_run_ok [of "(new_hub (Some bc) g sg, store)" alive pre] have "queues_ok h"
    using assms(1) by (simp add: queues_ok_def new_hub_def)
  then show ?thesis using assms(2-4) by (intro browser_receives) (simp_all add: list_all_iff)
qed

lemma browser_receives_its_events_witness:
  "\<exists>taken. sent_to 7 (fst (hub_run (\<lambda>_. True) [Publishes sample_event, Forwards 7]
      (client_subscribes 7 (register_client 7 None (new_hub (Some (new_broadcaster 10)) ''step'' ''step'')), None)))
      = sent_to 7 (register_client 7 None (new_hub (Some (new_broadcaster 10)) ''step'' ''step''))
        @ map ui_event_to_dict (filter (wants None) taken)
    \<and> subseq taken (hub_published [Publishes sample_event, Forwards 7])"
  by (rule browser_receives_its_events [where pre = "[Connects 1 7 None]" and store = None and bc = "new_broadcaster 10"
        and g = "''step''" and sg = "''step''"])
    (simp_all add: hub_run_def client_connects_def register_client_def new_hub_def)

text \<open>
  C15. REST endpoints: the three ways to ask for a change give one answer.
\<close>

theorem turn_views_agree_on_deltas:
  assumes "get_session store sid = Some ts" "distinct (map ct_turn_index ts)" "Suc i < length ts"
  shows "\<exists>vs d. get_session_turns store sid = Ok_200 vs \<and> length vs = length ts
    \<and> get_session_turn store sid (ct_turn_index (ts ! Suc i))
        = Ok_200 (AList.update ''all_blocks'' (blocks_json (all_blocks (ts ! Suc i))) (vs ! Suc i))
    \<and> get_session_diff store sid (ct_turn_index (ts ! i)) (ct_turn_index (ts ! Suc i)) = Ok_200 d
    \<and> jget d ''delta'' = jget (vs ! Suc i) ''delta''"
  using assms by (rule turn_views_agree)

lemma turn_views_agree_on_deltas_witness:
  "\<exists>vs d. get_session_turns sample_store ''s'' = Ok_200 vs \<and> length vs = 2
    \<and> get_session_turn sample_store ''s'' 1 = Ok_200 (AList.update ''all_blocks'' (blocks_json (all_blocks turn1)) (vs ! 1))
    \<and> get_session_diff sample_store ''s'' 0 1 = Ok_200 d \<and> jget d ''delta'' = jget (vs ! 1) ''delta''"
proof -
  have ix: "ct_turn_index turn0 = 0" "ct_turn_index turn1 = 1" by (simp_all add: turn0_def turn1_def mk_turn_def)
  have "get_session sample_store ''s'' = Some [turn0, turn1]"
    by (simp add: get_session_def sample_store_def new_store_def resolve_session_id_def dict_get_def)
  from turn_views_agree_on_deltas [OF this, of 0] show ?thesis by (simp add: ix numeral_2_eq_2)
qed

text \<open>
  C16. Turn serializer: the annotated blocks are the ones of the specification, in order.
\<close>

theorem lifecycle_follows_the_spec:
  "lifecycle t prev =
     map (\<lambda>b. (b, case prev of None \<Rightarrow> ''added'' | Some p \<Rightarrow> status_name (block_status (all_blocks p) b)))
       (uniq_by cb_block_id {} (all_blocks t))
     @ (case prev of None \<Rightarrow> [] | Some p \<Rightarrow> map (\<lambda>b. (b, ''evicted'')) (evicted_blocks p t))"
  by (rule lifecycle_eq)

text \<open>
  C17. Tool correlation: the three matching passes lose no identifier of a call or a result and, where the blocks have different identifiers, repeat none.
\<close>

theorem tool_invocations_exact_cover:
  "set (inv_calls (tool_invocations t)) = cb_block_id ` set (call_blocks t)
    \<and> set (inv_results (tool_invocations t)) = cb_block_id ` set (ct_tool_results t)
    \<and> (distinct (map cb_block_id (call_blocks t)) \<longrightarrow> distinct (inv_calls (tool_invocations t)))
    \<and> (distinct (map cb_block_id (ct_tool_results t)) \<longrightarrow> distinct (inv_results (tool_invocations t)))"
  by (rule tool_invocations_cover)

lemma tool_invocations_exact_cover_witness:
  "set (inv_calls (tool_invocations turn1)) = {''c1''} \<and> distinct (inv_calls (tool_invocations turn1))
    \<and> set (inv_results (tool_invocations turn1)) = {''r1''}"
proof -
  have "call_blocks turn1 = [call1]" "ct_tool_results turn1 = [result1]"
    by (simp_all add: call_blocks_def is_call_block_def sample_defs jget_def dict_get_def)
  with tool_invocations_exact_cover [of turn1] show ?thesis by (simp add: call1_def result1_def blk_def)
qed

text \<open>
  C18. Turn payloads: reading back what \<open>to_dict\<close> wrote gives the turn, nested blocks and violations included.
\<close>

theorem turn_payload_roundtrip:
  "canonical_turn_from_dict (canonical_turn_to_dict t) = Inr t"
  by (rule canonical_turn_roundtrip)

text \<open>
  C19. Analyzer: what the default suite attaches to a turn is well formed, and the blocks of the turn are untouched.
\<close>

theorem analyzed_turn_is_sound:
  assumes run: "analyze_turn (default_heuristics loads) t g p pr = Inr t'"
    and counts: "counts_ok t" "\<forall>q\<in>set (resolve_previous_turns t g p). counts_ok q"
  shows "(\<forall>v\<in>set (ct_violations t'). rv_turn_index v \<noteq> None
        \<and> (\<exists>rid\<in>{''CTX-001'', ''CTX-002'', ''CTX-003'', ''CTX-004'', ''CACHE-001'', ''CTX-006'', ''CTX-007''}.
             violation_ok rid t (resolve_previous_turns t g p) v))
    \<and> ct_wasted_cost_usd t' = calculate_wasted_spend t' (Some (ct_violations t'))
    \<and> 0 \<le> ct_wasted_cost_usd t' \<and> all_blocks t' = all_blocks t"
proof -
  have run': "analyze_turn (map fst (default_suite loads)) t g p pr = Inr t'"
    using run by (simp only: default_suite_fst)
  show ?thesis
    using analyze_turn_sound [OF default_suite_ok run'] analyze_turn_waste [OF default_suite_ok run' counts]
    by (simp only: default_suite_ids)
qed

lemma analyzed_turn_is_sound_witness:
  "\<exists>t'. analyze_turn (default_heuristics (\<lambda>_. None)) turn4 None (Some [turn3]) None = Inr t'
     \<and> map rv_rule_id (ct_violations t') = [''CACHE-001'', ''CTX-007''] \<and> 0 \<le> ct_wasted_cost_usd t'"
proof -
  let ?run = "analyze_turn (default_heuristics (\<lambda>_. None)) turn4 None (Some [turn3]) None"
  have "bust_triggered bust_default turn4 turn3 (compute_delta (Some turn3) turn4)" by code_simp
  then obtain t' where t': "?run = Inr t'"
    and ids: "map rv_rule_id (ct_violations t') = [''CACHE-001'', ''CTX-007'']"
    by (simp add: analyze_turn_def default_heuristics_def run_heuristics_def rcollect_def
        resolve_previous_turns_def stale_tool_def schema_bloat_def error_loop_def error_default_def
        recurring_results_def prefix_break_def zombie_context_def cache_bust_def bust_delta_def
        stale_default_def stamp_violation_def all_blocks_def sample_defs Let_def)
  have "counts_ok turn4" "\<forall>q\<in>set (resolve_previous_turns turn4 None (Some [turn3])). counts_ok q"
    by (simp_all add: resolve_previous_turns_def counts_ok_def all_blocks_def sample_defs)
  then have "0 \<le> ct_wasted_cost_usd t'" using analyzed_turn_is_sound [OF t'] by simp
  with t' ids show ?thesis by (intro exI [of _ t']) simp
qed

text \<open>
  C20. Score: normalised to 0-100, and the two entry points of the scorer agree.
\<close>

theorem pollution_score_in_range:
  "0 \<le> calculate_score turns \<and> calculate_score turns \<le> 100
   \<and> calculate_score turns
       = calculate_score_from_violations (concat (map ct_violations turns)) (int (length turns))"
  using score_bounds [of turns] score_as_from_violations [of turns] by simp

text \<open>
  C21. Egress: a peer never sees a frame start in the middle of another.
\<close>

theorem egress_wire_is_framed:
  "(\<exists>old now. eg_done (egress_run evs (new_egress r)) = old @ now
      \<and> eg_wire (egress_run evs (new_egress r)) = egress_codec.frames now)
   \<and> list_all (\<lambda>w. \<exists>ps part. w = egress_codec.frames ps @ part \<and> partial_frame part)
       (eg_closed (egress_run evs (new_egress r)))"
proof -
  have "wire_ok (\<lambda>_. True) (egress_run evs (new_egress r))" by (rule run_wire_ok) (simp_all add: list_all_iff)
  then obtain pss now where o: "eg_done (egress_run evs (new_egress r)) = concat pss @ now"
    "list_all2 (carried (\<lambda>_. True)) (eg_closed (egress_run evs (new_egress r))) pss"
    "eg_wire (egress_run evs (new_egress r)) = egress_codec.frames now"
    by (rule wire_okE)
  have "list_all (\<lambda>w. \<exists>ps part. w = egress_codec.frames ps @ part \<and> partial_frame part) ws"
    if "list_all2 (carried (\<lambda>_. True)) ws pss" for ws
    using that by (induction rule: list_all2_induct) (auto simp: carried_def intro: cut_partial)
  with o show ?thesis by blast
qed

text \<open>
  C22. Egress: order is kept, nothing is duplicated, and every payload is accounted for.
\<close>

theorem egress_accounts_for_every_payload:
  assumes "new_ring c = Inr r"
  shows "subseq (eg_done (egress_run evs (new_egress r)) @ rb_queue (eg_buffer (egress_run evs (new_egress r))))
      (pushes evs)
    \<and> int (length (pushes evs)) = int (length (eg_done (egress_run evs (new_egress r))))
        + int (length (eg_lost (egress_run evs (new_egress r))))
        + int (length (rb_queue (eg_buffer (egress_run evs (new_egress r)))))
        + rb_dropped (eg_buffer (egress_run evs (new_egress r)))"
  using run_flow_ok [OF assms, of evs] by (simp add: flow_ok_def flow_in_def)

lemma egress_accounts_for_every_payload_witness:
  "subseq (eg_done (egress_run [Push [1], Push [2]] (new_egress \<lparr>rb_capacity = 1, rb_queue = [], rb_dropped = 0\<rparr>))
     @ rb_queue (eg_buffer (egress_run [Push [1], Push [2]] (new_egress \<lparr>rb_capacity = 1, rb_queue = [], rb_dropped = 0\<rparr>))))
     [[1], [2]]"
proof -
  have "new_ring 1 = Inr \<lparr>rb_capacity = 1, rb_queue = [], rb_dropped = 0\<rparr>" by (simp add: new_ring_def)
  from egress_accounts_for_every_payload [OF this, of "[Push [1], Push [2]]"] show ?thesis
    by (simp add: pushes_def)
qed

text \<open>
  C23. Egress progress: one iteration over a working socket puts the frame of the head of the queue on the wire.
\<close>

theorem egress_iteration_delivers:
  assumes "eg_running e" "rb_queue (eg_buffer e) = p # q" "egress_encode_frame p = Inr f"
    and "eg_connected e \<and> alive \<or> accepted" "list_all goes_on script" "length f \<le> sum_list (map accepts script)"
  shows "let e' = egress_iteration alive accepted script mid e; cut = eg_connected e \<and> \<not> alive
    in eg_wire e' = (if cut then [] else eg_wire e) @ f
     \<and> eg_closed e' = eg_closed e @ (if cut then [eg_wire e] else [])
     \<and> eg_done e' = eg_done e @ [p] \<and> eg_lost e' = eg_lost e \<and> eg_running e' \<and> eg_connected e'
     \<and> eg_buffer e' = foldl (\<lambda>r x. snd (push x r)) ((eg_buffer e)\<lparr>rb_queue := q\<rparr>) mid"
proof -
  have s: "send_frame f script = (f, Complete)" using assms(5,6) by (rule send_frame_complete)
  have p: "pop (eg_buffer e') = (Some p, eg_buffer e'\<lparr>rb_queue := q\<rparr>)"
    if "eg_buffer e' = eg_buffer e" for e' using assms(2) that by (simp add: pop_def)
  show ?thesis
    using assms(1,3,4) by (auto simp: egress_iteration_def ship_def p s connect_def disconnect_def push_all_ring)
qed

lemma egress_iteration_delivers_witness:
  "let e' = egress_iteration True True [Sent 2, WouldBlock False, Sent 3] [[8]]
      ((new_egress \<lparr>rb_capacity = 2, rb_queue = [[7]], rb_dropped = 0\<rparr>)\<lparr>eg_running := True\<rparr>)
   in eg_wire e' = [0, 0, 0, 1, 7] \<and> rb_queue (eg_buffer e') = [[8]]"
proof -
  let ?e = "(new_egress \<lparr>rb_capacity = 2, rb_queue = [[7]], rb_dropped = 0\<rparr>)\<lparr>eg_running := True\<rparr>"
  have "egress_encode_frame [7] = Inr (pack_u32 1 @ [7])"
    by (simp add: egress_encode_frame_def MAX_PAYLOAD_SIZE_def Let_def)
  from egress_iteration_delivers [of ?e "[7]" "[]", OF _ _ this, of True True "[Sent 2, WouldBlock False, Sent 3]" "[[8]]"]
  show ?thesis
    by (simp add: new_egress_def Let_def push_def deque_append_def pack_u32_def)
qed

text \<open>
  C24. SSE parser: chunk boundaries are irrelevant.
\<close>

theorem sse_chunking_irrelevant:
  assumes "[] \<notin> set cs" "[] \<notin> set ds" "cs \<noteq> []" "ds \<noteq> []" "concat cs = concat ds"
  shows "sse_run ucd cs p = sse_run ucd ds p"
  by (rule sse_any_chunking [OF assms])

lemma sse_chunking_irrelevant_witness:
  "sse_run (\<lambda>_. NoDigit) [[100, 97, 116, 97, 58, 226], [130, 172, 13], [10, 13], [10]] new_sse =
   sse_run (\<lambda>_. NoDigit) [[100, 97, 116, 97, 58, 226, 130, 172, 13, 10, 13, 10]] new_sse"
  by (rule sse_chunking_irrelevant) simp_all

text \<open>
  C25. SSE parser: events survive encoding and transport.
\<close>

theorem sse_events_roundtrip:
  assumes "list_all one_line data" "pred_option one_line ev" "data \<noteq> [] \<or> ev \<noteq> None"
    and "utf8_encode (render_event ev data) = Some bs" "[] \<notin> set cs" "concat cs = bs"
  shows "sse_run ucd cs new_sse =
    Some ([\<lparr>ev_event = or_message ev, ev_data = join_lines data, ev_id = None, ev_retry = None\<rparr>], new_sse)"
  by (rule event_roundtrip [OF assms])

lemma sse_events_roundtrip_witness:
  "sse_run (\<lambda>_. NoDigit) [[100, 97, 116, 97, 58, 32, 226], [130, 172, 10, 10]] new_sse =
    Some ([\<lparr>ev_event = ascii ''message'', ev_data = [8364], ev_id = None, ev_retry = None\<rparr>], new_sse)"
proof -
  let ?bs = "[100, 97, 116, 97, 58, 32, 226, 130, 172, 10, 10] :: bytes"
  have "utf8_encode (render_event None [[8364]]) = Some ?bs"
    by (simp add: utf8_encode_def render_event_def field_line_def ascii_def encode_char_def scalar_value_def)
  from sse_events_roundtrip [OF _ _ _ this, of "[[100, 97, 116, 97, 58, 32, 226], [130, 172, 10, 10]]" "\<lambda>_. NoDigit"]
  show ?thesis by (simp add: one_line_def or_message_def join_lines_def)
qed

text \<open>
  C26. Accumulators: the reported blocks are strictly ordered, also after errors.
\<close>

theorem reported_blocks_ordered:
  assumes "acc \<in> {Anthropic new_anthropic, OpenAi new_openai, Gemini new_gemini}"
  shows "sorted_wrt (<) (map ab_index (acc_content_blocks (foldl (\<lambda>a c. snd (feed_chunk ucd jc c a)) acc chunks)))"
proof -
  have "acc_wf acc" using assms new_anthropic_wf new_openai_wf new_gemini_wf by auto
  then have "acc_wf (foldl (\<lambda>a c. snd (feed_chunk ucd jc c a)) acc chunks)"
    by (induction chunks arbitrary: acc) (simp_all add: feed_chunk_wf [unfolded op_keeps_def])
  then show ?thesis by (rule content_blocks_ordered)
qed

lemma reported_blocks_ordered_witness:
  "sorted_wrt (<) (map ab_index (acc_content_blocks (foldl (\<lambda>a c. snd (feed_chunk (\<lambda>_. NoDigit)
     \<lparr>jc_loads = (\<lambda>_. None), jc_raw_decode = (\<lambda>_. None), jc_dumps = (\<lambda>_. [])\<rparr> c a)) (OpenAi new_openai) [[100], []])))"
  by (rule reported_blocks_ordered) simp

text \<open>
  C27. Sanitizer: no secret remains, nothing else is lost.
\<close>

theorem sanitize_hides_secrets:
  assumes "clean_path z p"
  shows "redacted z (sanitize z v) \<and> sanitize z (sanitize z v) = sanitize z v
    \<and> json_at (sanitize z v) p = map_option (sanitize z) (json_at v p)"
  using sanitize_redacted redacted_unchanged sanitize_at [OF assms] by blast

lemma sanitize_hides_secrets_witness:
  "json_at (sanitize default_sanitizer (JObj [(''a'', JArr [JObj [(''api_key'', JStr ''x'')]])])) [Key ''a'', Item 0]
    = Some (JObj [(''api_key'', JStr REDACTED)])"
proof -
  have "clean_path default_sanitizer [Key ''a'', Item 0]" by code_simp
  moreover have "sanitize default_sanitizer (JObj [(''api_key'', JStr ''x'')]) = JObj [(''api_key'', JStr REDACTED)]"
    by code_simp
  ultimately show ?thesis
    using sanitize_hides_secrets [of default_sanitizer "[Key ''a'', Item 0]"
        "JObj [(''a'', JArr [JObj [(''api_key'', JStr ''x'')]])]"] by simp
qed

text \<open>
  C28. Provider router: no other host is ever matched.
\<close>

theorem matched_hosts_are_providers:
  assumes "match_provider host path port = Inr (True, prov)"
  shows "\<exists>h. normalize_host host port = Inr h \<and> (recognised h \<or> recognised (takeWhile (\<lambda>c. c \<noteq> CHR '':'') h))"
  by (rule matched_host [OF assms])

lemma matched_hosts_are_providers_witness:
  "\<exists>h. normalize_host ''openrouter.ai'' None = Inr h \<and> (recognised h \<or> recognised (takeWhile (\<lambda>c. c \<noteq> CHR '':'') h))"
proof -
  have "match_provider ''openrouter.ai'' ''/api/v1/chat/completions'' None = Inr (True, OPENROUTER)" by code_simp
  then show ?thesis by (rule matched_hosts_are_providers)
qed

text \<open>
  C29. Tracker: a sweep reaps exactly the expired turns.
\<close>

theorem sweep_reaps_exactly_the_expired:
  assumes "tracker_wf k" "reap_expired wall ttl ct k = (es, k')"
  defines "e \<equiv> is_expired (case ttl of Some x \<Rightarrow> x | None \<Rightarrow> tk_default_ttl k)
      (case ct of Some x \<Rightarrow> x | None \<Rightarrow> wall) k"
  shows "tk_turns k' = filter (\<lambda>x. \<not> e x) (tk_turns k)
    \<and> map we_correlation_id es = map fst (filter e (tk_turns k))
    \<and> list_all (\<lambda>v. we_event_type v = TURN_ERROR \<and> jget (we_payload v) ''status'' = JStr ''TIMEOUT'') es"
  unfolding e_def by (rule reap_exact [OF assms(1,2)])

lemma sweep_reaps_exactly_the_expired_witness:
  "tk_turns (snd (reap_expired 100 (Some 30) None (register_turn 60 flight0 (new_tracker 300 False False)))) = []"
proof -
  let ?k = "register_turn 60 flight0 (new_tracker 300 False False)"
  have "tracker_wf ?k" by (simp add: register_turn_def set_turn_def tracker_wf_def new_tracker_def dict_wf_def)
  from sweep_reaps_exactly_the_expired [OF this, of 100 "Some 30" None "fst (reap_expired 100 (Some 30) None ?k)"
        "snd (reap_expired 100 (Some 30) None ?k)"]
  have "tk_turns (snd (reap_expired 100 (Some 30) None ?k)) = filter (\<lambda>x. \<not> is_expired 30 100 ?k x) (tk_turns ?k)"
    by simp
  also have "tk_turns ?k = [(''c'', flight0)]"
    by (simp add: register_turn_def set_turn_def new_tracker_def flight0_def)
  also have "filter (\<lambda>x. \<not> is_expired 30 100 ?k x) [(''c'', flight0)] = []" by code_simp
  finally show ?thesis .
qed

text \<open>
  C30. Tracker: at most one error envelope per registered turn.
\<close>

theorem one_error_per_registration:
  assumes "tracker_wf k" "list_all op_ok ops" "tracker_run ops k = (es, k')"
  shows "errors_for cid es + in_flight cid k' \<le> in_flight cid k + registrations cid ops"
  by (rule run_balance [OF assms])

lemma one_error_per_registration_witness:
  "errors_for ''c'' (fst (tracker_run [Register 0 flight0, Abort 1 ''c'' ''CLIENT_ABORTED'' None None, Reap 900 None None]
     (new_tracker 300 False False))) \<le> 1"
proof -
  let ?ops = "[Register 0 flight0, Abort 1 ''c'' ''CLIENT_ABORTED'' None None, Reap 900 None None]"
  have "tracker_wf (new_tracker 300 False False)" by (simp add: tracker_wf_def new_tracker_def dict_wf_def)
  moreover have "list_all op_ok ?ops" by simp
  ultimately have "errors_for ''c'' (fst (tracker_run ?ops (new_tracker 300 False False)))
      + in_flight ''c'' (snd (tracker_run ?ops (new_tracker 300 False False)))
    \<le> in_flight ''c'' (new_tracker 300 False False) + registrations ''c'' ?ops"
    by (rule one_error_per_registration) (rule prod.collapse [symmetric])
  moreover have "in_flight ''c'' (new_tracker 300 False False) = 0" by (simp add: in_flight_def new_tracker_def)
  moreover have "registrations ''c'' ?ops = 1" by (simp add: registrations_def flight0_def)
  ultimately show ?thesis by linarith
qed

text \<open>
  C31. Stream tap: the client sees the stream unchanged, the queue what fits of it.
\<close>

theorem tap_is_transparent:
  assumes "[] \<notin> set cs" "0 < n"
  shows "fst (tee_iterable clock None cs t) = cs
    \<and> queued (fst (snd (tee_iterable clock None cs (new_tap cid tm 0)))) = cs @ [[]]
    \<and> queued (snd (process_chunks clock cs (new_tap cid tm n))) = take n cs"
  using tee_out tee_queue [OF assms(1)] queue_prefix [OF _ assms(1), of "new_tap cid tm n"] assms(2)
  by (simp add: new_tap_def queued_def)

lemma tap_is_transparent_witness:
  "queued (snd (process_chunks (\<lambda>_. 0) [[1], [2]] (new_tap ''c'' None 1))) = [[1]]"
  using tap_is_transparent [of "[[1], [2]]" 1 "\<lambda>_. 0" "new_tap ''c'' None 0" "''c''" None] by simp

text \<open>
  C32. Normalizers: blocks are consistent and tool results are where they belong.
\<close>

theorem normalized_blocks_are_sound:
  assumes "normalize_turn n now raw i = Inr t"
  shows "(\<forall>b\<in>set (all_blocks t). block_sound b)
    \<and> filter is_result (all_blocks t) = ct_tool_results t
    \<and> (\<forall>b\<in>set (ct_tool_results t). jget (cb_metadata b) ''tool_use_id'' = JStr (cb_call_id b))"
  by (rule normalize_sound [OF assms])

lemma normalized_blocks_are_sound_witness:
  "\<exists>t. normalize_turn AnthropicNorm 0 (RawDict [(''request'', JObj [(''messages'', JArr [JObj
      [(''role'', JStr ''user''), (''content'', JArr [JObj [(''type'', JStr ''tool_result''),
        (''tool_use_id'', JStr ''c1''), (''content'', JStr ''ok'')]])]])])]) None = Inr t
    \<and> length (ct_tool_results t) = 1 \<and> (\<forall>b\<in>set (all_blocks t). block_sound b)"
  using sample_result_turn normalized_blocks_are_sound [of AnthropicNorm 0] by blast

text \<open>
  C33. Sub-blocks: parts of the text, never counted twice, with distinct identifiers.
\<close>

theorem decomposition_counts_nothing_twice:
  "taken_from text (decompose text ty base meta)
   \<and> sum_tokens (decompose text ty base meta) \<le> int (length (decompose text ty base meta)) + int (length text div 4)
   \<and> distinct (map cb_block_id (decompose text ty base meta))"
  using decompose_taken decompose_tokens by blast

text \<open>
  C34. Transparency: flows of no provider leave no trace in the proxy and are not changed by it.
\<close>

theorem unrouted_flows_are_untouched:
  assumes "\<not> routed env flw" "\<not> fl_intercepted flw"
  shows "snd (requestheaders env (a, flw)) = (a, flw) \<and> snd (request env (a, flw)) = (a, flw)
    \<and> snd (response env (a, flw)) = (a, flw) \<and> snd (error_hook env (a, flw)) = (a, flw)
    \<and> snd (responseheaders env (a, flw))
        = (a, if fl_response flw \<noteq> None then flw\<lparr>fl_stream := PassThrough\<rparr> else flw)"
  using unrouted_untouched [OF assms(1)] not_intercepted_untouched [OF assms(2)] by blast

lemma unrouted_flows_are_untouched_witness:
  "snd (requestheaders env0 (addon0, flow0\<lparr>fl_host := ''example.com''\<rparr>))
    = (addon0, flow0\<lparr>fl_host := ''example.com''\<rparr>)"
proof -
  have "match_provider ''example.com'' ''/v1/messages'' (Some 443) = Inr (False, UNKNOWN)"
    by code_simp
  then have "\<not> routed env0 (flow0\<lparr>fl_host := ''example.com''\<rparr>)"
    by (simp add: routed_def route_flow_def env0_def flow0_def nonempty_def)
  then show ?thesis by (rule unrouted_flows_are_untouched [THEN conjunct1]) (simp add: flow0_def)
qed

text \<open>
  C35. Completion: a response without a stream and with a status below 400 ends its turn with one TURN_COMPLETED envelope; the turn stays registered exactly when the token counts of the usage cannot be added.
\<close>

theorem plain_response_completes_turn:
  assumes "intercepted_turn (a, flw) = Some (cid, turn)" "at_accumulator turn = None"
    and "fl_stream flw = Unset" "ad_chunk_queue a = []"
    and "status = (case fl_response flw of Some r \<Rightarrow> hr_status r | None \<Rightarrow> 200)" "status < 400"
    and "body_read env a flw turn = (payload, usage, why)"
  shows "let a' = after_hook (response env) a flw
    in ad_buffer a' = snd (push (envelope_to_bytes (en_dumps env)
         (completed_envelope env (fl_agent flw) (answered env status turn) status payload [] usage why)) (ad_buffer a))
       \<and> tracker_get (ad_tracker a') cid = (if countable usage then None else Some (answered env status turn))"
  using response_plain [OF assms(1-4) assms(6) [unfolded assms(5)] assms(7)] unfolding assms(5) .

lemma plain_response_completes_turn_witness:
  "let (a, flw) = intercept env0 ''/v1/messages'' ANTHROPIC (addon0, flow0\<lparr>fl_response := None\<rparr>)
   in tracker_get (ad_tracker (after_hook (response env0) a flw)) (flow_correlation_id env0 (flow0\<lparr>fl_response := None\<rparr>)) = None"
proof -
  let ?f = "flow0\<lparr>fl_response := None\<rparr>"
  obtain a flw where i: "intercept env0 ''/v1/messages'' ANTHROPIC (addon0, ?f) = (a, flw)" by fastforce
  obtain turn where t: "intercepted_turn (a, flw) = Some (flow_correlation_id env0 ?f, turn)"
      "at_accumulator turn = None"
    using intercept_found [of env0 "''/v1/messages''" ANTHROPIC addon0 ?f] i by metis
  have c: "fl_response flw = None" "fl_stream flw = Unset" "ad_chunk_queue a = []"
    using intercept_keeps [of env0 "''/v1/messages''" ANTHROPIC addon0 ?f] i
    by (simp_all add: flow0_def addon0_def new_addon_def)
  have b: "body_read env0 a flw turn = (JNull, zero_usage, JNull)"
    by (simp add: body_read_def c)
  have s: "200 = (case fl_response flw of Some r \<Rightarrow> hr_status r | None \<Rightarrow> 200)" by (simp add: c)
  have "countable zero_usage" by code_simp
  then show ?thesis
    using plain_response_completes_turn [OF t c(2,3) s _ b] unfolding i by (simp add: Let_def)
qed

text \<open>
  C36. Lost release: with the default sanitiser the Gemini token counts are redacted; with only one count present the sum raises and the completed turn is never removed from the tracker by the hook.
\<close>

theorem gemini_counts_leave_turn_behind:
  assumes "intercepted_turn (a, flw) = Some (cid, turn)" "at_accumulator turn = None"
    and "at_provider turn = GEMINI" "fl_stream flw = Unset" "ad_chunk_queue a = []"
    and "ad_sanitizer a = default_sanitizer" "fl_response flw = Some r" "hr_status r < 400" "hr_content r \<noteq> []"
    and "en_loads env (hr_content r) = Some (JObj d)"
  shows "tracker_get (ad_tracker (after_hook (response env) a flw)) cid = None
    \<longleftrightarrow> (has_count d ''promptTokenCount'' \<longleftrightarrow> has_count d ''candidatesTokenCount'')"
proof -
  obtain payload usage why where b: "body_read env a flw turn = (payload, usage, why)" by (metis prod_cases3)
  then have u: "usage = extract_usage GEMINI (clean default_sanitizer d)"
    using gemini_body_usage [of default_sanitizer d "hr_text r"] assms by (simp add: body_read_def)
  have s: "(case fl_response flw of Some r \<Rightarrow> hr_status r | None \<Rightarrow> 200) < 400" using assms by simp
  show ?thesis
    using response_plain [OF assms(1,2,4,5) s b] gemini_countable [of d] by (simp add: Let_def u)
qed

lemma gemini_counts_leave_turn_behind_witness:
  "let (a, flw) = intercept env0 ''/v1/messages'' GEMINI (addon0, flow0)
   in tracker_get (ad_tracker (after_hook (response env0) a flw)) (flow_correlation_id env0 flow0) \<noteq> None"
proof -
  obtain a flw where i: "intercept env0 ''/v1/messages'' GEMINI (addon0, flow0) = (a, flw)" by fastforce
  obtain turn where t: "intercepted_turn (a, flw) = Some (flow_correlation_id env0 flow0, turn)"
      "at_accumulator turn = None" "at_provider turn = GEMINI"
    using intercept_found [of env0 "''/v1/messages''" GEMINI addon0 flow0] i by metis
  have c: "fl_response flw = Some \<lparr>hr_status = 200, hr_headers = [], hr_content = [0], hr_text = []\<rparr>"
      "fl_stream flw = Unset" "ad_chunk_queue a = []" "ad_sanitizer a = default_sanitizer"
    using intercept_keeps [of env0 "''/v1/messages''" GEMINI addon0 flow0] i
    by (simp_all add: flow0_def addon0_def new_addon_def)
  let ?d = "[(''usageMetadata'', JObj [(''promptTokenCount'', JInt 7)])]"
  have l: "en_loads env0 c = Some (JObj ?d)" for c by (simp add: env0_def)
  have "has_count ?d ''promptTokenCount''" "\<not> has_count ?d ''candidatesTokenCount''" by code_simp+
  then show ?thesis
    using gemini_counts_leave_turn_behind [OF t c(2-4,1), of env0 ?d] l unfolding i by simp
qed

text \<open>
  C37. Session switches: for requests with an explicit identifier the tables of the addon implement a reading of these requests alone.
\<close>

theorem same_conversation_same_session:
  fixes rs :: "(flow \<times> jdict \<times> active_turn) list"
  assumes "a = new_addon buffer client dflt" "ids = ids_under (ad_default_session_id a) k rs (resolve_all env rs a)"
    and "mss = messages_under (ad_default_session_id a) k rs" "i \<le> j" "j < length mss"
  shows "ids ! i = ids ! j \<longleftrightarrow> (\<forall>m. i < m \<and> m \<le> j \<longrightarrow> \<not> starts_conversation (take m mss) (mss ! m))"
proof -
  have "ad_sids a = no_conversations" by (simp add: assms(1) new_addon_def)
  then have "ids = conv_run k k mss no_conversations"
    using resolved_ids [of k "[]" 0 a no_conversations "ad_default_session_id a" rs env] conv_inv_start [of k k] assms(2,3)
    by simp
  with same_id_iff [OF assms(4,5), of k k] show ?thesis by simp
qed

lemma same_conversation_same_session_witness:
  "\<exists>rs. let a = new_addon \<lparr>rb_capacity = 2, rb_queue = [], rb_dropped = 0\<rparr> None None;
      ids = ids_under (ad_default_session_id a) ''k'' rs (resolve_all env0 rs a)
    in ids ! 0 \<noteq> ids ! 1"
proof -
  define a where "a = new_addon \<lparr>rb_capacity = 2, rb_queue = [], rb_dropped = 0\<rparr> None None"
  obtain t :: active_turn where "t = t" by blast
  define rq where "rq n = (flow0, [(''session_id'', JStr ''k''), (''messages'', JArr (replicate n (JObj [])))],
    t)" for n
  have k: "under_id (ad_default_session_id a) ''k'' (rq n)" for n
    unfolding a_def rq_def by (simp add: under_id_def explicit_id_def new_addon_def nonempty_def flow0_def) (code_simp)?
  have m: "conv_messages (fst (snd (rq n))) = replicate n []" for n
    by (simp add: rq_def conv_messages_def either_messages_def objects_under_def List.map_filter_def filter_True)
  have mss: "messages_under (ad_default_session_id a) ''k'' [rq 2, rq 1] = [[[], []], [[]]]"
    using k m [of 2] m [of 1] by (simp add: messages_under_def split_beta numeral_2_eq_2)
  have "starts_conversation [[[], []]] [[]]" by (simp add: starts_conversation_def)
  then have "\<not> (\<forall>m. 0 < m \<and> m \<le> 1 \<longrightarrow> \<not> starts_conversation (take m [[[], []], [[]]]) ([[[], []], [[]]] ! m))"
    by (intro notI) (drule spec [of _ 1], simp)
  with same_conversation_same_session [OF a_def refl mss [symmetric], of 0 1 env0]
  show ?thesis unfolding a_def Let_def by (intro exI [of _ "[rq 2, rq 1]"]) simp
qed

text \<open>
  C38. Agent identities: the fields of an identity agree with each other, on every path through the detector and its cache.
\<close>

theorem identities_are_coherent:
  "identity_ok (fst (identify_client os now ip port headers d))"
  by (rule identify_client_ok)

text \<open>
  C39. Termination: the comment scanner returns on every input, unterminated strings and comments included.
\<close>

theorem comment_stripping_terminates:
  "\<exists>out. strip_comments s = Some out \<and> out = strip_from False False s \<and> length out \<le> length s"
  by (simp add: strip_comments_from strip_from_length)

text \<open>
  C40. Round trip: serialising a value, putting it between comments and stripping them gives the serialised value back, also when its strings contain comment markers, quotes and backslashes.
\<close>

theorem json_survives_comments:
  assumes "CHR ''*'' \<notin> set c" "CHR 0x0A \<notin> set d"
  shows "strip_comments (''/*'' @ c @ ''*/'' @ json_indent n v @ ''//'' @ d @ [CHR 0x0A]) = Some (json_indent n v @ [CHR 0x0A])"
proof -
  have "strip_from False False (''/*'' @ c @ ''*/'' @ json_indent n v @ ''//'' @ d @ [CHR 0x0A])
      = strip_from False False (json_indent n v @ ''//'' @ d @ [CHR 0x0A])"
    using block_comment_vanishes [OF neutral_Nil assms(1)] by simp
  also have "\<dots> = json_indent n v @ strip_from False False [CHR 0x0A]"
    using line_comment_vanishes [OF neutral_indent assms(2)] by simp
  finally show ?thesis by (simp add: strip_comments_from dquote_def)
qed

lemma json_survives_comments_witness:
  "strip_comments (''/*'' @ ''head'' @ ''*/'' @ json_indent 0 (JStr ''//'') @ ''//'' @ ''tail'' @ [CHR 0x0A])
    = Some (json_indent 0 (JStr ''//'') @ [CHR 0x0A])"
  by (rule json_survives_comments) simp_all

section \<open>Further theorems\<close>

text \<open>
  Cache breakpoint: it cuts the prompt right after its longest prefix of persisted blocks.
\<close>

theorem cache_breakpoint_splits_prompt:
  "case td_cache_breakpoint_block_id (compute_delta (Some p) c) of
     None \<Rightarrow> cb_block_id ` set (all_blocks c) \<subseteq> set (td_persisted_block_ids (compute_delta (Some p) c))
   | Some i \<Rightarrow> \<exists>us b vs. all_blocks c = us @ b # vs \<and> cb_block_id b = i
       \<and> cb_block_id ` set us \<subseteq> set (td_persisted_block_ids (compute_delta (Some p) c))
       \<and> i \<notin> set (td_persisted_block_ids (compute_delta (Some p) c))"
proof (cases "find (\<lambda>b. cb_block_id b \<notin> set (td_persisted_block_ids (compute_delta (Some p) c)))
    (all_blocks c)")
  case None
  from this [unfolded find_eq_None]
  have "cb_block_id ` set (all_blocks c) \<subseteq> set (td_persisted_block_ids (compute_delta (Some p) c))"
    by auto
  then show ?thesis by (simp only: delta_breakpoint None option.map option.case)
next
  case (Some b)
  from this [unfolded find_split] show ?thesis by (auto simp: delta_breakpoint Some)
qed

text \<open>
  Self comparison: a turn whose keys are consistent has an empty delta with itself.
\<close>

theorem self_delta_is_empty:
  assumes "consistent_keys (all_blocks t)"
  shows "td_added_block_ids (compute_delta (Some t) t) = []
    \<and> td_mutated_block_ids (compute_delta (Some t) t) = []
    \<and> td_removed_block_ids (compute_delta (Some t) t) = []
    \<and> td_cache_breakpoint_block_id (compute_delta (Some t) t) = None
    \<and> td_token_growth (compute_delta (Some t) t) = 0"
  using delta_self [OF assms] by blast

lemma self_delta_is_empty_witness:
  "td_added_block_ids (compute_delta (Some turn1) turn1) = []
    \<and> td_mutated_block_ids (compute_delta (Some turn1) turn1) = []
    \<and> td_removed_block_ids (compute_delta (Some turn1) turn1) = []
    \<and> td_cache_breakpoint_block_id (compute_delta (Some turn1) turn1) = None
    \<and> td_token_growth (compute_delta (Some turn1) turn1) = 0"
proof (rule self_delta_is_empty)
  show "consistent_keys (all_blocks turn1)"
    by (simp add: consistent_keys_def all_blocks_def sample_defs block_match_key_def)
qed

text \<open>
  Token growth: over a session whose turns all report input tokens, the recorded growths telescope.
\<close>

theorem token_growth_telescopes:
  assumes "\<forall>t\<in>set ts. 0 < ct_input_tokens t"
  shows "sum_list (map td_token_growth (g_deltas (add_turns (new_graph sid) ts)))
    = (if ts = [] then 0 else ct_input_tokens (last ts))"
  by (rule graph_growth [OF assms])

lemma token_growth_telescopes_witness:
  "sum_list (map td_token_growth (g_deltas (add_turns (new_graph None) [turn0, turn1])))
    = (if [turn0, turn1] = [] then 0 else ct_input_tokens (last [turn0, turn1]))"
  by (rule token_growth_telescopes) (simp add: sample_defs)

text \<open>
  Session identifiers: whatever a backend sends, the normalised identifier is canonical, and normalising it again changes nothing.
\<close>

theorem session_ids_are_canonical:
  "canonical_session_id (normalize_session_id v h)
   \<and> normalize_session_id (JStr (normalize_session_id v h)) h' = normalize_session_id v h"
  using canonical_normalize normalize_canonical by blast

text \<open>
  Score: more violations, never a lower score, rounding included.
\<close>

theorem pollution_score_monotone:
  "calculate_score (us @ t # ws)
     \<le> calculate_score (us @ (t\<lparr>ct_violations := ct_violations t @ vs\<rparr>) # ws)"
  by (rule score_mono)

text \<open>
  CTX-004: no recurring result is counted twice.
\<close>

theorem recurring_tokens_counted_once:
  assumes "distinct (map cb_block_id results)"
  shows "distinct (rs_ids (recurring_scan cfg prev results))
    \<and> set (rs_ids (recurring_scan cfg prev results)) \<subseteq> cb_block_id ` set results
    \<and> rs_tokens (recurring_scan cfg prev results)
        = sum_tokens (filter (\<lambda>b. cb_block_id b \<in> set (rs_ids (recurring_scan cfg prev results))) results)"
  using recurring_scan_inv [OF assms, of cfg prev] by (simp add: recurring_inv_def)

lemma recurring_tokens_counted_once_witness:
  "rs_tokens (recurring_scan recurring_default [turn1] [result1])
     = sum_tokens (filter (\<lambda>b. cb_block_id b \<in> set (rs_ids (recurring_scan recurring_default [turn1] [result1]))) [result1])
   \<and> rs_ids (recurring_scan recurring_default [turn1] [result1]) = [''r1'']"
proof -
  have "rs_ids (recurring_scan recurring_default [turn1] [result1]) = [''r1'']" by code_simp
  with recurring_tokens_counted_once [of "[result1]" recurring_default "[turn1]"] show ?thesis
    by simp
qed

text \<open>
  CACHE-001: it fires if and only if the sequence of system hashes changed.
\<close>

theorem prefix_break_iff_system_changed:
  "(prefix_break t g (Some []) = Inr [])
   \<and> (\<exists>vs. prefix_break t g (Some (ps @ [q])) = Inr vs
        \<and> (vs \<noteq> [] \<longleftrightarrow> map cb_content_hash (ct_system_blocks q) \<noteq> map cb_content_hash (ct_system_blocks t)))"
  by (auto simp: prefix_break_def resolve_previous_turns_def Let_def)

text \<open>
  Cost model: rounding at every step included, the price of a turn is monotone in each of its counters.
\<close>

theorem turn_cost_nonnegative_and_monotone:
  assumes "0 \<le> ct_cached_read_tokens t" "0 \<le> ct_cached_created_tokens t" "0 \<le> ct_output_tokens t"
    and "max 0 (ct_input_tokens t - ct_cached_read_tokens t)
           \<le> max 0 (ct_input_tokens u - ct_cached_read_tokens u)"
    and "ct_cached_read_tokens t \<le> ct_cached_read_tokens u"
    and "ct_cached_created_tokens t \<le> ct_cached_created_tokens u"
    and "ct_output_tokens t \<le> ct_output_tokens u"
  shows "0 \<le> calculate_turn_cost t (Some (get_pricing m p))
    \<and> calculate_turn_cost t (Some (get_pricing m p)) \<le> calculate_turn_cost u (Some (get_pricing m p))"
  using turn_cost_nonneg [OF get_pricing_ok assms(1-3)] turn_cost_mono [OF get_pricing_ok assms(4-7)]
  by simp

lemma turn_cost_nonnegative_and_monotone_witness:
  "0 \<le> calculate_turn_cost turn0 (Some (get_pricing None None))
    \<and> calculate_turn_cost turn0 (Some (get_pricing None None))
        \<le> calculate_turn_cost turn1 (Some (get_pricing None None))"
  by (rule turn_cost_nonnegative_and_monotone) (simp_all add: sample_defs)

text \<open>
  Pricing: dotted catalog keys are unreachable by model name; \<open>gemini-1.5-flash\<close> is priced as \<open>gemini-1.5-pro\<close>.
\<close>

theorem dotted_models_priced_by_fallback:
  "(CHR ''.'' \<in> set (mp_model_name (get_pricing (Some name) prov)) \<longrightarrow>
      get_pricing (Some name) prov = provider_fallback prov)
   \<and> mp_model_name (get_pricing (Some ''gemini-1.5-flash'') (Some ''gemini'')) = ''gemini-1.5-pro''"
proof
  have "list_all (\<lambda>k. \<not> str_in k (normalize_model ''gemini-1.5-flash'')) catalog_names"
    unfolding catalog_names_def catalog_fst by code_simp
  then have fb: "get_pricing (Some ''gemini-1.5-flash'') (Some ''gemini'') = provider_fallback (Some ''gemini'')"
    by (intro get_pricing_no_match) simp_all
  have "str_lower (str_strip ''gemini'') = ''gemini''" by code_simp
  then have pro: "provider_fallback (Some ''gemini'') = catalog ''gemini-1.5-pro''"
    by (simp add: provider_fallback_def starts_with_def)
  have "mp_model_name (catalog ''gemini-1.5-pro'') = ''gemini-1.5-pro''"
    by (rule catalog_model_name) (simp add: catalog_names_def catalog_fst)
  then show "mp_model_name (get_pricing (Some ''gemini-1.5-flash'') (Some ''gemini'')) = ''gemini-1.5-pro''"
    by (simp only: fb pro)
qed (use dotted_only_by_fallback in blast)

lemma dotted_models_priced_by_fallback_witness:
  "get_pricing (Some ''gemini-1.5-flash'') (Some ''gemini'') = provider_fallback (Some ''gemini'')"
proof -
  have "CHR ''.'' \<in> set (mp_model_name (get_pricing (Some ''gemini-1.5-flash'') (Some ''gemini'')))"
    by (simp add: dotted_models_priced_by_fallback [THEN conjunct2])
  with dotted_models_priced_by_fallback [of "''gemini-1.5-flash''" "Some ''gemini''"] show ?thesis
    by blast
qed

text \<open>
  Decoder: chunk boundaries are invisible, partial headers and payloads included.
\<close>

theorem decoder_chunking_irrelevant:
  assumes "cs \<noteq> []" "ds \<noteq> []" "concat cs = concat ds"
  shows "run_chunks (feed_step mx) buf cs = run_chunks (feed_step mx) buf ds"
  using assms by (rule decoder.chunking_irrelevant)

lemma decoder_chunking_irrelevant_witness:
  "run_chunks (feed_step 10) [] [[0, 0, 0], [1, 9]] = run_chunks (feed_step 10) [] [[0, 0, 0, 1, 9]]"
  by (rule decoder_chunking_irrelevant) simp_all

text \<open>
  Decoder errors: an oversize header discards the frames already cut from the same read.
\<close>

theorem oversize_header_loses_frames:
  assumes "frame_fits mx p" "mx < n" "n \<le> 0xFFFFFFFF"
  shows "feed mx [] (pack_u32 (int (length p)) @ p @ pack_u32 n) = (Inl FrameDecodeError, pack_u32 n)
    \<and> feed mx [] (pack_u32 (int (length p)) @ p) = (Inr [p], [])"
proof -
  have "0 \<le> n" using assms(1,2) by (simp add: frame_fits_def)
  then have "unpack_u32 (pack_u32 n) = n" using unpack_pack [of n "[]"] assms(3) by simp
  then have over: "extract_frames mx (pack_u32 n) = ([], pack_u32 n, True)"
    using assms(2) by (subst extract_frames.simps) simp
  have one: "extract_frames mx (pack_u32 (int (length p)) @ p) = ([p], [], False)"
    using assms(1) by (intro extract_frame) (simp_all add: frame_fits_def)
  show ?thesis
    using extract_append [of mx "pack_u32 (int (length p)) @ p" "pack_u32 n"] over one
    by (simp add: feed_def)
qed

lemma oversize_header_loses_frames_witness:
  "feed 4 [] (pack_u32 1 @ [7] @ pack_u32 5) = (Inl FrameDecodeError, pack_u32 5)
    \<and> feed 4 [] (pack_u32 1 @ [7]) = (Inr [[7]], [])"
  using oversize_header_loses_frames [of 4 "[7]" 5] by (simp add: frame_fits_def)

text \<open>
  Ring buffer: it keeps the newest items and counts the rest.
\<close>

theorem ring_keeps_the_newest:
  assumes "new_ring c = Inr r"
  shows "rb_queue (foldl (\<lambda>r x. snd (push x r)) r xs) = drop (length xs - nat c) xs
    \<and> rb_dropped (foldl (\<lambda>r x. snd (push x r)) r xs) = int (length xs - nat c)"
proof -
  have r: "r = \<lparr>rb_capacity = nat c, rb_queue = [], rb_dropped = 0\<rparr>"
    using assms by (simp add: new_ring_def split: if_splits)
  have "ring_wf r" using new_ring_wf [OF assms] by simp
  from ring.enqs_newest [OF this, of xs] show ?thesis by (simp add: ring.enqs_def r)
qed

lemma ring_keeps_the_newest_witness:
  "rb_queue (foldl (\<lambda>r x. snd (push x r)) \<lparr>rb_capacity = 2, rb_queue = [], rb_dropped = 0\<rparr> ''abc'') = ''bc''"
proof -
  have "new_ring 2 = Inr \<lparr>rb_capacity = 2, rb_queue = [], rb_dropped = 0\<rparr>" by (simp add: new_ring_def)
  from ring_keeps_the_newest [OF this, of "''abc''"] show ?thesis by simp
qed

text \<open>
  Store: least-recently-active eviction.
\<close>

theorem store_activity_order:
  assumes "store_ok s" "append_turn t p s = Inr (s', d)"
  shows "list_sessions s' =
    (if ct_session_id t \<in> set (list_sessions s) then removeAll (ct_session_id t) (list_sessions s)
     else if int (length (list_sessions s)) = ss_max_sessions s then tl (list_sessions s)
     else list_sessions s) @ [ct_session_id t]"
  by (rule append_order [OF assms])

lemma store_activity_order_witness:
  "\<exists>s' d. append_turn turn0 None (new_store 1 ''step'') = Inr (s', d) \<and> list_sessions s' = [''s'']"
proof -
  have ok: "store_ok (new_store 1 ''step'')" by (simp add: new_store_ok)
  then obtain s' d where r: "append_turn turn0 None (new_store 1 ''step'') = Inr (s', d)"
    using append_turn_ok by blast
  from store_activity_order [OF ok r] have "list_sessions s' = [''s'']"
    by (simp add: list_sessions_def dict_keys_def new_store_def sample_defs)
  with r show ?thesis by blast
qed

text \<open>
  Anthropic accumulator: fragmented tool calls are stitched together.
\<close>

theorem tool_calls_are_stitched:
  "op_seq (handle_content_block_start (tool_start i cid name))
     (op_seq (op_each (\<lambda>f. handle_content_block_delta (json_delta i f)) fs)
       (handle_content_block_stop loads (block_stop i))) a =
   (Inr (), a\<lparr>aa_blocks := AList.update i
      \<lparr>ab_index = i, ab_type = TOOL_USE, ab_text = JNull, ab_tool_id = cid, ab_tool_name = name,
       ab_partial_json = JStr (concat fs), ab_parsed_input = tool_input loads (concat fs)\<rparr> (aa_blocks a)\<rparr>)"
  by (rule stitched)

text \<open>
  Anthropic accumulator: events without a name are lost.
\<close>

theorem unnamed_events_are_lost:
  assumes "list_all one_line data" "data \<noteq> []" "utf8_encode (render_event None data) = Some bs"
    and "ac_parser a = new_sse"
  shows "anthropic_feed ucd loads bs a = (Inr (), a)"
  by (rule unnamed_stream [OF assms])

lemma unnamed_events_are_lost_witness:
  "anthropic_feed (\<lambda>_. NoDigit) (\<lambda>_. Some (JObj [(''type'', JStr ''message_stop'')]))
     [100, 97, 116, 97, 58, 32, 123, 125, 10, 10] new_anthropic = (Inr (), new_anthropic)"
proof -
  have "utf8_encode (render_event None [[123, 125]]) = Some [100, 97, 116, 97, 58, 32, 123, 125, 10, 10]"
    by (simp add: utf8_encode_def render_event_def field_line_def ascii_def encode_char_def scalar_value_def)
  then show ?thesis
    by (rule unnamed_events_are_lost [rotated 2]) (simp_all add: one_line_def new_anthropic_def)
qed

text \<open>
  OpenAI accumulator: interleaved fragments go to their calls.
\<close>

theorem fragments_reach_their_calls:
  assumes "openai_wf a" "\<forall>p\<in>set fs. tool_args a (fst p) \<noteq> None"
  shows "\<exists>a'. op_each (\<lambda>p. openai_tool_call (fragment (fst p) (snd p))) fs a = (Inr (), a') \<and> openai_wf a'
    \<and> (\<forall>k. tool_args a' k =
        map_option (\<lambda>s. s @ concat (map snd (filter (\<lambda>p. fst p = k) fs))) (tool_args a k))"
  by (rule fragments_by_index [OF assms])

lemma fragments_reach_their_calls_witness:
  "\<exists>a'. op_each (\<lambda>p. openai_tool_call (fragment (fst p) (snd p))) [(1, ''a''), (0, ''b''), (1, ''c'')]
      (snd (op_seq (add_tool 0 JNull JNull (JStr [])) (add_tool 1 JNull JNull (JStr [])) new_openai)) = (Inr (), a')
    \<and> tool_args a' 1 = Some ''ac''"
proof -
  let ?a = "snd (op_seq (add_tool 0 JNull JNull (JStr [])) (add_tool 1 JNull JNull (JStr [])) new_openai)"
  have args: "tool_args ?a 0 = Some []" "tool_args ?a 1 = Some []"
    by (simp_all add: op_defs add_tool_def new_openai_def tool_args_def new_block_def)
  have "openai_wf ?a"
    by (simp add: op_defs add_tool_def new_openai_def new_block_def openai_wf_def openai_refs_def dict_values_def dict_wf_def lessThan_Suc insert_commute)
  from fragments_reach_their_calls [OF this, of "[(1, ''a''), (0, ''b''), (1, ''c'')]"] args
  show ?thesis by auto
qed

text \<open>
  Directives: the identifiers the report looks for have no hyphen, the identifiers of the rules do, so that the recommended directives never appear.
\<close>

theorem suite_gets_no_directive:
  assumes "\<forall>v\<in>set vs. rv_rule_id v \<in> set suite_rule_ids"
  shows "directives vs = [fallback_directive]"
  by (rule suite_has_no_directive [OF assms])

lemma suite_gets_no_directive_witness:
  "directives [\<lparr>rv_rule_id = ''CTX-001'', rv_severity = WARN, rv_title = [], rv_message = [],
     rv_estimated_waste_usd = 0, rv_suggested_fix = [], rv_block_ids = [], rv_turn_index = None\<rparr>]
   = [fallback_directive]"
  by (rule suite_gets_no_directive) (simp add: suite_rule_ids_def)

text \<open>
  Grouping: every violation is in exactly one group of the audit report, and the groups are sorted by severity and waste.
\<close>

theorem violations_are_grouped_once:
  "set (ranked_groups vs) = (\<lambda>k. filter (\<lambda>v. group_key v = k) vs) ` group_key ` set vs
   \<and> mset (concat (ranked_groups vs)) = mset vs \<and> sorted (map group_rank (ranked_groups vs))"
  by (intro conjI ranked_groups_exact ranked_groups_mset ranked_groups_sorted)

text \<open>
  Version matrix: the newest releases are tested.
\<close>

theorem matrix_selects_the_newest:
  assumes "filter (tc_version_filter cfg) vs \<noteq> []" "tc_installer_type cfg \<noteq> ''opencode_v2_curl''"
    "tc_package cfg \<noteq> ''agy''" "0 < depth"
  shows "\<exists>older. mset older + mset (selected_versions cfg depth vs) = mset (filter (tc_version_filter cfg) vs)
    \<and> sorted (map parse_semver (older @ rev (selected_versions cfg depth vs)))
    \<and> length (selected_versions cfg depth vs) = min (nat depth) (length (filter (tc_version_filter cfg) vs))"
  using selected_split [OF assms] by blast

lemma matrix_selects_the_newest_witness:
  "\<exists>older. mset older + mset (selected_versions (the (map_of TOOL_CONFIGS ''pi'')) 2 [''1.10.0'', ''1.9.0'', ''2.0.0-rc1'', ''0.1''])
        = mset (filter release_only [''1.10.0'', ''1.9.0'', ''2.0.0-rc1'', ''0.1''])
    \<and> sorted (map parse_semver (older @ rev (selected_versions (the (map_of TOOL_CONFIGS ''pi'')) 2 [''1.10.0'', ''1.9.0'', ''2.0.0-rc1'', ''0.1''])))
    \<and> length (selected_versions (the (map_of TOOL_CONFIGS ''pi'')) 2 [''1.10.0'', ''1.9.0'', ''2.0.0-rc1'', ''0.1''])
        = min (nat 2) (length (filter release_only [''1.10.0'', ''1.9.0'', ''2.0.0-rc1'', ''0.1'']))"
proof -
  have f: "tc_version_filter (the (map_of TOOL_CONFIGS ''pi'')) = release_only" by (simp add: TOOL_CONFIGS_def)
  have "release_only ''0.1''" by code_simp
  then show ?thesis
    using matrix_selects_the_newest [of "the (map_of TOOL_CONFIGS ''pi'')" "[''1.10.0'', ''1.9.0'', ''2.0.0-rc1'', ''0.1'']" 2]
    unfolding f by (simp add: TOOL_CONFIGS_def)
qed

text \<open>
  Ledger: the selected block is always visible.
\<close>

theorem ledger_window_holds_selection:
  assumes "0 < n"
  shows "case ledger_window n (clamp_selected n sel) of (a, b) \<Rightarrow>
    0 \<le> a \<and> b \<le> n \<and> b - a = min n 10 \<and> a \<le> clamp_selected n sel \<and> clamp_selected n sel < b"
  using window_shows_selected [OF assms] by (auto split: prod.split)

lemma ledger_window_holds_selection_witness:
  "case ledger_window 12 (clamp_selected 12 30) of (a, b) \<Rightarrow>
    0 \<le> a \<and> b \<le> 12 \<and> b - a = min 12 10 \<and> a \<le> clamp_selected 12 30 \<and> clamp_selected 12 30 < b"
  by (rule ledger_window_holds_selection) simp

end
